(* ===== verification/Prelude.thy ===== *)
theory Prelude imports Main "HOL-Library.Sublist" begin

text \<open>
  The shared prelude of the development: the collections of automation facts, the part of
  Python's string library that the sources use (on byte strings, that is, \<open>char list\<close>),
  Python's stable sort and its \<open>max\<close>, and generic lemmas on lists and options.

  Strings are sequences of bytes: a literal of the source that is not ASCII (an em dash, an
  arrow) is its UTF-8 encoding. \<open>lower\<close> and \<open>strip\<close> act on the ASCII letters and the
  ASCII white space, which is what the identifiers, addresses and log lines that the
  program reads consist of.
\<close>

named_theorems py_defs "definitions of the Python library model that proofs unfold"
named_theorems act_simps "rewrite rules for the effect monad and its steps"
named_theorems frame_simps "which part of the state an operation leaves alone"

section \<open>Characters\<close>

definition is_digit :: "char \<Rightarrow> bool" where
  "is_digit c = (of_char c \<ge> (48::nat) \<and> of_char c \<le> (57::nat))"

definition is_upper :: "char \<Rightarrow> bool" where
  "is_upper c = (of_char c \<ge> (65::nat) \<and> of_char c \<le> (90::nat))"

definition is_lower :: "char \<Rightarrow> bool" where
  "is_lower c = (of_char c \<ge> (97::nat) \<and> of_char c \<le> (122::nat))"

definition is_alpha :: "char \<Rightarrow> bool" where
  "is_alpha c = (is_upper c \<or> is_lower c)"

text \<open>White space as \<open>str.strip\<close>, \<open>str.split\<close> and \<open>\s\<close> understand it.\<close>

definition is_space :: "char \<Rightarrow> bool" where
  "is_space c = (let n = (of_char c :: nat) in (9 \<le> n \<and> n \<le> 13) \<or> (28 \<le> n \<and> n \<le> 32))"

definition lower_char :: "char \<Rightarrow> char" where
  "lower_char c = (if is_upper c then char_of (of_char c + (32::nat)) else c)"

definition digit_val :: "char \<Rightarrow> nat" where
  "digit_val c = of_char c - 48"

definition digit_char :: "nat \<Rightarrow> char" where
  "digit_char d = char_of (48 + d)"

lemma digit_char_inverse [simp]: "d < 10 \<Longrightarrow> digit_val (digit_char d) = d"
  by (simp add: digit_val_def digit_char_def)

lemma is_digit_digit_char [simp]: "d < 10 \<Longrightarrow> is_digit (digit_char d)"
  by (simp add: is_digit_def digit_char_def)

section \<open>Strings\<close>

lemmas lower_eval = lower_char_def is_upper_def

definition py_lower :: "string \<Rightarrow> string" where
  "py_lower s = map lower_char s"

definition py_lstrip :: "string \<Rightarrow> string" where
  "py_lstrip s = dropWhile is_space s"

definition py_rstrip :: "string \<Rightarrow> string" where
  "py_rstrip s = rev (dropWhile is_space (rev s))"

definition py_strip :: "string \<Rightarrow> string" where
  "py_strip s = py_rstrip (py_lstrip s)"

text \<open>\<open>s.strip(chars)\<close> and \<open>s.rstrip(chars)\<close> for a set of characters.\<close>

definition py_strip_chars :: "char list \<Rightarrow> string \<Rightarrow> string" where
  "py_strip_chars cs s =
     rev (dropWhile (\<lambda>c. c \<in> set cs) (rev (dropWhile (\<lambda>c. c \<in> set cs) s)))"

definition starts_with :: "string \<Rightarrow> string \<Rightarrow> bool" where
  "starts_with p s = (take (length p) s = p)"

definition ends_with :: "string \<Rightarrow> string \<Rightarrow> bool" where
  "ends_with p s = starts_with (rev p) (rev s)"

text \<open>\<open>sub in s\<close>\<close>

fun py_in :: "string \<Rightarrow> string \<Rightarrow> bool" where
  "py_in sub [] = (sub = [])"
| "py_in sub (c # s) = (starts_with sub (c # s) \<or> py_in sub s)"

text \<open>\<open>s.split(c)\<close> for a one-character separator: always at least one part.\<close>

fun split_on :: "char \<Rightarrow> string \<Rightarrow> string list" where
  "split_on c [] = [[]]"
| "split_on c (x # xs) =
     (if x = c then [] # split_on c xs
      else (case split_on c xs of [] \<Rightarrow> [[x]] | p # ps \<Rightarrow> (x # p) # ps))"

text \<open>\<open>s.partition(c)\<close>: the part before the first \<open>c\<close>, whether there is one, the rest.\<close>

fun py_partition :: "char \<Rightarrow> string \<Rightarrow> string \<times> bool \<times> string" where
  "py_partition c [] = ([], False, [])"
| "py_partition c (x # xs) =
     (if x = c then ([], True, xs)
      else (case py_partition c xs of (a, f, b) \<Rightarrow> (x # a, f, b)))"

text \<open>\<open>s.split()\<close>: runs of white space separate, no empty parts.\<close>

fun split_ws_go :: "string \<Rightarrow> string \<Rightarrow> string list" where
  "split_ws_go acc [] = (if acc = [] then [] else [rev acc])"
| "split_ws_go acc (x # xs) =
     (if is_space x then (if acc = [] then split_ws_go [] xs else rev acc # split_ws_go [] xs)
      else split_ws_go (x # acc) xs)"

definition split_ws :: "string \<Rightarrow> string list" where
  "split_ws s = split_ws_go [] s"

text \<open>\<open>s.splitlines()\<close> on text whose line breaks are line feeds (with or without a
  carriage return before them): no last empty line.\<close>

definition splitlines :: "string \<Rightarrow> string list" where
  "splitlines s =
     (let ps = split_on (CHR 0x0A) s;
          qs = (if last ps = [] then butlast ps else ps)
      in map (\<lambda>l. if l \<noteq> [] \<and> last l = CHR 0x0D then butlast l else l) qs)"

fun py_join :: "string \<Rightarrow> string list \<Rightarrow> string" where
  "py_join sep [] = []"
| "py_join sep [x] = x"
| "py_join sep (x # y # ys) = x @ sep @ py_join sep (y # ys)"

text \<open>\<open>len(s)\<close> of the encoded text, and \<open>s[:n]\<close>.\<close>

definition nl :: string where "nl = [CHR 0x0A]"

definition em_dash :: string where "em_dash = [CHR 0xE2, CHR 0x80, CHR 0x94]"

definition right_arrow :: string where "right_arrow = [CHR 0xE2, CHR 0x86, CHR 0x92]"

definition ellipsis :: string where "ellipsis = [CHR 0xE2, CHR 0x80, CHR 0xA6]"

lemmas string_consts = nl_def em_dash_def right_arrow_def ellipsis_def

section \<open>Numbers as text\<close>

fun string_of_nat :: "nat \<Rightarrow> string" where
  "string_of_nat n =
     (if n < 10 then [digit_char n] else string_of_nat (n div 10) @ [digit_char (n mod 10)])"

declare string_of_nat.simps [simp del]

definition string_of_int :: "int \<Rightarrow> string" where
  "string_of_int i = (if i < 0 then ''-'' @ string_of_nat (nat (- i)) else string_of_nat (nat i))"

definition nat_of_digits :: "string \<Rightarrow> nat" where
  "nat_of_digits s = foldl (\<lambda>n c. 10 * n + digit_val c) 0 s"

definition all_digits :: "string \<Rightarrow> bool" where
  "all_digits s = (s \<noteq> [] \<and> list_all is_digit s)"

text \<open>\<open>int(text)\<close>: surrounding white space, a sign, digits with single underscores
  between them; \<open>None\<close> where Python raises \<open>ValueError\<close>.\<close>

fun strip_underscores :: "string \<Rightarrow> string option" where
  "strip_underscores [] = None"
| "strip_underscores [c] = (if is_digit c then Some [c] else None)"
| "strip_underscores (c # d # s) =
     (if \<not> is_digit c then None
      else map_option ((#) c) (strip_underscores (if d = CHR ''_'' then s else d # s)))"

definition py_int :: "string \<Rightarrow> int option" where
  "py_int s =
     (let t = py_strip s;
          neg = (t \<noteq> [] \<and> hd t = CHR ''-'');
          body = (if t \<noteq> [] \<and> hd t \<in> {CHR ''-'', CHR ''+''} then tl t else t)
      in map_option (\<lambda>ds. (if neg then - int (nat_of_digits ds) else int (nat_of_digits ds)))
           (strip_underscores body))"

lemma nat_of_digits_snoc [simp]: "nat_of_digits (s @ [c]) = 10 * nat_of_digits s + digit_val c"
  by (simp add: nat_of_digits_def)

lemma string_of_nat_digits: "list_all is_digit (string_of_nat n) \<and> string_of_nat n \<noteq> []"
proof (induction n rule: string_of_nat.induct)
  case (1 n)
  then show ?case by (subst (1 2) string_of_nat.simps) auto
qed

lemma all_digits_string_of_nat [simp]: "all_digits (string_of_nat n)"
  using string_of_nat_digits by (simp add: all_digits_def)

lemma nat_of_digits_string_of_nat [simp]: "nat_of_digits (string_of_nat n) = n"
proof (induction n rule: string_of_nat.induct)
  case (1 n)
  show ?case
  proof (cases "n < 10")
    case True
    then show ?thesis by (subst string_of_nat.simps) (simp add: nat_of_digits_def)
  next
    case False
    with "1.IH" have "nat_of_digits (string_of_nat (n div 10)) = n div 10" by simp
    then show ?thesis
      using False by (subst string_of_nat.simps) simp
  qed
qed

lemma string_of_nat_inj [simp]: "string_of_nat m = string_of_nat n \<longleftrightarrow> m = n"
  by (metis nat_of_digits_string_of_nat)

section \<open>Parts and joins\<close>

lemma split_on_nonempty [simp]: "split_on c s \<noteq> []"
  by (induction s) (auto split: list.splits)

lemma split_on_no_sep: "c \<notin> set s \<Longrightarrow> split_on c s = [s]"
  by (induction s) auto

lemma split_on_append_sep: "c \<notin> set s \<Longrightarrow> split_on c (s @ c # t) = s # split_on c t"
  by (induction s) auto

lemma split_on_join:
  assumes "xs \<noteq> []" and "\<forall>x\<in>set xs. c \<notin> set x"
  shows "split_on c (py_join [c] xs) = xs"
  using assms
proof (induction xs)
  case Nil
  then show ?case by simp
next
  case (Cons x xs)
  then show ?case
    by (cases xs) (simp_all add: split_on_no_sep split_on_append_sep)
qed

lemma split_on_parts: "p \<in> set (split_on c s) \<Longrightarrow> c \<notin> set p"
  by (induction s arbitrary: p) (auto split: list.splits if_splits)

lemma starts_with_append [simp]: "starts_with p (p @ s)"
  by (simp add: starts_with_def)

lemma starts_with_iff: "starts_with p s \<longleftrightarrow> (\<exists>t. s = p @ t)"
  by (metis append_take_drop_id starts_with_append starts_with_def)

lemma starts_with_Nil [simp]: "starts_with [] s"
  by (simp add: starts_with_def)

lemma py_in_iff: "py_in sub s \<longleftrightarrow> (\<exists>a b. s = a @ sub @ b)"
proof (induction s)
  case Nil
  then show ?case by simp
next
  case (Cons c s)
  show ?case
  proof
    assume "py_in sub (c # s)"
    then consider "starts_with sub (c # s)" | "py_in sub s" by auto
    then show "\<exists>a b. c # s = a @ sub @ b"
    proof cases
      case 1
      then show ?thesis by (metis append_Nil starts_with_iff)
    next
      case 2
      then show ?thesis using Cons.IH by (metis append_Cons)
    qed
  next
    assume "\<exists>a b. c # s = a @ sub @ b"
    then obtain a b where "c # s = a @ sub @ b" by blast
    then show "py_in sub (c # s)"
    proof (cases a)
      case Nil
      with \<open>c # s = a @ sub @ b\<close> have "starts_with sub (c # s)" by (auto simp: starts_with_iff)
      then show ?thesis by simp
    next
      case (Cons a0 as)
      with \<open>c # s = a @ sub @ b\<close> have "s = as @ sub @ b" by simp
      with Cons.IH have "py_in sub s" by blast
      then show ?thesis by simp
    qed
  qed
qed

section \<open>Python's sort and max\<close>

text \<open>\<open>sorted(xs, key=k)\<close> is stable, and so is \<open>sort_key\<close>. \<open>sorted(xs, key=k, reverse=True)\<close>
  is stable too: equal keys keep their order.\<close>

definition sorted_desc :: "('a \<Rightarrow> int) \<Rightarrow> 'a list \<Rightarrow> 'a list" where
  "sorted_desc k xs = sort_key (\<lambda>x. - k x) xs"

lemma set_sorted_desc [simp]: "set (sorted_desc k xs) = set xs"
  by (simp add: sorted_desc_def)

lemma length_sorted_desc [simp]: "length (sorted_desc k xs) = length xs"
  by (simp add: sorted_desc_def)

lemma distinct_sorted_desc [simp]: "distinct (map f (sorted_desc k xs)) = distinct (map f xs)"
  by (simp add: sorted_desc_def distinct_map)

text \<open>\<open>max(xs, key=k)\<close> is the first of the largest elements.\<close>

fun max_by :: "('a \<Rightarrow> 'k::linorder) \<Rightarrow> 'a \<Rightarrow> 'a list \<Rightarrow> 'a" where
  "max_by k b [] = b"
| "max_by k b (x # xs) = max_by k (if k b < k x then x else b) xs"

fun py_max :: "('a \<Rightarrow> 'k::linorder) \<Rightarrow> 'a list \<Rightarrow> 'a option" where
  "py_max k [] = None"
| "py_max k (x # xs) = Some (max_by k x xs)"

lemma max_by_in: "max_by k b xs \<in> insert b (set xs)"
  by (induction xs arbitrary: b) (auto split: if_splits)

lemma max_by_base: "k b \<le> k (max_by k b xs)"
proof (induction xs arbitrary: b)
  case Nil
  then show ?case by simp
next
  case (Cons y ys)
  have "k b \<le> k (if k b < k y then y else b)" by auto
  also have "\<dots> \<le> k (max_by k (if k b < k y then y else b) ys)" by (rule Cons.IH)
  finally show ?case by simp
qed

lemma max_by_ge: "x \<in> set xs \<Longrightarrow> k x \<le> k (max_by k b xs)"
proof (induction xs arbitrary: b)
  case Nil
  then show ?case by simp
next
  case (Cons y ys)
  show ?case
  proof (cases "x \<in> set ys")
    case True
    then show ?thesis using Cons.IH by simp
  next
    case False
    with Cons.prems have "x = y" by simp
    then have "k x \<le> k (if k b < k y then y else b)" by auto
    also have "\<dots> \<le> k (max_by k (if k b < k y then y else b) ys)" by (rule max_by_base)
    finally show ?thesis by simp
  qed
qed

lemma py_max_None [simp]: "py_max k xs = None \<longleftrightarrow> xs = []"
  by (cases xs) auto

lemma py_max_Some:
  assumes "py_max k xs = Some m"
  shows "m \<in> set xs" and "x \<in> set xs \<Longrightarrow> k x \<le> k m"
proof -
  obtain y ys where xs: "xs = y # ys" and m: "m = max_by k y ys"
    using assms by (cases xs) auto
  show "m \<in> set xs" using max_by_in [of k y ys] by (simp add: xs m)
  show "k x \<le> k m" if "x \<in> set xs"
    using that max_by_ge [of x ys k y] max_by_base [of k y ys] by (auto simp: xs m)
qed

section \<open>Searching a list\<close>

lemma find_Some_first:
  "List.find P xs = Some x \<Longrightarrow>
     x \<in> set xs \<and> P x \<and> (\<exists>as bs. xs = as @ x # bs \<and> (\<forall>a\<in>set as. \<not> P a))"
proof (induction xs)
  case Nil
  then show ?case by simp
next
  case (Cons y ys)
  show ?case
  proof (cases "P y")
    case True
    with Cons.prems show ?thesis by (auto intro: exI [of _ "[]"])
  next
    case False
    with Cons.prems have "List.find P ys = Some x" by simp
    with Cons.IH obtain as bs where "x \<in> set ys" "P x" "ys = as @ x # bs" "\<forall>a\<in>set as. \<not> P a"
      by blast
    with False have "y # ys = (y # as) @ x # bs \<and> (\<forall>a\<in>set (y # as). \<not> P a)" by simp
    with \<open>x \<in> set ys\<close> \<open>P x\<close> show ?thesis by (metis list.set_intros(2))
  qed
qed

lemma find_None_all: "List.find P xs = None \<longleftrightarrow> (\<forall>x\<in>set xs. \<not> P x)"
  by (induction xs) auto

text \<open>\<open>x or d\<close> for an optional value: Python's truth value of \<open>None\<close>, \<open>0\<close> and an empty
  string or list is false.\<close>

definition opt_or :: "'a option \<Rightarrow> 'a \<Rightarrow> 'a" where
  "opt_or x d = (case x of None \<Rightarrow> d | Some v \<Rightarrow> v)"

definition truthy_int :: "int option \<Rightarrow> bool" where
  "truthy_int x = (case x of None \<Rightarrow> False | Some v \<Rightarrow> v \<noteq> 0)"

definition truthy_str :: "string option \<Rightarrow> bool" where
  "truthy_str x = (case x of None \<Rightarrow> False | Some v \<Rightarrow> v \<noteq> [])"

lemma opt_or_simps [simp]: "opt_or None d = d" "opt_or (Some v) d = v"
  by (simp_all add: opt_or_def)

lemma truthy_simps [simp]:
  "\<not> truthy_int None" "truthy_int (Some v) = (v \<noteq> 0)"
  "\<not> truthy_str None" "truthy_str (Some s) = (s \<noteq> [])"
  by (simp_all add: truthy_int_def truthy_str_def)

end
