(* ===== verification/PyEffects.thy ===== *)
theory PyEffects imports Prelude begin

text \<open>
  Effectful Python code: an action maps a state to an outcome and the next state. An outcome
  is a value, a raised exception, or \<open>NoFuel\<close>: a loop that was given a bound on its rounds
  and used it up. No handler catches \<open>NoFuel\<close>, so a theorem about what a run returns also
  says that the bound was enough. An exception keeps the state that was reached when it was
  raised: Python does not roll back.
\<close>

datatype exn =
    RestoreCancelled string
  | HostIdentityError string
  | RestoreTaskError string
  | BenchmarkCancelled string
  | NotRunnable string
  | PyError string string

text \<open>\<open>str(exc)\<close>\<close>

fun exn_text :: "exn \<Rightarrow> string" where
  "exn_text (RestoreCancelled m) = m"
| "exn_text (HostIdentityError m) = m"
| "exn_text (RestoreTaskError m) = m"
| "exn_text (BenchmarkCancelled m) = m"
| "exn_text (NotRunnable m) = m"
| "exn_text (PyError _ m) = m"

datatype 'a outcome = Ret 'a | Exc exn | NoFuel

type_synonym ('s, 'a) act = "'s \<Rightarrow> 'a outcome \<times> 's"

definition ret :: "'a \<Rightarrow> ('s, 'a) act" where
  "ret x = (\<lambda>s. (Ret x, s))"

definition raise :: "exn \<Rightarrow> ('s, 'a) act" where
  "raise e = (\<lambda>s. (Exc e, s))"

definition no_fuel :: "('s, 'a) act" where
  "no_fuel = (\<lambda>s. (NoFuel, s))"

definition bnd :: "('s, 'a) act \<Rightarrow> ('a \<Rightarrow> ('s, 'b) act) \<Rightarrow> ('s, 'b) act" where
  "bnd m f = (\<lambda>s. case m s of
      (Ret a, s') \<Rightarrow> f a s'
    | (Exc e, s') \<Rightarrow> (Exc e, s')
    | (NoFuel, s') \<Rightarrow> (NoFuel, s'))"

text \<open>\<open>m; k\<close>\<close>

definition thn :: "('s, unit) act \<Rightarrow> ('s, 'b) act \<Rightarrow> ('s, 'b) act" where
  "thn m k = bnd m (\<lambda>_. k)"

text \<open>\<open>try: m except Exception as e: h(e)\<close>\<close>

definition catch :: "('s, 'a) act \<Rightarrow> (exn \<Rightarrow> ('s, 'a) act) \<Rightarrow> ('s, 'a) act" where
  "catch m h = (\<lambda>s. case m s of
      (Exc e, s') \<Rightarrow> h e s'
    | r \<Rightarrow> r)"

text \<open>\<open>try: m except Exception: pass\<close> (a handler that only logs)\<close>

definition quiet :: "('s, unit) act \<Rightarrow> ('s, unit) act" where
  "quiet m = catch m (\<lambda>_. ret ())"

definition get_state :: "('s, 's) act" where
  "get_state = (\<lambda>s. (Ret s, s))"

definition gets :: "('s \<Rightarrow> 'a) \<Rightarrow> ('s, 'a) act" where
  "gets f = (\<lambda>s. (Ret (f s), s))"

definition modify :: "('s \<Rightarrow> 's) \<Rightarrow> ('s, unit) act" where
  "modify f = (\<lambda>s. (Ret (), f s))"

definition on_cond :: "bool \<Rightarrow> ('s, unit) act \<Rightarrow> ('s, unit) act" where
  "on_cond b m = (if b then m else ret ())"

text \<open>A block of statements, and \<open>for x in xs: f(x)\<close>.\<close>

primrec block :: "('s, unit) act list \<Rightarrow> ('s, unit) act" where
  "block [] = ret ()"
| "block (m # ms) = thn m (block ms)"

primrec foreach :: "('a \<Rightarrow> ('s, unit) act) \<Rightarrow> 'a list \<Rightarrow> ('s, unit) act" where
  "foreach f [] = ret ()"
| "foreach f (x # xs) = thn (f x) (foreach f xs)"

text \<open>A loop that carries a value: \<open>acc = f(x, acc)\<close>.\<close>

primrec foldact :: "('a \<Rightarrow> 'b \<Rightarrow> ('s, 'b) act) \<Rightarrow> 'a list \<Rightarrow> 'b \<Rightarrow> ('s, 'b) act" where
  "foldact f [] acc = ret acc"
| "foldact f (x # xs) acc = bnd (f x acc) (foldact f xs)"

text \<open>Running an action on a part of the state.\<close>

definition on_part :: "('s \<Rightarrow> 't) \<Rightarrow> ('t \<Rightarrow> 's \<Rightarrow> 's) \<Rightarrow> ('t, 'a) act \<Rightarrow> ('s, 'a) act" where
  "on_part getp putp m = (\<lambda>s. case m (getp s) of (r, t) \<Rightarrow> (r, putp t s))"

section \<open>Rules\<close>

lemma ret_app [act_simps]: "ret x s = (Ret x, s)"
  by (simp add: ret_def)

lemma raise_app [act_simps]: "raise e s = (Exc e, s)"
  by (simp add: raise_def)

lemma gets_app [act_simps]: "gets f s = (Ret (f s), s)"
  by (simp add: gets_def)

lemma get_state_app [act_simps]: "get_state s = (Ret s, s)"
  by (simp add: get_state_def)

lemma modify_app [act_simps]: "modify f s = (Ret (), f s)"
  by (simp add: modify_def)

lemma no_fuel_app [act_simps]: "no_fuel s = (NoFuel, s)"
  by (simp add: no_fuel_def)

lemma bnd_Ret [act_simps]: "m s = (Ret a, s') \<Longrightarrow> bnd m f s = f a s'"
  by (simp add: bnd_def)

lemma bnd_Exc [act_simps]: "m s = (Exc e, s') \<Longrightarrow> bnd m f s = (Exc e, s')"
  by (simp add: bnd_def)

lemma thn_Ret [act_simps]: "m s = (Ret a, s') \<Longrightarrow> thn m k s = k s'"
  by (simp add: thn_def bnd_def)

lemma thn_Exc [act_simps]: "m s = (Exc e, s') \<Longrightarrow> thn m k s = (Exc e, s')"
  by (simp add: thn_def bnd_def)

lemma thn_NoFuel [act_simps]: "m s = (NoFuel, s') \<Longrightarrow> thn m k s = (NoFuel, s')"
  by (simp add: thn_def bnd_def)

lemma bnd_cases:
  assumes "bnd m f s = (r, t)"
  obtains (ok) a u where "m s = (Ret a, u)" "f a u = (r, t)"
  | (exc) e where "m s = (Exc e, t)" "r = Exc e"
  | (fuel) "m s = (NoFuel, t)" "r = NoFuel"
  using assms by (auto simp: bnd_def split: prod.splits outcome.splits)

lemma thn_cases:
  assumes "thn m k s = (r, t)"
  obtains (ok) u where "m s = (Ret (), u)" "k u = (r, t)"
  | (exc) e where "m s = (Exc e, t)" "r = Exc e"
  | (fuel) "m s = (NoFuel, t)" "r = NoFuel"
  using assms unfolding thn_def by (auto elim: bnd_cases)

lemma catch_cases:
  assumes "catch m h s = (r, t)"
  obtains (ok) a where "m s = (Ret a, t)" "r = Ret a"
  | (handled) e u where "m s = (Exc e, u)" "h e u = (r, t)"
  | (fuel) "m s = (NoFuel, t)" "r = NoFuel"
  using assms by (auto simp: catch_def split: prod.splits outcome.splits)

section \<open>What every step keeps\<close>

text \<open>An action keeps \<open>P\<close>: if \<open>P\<close> holds before, it holds after, however the action ends.\<close>

definition keeps :: "('s \<Rightarrow> bool) \<Rightarrow> ('s, 'a) act \<Rightarrow> bool" where
  "keeps P m = (\<forall>s. P s \<longrightarrow> P (snd (m s)))"

text \<open>An action that neither raises nor runs out of fuel.\<close>

definition total :: "('s, 'a) act \<Rightarrow> bool" where
  "total m = (\<forall>s. \<exists>a. fst (m s) = Ret a)"

definition fueled :: "('s, 'a) act \<Rightarrow> bool" where
  "fueled m = (\<forall>s. fst (m s) \<noteq> NoFuel)"

lemma keepsI: "(\<And>s r t. P s \<Longrightarrow> m s = (r, t) \<Longrightarrow> P t) \<Longrightarrow> keeps P m"
  by (simp add: keeps_def) (metis prod.collapse)

lemma keepsD: "keeps P m \<Longrightarrow> P s \<Longrightarrow> m s = (r, t) \<Longrightarrow> P t"
  by (metis keeps_def snd_conv)

lemma keeps_ret [intro, simp]: "keeps P (ret x)"
  by (simp add: keeps_def ret_def)

lemma keeps_raise [intro, simp]: "keeps P (raise e)"
  by (simp add: keeps_def raise_def)

lemma keeps_gets [intro, simp]: "keeps P (gets f)"
  by (simp add: keeps_def gets_def)

lemma keeps_get_state [intro, simp]: "keeps P get_state"
  by (simp add: keeps_def get_state_def)

lemma keeps_no_fuel [intro, simp]: "keeps P no_fuel"
  by (simp add: keeps_def no_fuel_def)

lemma keeps_modify: "(\<And>s. P s \<Longrightarrow> P (f s)) \<Longrightarrow> keeps P (modify f)"
  by (simp add: keeps_def modify_def)

lemma keeps_bnd [intro]: "keeps P m \<Longrightarrow> (\<And>a. keeps P (f a)) \<Longrightarrow> keeps P (bnd m f)"
  by (rule keepsI) (auto elim!: bnd_cases dest: keepsD)

lemma keeps_thn [intro]: "keeps P m \<Longrightarrow> keeps P k \<Longrightarrow> keeps P (thn m k)"
  unfolding thn_def by (rule keeps_bnd)

lemma keeps_catch [intro]: "keeps P m \<Longrightarrow> (\<And>e. keeps P (h e)) \<Longrightarrow> keeps P (catch m h)"
  by (rule keepsI) (auto elim!: catch_cases dest: keepsD)

lemma keeps_quiet [intro]: "keeps P m \<Longrightarrow> keeps P (quiet m)"
  unfolding quiet_def by (rule keeps_catch) simp_all

lemma keeps_on_cond [intro]: "(b \<Longrightarrow> keeps P m) \<Longrightarrow> keeps P (on_cond b m)"
  by (simp add: on_cond_def)

lemma keeps_block [intro]: "(\<And>m. m \<in> set ms \<Longrightarrow> keeps P m) \<Longrightarrow> keeps P (block ms)"
  by (induction ms) auto

lemma keeps_foreach [intro]: "(\<And>x. x \<in> set xs \<Longrightarrow> keeps P (f x)) \<Longrightarrow> keeps P (foreach f xs)"
  by (induction xs) auto

lemma keeps_foldact [intro]: "(\<And>x a. x \<in> set xs \<Longrightarrow> keeps P (f x a)) \<Longrightarrow> keeps P (foldact f xs acc)"
  by (induction xs arbitrary: acc) auto

lemma keeps_on_part:
  "(\<And>s t. P s \<Longrightarrow> Q (getp s) t \<Longrightarrow> P (putp t s)) \<Longrightarrow>
   (\<And>t. Q t (snd (m t))) \<Longrightarrow> keeps P (on_part getp putp m)"
  by (auto simp: keeps_def on_part_def split: prod.splits) (metis snd_conv)

lemma quiet_never_raises: "fueled m \<Longrightarrow> total (quiet m)"
  unfolding total_def fueled_def quiet_def catch_def ret_def
  by (auto split: prod.splits outcome.splits) (metis fst_conv)

lemma quiet_result: "quiet m s = (r, t) \<Longrightarrow> r = Ret () \<or> r = NoFuel"
  unfolding quiet_def by (auto elim!: catch_cases simp: act_simps)

end
