(* ===== verification/PyFloat.thy ===== *)
theory PyFloat imports Prelude Complex_Main begin

text \<open>
  Python's floating point numbers, as far as the program computes with them: IEEE 754 binary64
  with rounding to nearest, ties to even. A float is the rational number it stands for and
  every operation of the source is the exact operation followed by the rounding \<open>fl64\<close>.
  Overflow to infinity and underflow below \<open>2^-1022\<close> are outside the model: the program's
  floats are percentages, byte counts, rates and seconds.

  The laws that clients use are stated as the locale \<open>float_rounding\<close> (monotone, exact on
  small integers), proved for \<open>fl64\<close> below.
\<close>

section \<open>Rounding to an integer, ties to even\<close>

text \<open>Python's \<open>round(x)\<close>.\<close>

definition round_half_even :: "rat \<Rightarrow> int" where
  "round_half_even q =
     (let f = \<lfloor>q\<rfloor>; d = q - of_int f
      in if d < 1/2 then f else if d > 1/2 then f + 1 else if even f then f else f + 1)"

lemma round_half_even_of_int [simp]: "round_half_even (of_int n) = n"
  by (simp add: round_half_even_def)

lemma round_half_even_bounds: "\<lfloor>q\<rfloor> \<le> round_half_even q" "round_half_even q \<le> \<lfloor>q\<rfloor> + 1"
  by (auto simp: round_half_even_def Let_def)

lemma round_half_even_mono:
  assumes "p \<le> q"
  shows "round_half_even p \<le> round_half_even q"
proof (cases "\<lfloor>p\<rfloor> = \<lfloor>q\<rfloor>")
  case True
  with assms show ?thesis by (auto simp: round_half_even_def Let_def)
next
  case False
  with assms have "\<lfloor>p\<rfloor> + 1 \<le> \<lfloor>q\<rfloor>" using floor_mono [OF assms] by linarith
  then show ?thesis
    using round_half_even_bounds(2) [of p] round_half_even_bounds(1) [of q] by linarith
qed

lemma round_half_even_ge: "of_int n \<le> q \<Longrightarrow> n \<le> round_half_even q"
  using round_half_even_mono [of "of_int n" q] by simp

lemma round_half_even_le: "q \<le> of_int n \<Longrightarrow> round_half_even q \<le> n"
  using round_half_even_mono [of q "of_int n"] by simp

section \<open>The binary exponent\<close>

text \<open>\<open>halvings x\<close>: how often \<open>x\<close> halves before it is below 2; \<open>doublings x\<close>: how often it
  doubles before it is at least 1.\<close>

lemma floor_half_less:
  assumes "(2::rat) \<le> x" shows "nat \<lfloor>x / 2\<rfloor> < nat \<lfloor>x\<rfloor>"
proof -
  from assms have "x / 2 \<le> x - 1" by simp
  then have "\<lfloor>x / 2\<rfloor> \<le> \<lfloor>x - 1\<rfloor>" by (rule floor_mono)
  then have "\<lfloor>x / 2\<rfloor> \<le> \<lfloor>x\<rfloor> - 1" by simp
  moreover have "2 \<le> \<lfloor>x\<rfloor>" using assms by (simp add: le_floor_iff)
  ultimately show ?thesis by linarith
qed

function halvings :: "rat \<Rightarrow> nat" where
  "halvings x = (if x < 2 then 0 else Suc (halvings (x / 2)))"
  by pat_completeness auto
termination
  by (relation "measure (\<lambda>x. nat \<lfloor>x\<rfloor>)") (simp, simp only: in_measure, rule floor_half_less, simp)

function doublings :: "rat \<Rightarrow> nat" where
  "doublings x = (if 1 \<le> x \<or> x \<le> 0 then 0 else Suc (doublings (2 * x)))"
  by pat_completeness auto
termination
proof (relation "measure (\<lambda>x. nat \<lfloor>1 / x\<rfloor>)", simp)
  fix x :: rat assume x: "\<not> (1 \<le> x \<or> x \<le> 0)"
  then have gt1: "1 < 1 / x" by simp
  have eq: "1 / (2 * x) = (1 / x) / 2" by simp
  show "(2 * x, x) \<in> measure (\<lambda>x. nat \<lfloor>1 / x\<rfloor>)"
  proof (cases "2 \<le> 1 / x")
    case True
    then show ?thesis using floor_half_less [OF True] by (simp add: eq)
  next
    case False
    then have "\<lfloor>(1 / x) / 2\<rfloor> \<le> 0" using gt1 by (simp add: floor_le_iff)
    moreover have "1 \<le> \<lfloor>1 / x\<rfloor>" using gt1 by (simp add: le_floor_iff)
    ultimately have "nat \<lfloor>(1 / x) / 2\<rfloor> < nat \<lfloor>1 / x\<rfloor>" by linarith
    then show ?thesis by (simp add: eq)
  qed
qed

declare halvings.simps [simp del] doublings.simps [simp del]

lemma halvings_spec:
  "1 \<le> x \<Longrightarrow> 2 ^ halvings x \<le> x \<and> x < 2 ^ Suc (halvings x)"
proof (induction x rule: halvings.induct)
  case (1 x)
  show ?case
  proof (cases "x < 2")
    case True
    with "1.prems" show ?thesis by (simp add: halvings.simps [of x])
  next
    case False
    with "1.IH" have "2 ^ halvings (x / 2) \<le> x / 2 \<and> x / 2 < 2 ^ Suc (halvings (x / 2))" by simp
    with False show ?thesis by (simp add: halvings.simps [of x])
  qed
qed

lemma doublings_spec:
  "0 < x \<Longrightarrow> x < 1 \<Longrightarrow> 1 \<le> x * 2 ^ doublings x \<and> x * 2 ^ doublings x < 2"
proof (induction x rule: doublings.induct)
  case (1 x)
  show ?case
  proof (cases "1 \<le> 2 * x")
    case True
    with "1.prems" have "doublings x = 1"
      by (simp add: doublings.simps [of x] doublings.simps [of "2 * x"])
    with True "1.prems" show ?thesis by simp
  next
    case False
    with "1.IH" "1.prems" have
      "1 \<le> 2 * x * 2 ^ doublings (2 * x) \<and> 2 * x * 2 ^ doublings (2 * x) < 2" by simp
    with "1.prems" show ?thesis by (simp add: doublings.simps [of x] algebra_simps)
  qed
qed

definition ilog2 :: "rat \<Rightarrow> int" where
  "ilog2 x = (if 1 \<le> x then int (halvings x) else - int (doublings x))"

definition pow2 :: "int \<Rightarrow> rat" where
  "pow2 e = (if 0 \<le> e then 2 ^ nat e else 1 / 2 ^ nat (- e))"

lemma pow2_powi: "pow2 e = 2 powi e"
  by (simp add: pow2_def power_int_def inverse_eq_divide power_one_over)

lemma pow2_pos [simp]: "0 < pow2 e" and pow2_nz [simp]: "pow2 e \<noteq> 0"
  by (simp_all add: pow2_def)

lemma pow2_add: "pow2 (a + b) = pow2 a * pow2 b"
  by (simp add: pow2_powi power_int_add)

lemma pow2_mono: "a \<le> b \<Longrightarrow> pow2 a \<le> pow2 b"
  by (simp add: pow2_powi power_int_increasing)

lemma pow2_nat: "0 \<le> e \<Longrightarrow> pow2 e = of_int (2 ^ nat e)"
  by (simp add: pow2_def)

lemma pow2_of_nat [simp]: "pow2 (int n) = 2 ^ n"
  by (simp add: pow2_def)

lemma pow2_of_neg [simp]: "pow2 (- int n) = 1 / 2 ^ n"
proof (cases "n = 0")
  case True
  then show ?thesis by (simp add: pow2_def)
next
  case False
  then show ?thesis by (simp only: pow2_def) simp
qed

lemma pow2_diff: "pow2 a / pow2 b = pow2 (a - b)"
  using pow2_add [of "a - b" b] by (simp add: field_simps)

lemma ilog2_bounds:
  assumes "0 < x"
  shows "pow2 (ilog2 x) \<le> x" and "x < pow2 (ilog2 x + 1)"
proof -
  have "pow2 (ilog2 x) \<le> x \<and> x < pow2 (ilog2 x + 1)"
  proof (cases "1 \<le> x")
    case True
    then show ?thesis
      using halvings_spec [OF True] by (simp add: ilog2_def pow2_def nat_add_distrib)
  next
    case False
    with assms have x: "0 < x" "x < 1" by simp_all
    have p: "pow2 (- int (doublings x)) = 1 / 2 ^ doublings x" by simp
    have "1 \<le> x * 2 ^ doublings x" "x * 2 ^ doublings x < 2" using doublings_spec [OF x] by simp_all
    then have "1 / 2 ^ doublings x \<le> x \<and> x < 1 / 2 ^ doublings x * 2" by (simp add: field_simps)
    moreover have "pow2 (- int (doublings x) + 1) = 1 / 2 ^ doublings x * 2"
      unfolding pow2_add p by (simp add: pow2_def [of 1])
    ultimately show ?thesis using False by (simp add: ilog2_def p)
  qed
  then show "pow2 (ilog2 x) \<le> x" and "x < pow2 (ilog2 x + 1)" by blast+
qed

lemma ilog2_mono: "0 < x \<Longrightarrow> x \<le> y \<Longrightarrow> ilog2 x \<le> ilog2 y"
proof (rule ccontr)
  assume x: "0 < x" "x \<le> y" and "\<not> ilog2 x \<le> ilog2 y"
  then have "pow2 (ilog2 y + 1) \<le> pow2 (ilog2 x)" by (intro pow2_mono) simp
  also have "\<dots> \<le> x" using x by (simp add: ilog2_bounds)
  finally show False using ilog2_bounds(2) [of y] x by linarith
qed

section \<open>Rounding to binary64\<close>

definition fl64 :: "rat \<Rightarrow> rat" where
  "fl64 x = (if x = 0 then 0
     else let u = pow2 (ilog2 \<bar>x\<bar> - 52) in of_int (round_half_even (\<bar>x\<bar> / u)) * u * sgn x)"

lemma fl64_zero [simp]: "fl64 0 = 0"
  by (simp add: fl64_def)

lemma fl64_minus: "fl64 (- x) = - fl64 x"
  by (simp add: fl64_def Let_def sgn_minus)

lemma fl64_pos:
  "0 < x \<Longrightarrow> fl64 x = of_int (round_half_even (x / pow2 (ilog2 x - 52))) * pow2 (ilog2 x - 52)"
  by (simp add: fl64_def Let_def)

lemma fl64_ge_pow2:
  assumes "0 < x" shows "pow2 (ilog2 x) \<le> fl64 x"
proof -
  let ?u = "pow2 (ilog2 x - 52)"
  have u: "pow2 (ilog2 x) = of_int (2 ^ 52) * ?u"
    using pow2_add [of 52 "ilog2 x - 52"] pow2_nat [of 52] by simp
  have "of_int (2 ^ 52) \<le> x / ?u"
    using ilog2_bounds(1) [OF assms] unfolding u by (simp add: field_simps)
  then have "2 ^ 52 \<le> round_half_even (x / ?u)" by (rule round_half_even_ge)
  then have "(of_int (2 ^ 52) :: rat) \<le> of_int (round_half_even (x / ?u))" by (rule of_int_le_iff [THEN iffD2])
  then show ?thesis
    unfolding fl64_pos [OF assms] u by (rule mult_right_mono) (simp add: less_imp_le)
qed

lemma fl64_le_pow2:
  assumes "0 < x" shows "fl64 x \<le> pow2 (ilog2 x + 1)"
proof -
  let ?u = "pow2 (ilog2 x - 52)"
  have u: "pow2 (ilog2 x + 1) = of_int (2 ^ 53) * ?u"
    using pow2_add [of 53 "ilog2 x - 52"] pow2_nat [of 53] by (simp add: add.commute)
  have "x / ?u \<le> of_int (2 ^ 53)"
    using ilog2_bounds(2) [OF assms] unfolding u by (simp add: field_simps)
  then have "round_half_even (x / ?u) \<le> 2 ^ 53" by (rule round_half_even_le)
  then have "(of_int (round_half_even (x / ?u)) :: rat) \<le> of_int (2 ^ 53)" by (rule of_int_le_iff [THEN iffD2])
  then show ?thesis
    unfolding fl64_pos [OF assms] u by (rule mult_right_mono) (simp add: less_imp_le)
qed

lemma fl64_mono_pos:
  assumes "0 < x" "x \<le> y" shows "fl64 x \<le> fl64 y"
proof (cases "ilog2 x = ilog2 y")
  case True
  let ?u = "pow2 (ilog2 y - 52)"
  have "x / ?u \<le> y / ?u" using assms by (simp add: divide_right_mono less_imp_le)
  then have "round_half_even (x / ?u) \<le> round_half_even (y / ?u)" by (rule round_half_even_mono)
  then have "(of_int (round_half_even (x / ?u)) :: rat) \<le> of_int (round_half_even (y / ?u))"
    by (rule of_int_le_iff [THEN iffD2])
  then show ?thesis
    using assms True by (simp add: fl64_pos mult_right_mono less_imp_le)
next
  case False
  with ilog2_mono [OF assms] have "ilog2 x + 1 \<le> ilog2 y" by simp
  have "fl64 x \<le> pow2 (ilog2 x + 1)" using assms by (simp add: fl64_le_pow2)
  also have "\<dots> \<le> pow2 (ilog2 y)" using \<open>ilog2 x + 1 \<le> ilog2 y\<close> by (rule pow2_mono)
  also have "\<dots> \<le> fl64 y" using assms by (simp add: fl64_ge_pow2)
  finally show ?thesis .
qed

lemma fl64_nonneg: "0 \<le> x \<Longrightarrow> 0 \<le> fl64 x"
  using fl64_ge_pow2 [of x] less_imp_le [OF pow2_pos [of "ilog2 x"]]
  by (cases "x = 0") (auto intro: order_trans [of 0 "pow2 (ilog2 x)" "fl64 x"])

lemma fl64_mono: "x \<le> y \<Longrightarrow> fl64 x \<le> fl64 y"
proof -
  assume le: "x \<le> y"
  consider "0 < x" | "x \<le> 0" "0 \<le> y" | "y < 0" by linarith
  then show ?thesis
  proof cases
    case 1
    then show ?thesis using le by (rule fl64_mono_pos)
  next
    case 2
    then show ?thesis using fl64_nonneg [of y] fl64_nonneg [of "- x"] by (simp add: fl64_minus)
  next
    case 3
    then show ?thesis using fl64_mono_pos [of "- y" "- x"] le by (simp add: fl64_minus)
  qed
qed

lemma fl64_exact:
  assumes "\<bar>n\<bar> < 2 ^ 53" shows "fl64 (of_int n) = of_int n"
proof -
  have pos: "fl64 (of_int m) = of_int m" if m: "0 < m" "m < 2 ^ 53" for m :: int
  proof -
    have x: "0 < (of_int m :: rat)" using m by simp
    have "ilog2 (of_int m) \<le> 52"
    proof (rule ccontr)
      assume "\<not> ilog2 (of_int m) \<le> 52"
      then have "pow2 53 \<le> pow2 (ilog2 (of_int m))" by (intro pow2_mono) simp
      also have "\<dots> \<le> of_int m" using x by (rule ilog2_bounds(1))
      finally have "(of_int (2 ^ 53) :: rat) \<le> of_int m" using pow2_nat [of 53] by simp
      with m show False by (simp only: of_int_le_iff)
    qed
    then have "of_int m / pow2 (ilog2 (of_int m) - 52) = of_int (m * 2 ^ nat (52 - ilog2 (of_int m)))"
      by (cases "ilog2 (of_int m) = 52") (simp_all add: pow2_def)
    then have "round_half_even (of_int m / pow2 (ilog2 (of_int m) - 52)) =
        m * 2 ^ nat (52 - ilog2 (of_int m))"
      by (metis round_half_even_of_int)
    moreover have "of_int (m * 2 ^ nat (52 - ilog2 (of_int m))) * pow2 (ilog2 (of_int m) - 52) = of_int m"
      using \<open>of_int m / pow2 (ilog2 (of_int m) - 52) = of_int (m * 2 ^ nat (52 - ilog2 (of_int m)))\<close>
      by (metis nonzero_eq_divide_eq pow2_nz)
    ultimately show ?thesis
      unfolding fl64_pos [OF x] by (simp del: of_int_mult)
  qed
  consider "0 < n" | "n = 0" | "n < 0" by linarith
  then show ?thesis
  proof cases
    case 1
    then show ?thesis using pos assms by simp
  next
    case 2
    then show ?thesis by simp
  next
    case 3
    then have "fl64 (of_int (- n)) = of_int (- n)" using pos [of "- n"] assms by simp
    then show ?thesis by (simp add: fl64_minus)
  qed
qed

section \<open>The laws clients rely on\<close>

locale float_rounding =
  fixes fl :: "rat \<Rightarrow> rat"
  assumes mono: "x \<le> y \<Longrightarrow> fl x \<le> fl y"
    and exact: "\<bar>n\<bar> < 2 ^ 53 \<Longrightarrow> fl (of_int n) = of_int n"
begin

lemma nonneg: "0 \<le> x \<Longrightarrow> 0 \<le> fl x"
  using mono [of 0 x] exact [of 0] by simp

lemma le_int: "x \<le> of_int n \<Longrightarrow> \<bar>n\<bar> < 2 ^ 53 \<Longrightarrow> fl x \<le> of_int n"
  using mono [of x "of_int n"] exact [of n] by simp

lemma ge_int: "of_int n \<le> x \<Longrightarrow> \<bar>n\<bar> < 2 ^ 53 \<Longrightarrow> of_int n \<le> fl x"
  using mono [of "of_int n" x] exact [of n] by simp

text \<open>\<open>part / whole * 100\<close> in floating point stays a percentage and grows with the part.\<close>

lemma percent_le: "x \<le> 1 \<Longrightarrow> fl (fl x * 100) \<le> 100"
  using le_int [of x 1] le_int [of "fl x * 100" 100] by simp

lemma percent_nonneg: "0 \<le> x \<Longrightarrow> 0 \<le> fl (fl x * 100)"
  using nonneg by simp

lemma percent_mono: "x \<le> y \<Longrightarrow> fl (fl x * 100) \<le> fl (fl y * 100)"
  by (intro mono mult_right_mono) simp_all

lemma percent_full: "fl (fl 1 * 100) = 100"
  using exact [of 1] exact [of 100] by simp

end

interpretation binary64: float_rounding fl64
  by unfold_locales (simp_all add: fl64_mono fl64_exact)

text \<open>\<open>int(x)\<close> of a float truncates towards zero.\<close>

definition py_trunc :: "rat \<Rightarrow> int" where
  "py_trunc x = (if 0 \<le> x then \<lfloor>x\<rfloor> else \<lceil>x\<rceil>)"

lemma py_trunc_of_int [simp]: "py_trunc (of_int n) = n"
  by (simp add: py_trunc_def)

lemma py_trunc_mono: "x \<le> y \<Longrightarrow> py_trunc x \<le> py_trunc y"
proof -
  assume le: "x \<le> y"
  consider "0 \<le> x" | "x < 0" "0 \<le> y" | "y < 0" by linarith
  then show ?thesis
  proof cases
    case 1
    then show ?thesis using le by (simp add: py_trunc_def floor_mono)
  next
    case 2
    then have "\<lceil>x\<rceil> \<le> 0" "0 \<le> \<lfloor>y\<rfloor>" by simp_all
    then have "\<lceil>x\<rceil> \<le> \<lfloor>y\<rfloor>" by (rule order_trans)
    with 2 show ?thesis by (simp add: py_trunc_def)
  next
    case 3
    then show ?thesis using le by (simp add: py_trunc_def ceiling_mono)
  qed
qed

lemma py_trunc_bounds:
  "of_int lo \<le> x \<Longrightarrow> x \<le> of_int hi \<Longrightarrow> lo \<le> py_trunc x \<and> py_trunc x \<le> hi"
  using py_trunc_mono [of "of_int lo" x] py_trunc_mono [of x "of_int hi"] by simp

end
