(* ===== verification/Ipv4.thy ===== *)
theory Ipv4 imports Prelude begin

text \<open>
  The part of Python's \<open>ipaddress\<close> that the program uses: \<open>IPv4Address\<close> (strict dotted
  quads, text and number), the prefix part of \<open>IPv4Network\<close> (a length, a netmask or a host
  mask), \<open>ip_network(..., strict=False)\<close>, \<open>hosts()\<close> and the address classes. An address is
  the number \<open>int(IPv4Address(...))\<close>; \<open>None\<close> is an \<open>AddressValueError\<close> (a \<open>ValueError\<close>).
\<close>

type_synonym ipv4 = nat

definition parse_octet :: "string \<Rightarrow> nat option" where
  "parse_octet s =
     (if \<not> all_digits s \<or> length s > 3 \<or> (s \<noteq> ''0'' \<and> hd s = CHR ''0'') \<or> nat_of_digits s > 255
      then None else Some (nat_of_digits s))"

definition ipv4_of_octets :: "nat list \<Rightarrow> ipv4" where
  "ipv4_of_octets os = foldl (\<lambda>n d. 256 * n + d) 0 os"

definition octets :: "ipv4 \<Rightarrow> nat list" where
  "octets a = [a div 16777216 mod 256, a div 65536 mod 256, a div 256 mod 256, a mod 256]"

definition ipv4_of_string :: "string \<Rightarrow> ipv4 option" where
  "ipv4_of_string s =
     (case map parse_octet (split_on (CHR ''.'') s) of
        [Some a, Some b, Some c, Some d] \<Rightarrow> Some (ipv4_of_octets [a, b, c, d])
      | _ \<Rightarrow> None)"

definition string_of_ipv4 :: "ipv4 \<Rightarrow> string" where
  "string_of_ipv4 a = py_join ''.'' (map string_of_nat (octets a))"

lemmas ipv4_eval = ipv4_of_string_def parse_octet_def all_digits_def is_digit_def nat_of_digits_def
  digit_val_def ipv4_of_octets_def

text \<open>\<open>IPv4Address(i)\<close> of a number: refused outside of 32 bits.\<close>

definition ipv4_of_int :: "int \<Rightarrow> ipv4 option" where
  "ipv4_of_int i = (if 0 \<le> i \<and> i < 2 ^ 32 then Some (nat i) else None)"

definition is_loopback :: "ipv4 \<Rightarrow> bool" where
  "is_loopback a = (a div 2 ^ 24 = 127)"

definition is_link_local :: "ipv4 \<Rightarrow> bool" where
  "is_link_local a = (a div 2 ^ 16 = 169 * 256 + 254)"

section \<open>Networks\<close>

text \<open>A network is its first address and its prefix length.\<close>

record ipv4_net =
  net_address :: ipv4
  prefixlen :: nat

definition net_size :: "nat \<Rightarrow> nat" where
  "net_size p = 2 ^ (32 - p)"

definition ipv4_network :: "ipv4 \<Rightarrow> nat \<Rightarrow> ipv4_net" where
  "ipv4_network a p = \<lparr>net_address = a - a mod net_size p, prefixlen = p\<rparr>"

text \<open>A netmask has its ones first; a host mask is the complement of one.\<close>

definition netmask_of :: "nat \<Rightarrow> ipv4" where
  "netmask_of p = 2 ^ 32 - net_size p"

definition prefix_of_mask :: "ipv4 \<Rightarrow> nat option" where
  "prefix_of_mask m =
     (case List.find (\<lambda>p. netmask_of p = m) [0..<33] of
        Some p \<Rightarrow> Some p
      | None \<Rightarrow> List.find (\<lambda>p. netmask_of p = 2 ^ 32 - 1 - m) [0..<33])"

definition parse_prefix :: "string \<Rightarrow> nat option" where
  "parse_prefix s =
     (if all_digits s \<and> nat_of_digits s \<le> 32 then Some (nat_of_digits s)
      else (case ipv4_of_string s of None \<Rightarrow> None | Some m \<Rightarrow> prefix_of_mask m))"

text \<open>\<open>ip_network(text, strict=False)\<close> for IPv4 text.\<close>

definition ip_network :: "string \<Rightarrow> ipv4_net option" where
  "ip_network s =
     (case split_on (CHR ''/'') s of
        [a] \<Rightarrow> map_option (\<lambda>i. ipv4_network i 32) (ipv4_of_string a)
      | [a, p] \<Rightarrow> (case (ipv4_of_string a, parse_prefix p) of
                    (Some i, Some n) \<Rightarrow> Some (ipv4_network i n)
                  | _ \<Rightarrow> None)
      | _ \<Rightarrow> None)"

text \<open>\<open>net.hosts()\<close>: without the network and the broadcast address, except in a \<open>/31\<close>
  and a \<open>/32\<close>.\<close>

definition hosts :: "ipv4_net \<Rightarrow> ipv4 list" where
  "hosts n =
     (let lo = net_address n; size = net_size (prefixlen n)
      in if prefixlen n \<ge> 31 then [lo ..< lo + size] else [lo + 1 ..< lo + size - 1])"

definition in_net :: "ipv4 \<Rightarrow> ipv4_net \<Rightarrow> bool" where
  "in_net a n = (net_address n \<le> a \<and> a < net_address n + net_size (prefixlen n))"

section \<open>Text and number\<close>

lemma of_char_zero_digit: "of_char c = (48::nat) \<Longrightarrow> c = CHR ''0''"
proof -
  assume "of_char c = (48::nat)"
  then have "c = char_of (48::nat)" by (metis char_of_char)
  also have "char_of (48::nat) = CHR ''0''" by code_simp
  finally show "c = CHR ''0''" .
qed

lemma canonical_digits:
  assumes "all_digits s" and "s = ''0'' \<or> hd s \<noteq> CHR ''0''"
  shows "string_of_nat (nat_of_digits s) = s"
proof -
  have pos: "nat_of_digits s > 0 \<or> s = ''0''" if "all_digits s" "s = ''0'' \<or> hd s \<noteq> CHR ''0''" for s
    using that
  proof (induction s rule: rev_induct)
    case Nil
    then show ?case by (simp add: all_digits_def)
  next
    case (snoc c s)
    show ?case
    proof (cases "s = []")
      case True
      with snoc.prems have "is_digit c" "c \<noteq> CHR ''0'' \<or> c = CHR ''0''"
        by (auto simp: all_digits_def)
      moreover have "of_char c \<noteq> (48::nat)" if "c \<noteq> CHR ''0''"
        using that of_char_zero_digit by blast
      ultimately show ?thesis
        using True by (auto simp: nat_of_digits_def digit_val_def is_digit_def)
    next
      case False
      with snoc.prems have "all_digits s" "hd s \<noteq> CHR ''0''" by (auto simp: all_digits_def)
      with snoc.IH have "nat_of_digits s > 0" by (metis list.sel(1))
      then show ?thesis by simp
    qed
  qed
  show ?thesis
    using assms
  proof (induction s rule: rev_induct)
    case Nil
    then show ?case by (simp add: all_digits_def)
  next
    case (snoc c s)
    have c: "digit_val c < 10" "digit_char (digit_val c) = c"
      using snoc.prems by (auto simp: all_digits_def is_digit_def digit_val_def digit_char_def)
    show ?case
    proof (cases "s = []")
      case True
      with c show ?thesis by (subst string_of_nat.simps) (simp add: nat_of_digits_def)
    next
      case False
      with snoc.prems have s: "all_digits s" "hd s \<noteq> CHR ''0''" by (auto simp: all_digits_def)
      with pos [of s] have "nat_of_digits s > 0" by (metis list.sel(1))
      moreover have "string_of_nat (nat_of_digits s) = s" using snoc.IH s by blast
      ultimately show ?thesis
        using c by (subst string_of_nat.simps) simp
    qed
  qed
qed


lemma string_of_nat_small: "n < 10 \<Longrightarrow> string_of_nat n = [digit_char n]"
  by (subst string_of_nat.simps) simp

lemma string_of_nat_step: "n \<ge> 10 \<Longrightarrow> string_of_nat n = string_of_nat (n div 10) @ [digit_char (n mod 10)]"
  by (subst string_of_nat.simps) simp

lemma length_string_of_nat_octet: "d < 256 \<Longrightarrow> length (string_of_nat d) \<le> 3"
proof -
  assume d: "d < 256"
  have two: "length (string_of_nat e) \<le> 2" if "e < 100" for e
    using that by (cases "e < 10") (simp_all add: string_of_nat_small string_of_nat_step)
  show ?thesis
    using d two [of "d div 10"] by (cases "d < 10") (simp_all add: string_of_nat_small string_of_nat_step [of d])
qed

lemma digit_char_zero: "d < 10 \<Longrightarrow> digit_char d = CHR ''0'' \<longleftrightarrow> d = 0"
proof -
  assume "d < 10"
  then have "digit_val (digit_char d) = d" by (rule digit_char_inverse)
  moreover have "digit_val (CHR ''0'') = 0" by code_simp
  moreover have "digit_char 0 = CHR ''0''" by code_simp
  ultimately show ?thesis by metis
qed

lemma hd_string_of_nat: "n > 0 \<Longrightarrow> hd (string_of_nat n) \<noteq> CHR ''0''"
proof (induction n rule: string_of_nat.induct)
  case (1 n)
  then show ?case
    using string_of_nat_digits [of "n div 10"]
    by (cases "n < 10") (simp_all add: string_of_nat_small string_of_nat_step [of n] digit_char_zero)
qed

lemma parse_octet_string_of_nat [simp]: "d < 256 \<Longrightarrow> parse_octet (string_of_nat d) = Some d"
proof (cases "d = 0")
  case True
  have "parse_octet (string_of_nat 0) = Some 0" by code_simp
  with True show ?thesis by simp
next
  case False
  assume "d < 256"
  with False length_string_of_nat_octet [of d] hd_string_of_nat [of d] show ?thesis
    by (auto simp: parse_octet_def)
qed

lemma no_dot_in_digits: "list_all is_digit s \<Longrightarrow> CHR ''.'' \<notin> set s"
  by (auto simp: list_all_iff is_digit_def)

lemma parse_octet_Some:
  "parse_octet s = Some d \<Longrightarrow> string_of_nat d = s \<and> d < 256"
  by (auto simp: parse_octet_def canonical_digits split: if_splits)

lemma octets_alt:
  "octets a = [a div 256 div 256 div 256 mod 256, a div 256 div 256 mod 256, a div 256 mod 256, a mod 256]"
  by (simp add: octets_def div_mult2_eq [symmetric])

lemma octets_of_octets:
  "\<lbrakk>a < 256; b < 256; c < 256; d < 256\<rbrakk> \<Longrightarrow> octets (ipv4_of_octets [a, b, c, d]) = [a, b, c, d]"
proof -
  assume b: "a < 256" "b < 256" "c < 256" "d < 256"
  have step: "(256 * n + e) div 256 = n \<and> (256 * n + e) mod 256 = e" if "e < 256" for n e :: nat
    using that by simp
  have "ipv4_of_octets [a, b, c, d] = 256 * (256 * (256 * a + b) + c) + d"
    by (simp add: ipv4_of_octets_def)
  with b show ?thesis by (simp only: octets_alt step) simp
qed

lemma octets_inverse:
  assumes "a < 2 ^ 32"
  shows "ipv4_of_octets (octets a) = a"
proof -
  define q1 q2 q3 where q: "q1 = a div 256" "q2 = q1 div 256" "q3 = q2 div 256"
  have "q3 < 256" using assms by (simp add: q)
  moreover have "a = 256 * q1 + a mod 256" "q1 = 256 * q2 + q1 mod 256" "q2 = 256 * q3 + q2 mod 256"
    by (simp_all add: q)
  moreover have "octets a = [q3 mod 256, q2 mod 256, q1 mod 256, a mod 256]"
    by (simp add: octets_alt q)
  ultimately show ?thesis by (simp add: ipv4_of_octets_def)
qed

text \<open>Writing an address and reading it again gives the address.\<close>

lemma ipv4_of_string_of_ipv4 [simp]:
  assumes "a < 2 ^ 32"
  shows "ipv4_of_string (string_of_ipv4 a) = Some a"
proof -
  have "\<forall>x\<in>set (map string_of_nat (octets a)). CHR ''.'' \<notin> set x"
    using string_of_nat_digits no_dot_in_digits by auto
  then have "split_on (CHR ''.'') (string_of_ipv4 a) = map string_of_nat (octets a)"
    unfolding string_of_ipv4_def by (intro split_on_join) (simp_all add: octets_def)
  then show ?thesis
    using octets_inverse [OF assms] by (simp add: ipv4_of_string_def octets_def)
qed

lemma py_join_split_on: "py_join [c] (split_on c s) = s"
proof (induction s)
  case Nil
  then show ?case by simp
next
  case (Cons x s)
  obtain p ps where "split_on c s = p # ps" by (meson neq_Nil_conv split_on_nonempty)
  with Cons.IH show ?case by (cases ps) auto
qed

text \<open>Only the canonical text of an address is accepted.\<close>

lemma ipv4_of_string_Some:
  assumes "ipv4_of_string s = Some a"
  shows "string_of_ipv4 a = s \<and> a < 2 ^ 32"
proof -
  obtain w x y z p q r t where parts: "split_on (CHR ''.'') s = [p, q, r, t]"
    and os: "parse_octet p = Some w" "parse_octet q = Some x" "parse_octet r = Some y" "parse_octet t = Some z"
    and a: "a = ipv4_of_octets [w, x, y, z]"
    using assms by (auto simp: ipv4_of_string_def split: list.splits option.splits)
  note bounds = os [THEN parse_octet_Some]
  have "string_of_ipv4 a = py_join ''.'' [p, q, r, t]"
    using bounds by (simp add: a string_of_ipv4_def octets_of_octets)
  then have "string_of_ipv4 a = s"
    using py_join_split_on [of "CHR ''.''" s] by (simp add: parts)
  moreover have "a < 2 ^ 32"
    using bounds by (simp add: a ipv4_of_octets_def)
  ultimately show ?thesis by simp
qed

lemma string_of_ipv4_inj: "a < 2 ^ 32 \<Longrightarrow> b < 2 ^ 32 \<Longrightarrow> string_of_ipv4 a = string_of_ipv4 b \<longleftrightarrow> a = b"
  by (metis ipv4_of_string_of_ipv4 option.inject)

section \<open>Network arithmetic\<close>

lemma net_size_pos [simp]: "0 < net_size p"
  by (simp add: net_size_def)

lemma in_own_network: "in_net a (ipv4_network a p)"
proof -
  have "a mod net_size p < net_size p" "a mod net_size p \<le> a" by simp_all
  then have "a - a mod net_size p \<le> a \<and> a < a - a mod net_size p + net_size p" by linarith
  then show ?thesis by (simp add: in_net_def ipv4_network_def)
qed

lemma hosts_in_net: "h \<in> set (hosts n) \<Longrightarrow> in_net h n"
  by (auto simp: hosts_def in_net_def Let_def split: if_splits)

lemma network_bound:
  assumes "a < 2 ^ 32" and "p \<le> 32"
  shows "net_address (ipv4_network a p) + net_size p \<le> 2 ^ 32"
proof -
  have dvd: "net_size p dvd 2 ^ 32" unfolding net_size_def by (rule le_imp_power_dvd) simp
  obtain k where k: "(2::nat) ^ 32 = net_size p * k" using dvd by blast
  have "a div net_size p < k"
    using assms(1) by (intro less_mult_imp_div_less) (simp only: k mult.commute)
  then have "(a div net_size p + 1) * net_size p \<le> k * net_size p" by (intro mult_le_mono1) simp
  then show ?thesis
    unfolding ipv4_network_def k by (simp add: minus_mod_eq_mult_div algebra_simps)
qed

end
