(* ===== verification/PyJson.thy ===== *)
theory PyJson imports PyEffects PyFloat Ipv4 "HOL-Library.AList" begin

text \<open>
  JSON payloads as Python holds them, and the pure code that reads them: a value or an
  exception (\<open>exn + 'a\<close>). A JSON number that the program reads is a whole number or, for the
  few gauges that are not, a rational. A dict is an association list in insertion order.
\<close>

datatype json =
    JNull
  | JBool bool
  | JInt int
  | JNum rat
  | JStr string
  | JArr "json list"
  | JObj "(string \<times> json) list"

fun py_truth :: "json \<Rightarrow> bool" where
  "py_truth JNull = False"
| "py_truth (JBool b) = b"
| "py_truth (JInt i) = (i \<noteq> 0)"
| "py_truth (JNum r) = (r \<noteq> 0)"
| "py_truth (JStr s) = (s \<noteq> [])"
| "py_truth (JArr xs) = (xs \<noteq> [])"
| "py_truth (JObj kvs) = (kvs \<noteq> [])"

text \<open>\<open>x or d\<close>\<close>

definition py_or :: "json \<Rightarrow> json \<Rightarrow> json" where
  "py_or x d = (if py_truth x then x else d)"

section \<open>Values or exceptions\<close>

definition rbind :: "exn + 'a \<Rightarrow> ('a \<Rightarrow> exn + 'b) \<Rightarrow> exn + 'b" where
  "rbind r f = (case r of Inl e \<Rightarrow> Inl e | Inr x \<Rightarrow> f x)"

definition rmap :: "('a \<Rightarrow> 'b) \<Rightarrow> exn + 'a \<Rightarrow> exn + 'b" where
  "rmap f r = (case r of Inl e \<Rightarrow> Inl e | Inr x \<Rightarrow> Inr (f x))"

text \<open>A loop that collects, and stops at the first exception.\<close>

fun rcollect :: "('a \<Rightarrow> exn + 'b list) \<Rightarrow> 'a list \<Rightarrow> exn + 'b list" where
  "rcollect f [] = Inr []"
| "rcollect f (x # xs) = rbind (f x) (\<lambda>ys. rmap ((@) ys) (rcollect f xs))"

text \<open>\<open>try: r except Exception: h\<close>\<close>

definition rcatch :: "exn + 'a \<Rightarrow> (exn \<Rightarrow> exn + 'a) \<Rightarrow> exn + 'a" where
  "rcatch r h = (case r of Inl e \<Rightarrow> h e | Inr x \<Rightarrow> Inr x)"

lemma rbind_simps [simp]: "rbind (Inl e) f = Inl e" "rbind (Inr x) f = f x"
  by (simp_all add: rbind_def)

lemma rmap_simps [simp]: "rmap g (Inl e) = Inl e" "rmap g (Inr x) = Inr (g x)"
  by (simp_all add: rmap_def)

lemma rcatch_simps [simp]: "rcatch (Inl e) h = h e" "rcatch (Inr x) h = Inr x"
  by (simp_all add: rcatch_def)

lemma rbind_Inr_iff: "rbind r f = Inr y \<longleftrightarrow> (\<exists>x. r = Inr x \<and> f x = Inr y)"
  by (cases r) auto

lemma rmap_Inr_iff: "rmap f r = Inr y \<longleftrightarrow> (\<exists>x. r = Inr x \<and> y = f x)"
  by (cases r) auto

lemma rcollect_set:
  "rcollect f xs = Inr ys \<Longrightarrow> y \<in> set ys \<longleftrightarrow> (\<exists>x\<in>set xs. \<exists>zs. f x = Inr zs \<and> y \<in> set zs)"
proof (induction xs arbitrary: ys)
  case (Cons x xs)
  then obtain zs ws where "f x = Inr zs" "rcollect f xs = Inr ws" "ys = zs @ ws"
    by (auto simp: rbind_Inr_iff rmap_Inr_iff)
  then show ?case using Cons.IH [of ws] by auto
qed simp

definition type_error :: exn where "type_error = PyError ''TypeError'' ''unsupported operand''"
definition attribute_error :: exn where "attribute_error = PyError ''AttributeError'' ''object has no attribute''"
definition key_error :: "string \<Rightarrow> exn" where "key_error k = PyError ''KeyError'' k"
definition value_error :: "string \<Rightarrow> exn" where "value_error m = PyError ''ValueError'' m"

section \<open>Reading\<close>

definition dict_get :: "(string \<times> json) list \<Rightarrow> string \<Rightarrow> json \<Rightarrow> json" where
  "dict_get kvs k d = opt_or (map_of kvs k) d"

text \<open>\<open>x.get(k, d)\<close>: only a dict has \<open>get\<close>.\<close>

fun jget :: "json \<Rightarrow> string \<Rightarrow> json \<Rightarrow> exn + json" where
  "jget (JObj kvs) k d = Inr (dict_get kvs k d)"
| "jget _ k d = Inl attribute_error"

text \<open>\<open>x[k]\<close> with a text key.\<close>

fun jindex :: "json \<Rightarrow> string \<Rightarrow> exn + json" where
  "jindex (JObj kvs) k = (case map_of kvs k of Some v \<Rightarrow> Inr v | None \<Rightarrow> Inl (key_error k))"
| "jindex _ k = Inl type_error"

text \<open>\<open>for y in x\<close>: a list, the keys of a dict, the characters of a text.\<close>

fun jiter :: "json \<Rightarrow> exn + json list" where
  "jiter (JArr xs) = Inr xs"
| "jiter (JObj kvs) = Inr (map (JStr \<circ> fst) kvs)"
| "jiter (JStr s) = Inr (map (\<lambda>c. JStr [c]) s)"
| "jiter _ = Inl type_error"

text \<open>\<open>x.items()\<close>\<close>

fun jitems :: "json \<Rightarrow> exn + (string \<times> json) list" where
  "jitems (JObj kvs) = Inr kvs"
| "jitems _ = Inl attribute_error"

text \<open>\<open>int(x)\<close>\<close>

fun jint :: "json \<Rightarrow> exn + int" where
  "jint (JInt i) = Inr i"
| "jint (JBool b) = Inr (if b then 1 else 0)"
| "jint (JNum r) = Inr (if 0 \<le> r then floor r else - floor (- r))"
| "jint (JStr s) = (case py_int s of Some i \<Rightarrow> Inr i | None \<Rightarrow> Inl (value_error s))"
| "jint _ = Inl type_error"

text \<open>A value that the program goes on to use as text.\<close>

fun jtext :: "json \<Rightarrow> exn + string" where
  "jtext (JStr s) = Inr s"
| "jtext _ = Inl attribute_error"

definition the_int :: "json \<Rightarrow> int option" where
  "the_int x = (case x of JInt i \<Rightarrow> Some i | _ \<Rightarrow> None)"

definition the_text :: "json \<Rightarrow> string option" where
  "the_text x = (case x of JStr s \<Rightarrow> Some s | _ \<Rightarrow> None)"

text \<open>\<open>d[k] = v\<close> keeps the position of a key that is there.\<close>

abbreviation dict_set :: "'k \<Rightarrow> 'v \<Rightarrow> ('k \<times> 'v) list \<Rightarrow> ('k \<times> 'v) list" where
  "dict_set \<equiv> AList.update"

lemma keys_dict_set: "set (map fst (dict_set k v al)) = insert k (set (map fst al))"
  by (induction al) auto

lemma set_dict_set: "x \<in> set (dict_set k v al) \<Longrightarrow> x = (k, v) \<or> x \<in> set al"
  by (induction al) (auto split: if_splits)

lemma distinct_dict_set: "distinct (map fst al) \<Longrightarrow> distinct (map fst (dict_set k v al))"
  by (simp add: distinct_update)

end
