(* ===== verification/PyRegex.thy ===== *)
theory PyRegex imports Prelude begin

text \<open>
  Python's \<open>re\<close> as a backtracking matcher, for the constructs the sources use: character
  classes, concatenation, alternation, greedy and lazy repetition, groups, the anchors \<open>^ $ \b\<close>.
  A match is a list of successes in the order in which the backtracking engine would try
  them, so its first element is the match Python returns. The state carries the character
  before the position (for \<open>\b\<close> and \<open>^\<close>), the rest of the text and the groups
  closed so far, the latest first.
\<close>

datatype rx =
    Eps
  | Cls "char \<Rightarrow> bool"
  | Seq rx rx
  | Alt rx rx
  | Star rx
  | Grp nat rx
  | WordB
  | AtStart
  | AtEnd
  | AtLast
  | LazyStar rx

type_synonym rx_state = "char option \<times> string \<times> (nat \<times> string) list"

abbreviation rest_of :: "rx_state \<Rightarrow> string" where
  "rest_of st \<equiv> fst (snd st)"

definition is_word :: "char \<Rightarrow> bool" where
  "is_word c = (is_alpha c \<or> is_digit c \<or> c = CHR ''_'')"

definition at_boundary :: "rx_state \<Rightarrow> bool" where
  "at_boundary st =
     ((case fst st of None \<Rightarrow> False | Some c \<Rightarrow> is_word c) \<noteq>
      (case rest_of st of [] \<Rightarrow> False | c # _ \<Rightarrow> is_word c))"

definition close_group :: "nat \<Rightarrow> string \<Rightarrow> rx_state \<Rightarrow> rx_state" where
  "close_group n from_here st =
     (fst st, rest_of st, (n, take (length from_here - length (rest_of st)) from_here) # snd (snd st))"

function mt :: "rx \<Rightarrow> rx_state \<Rightarrow> rx_state list" where
  "mt Eps st = [st]"
| "mt (Cls P) st = (case rest_of st of [] \<Rightarrow> [] | c # cs \<Rightarrow> if P c then [(Some c, cs, snd (snd st))] else [])"
| "mt (Seq r q) st = concat (map (mt q) (mt r st))"
| "mt (Alt r q) st = mt r st @ mt q st"
| "mt (Star r) st =
     concat (map (\<lambda>st'. if length (rest_of st') < length (rest_of st) then mt (Star r) st' else []) (mt r st)) @ [st]"
| "mt (Grp n r) st = map (close_group n (rest_of st)) (mt r st)"
| "mt WordB st = (if at_boundary st then [st] else [])"
| "mt AtStart st = (if fst st = None then [st] else [])"
| "mt AtEnd st = (if rest_of st = [] \<or> rest_of st = [CHR 0x0A] then [st] else [])"
| "mt AtLast st = (if rest_of st = [] then [st] else [])"
| "mt (LazyStar r) st =
     st # concat (map (\<lambda>st'. if length (rest_of st') < length (rest_of st) then mt (LazyStar r) st' else []) (mt r st))"
  by pat_completeness auto
termination
  by (relation "measures [\<lambda>(r, st). size r, \<lambda>(r, st). length (rest_of st)]") auto

declare mt.simps [simp del]

section \<open>Building expressions\<close>

fun seqs :: "rx list \<Rightarrow> rx" where
  "seqs [] = Eps"
| "seqs [r] = r"
| "seqs (r # q # rs) = Seq r (seqs (q # rs))"

fun alts :: "rx list \<Rightarrow> rx" where
  "alts [] = Cls (\<lambda>_. False)"
| "alts [r] = r"
| "alts (r # q # rs) = Alt r (alts (q # rs))"

definition chr_rx :: "char \<Rightarrow> rx" where "chr_rx c = Cls ((=) c)"
definition lit :: "string \<Rightarrow> rx" where "lit s = seqs (map chr_rx s)"
definition one_of :: "string \<Rightarrow> rx" where "one_of s = Cls (\<lambda>c. c \<in> set s)"
definition none_of :: "string \<Rightarrow> rx" where "none_of s = Cls (\<lambda>c. c \<notin> set s)"
definition digit :: rx where "digit = Cls is_digit"
definition space :: rx where "space = Cls is_space"
definition plus :: "rx \<Rightarrow> rx" where "plus r = Seq r (Star r)"
definition opt :: "rx \<Rightarrow> rx" where "opt r = Alt r Eps"
definition rep :: "nat \<Rightarrow> rx \<Rightarrow> rx" where "rep n r = seqs (replicate n r)"
definition digits :: rx where "digits = plus digit"

text \<open>Case-insensitive (\<open>re.IGNORECASE\<close>) literals and classes.\<close>

definition lit_ci :: "string \<Rightarrow> rx" where
  "lit_ci s = seqs (map (\<lambda>c. Cls (\<lambda>d. lower_char d = lower_char c)) s)"

definition one_of_ci :: "string \<Rightarrow> rx" where
  "one_of_ci s = Cls (\<lambda>d. lower_char d \<in> set (py_lower s))"

text \<open>\<open>\d+(?:\.\d+)?\<close>, the number form of most of the program's patterns.\<close>

definition decimal :: rx where
  "decimal = Seq digits (opt (seqs [chr_rx (CHR ''.''), digits]))"

lemmas rx_builders = chr_rx_def lit_def one_of_def none_of_def digit_def space_def plus_def opt_def
  rep_def digits_def lit_ci_def one_of_ci_def decimal_def

section \<open>match, search, fullmatch\<close>

type_synonym groups = "(nat \<times> string) list"

definition run_at :: "rx \<Rightarrow> char option \<Rightarrow> string \<Rightarrow> groups option" where
  "run_at r prev s = (case mt (Grp 0 r) (prev, s, []) of [] \<Rightarrow> None | st # _ \<Rightarrow> Some (snd (snd st)))"

definition rx_match :: "rx \<Rightarrow> string \<Rightarrow> groups option" where
  "rx_match r s = run_at r None s"

definition rx_fullmatch :: "rx \<Rightarrow> string \<Rightarrow> groups option" where
  "rx_fullmatch r s = run_at (Seq r AtLast) None s"

fun search_from :: "rx \<Rightarrow> char option \<Rightarrow> string \<Rightarrow> groups option" where
  "search_from r prev [] = run_at r prev []"
| "search_from r prev (c # s) =
     (case run_at r prev (c # s) of Some g \<Rightarrow> Some g | None \<Rightarrow> search_from r (Some c) s)"

definition rx_search :: "rx \<Rightarrow> string \<Rightarrow> groups option" where
  "rx_search r s = search_from r None s"

text \<open>\<open>m.group(n)\<close>: \<open>None\<close> for a group that took no part in the match.\<close>

definition group :: "groups \<Rightarrow> nat \<Rightarrow> string option" where
  "group g n = map_of g n"

definition group_text :: "groups \<Rightarrow> nat \<Rightarrow> string" where
  "group_text g n = opt_or (group g n) []"

section \<open>Laws of the matcher\<close>

lemma mt_seq_Cls:
  "mt (Seq (Cls P) q) (p, c # s, g) = (if P c then mt q (Some c, s, g) else [])"
  "mt (Seq (Cls P) q) (p, [], g) = []"
  by (simp_all add: mt.simps)

text \<open>Every match consumes a prefix of the text.\<close>

lemma mt_suffix: "st' \<in> set (mt r st) \<Longrightarrow> suffix (rest_of st') (rest_of st)"
proof (induction r st arbitrary: st' rule: mt.induct)
  case (2 P st)
  then show ?case
    by (cases "rest_of st") (auto simp: mt.simps split: if_splits intro: suffix_ConsI)
next
  case (3 r q st)
  then obtain st1 where "st1 \<in> set (mt r st)" "st' \<in> set (mt q st1)" by (auto simp: mt.simps(3))
  with "3.IH" show ?case by (blast intro: suffix_order.trans)
next
  case (5 r st)
  show ?case
  proof (cases "st' = st")
    case False
    from "5.prems" have "st' \<in> set (concat (map (\<lambda>st'. if length (rest_of st') < length (rest_of st)
        then mt (Star r) st' else []) (mt r st)) @ [st])"
      by (subst (asm) mt.simps(5))
    with False obtain st1 where st1: "st1 \<in> set (mt r st)"
      "length (rest_of st1) < length (rest_of st)" "st' \<in> set (mt (Star r) st1)"
      by (auto split: if_splits)
    with "5.IH" show ?thesis by (blast intro: suffix_order.trans)
  qed simp
next
  case (6 n r st)
  then obtain st1 where "st1 \<in> set (mt r st)" "rest_of st' = rest_of st1"
    by (auto simp: mt.simps(6) close_group_def)
  with "6.IH" show ?case by simp
next
  case (11 r st)
  show ?case
  proof (cases "st' = st")
    case False
    from "11.prems" have "st' \<in> set (st # concat (map (\<lambda>st'. if length (rest_of st') < length (rest_of st)
        then mt (LazyStar r) st' else []) (mt r st)))"
      by (subst (asm) mt.simps(11))
    with False obtain st1 where st1: "st1 \<in> set (mt r st)"
      "length (rest_of st1) < length (rest_of st)" "st' \<in> set (mt (LazyStar r) st1)"
      by (auto split: if_splits)
    with "11.IH" show ?thesis by (blast intro: suffix_order.trans)
  qed simp
qed (auto simp: mt.simps(1,4,7-10) split: if_splits)

text \<open>A greedy run of one character class: the longest prefix is tried first.\<close>

lemma mt_star_cls_stop:
  "(\<And>c cs. rest_of st = c # cs \<Longrightarrow> \<not> P c) \<Longrightarrow> mt (Star (Cls P)) st = [st]"
  by (cases "rest_of st") (simp_all add: mt.simps(2,5))

lemma mt_star_cls_step:
  "P c \<Longrightarrow> mt (Star (Cls P)) (p, c # s, g) = mt (Star (Cls P)) (Some c, s, g) @ [(p, c # s, g)]"
  by (subst mt.simps) (simp add: mt.simps(2))

lemma mt_star_cls_hd:
  assumes "list_all P ds" and "\<And>c cs. s = c # cs \<Longrightarrow> \<not> P c"
  shows "\<exists>more. mt (Star (Cls P)) (p, ds @ s, g) =
           (if ds = [] then p else Some (last ds), s, g) # more"
  using assms
proof (induction ds arbitrary: p)
  case Nil
  then have "mt (Star (Cls P)) (p, s, g) = [(p, s, g)]" by (intro mt_star_cls_stop) simp
  then show ?case by simp
next
  case (Cons d ds)
  from Cons.IH [of "Some d"] Cons.prems obtain more where
    "mt (Star (Cls P)) (Some d, ds @ s, g) = (if ds = [] then Some d else Some (last ds), s, g) # more"
    by fastforce
  with Cons.prems show ?case by (simp add: mt_star_cls_step)
qed

end
