(* ===== verification/HostStats.thy ===== *)
theory HostStats imports PyJson PyRegex begin

text \<open>
  The restore host's gauges (the counter parsers and \<open>compute_io_rates\<close> of
  \<open>app/services/restore_server.py\<close>): \<open>/proc/meminfo\<close>, \<open>/proc/diskstats\<close>,
  \<open>/proc/net/dev\<close> and link speeds as dicts, and two samples turned into rates. Float
  arithmetic is binary64 (\<open>fl64\<close> rounds the exact result of each operation).
\<close>

section \<open>Parsing the counters\<close>

record meminfo =
  mem_total :: int
  mem_free :: int
  mem_buff_cache :: int
  mem_available :: int
  mem_used :: int

definition meminfo_line :: "string \<Rightarrow> (string \<times> int) list \<Rightarrow> (string \<times> int) list" where
  "meminfo_line line kb =
     (case py_partition (CHR '':'') line of
        (key, _, rest) \<Rightarrow>
          (case split_ws (py_strip rest) of
             [] \<Rightarrow> kb
           | p # _ \<Rightarrow> if all_digits p then dict_set (py_strip key) (int (nat_of_digits p) * 1024) kb else kb))"

definition parse_meminfo :: "string \<Rightarrow> meminfo option" where
  "parse_meminfo txt =
     (let kb = fold meminfo_line (splitlines txt) []
      in case map_of kb ''MemTotal'' of
           None \<Rightarrow> None
         | Some tot \<Rightarrow>
             let free = opt_or (map_of kb ''MemFree'') 0;
                 buff_cache = opt_or (map_of kb ''Buffers'') 0 + opt_or (map_of kb ''Cached'') 0
                              + opt_or (map_of kb ''SReclaimable'') 0
             in Some \<lparr>mem_total = tot, mem_free = free, mem_buff_cache = buff_cache,
                      mem_available = opt_or (map_of kb ''MemAvailable'') (free + buff_cache),
                      mem_used = max 0 (tot - free - buff_cache)\<rparr>)"

text \<open>\<open>^(nvme\d+n\d+|sd[a-z]+|vd[a-z]+|xvd[a-z]+)$\<close>\<close>

definition PHYS_DISK_RE :: rx where
  "PHYS_DISK_RE = seqs [AtStart,
     Grp 1 (alts [seqs [lit ''nvme'', digits, lit ''n'', digits], Seq (lit ''sd'') (plus (Cls is_lower)),
                  Seq (lit ''vd'') (plus (Cls is_lower)), Seq (lit ''xvd'') (plus (Cls is_lower))]),
     AtEnd]"

definition SECTOR_BYTES :: int where "SECTOR_BYTES = 512"

type_synonym disk_counters = "(string \<times> int \<times> int \<times> int) list"

definition diskstats_line :: "string \<Rightarrow> disk_counters \<Rightarrow> disk_counters" where
  "diskstats_line line out =
     (let f = split_ws line
      in if length f < 14 \<or> rx_match PHYS_DISK_RE (f ! 2) = None then out
         else case (py_int (f ! 5), py_int (f ! 9), py_int (f ! 12)) of
                (Some r, Some w, Some b) \<Rightarrow> dict_set (f ! 2) (r * SECTOR_BYTES, w * SECTOR_BYTES, b) out
              | _ \<Rightarrow> out)"

definition parse_diskstats :: "string \<Rightarrow> disk_counters" where
  "parse_diskstats txt = fold diskstats_line (splitlines txt) []"

type_synonym net_counters = "(string \<times> int \<times> int) list"

definition netdev_line :: "string \<Rightarrow> net_counters \<Rightarrow> net_counters" where
  "netdev_line line out =
     (case py_partition (CHR '':'') line of
        (name0, sep, rest) \<Rightarrow>
          let name = py_strip name0; cols = split_ws rest
          in if \<not> sep \<or> name = ''lo'' then out
             else if length cols < 16 then out
             else case (py_int (cols ! 0), py_int (cols ! 8)) of
                    (Some rx, Some tx) \<Rightarrow> dict_set name (rx, tx) out
                  | _ \<Rightarrow> out)"

definition parse_netdev :: "string \<Rightarrow> net_counters" where
  "parse_netdev txt = fold netdev_line (splitlines txt) []"

definition speeds_line :: "string \<Rightarrow> (string \<times> int) list \<Rightarrow> (string \<times> int) list" where
  "speeds_line line out =
     (let parts = split_ws line
      in if length parts = 2
         then (case py_int (parts ! 1) of
                 None \<Rightarrow> out
               | Some mbit \<Rightarrow> if mbit > 0 then dict_set (parts ! 0) mbit out else out)
         else out)"

definition parse_speeds :: "string \<Rightarrow> (string \<times> int) list" where
  "parse_speeds txt = fold speeds_line (splitlines txt) []"

section \<open>Two samples, one rate\<close>

record io_sample =
  s_time :: rat
  s_disk :: disk_counters
  s_net :: net_counters
  s_link_bps :: int

record io_rates =
  have_rates :: bool
  disk_read :: int
  disk_write :: int
  disk_util :: int
  disk_read_pct :: int
  disk_write_pct :: int
  net_in :: int
  net_out :: int
  net_in_pct :: int
  net_out_pct :: int
  net_link :: int
  disk_max :: int

definition zero_rates :: "io_sample \<Rightarrow> int \<Rightarrow> io_rates" where
  "zero_rates cur disk_max_bps =
     \<lparr>have_rates = False, disk_read = 0, disk_write = 0, disk_util = 0, disk_read_pct = 0, disk_write_pct = 0,
      net_in = 0, net_out = 0, net_in_pct = 0, net_out_pct = 0, net_link = s_link_bps cur,
      disk_max = disk_max_bps\<rparr>"

text \<open>A difference of counters over the elapsed seconds, in floating point.\<close>

definition rate :: "int \<Rightarrow> rat \<Rightarrow> rat" where
  "rate d dt = fl64 (fl64 (of_int d) / dt)"

text \<open>The loop over the disks: \<open>None\<close> where a counter went backwards.\<close>

fun disk_loop :: "disk_counters \<Rightarrow> disk_counters \<Rightarrow> rat \<Rightarrow> rat \<times> rat \<times> rat \<Rightarrow> (rat \<times> rat \<times> rat) option" where
  "disk_loop [] prev dt acc = Some acc"
| "disk_loop ((dev, r, w, busy) # ds) prev dt (rd, wr, util) =
     (case map_of prev dev of
        None \<Rightarrow> disk_loop ds prev dt (rd, wr, util)
      | Some (pr, pw, pbusy) \<Rightarrow>
          if r < pr \<or> w < pw \<or> busy < pbusy then None
          else disk_loop ds prev dt
                 (fl64 (rd + rate (r - pr) dt), fl64 (wr + rate (w - pw) dt),
                  max util (fl64 (fl64 (fl64 (of_int (busy - pbusy)) / fl64 (dt * 1000)) * 100))))"

fun net_loop :: "net_counters \<Rightarrow> net_counters \<Rightarrow> rat \<Rightarrow> rat \<times> rat \<Rightarrow> (rat \<times> rat) option" where
  "net_loop [] prev dt acc = Some acc"
| "net_loop ((iface, rx, tx) # ns) prev dt (i, out) =
     (case map_of prev iface of
        None \<Rightarrow> net_loop ns prev dt (i, out)
      | Some (prx, ptx) \<Rightarrow>
          if rx < prx \<or> tx < ptx then None
          else net_loop ns prev dt (fl64 (i + rate (rx - prx) dt), fl64 (out + rate (tx - ptx) dt)))"

text \<open>\<open>min(100, round(v / cap * 100)) if cap else 0\<close>\<close>

definition pct_of :: "rat \<Rightarrow> int \<Rightarrow> int" where
  "pct_of v cap = (if cap \<noteq> 0 then min 100 (round_half_even (fl64 (fl64 (v / of_int cap) * 100))) else 0)"

definition rates_of :: "io_sample \<Rightarrow> int \<Rightarrow> rat \<times> rat \<times> rat \<Rightarrow> rat \<times> rat \<Rightarrow> io_rates" where
  "rates_of cur disk_max_bps d n =
     (case d of (rd, wr, util) \<Rightarrow> case n of (ni, no) \<Rightarrow>
        let link = s_link_bps cur
        in \<lparr>have_rates = True, disk_read = round_half_even rd, disk_write = round_half_even wr,
            disk_util = min 100 (round_half_even util), disk_read_pct = pct_of rd disk_max_bps,
            disk_write_pct = pct_of wr disk_max_bps, net_in = round_half_even ni,
            net_out = round_half_even no, net_in_pct = pct_of ni link,
            net_out_pct = pct_of no link, net_link = link, disk_max = disk_max_bps\<rparr>)"

definition compute_io_rates :: "io_sample option \<Rightarrow> io_sample \<Rightarrow> int \<Rightarrow> io_rates" where
  "compute_io_rates prev cur disk_max_bps =
     (case prev of
        None \<Rightarrow> zero_rates cur disk_max_bps
      | Some p \<Rightarrow>
          let dt = fl64 (s_time cur - s_time p)
          in if dt \<le> 0 then zero_rates cur disk_max_bps
             else case disk_loop (s_disk cur) (s_disk p) dt (0, 0, 0) of
                    None \<Rightarrow> zero_rates cur disk_max_bps
                  | Some d \<Rightarrow>
                      (case net_loop (s_net cur) (s_net p) dt (0, 0) of
                         None \<Rightarrow> zero_rates cur disk_max_bps
                       | Some n \<Rightarrow> rates_of cur disk_max_bps d n))"

section \<open>Facts\<close>

lemma rate_nonneg: "0 \<le> d \<Longrightarrow> 0 \<le> dt \<Longrightarrow> 0 \<le> rate d dt"
  by (simp add: rate_def fl64_nonneg)

lemma disk_loop_nonneg:
  "disk_loop ds prev dt (rd, wr, util) = Some (rd', wr', util') \<Longrightarrow> 0 \<le> dt \<Longrightarrow> 0 \<le> rd \<Longrightarrow> 0 \<le> wr \<Longrightarrow> 0 \<le> util
   \<Longrightarrow> 0 \<le> rd' \<and> 0 \<le> wr' \<and> 0 \<le> util'"
proof (induction ds prev dt "(rd, wr, util)" arbitrary: rd wr util rule: disk_loop.induct)
  case (2 dev r w busy ds prev dt rd wr util)
  show ?case
  proof (cases "map_of prev dev")
    case None
    then show ?thesis using 2 by simp
  next
    case (Some c)
    obtain pr pw pb where c: "c = (pr, pw, pb)" by (cases c) auto
    have ge: "\<not> (r < pr \<or> w < pw \<or> busy < pb)" using "2.prems"(1) Some c by (auto split: if_splits)
    then have "0 \<le> fl64 (rd + rate (r - pr) dt)" "0 \<le> fl64 (wr + rate (w - pw) dt)"
      using "2.prems" by (simp_all add: fl64_nonneg rate_nonneg)
    then show ?thesis
      using "2.hyps"(2) [OF Some c [symmetric] refl ge] "2.prems" Some c ge by simp
  qed
qed simp

lemma net_loop_nonneg:
  "net_loop ns prev dt (i, out) = Some (i', out') \<Longrightarrow> 0 \<le> dt \<Longrightarrow> 0 \<le> i \<Longrightarrow> 0 \<le> out \<Longrightarrow> 0 \<le> i' \<and> 0 \<le> out'"
  by (induction ns prev dt "(i, out)" arbitrary: i out rule: net_loop.induct)
    (auto simp: fl64_nonneg rate_nonneg split: option.splits if_splits)

lemma pct_of_range: "0 \<le> v \<Longrightarrow> 0 \<le> cap \<Longrightarrow> 0 \<le> pct_of v cap \<and> pct_of v cap \<le> 100"
  using round_half_even_ge [of 0 "fl64 (fl64 (v / of_int cap) * 100)"]
  by (simp add: pct_of_def fl64_nonneg)

lemma compute_io_rates_cases:
  obtains (zero) "compute_io_rates prev cur disk_max_bps = zero_rates cur disk_max_bps"
  | (rates) rd wr util ni no where
      "compute_io_rates prev cur disk_max_bps = rates_of cur disk_max_bps (rd, wr, util) (ni, no)"
      "0 \<le> rd" "0 \<le> wr" "0 \<le> util" "0 \<le> ni" "0 \<le> no"
proof (cases "compute_io_rates prev cur disk_max_bps = zero_rates cur disk_max_bps")
  case False
  then obtain p where p: "prev = Some p" by (cases prev) (auto simp: compute_io_rates_def)
  let ?dt = "fl64 (s_time cur - s_time p)"
  have dt: "\<not> ?dt \<le> 0" using False by (auto simp: compute_io_rates_def p Let_def)
  obtain d where d: "disk_loop (s_disk cur) (s_disk p) ?dt (0, 0, 0) = Some d"
    using False dt by (cases "disk_loop (s_disk cur) (s_disk p) ?dt (0, 0, 0)") (auto simp: compute_io_rates_def p Let_def)
  obtain n where n: "net_loop (s_net cur) (s_net p) ?dt (0, 0) = Some n"
    using False dt d by (cases "net_loop (s_net cur) (s_net p) ?dt (0, 0)") (auto simp: compute_io_rates_def p Let_def)
  obtain rd wr util ni no where "d = (rd, wr, util)" "n = (ni, no)" by (cases d; cases n) auto
  moreover from this have "0 \<le> rd \<and> 0 \<le> wr \<and> 0 \<le> util" "0 \<le> ni \<and> 0 \<le> no"
    using disk_loop_nonneg [of _ _ ?dt 0 0 0] net_loop_nonneg [of _ _ ?dt 0 0] d n dt by auto
  moreover have "compute_io_rates prev cur disk_max_bps = rates_of cur disk_max_bps d n"
    using dt d n by (simp add: compute_io_rates_def p Let_def)
  ultimately show thesis using rates by simp
qed (rule zero)

text \<open>A parser keeps each interface or device once, and only those that pass its filter.\<close>

lemma fold_dict_invariant:
  assumes "\<And>l out. P out \<Longrightarrow> P (f l out)" and "P out"
  shows "P (fold f ls out)"
  using assms by (induction ls arbitrary: out) auto

lemma parse_speeds_ok:
  "distinct (map fst (parse_speeds txt)) \<and> (\<forall>x\<in>set (parse_speeds txt). snd x > 0)"
  unfolding parse_speeds_def
  by (rule fold_dict_invariant)
    (auto simp: speeds_line_def Let_def distinct_dict_set dest!: set_dict_set split: option.splits)


lemma parse_diskstats_ok:
  "distinct (map fst (parse_diskstats txt))
   \<and> (\<forall>x\<in>set (parse_diskstats txt). rx_match PHYS_DISK_RE (fst x) \<noteq> None)"
  unfolding parse_diskstats_def
  by (rule fold_dict_invariant)
    (auto simp: diskstats_line_def Let_def distinct_dict_set dest!: set_dict_set split: option.splits)

lemma netdev_line_cases:
  "netdev_line line out = out \<or> (\<exists>name rx tx. name \<noteq> ''lo'' \<and> netdev_line line out = dict_set name (rx, tx) out)"
  by (cases "py_partition (CHR '':'') line") (auto simp: netdev_line_def Let_def split: option.split)

lemma parse_netdev_ok:
  "distinct (map fst (parse_netdev txt)) \<and> (\<forall>x\<in>set (parse_netdev txt). fst x \<noteq> ''lo'')"
  unfolding parse_netdev_def
proof (rule fold_dict_invariant)
  fix l and out :: net_counters
  assume inv: "distinct (map fst out) \<and> (\<forall>x\<in>set out. fst x \<noteq> ''lo'')"
  consider "netdev_line l out = out"
    | name rx tx where "name \<noteq> ''lo''" "netdev_line l out = dict_set name (rx, tx) out"
    using netdev_line_cases [of l out] by (elim disjE exE conjE) simp_all
  then show "distinct (map fst (netdev_line l out)) \<and> (\<forall>x\<in>set (netdev_line l out). fst x \<noteq> ''lo'')"
  proof cases
    case 1
    then show ?thesis unfolding 1 by (intro inv)
  next
    case 2
    have "fst x \<noteq> ''lo''" if "x \<in> set (dict_set name (rx, tx) out)" for x
      using set_dict_set [OF that] inv 2(1) by fastforce
    then show ?thesis unfolding 2(2) using inv by (simp add: distinct_dict_set)
  qed
qed simp

section \<open>Properties\<close>

text \<open>the gauges stay on their scales: every share is between 0 and 100 and no rate is
  negative, whatever the samples.\<close>

theorem compute_io_rates_ranges:
  fixes prev cur disk_max_bps
  assumes "0 \<le> s_link_bps cur" and "0 \<le> disk_max_bps"
  defines "r \<equiv> compute_io_rates prev cur disk_max_bps"
  shows "disk_util r \<in> {0..100} \<and> disk_read_pct r \<in> {0..100} \<and> disk_write_pct r \<in> {0..100}
    \<and> net_in_pct r \<in> {0..100} \<and> net_out_pct r \<in> {0..100}
    \<and> 0 \<le> disk_read r \<and> 0 \<le> disk_write r \<and> 0 \<le> net_in r \<and> 0 \<le> net_out r"
proof -
  consider "r = zero_rates cur disk_max_bps"
    | rd wr util ni no where "r = rates_of cur disk_max_bps (rd, wr, util) (ni, no)"
      "0 \<le> rd" "0 \<le> wr" "0 \<le> util" "0 \<le> ni" "0 \<le> no"
    unfolding r_def by (rule compute_io_rates_cases)
  then show ?thesis
  proof cases
    case 1
    then show ?thesis by (simp add: zero_rates_def)
  next
    case 2
    have "0 \<le> round_half_even x" if "0 \<le> x" for x
      using that round_half_even_ge [of 0 x] by simp
    then show ?thesis
      using 2 assms(1,2) pct_of_range by (simp add: rates_of_def Let_def)
  qed
qed

text \<open>the counters of a sample: each device or interface occurs once, partitions, device
  mappers and the loopback are never counted, and only links with a negotiated speed have one.\<close>

theorem host_counters_wellformed:
  "distinct (map fst (parse_diskstats d)) \<and> list_all (\<lambda>x. rx_match PHYS_DISK_RE (fst x) \<noteq> None) (parse_diskstats d)
   \<and> distinct (map fst (parse_netdev n)) \<and> list_all (\<lambda>x. fst x \<noteq> ''lo'') (parse_netdev n)
   \<and> distinct (map fst (parse_speeds v)) \<and> list_all (\<lambda>x. snd x > 0) (parse_speeds v)"
  using parse_diskstats_ok parse_netdev_ok parse_speeds_ok unfolding list_all_iff by blast

end
