(* ===== verification/RestoreProbe.thy ===== *)
theory RestoreProbe imports Prelude "HOL-Library.Multiset" begin

text \<open>
  Result classification of a restore test (\<open>app/services/restore_probe.py\<close>): what the
  helper's probe agent reports per address, the verdict over one address (\<open>classify\<close>)
  and over several (\<open>classify_multi\<close>), and the labels of the live card.

  A probe result is the JSON object of one address: two liveness flags and a map from the
  port number, as text, to whether it is open (a key that is missing counts as false, as in
  \<open>.get(..., False)\<close>). The \<open>checks\<close> object of a run is either the map from addresses to
  probe results or one of the notes that the worker stores in its place.
\<close>

record probe_result =
  icmp :: bool
  arp :: bool
  ports :: "(string \<times> bool) list"

type_synonym probe_checks = "(string \<times> probe_result) list"

datatype run_checks = Checks probe_checks | Note string | ErrorNote string

text \<open>\<open>{}\<close>: what \<open>checks.get(ip) or {}\<close> gives for an address without an entry.\<close>

definition no_answer :: probe_result where
  "no_answer = \<lparr>icmp = False, arp = False, ports = []\<rparr>"

text \<open>The verdicts, from the worst to the best.\<close>

datatype restore_result = Failed | Limited | Passed

fun result_text :: "restore_result \<Rightarrow> string" where
  "result_text Passed = ''passed''"
| "result_text Limited = ''limited''"
| "result_text Failed = ''failed''"

fun result_rank :: "restore_result \<Rightarrow> nat" where
  "result_rank Failed = 0"
| "result_rank Limited = 1"
| "result_rank Passed = 2"

lemma result_rank_inj: "result_rank a = result_rank b \<longleftrightarrow> a = b"
  by (cases a; cases b) auto

instantiation restore_result :: linorder
begin

definition less_eq_restore_result :: "restore_result \<Rightarrow> restore_result \<Rightarrow> bool" where
  "less_eq_restore_result a b = (result_rank a \<le> result_rank b)"

definition less_restore_result :: "restore_result \<Rightarrow> restore_result \<Rightarrow> bool" where
  "less_restore_result a b = (result_rank a < result_rank b)"

instance
  by standard (auto simp: less_eq_restore_result_def less_restore_result_def result_rank_inj)

end

lemma result_order_simps [simp]:
  "Failed \<le> r" "r \<le> Passed" "Limited \<le> r \<longleftrightarrow> r \<noteq> Failed" "Passed \<le> r \<longleftrightarrow> r = Passed"
  "r \<le> Failed \<longleftrightarrow> r = Failed"
  by (cases r; simp add: less_eq_restore_result_def)+

text \<open>\<open>r.get("ports", {}).get(str(p), False)\<close>\<close>

definition port_open :: "probe_result \<Rightarrow> int \<Rightarrow> bool" where
  "port_open r p = (map_of (ports r) (string_of_int p) = Some True)"

definition is_alive :: "probe_result \<Rightarrow> bool" where
  "is_alive r = (icmp r \<or> arp r)"

definition classify :: "probe_result option \<Rightarrow> bool \<Rightarrow> int list \<Rightarrow> bool \<Rightarrow> restore_result" where
  "classify primary_result require_icmp tcp_ports had_ip =
     (case primary_result of
        None \<Rightarrow> Limited
      | Some r \<Rightarrow>
          if \<not> had_ip then Limited
          else let live_ok = (is_alive r \<or> \<not> require_icmp);
                   ports_ok = list_all (port_open r) tcp_ports
               in if live_ok \<and> ports_ok then Passed
                  else if \<not> (is_alive r \<or> list_ex (port_open r) tcp_ports) then Failed
                  else Limited)"

text \<open>\<open>[checks.get(ip) or {} for ip in ips]\<close>\<close>

definition results_of :: "probe_checks \<Rightarrow> string list \<Rightarrow> probe_result list" where
  "results_of checks ips = map (\<lambda>ip. opt_or (map_of checks ip) no_answer) ips"

definition classify_multi :: "probe_checks \<Rightarrow> string list \<Rightarrow> bool \<Rightarrow> int list \<Rightarrow> bool \<Rightarrow> restore_result" where
  "classify_multi checks ips require_icmp tcp_ports had_ip =
     (if \<not> had_ip \<or> ips = [] then Limited
      else let results = results_of checks ips;
               alive = list_ex is_alive results;
               live_ok = (alive \<or> \<not> require_icmp);
               ports_ok = list_all (\<lambda>p. list_ex (\<lambda>r. port_open r p) results) tcp_ports
           in if live_ok \<and> ports_ok then Passed
              else let reachable_anything = (alive \<or> list_ex (\<lambda>r. list_ex (port_open r) tcp_ports) results)
                   in if reachable_anything then Limited else Failed)"

text \<open>The labels of the checks that are already green: \<open>int(port)\<close> of a key that is no number
  is skipped; the numbers form a set and are listed in order.\<close>

definition open_ports :: "probe_result list \<Rightarrow> int list" where
  "open_ports results =
     remdups (sort (concat (map (\<lambda>r. concat (map (\<lambda>(port, ok).
        if ok then (case py_int port of Some n \<Rightarrow> [n] | None \<Rightarrow> []) else []) (ports r))) results)))"

fun green_check_labels :: "run_checks \<Rightarrow> string list" where
  "green_check_labels (Checks checks) =
     (let results = map snd checks
      in (if list_ex icmp results then [''ICMP''] else [])
         @ (if list_ex arp results then [''ARP''] else [])
         @ map string_of_int (open_ports results))"
| "green_check_labels (Note _) = []"
| "green_check_labels (ErrorNote _) = []"

text \<open>One pass over the injected transport: \<open>transport(mgmt_ip, token, targets)\<close>.\<close>

definition probe_once :: "string \<Rightarrow> string \<Rightarrow> 't list \<Rightarrow> (string \<Rightarrow> string \<Rightarrow> 't list \<Rightarrow> 'r) \<Rightarrow> 'r" where
  "probe_once mgmt_ip token targets transport = transport mgmt_ip token targets"

section \<open>Facts\<close>

lemma results_of_Nil [simp]: "results_of checks [] = []"
  by (simp add: results_of_def)

lemma set_results_of: "set (results_of checks ips) = (\<lambda>ip. opt_or (map_of checks ip) no_answer) ` set ips"
  by (simp add: results_of_def)

text \<open>Only the set of addresses matters, not their order or how often one is listed.\<close>

lemma classify_multi_cong:
  assumes "set ips = set ips'"
  shows "classify_multi checks ips ri tp h = classify_multi checks ips' ri tp h"
proof -
  have "set (results_of checks ips) = set (results_of checks ips')"
    using assms by (simp add: set_results_of)
  then have "list_ex P (results_of checks ips) = list_ex P (results_of checks ips')" for P
    by (simp add: list_ex_iff)
  moreover have "ips = [] \<longleftrightarrow> ips' = []" using assms by (metis set_empty)
  ultimately show ?thesis by (simp add: classify_multi_def Let_def)
qed

text \<open>The verdict in terms of what answered.\<close>

definition answered :: "probe_checks \<Rightarrow> string list \<Rightarrow> int list \<Rightarrow> bool" where
  "answered checks ips tcp_ports =
     (\<exists>r\<in>set (results_of checks ips). is_alive r \<or> (\<exists>p\<in>set tcp_ports. port_open r p))"

lemma classify_multi_cases:
  assumes "ips \<noteq> []"
  shows "classify_multi checks ips ri tp True =
    (if ((\<exists>r\<in>set (results_of checks ips). is_alive r) \<or> \<not> ri)
        \<and> (\<forall>p\<in>set tp. \<exists>r\<in>set (results_of checks ips). port_open r p) then Passed
     else if answered checks ips tp then Limited else Failed)"
  using assms
  by (auto simp: classify_multi_def Let_def list_ex_iff list_all_iff answered_def)

text \<open>A probe result is at least as green as another one.\<close>

definition greener :: "probe_result \<Rightarrow> probe_result \<Rightarrow> bool" where
  "greener r r' = ((is_alive r \<longrightarrow> is_alive r') \<and> (\<forall>p. port_open r p \<longrightarrow> port_open r' p))"

lemma no_answer_least: "greener no_answer r"
  by (simp add: greener_def no_answer_def is_alive_def port_open_def)

lemma greener_trans: "greener a b \<Longrightarrow> greener b c \<Longrightarrow> greener a c"
  by (simp add: greener_def)

section \<open>Properties\<close>

text \<open>with one address the union classifier is the plain classifier of that address'
  result.\<close>

theorem classify_multi_single:
  "classify_multi checks [ip] ri tp h =
     classify (Some (opt_or (map_of checks ip) no_answer)) ri tp h"
  by (simp add: classify_multi_def classify_def results_of_def Let_def list_ex_iff list_all_iff)

text \<open>more green answers, or more addresses probed, never make the verdict worse.\<close>

theorem classify_multi_mono:
  assumes "ips \<noteq> []" and "set ips \<subseteq> set ips'"
    and "\<And>ip. greener (opt_or (map_of checks ip) no_answer) (opt_or (map_of checks' ip) no_answer)"
  shows "classify_multi checks ips ri tp True \<le> classify_multi checks' ips' ri tp True"
proof -
  have up: "\<exists>r'\<in>set (results_of checks' ips'). greener r r'" if "r \<in> set (results_of checks ips)" for r
    using that assms(2,3) by (auto simp: set_results_of)
  have ips': "ips' \<noteq> []" using assms(1,2) by auto
  have alive: "\<exists>r\<in>set (results_of checks' ips'). is_alive r"
    if "\<exists>r\<in>set (results_of checks ips). is_alive r"
    using that up by (fastforce simp: greener_def)
  have port: "\<exists>r\<in>set (results_of checks' ips'). port_open r p"
    if "\<exists>r\<in>set (results_of checks ips). port_open r p" for p
    using that up by (fastforce simp: greener_def)
  have "answered checks' ips' tp" if "answered checks ips tp"
    using that alive port unfolding answered_def by blast
  then show ?thesis
    using alive port by (simp add: classify_multi_cases [OF assms(1)] classify_multi_cases [OF ips'])
qed

text \<open>a verdict of \<open>failed\<close> means that nothing answered; when something is required of the
  guest (liveness, or at least one port), the converse holds too.\<close>

theorem failed_iff_silent:
  assumes "ips \<noteq> []" and "ri \<or> tp \<noteq> []"
  shows "classify_multi checks ips ri tp True = Failed \<longleftrightarrow> \<not> answered checks ips tp"
proof -
  have "\<not> (\<forall>p\<in>set tp. \<exists>r\<in>set (results_of checks ips). port_open r p) \<or> (ri \<and> tp = [])"
    if "\<not> answered checks ips tp"
    using that assms(2) by (cases tp) (auto simp: answered_def)
  then show ?thesis
    by (auto simp: classify_multi_cases [OF assms(1)] answered_def)
qed

text \<open>a test that requires nothing passes whatever the probe saw.\<close>

theorem nothing_required_passes:
  "ips \<noteq> [] \<Longrightarrow> classify_multi checks ips False [] True = Passed"
  by (simp add: classify_multi_cases)

end
