(* ===== verification/RestoreDb.thy ===== *)
theory RestoreDb imports PyEffects RestoreProbe PyFloat "HOL-Library.Product_Lexorder" begin

text \<open>
  The database layer of restore testing (\<open>app/db_restore.py\<close>) over its tables, whose
  columns and defaults are those of \<open>app/db_core.py\<close>: \<open>restore_runs\<close> (a list in the order
  of insertion, that is, of ascending \<open>id\<close>), \<open>restore_tests\<close>, \<open>vm_network_interfaces\<close>
  and the part of \<open>vms\<close>/\<open>vm_policies\<close> that scheduling reads. Each function of the module
  commits one transaction; it is one function on the whole database value here. A time is a
  number of microseconds since the epoch, \<open>clock\<close> is what \<open>NOW()\<close> and
  \<open>datetime.now(UTC)\<close> read.
\<close>

section \<open>Tables\<close>

record run_row =
  run_id :: int
  run_vm :: int
  trigger :: string
  status :: string
  restore_vmid :: "int option"
  helper_vmid :: "int option"
  vlan_tag :: "int option"
  mgmt_ip :: "string option"
  source_pbs :: "string option"
  source_datastore :: "string option"
  source_namespace :: "string option"
  snapshot_id :: "string option"
  target_storages :: "string list"
  bytes_total :: "int option"
  bytes_done :: "int option"
  percent :: "int option"
  throughput_bps :: "int option"
  eta :: "int option"
  run_result :: "string option"
  restore_test_id :: "int option"
  log :: string
  checks :: "run_checks option"
  queued_at :: int
  started_at :: "int option"
  finished_at :: "int option"
  duration_seconds :: "int option"
  task_upid :: "string option"
  phase :: "string option"
  detected_ip :: "string option"
  cancel_flag :: bool
  sort_order :: "int option"

record test_row =
  test_id :: int
  test_vm :: int
  tested_on :: int
  test_result :: string
  recovery_type :: string
  duration_minutes :: int
  evidence_note :: string
  test_created_at :: int

record nic_row =
  nic_vm :: int
  nic_index :: int
  mac :: string
  ip_addresses :: "string list"
  prefix :: "int option"
  is_primary :: bool
  source :: string
  seen_at :: int

record vm_row =
  vm_id :: int
  vm_cluster :: int
  vm_node :: "string option"
  vmid :: int
  vm_name :: string
  guest_type :: "string option"
  cluster_name :: "string option"
  memory_bytes :: "int option"

text \<open>The restore columns of \<open>vm_policies\<close>.\<close>

record policy_row =
  auto_restore_enabled :: bool
  restore_cadence :: string
  hold_on_failure :: bool
  probe_primary_ip :: "string option"
  probe_vlan :: "int option"
  probe_tcp_ports :: "int list"
  probe_require_icmp :: bool
  restore_retry_days :: int
  next_run_at :: "int option"
  probe_window_seconds :: "int option"
  probe_first_delay_seconds :: "int option"
  probe_interval_seconds :: "int option"

text \<open>The columns of the monitoring tables that restore testing reads: registered PBS
  servers, backups with their locations, the guests' data disks in display order.\<close>

record pbs_conn =
  conn_name :: "string option"
  conn_api_url :: "string option"
  conn_aliases :: "string list"

record backup_event =
  ev_vm :: int
  ev_status :: string
  ev_removed :: bool
  ev_size :: "int option"
  ev_locations :: "string list"

record disk_row =
  dk_vm :: int
  dk_dev :: string
  dk_size :: "int option"

text \<open>\<open>db_settings\<close> is the key/value table \<open>app_settings\<close>.\<close>

record db =
  runs :: "run_row list"
  next_run_id :: int
  tests :: "test_row list"
  next_test_id :: int
  nics :: "nic_row list"
  vms :: "(vm_row \<times> policy_row option) list"
  clock :: int
  db_cluster_urls :: "string list"
  db_pbs_conns :: "pbs_conn list"
  db_events :: "backup_event list"
  db_disks :: "disk_row list"
  db_settings :: "(string \<times> string) list"

definition second :: int where "second = 1000000"
definition day :: int where "day = 86400 * second"

text \<open>\<open>now.date()\<close> in UTC, as the number of days since the epoch.\<close>

definition date_of :: "int \<Rightarrow> int" where "date_of t = t div day"

section \<open>Creating runs\<close>

definition fresh_run :: "int \<Rightarrow> int \<Rightarrow> string \<Rightarrow> int \<Rightarrow> run_row" where
  "fresh_run i vm trig now =
     \<lparr>run_id = i, run_vm = vm, trigger = trig, status = ''queued'', restore_vmid = None, helper_vmid = None,
      vlan_tag = None, mgmt_ip = None, source_pbs = None, source_datastore = None, source_namespace = None,
      snapshot_id = None, target_storages = [], bytes_total = None, bytes_done = None, percent = None,
      throughput_bps = None, eta = None, run_result = None, restore_test_id = None, log = [],
      checks = None, queued_at = now, started_at = None, finished_at = None, duration_seconds = None,
      task_upid = None, phase = None, detected_ip = None, cancel_flag = False, sort_order = None\<rparr>"

definition LIVE_RUN_STATUSES :: "string list" where
  "LIVE_RUN_STATUSES = [''queued'', ''running'', ''held'']"

definition create_run :: "int \<Rightarrow> string \<Rightarrow> db \<Rightarrow> int \<times> db" where
  "create_run vm trig d =
     (next_run_id d,
      d\<lparr>runs := runs d @ [fresh_run (next_run_id d) vm trig (clock d)], next_run_id := next_run_id d + 1\<rparr>)"

definition enqueue_if_never_passed :: "int \<Rightarrow> string \<Rightarrow> db \<Rightarrow> int option \<times> db" where
  "enqueue_if_never_passed vm trig d =
     (if \<not> list_ex (\<lambda>r. run_vm r = vm \<and> status r \<in> set LIVE_RUN_STATUSES) (runs d)
         \<and> \<not> list_ex (\<lambda>r. run_vm r = vm \<and> run_result r = Some ''passed'') (runs d)
      then (case create_run vm trig d of (i, d') \<Rightarrow> (Some i, d'))
      else (None, d))"

definition get_run :: "int \<Rightarrow> db \<Rightarrow> run_row option" where
  "get_run i d = List.find (\<lambda>r. run_id r = i) (runs d)"

text \<open>\<open>UPDATE restore_runs SET ... WHERE P\<close>, and its \<open>rowcount\<close>.\<close>

definition update_where :: "(run_row \<Rightarrow> bool) \<Rightarrow> (run_row \<Rightarrow> run_row) \<Rightarrow> db \<Rightarrow> nat \<times> db" where
  "update_where P f d = (length (filter P (runs d)), d\<lparr>runs := map (\<lambda>r. if P r then f r else r) (runs d)\<rparr>)"

section \<open>Updating a run\<close>

text \<open>A keyword argument of \<open>update_run\<close>: the column it names and the new value.\<close>

datatype run_field =
    F_trigger string
  | F_status string
  | F_restore_vmid "int option"
  | F_helper_vmid "int option"
  | F_vlan_tag "int option"
  | F_mgmt_ip "string option"
  | F_source_pbs "string option"
  | F_source_datastore "string option"
  | F_source_namespace "string option"
  | F_snapshot_id "string option"
  | F_target_storages "string list"
  | F_bytes_total "int option"
  | F_bytes_done "int option"
  | F_percent "int option"
  | F_throughput_bps "int option"
  | F_eta "int option"
  | F_phase "string option"
  | F_detected_ip "string option"
  | F_result "string option"
  | F_restore_test_id "int option"
  | F_log string
  | F_checks "run_checks option"
  | F_started_at "int option"
  | F_finished_at "int option"
  | F_duration_seconds "int option"
  | F_task_upid "string option"
  | F_sort_order "int option"
  | F_cancel_requested bool

fun col_name :: "run_field \<Rightarrow> string" where
  "col_name (F_trigger _) = ''trigger''"
| "col_name (F_status _) = ''status''"
| "col_name (F_restore_vmid _) = ''restore_vmid''"
| "col_name (F_helper_vmid _) = ''helper_vmid''"
| "col_name (F_vlan_tag _) = ''vlan_tag''"
| "col_name (F_mgmt_ip _) = ''mgmt_ip''"
| "col_name (F_source_pbs _) = ''source_pbs''"
| "col_name (F_source_datastore _) = ''source_datastore''"
| "col_name (F_source_namespace _) = ''source_namespace''"
| "col_name (F_snapshot_id _) = ''snapshot_id''"
| "col_name (F_target_storages _) = ''target_storages''"
| "col_name (F_bytes_total _) = ''bytes_total''"
| "col_name (F_bytes_done _) = ''bytes_done''"
| "col_name (F_percent _) = ''percent''"
| "col_name (F_throughput_bps _) = ''throughput_bps''"
| "col_name (F_eta _) = ''eta''"
| "col_name (F_phase _) = ''phase''"
| "col_name (F_detected_ip _) = ''detected_ip''"
| "col_name (F_result _) = ''result''"
| "col_name (F_restore_test_id _) = ''restore_test_id''"
| "col_name (F_log _) = ''log''"
| "col_name (F_checks _) = ''checks''"
| "col_name (F_started_at _) = ''started_at''"
| "col_name (F_finished_at _) = ''finished_at''"
| "col_name (F_duration_seconds _) = ''duration_seconds''"
| "col_name (F_task_upid _) = ''task_upid''"
| "col_name (F_sort_order _) = ''sort_order''"
| "col_name (F_cancel_requested _) = ''cancel_requested''"

fun set_field :: "run_field \<Rightarrow> run_row \<Rightarrow> run_row" where
  "set_field (F_trigger v) r = r\<lparr>trigger := v\<rparr>"
| "set_field (F_status v) r = r\<lparr>status := v\<rparr>"
| "set_field (F_restore_vmid v) r = r\<lparr>restore_vmid := v\<rparr>"
| "set_field (F_helper_vmid v) r = r\<lparr>helper_vmid := v\<rparr>"
| "set_field (F_vlan_tag v) r = r\<lparr>vlan_tag := v\<rparr>"
| "set_field (F_mgmt_ip v) r = r\<lparr>mgmt_ip := v\<rparr>"
| "set_field (F_source_pbs v) r = r\<lparr>source_pbs := v\<rparr>"
| "set_field (F_source_datastore v) r = r\<lparr>source_datastore := v\<rparr>"
| "set_field (F_source_namespace v) r = r\<lparr>source_namespace := v\<rparr>"
| "set_field (F_snapshot_id v) r = r\<lparr>snapshot_id := v\<rparr>"
| "set_field (F_target_storages v) r = r\<lparr>target_storages := v\<rparr>"
| "set_field (F_bytes_total v) r = r\<lparr>bytes_total := v\<rparr>"
| "set_field (F_bytes_done v) r = r\<lparr>bytes_done := v\<rparr>"
| "set_field (F_percent v) r = r\<lparr>percent := v\<rparr>"
| "set_field (F_throughput_bps v) r = r\<lparr>throughput_bps := v\<rparr>"
| "set_field (F_eta v) r = r\<lparr>eta := v\<rparr>"
| "set_field (F_phase v) r = r\<lparr>phase := v\<rparr>"
| "set_field (F_detected_ip v) r = r\<lparr>detected_ip := v\<rparr>"
| "set_field (F_result v) r = r\<lparr>run_result := v\<rparr>"
| "set_field (F_restore_test_id v) r = r\<lparr>restore_test_id := v\<rparr>"
| "set_field (F_log v) r = r\<lparr>log := v\<rparr>"
| "set_field (F_checks v) r = r\<lparr>checks := v\<rparr>"
| "set_field (F_started_at v) r = r\<lparr>started_at := v\<rparr>"
| "set_field (F_finished_at v) r = r\<lparr>finished_at := v\<rparr>"
| "set_field (F_duration_seconds v) r = r\<lparr>duration_seconds := v\<rparr>"
| "set_field (F_task_upid v) r = r\<lparr>task_upid := v\<rparr>"
| "set_field (F_sort_order v) r = r\<lparr>sort_order := v\<rparr>"
| "set_field (F_cancel_requested v) r = r\<lparr>cancel_flag := v\<rparr>"

text \<open>\<open>_UPDATABLE\<close>\<close>

definition UPDATABLE :: "string list" where
  "UPDATABLE =
     [''trigger'', ''status'', ''restore_vmid'', ''helper_vmid'', ''vlan_tag'', ''mgmt_ip'', ''source_pbs'',
      ''source_datastore'', ''source_namespace'', ''snapshot_id'', ''target_storages'', ''bytes_total'',
      ''bytes_done'', ''percent'', ''throughput_bps'', ''eta'', ''phase'', ''detected_ip'', ''result'',
      ''restore_test_id'', ''log'', ''checks'', ''started_at'', ''finished_at'', ''duration_seconds'']"

definition update_run :: "int \<Rightarrow> run_field list \<Rightarrow> db \<Rightarrow> db" where
  "update_run i fs d =
     (let cols = filter (\<lambda>f. col_name f \<in> set UPDATABLE) fs
      in if cols = [] then d
         else snd (update_where (\<lambda>r. run_id r = i) (fold set_field cols) d))"


section \<open>Listing runs\<close>

text \<open>SQL \<open>LIKE\<close>: \<open>%\<close> any text, \<open>_\<close> one character, a backslash quotes. \<open>ILIKE\<close> ignores
  case.\<close>

fun sql_like :: "string \<Rightarrow> string \<Rightarrow> bool" where
  "sql_like [] s = (s = [])"
| "sql_like (p # ps) s =
     (if p = CHR ''%'' then sql_like ps s \<or> (case s of [] \<Rightarrow> False | _ # t \<Rightarrow> sql_like (p # ps) t)
      else if p = CHR ''_'' then (case s of [] \<Rightarrow> False | _ # t \<Rightarrow> sql_like ps t)
      else if p = CHR 0x5C then
        (case ps of [] \<Rightarrow> False
         | q # qs \<Rightarrow> (case s of [] \<Rightarrow> False | c # t \<Rightarrow> c = q \<and> sql_like qs t))
      else (case s of [] \<Rightarrow> False | c # t \<Rightarrow> c = p \<and> sql_like ps t))"

definition sql_ilike :: "string \<Rightarrow> string \<Rightarrow> bool" where
  "sql_ilike pat s = sql_like (py_lower pat) (py_lower s)"

definition vm_of :: "int \<Rightarrow> db \<Rightarrow> vm_row option" where
  "vm_of i d = map_option fst (List.find (\<lambda>(v, _). vm_id v = i) (vms d))"

text \<open>A missing or empty filter argument adds no condition; a condition on a joined column
  that is \<open>NULL\<close> is not true.\<close>

definition given :: "string option \<Rightarrow> (string \<Rightarrow> bool) \<Rightarrow> bool" where
  "given arg cond = (case arg of None \<Rightarrow> True | Some v \<Rightarrow> v = [] \<or> cond v)"

definition runs_filter :: "string option \<Rightarrow> string option \<Rightarrow> string option \<Rightarrow> string option \<Rightarrow> db \<Rightarrow> run_row \<Rightarrow> bool" where
  "runs_filter st trig cluster vm_query d r =
     (let v = vm_of (run_vm r) d
      in given st (\<lambda>x. status r = x)
         \<and> given trig (\<lambda>x. trigger r = x)
         \<and> given cluster (\<lambda>x. Option.bind v cluster_name = Some x)
         \<and> given vm_query (\<lambda>q. case v of None \<Rightarrow> False
              | Some w \<Rightarrow> sql_ilike (''%'' @ q @ ''%'') (vm_name w)
                         \<or> sql_like (''%'' @ q @ ''%'') (string_of_int (vmid w))))"

text \<open>Sort keys: \<open>ASC NULLS LAST\<close> puts \<open>NULL\<close> behind every value, \<open>DESC\<close> negates.\<close>

definition nulls_last :: "int option \<Rightarrow> nat \<times> int" where
  "nulls_last x = (case x of None \<Rightarrow> (1, 0) | Some v \<Rightarrow> (0, v))"

definition list_order :: "run_row \<Rightarrow> nat \<times> (nat \<times> int) \<times> (nat \<times> int) \<times> int \<times> int" where
  "list_order r =
     (if status r = ''queued'' then 0 else if status r = ''running'' then 1 else 2,
      nulls_last (if status r = ''queued'' then sort_order r else None),
      nulls_last (if status r = ''queued'' then Some (queued_at r) else None),
      - (case started_at r of Some t \<Rightarrow> t | None \<Rightarrow> queued_at r),
      - run_id r)"

definition list_runs :: "nat \<Rightarrow> string option \<Rightarrow> nat \<Rightarrow> string option \<Rightarrow> string option \<Rightarrow> string option \<Rightarrow> db \<Rightarrow> run_row list" where
  "list_runs limit st offset trig cluster vm_query d =
     take limit (drop offset (sort_key list_order (filter (runs_filter st trig cluster vm_query d) (runs d))))"

definition count_runs :: "string option \<Rightarrow> string option \<Rightarrow> string option \<Rightarrow> string option \<Rightarrow> db \<Rightarrow> nat" where
  "count_runs st trig cluster vm_query d = length (filter (runs_filter st trig cluster vm_query d) (runs d))"

section \<open>The queue\<close>

definition active_and_held_runs :: "db \<Rightarrow> run_row list" where
  "active_and_held_runs d = sort_key run_id (filter (\<lambda>r. status r \<in> {''running'', ''held''}) (runs d))"

definition queued_vm_ids :: "db \<Rightarrow> int list" where
  "queued_vm_ids d = remdups (map run_vm (filter (\<lambda>r. status r \<in> set LIVE_RUN_STATUSES) (runs d)))"

definition queue_order :: "run_row \<Rightarrow> (nat \<times> int) \<times> int \<times> int" where
  "queue_order r = (nulls_last (sort_order r), queued_at r, run_id r)"

definition list_queued_runs :: "db \<Rightarrow> run_row list" where
  "list_queued_runs d = sort_key queue_order (filter (\<lambda>r. status r = ''queued'') (runs d))"

definition next_queued_run :: "db \<Rightarrow> run_row option" where
  "next_queued_run d =
     (case sort_key queue_order (filter (\<lambda>r. status r = ''queued'') (runs d)) of [] \<Rightarrow> None | r # _ \<Rightarrow> Some r)"

fun reorder_from :: "int \<Rightarrow> int list \<Rightarrow> nat \<Rightarrow> db \<Rightarrow> nat \<times> db" where
  "reorder_from pos [] updated d = (updated, d)"
| "reorder_from pos (i # ids) updated d =
     (case update_where (\<lambda>r. run_id r = i \<and> status r = ''queued'') (\<lambda>r. r\<lparr>sort_order := Some pos\<rparr>) d of
        (n, d') \<Rightarrow> reorder_from (pos + 1) ids (updated + n) d')"

definition reorder_queue :: "int list \<Rightarrow> db \<Rightarrow> nat \<times> db" where
  "reorder_queue ordered_ids d = (if ordered_ids = [] then (0, d) else reorder_from 0 ordered_ids 0 d)"

definition has_active_run :: "db \<Rightarrow> bool" where
  "has_active_run d = list_ex (\<lambda>r. status r = ''running'') (runs d)"

definition has_queued_runs :: "db \<Rightarrow> bool" where
  "has_queued_runs d = list_ex (\<lambda>r. status r = ''queued'') (runs d)"

definition delete_run :: "int \<Rightarrow> db \<Rightarrow> bool \<times> db" where
  "delete_run i d =
     (let hit = (\<lambda>r. run_id r = i \<and> status r = ''queued'')
      in (filter hit (runs d) \<noteq> [], d\<lparr>runs := filter (\<lambda>r. \<not> hit r) (runs d)\<rparr>))"

definition request_cancel :: "int \<Rightarrow> db \<Rightarrow> bool \<times> db" where
  "request_cancel i d =
     (case update_where (\<lambda>r. run_id r = i \<and> status r = ''running'') (\<lambda>r. r\<lparr>cancel_flag := True\<rparr>) d of
        (n, d') \<Rightarrow> (n > 0, d'))"

definition cancel_requested :: "int \<Rightarrow> db \<Rightarrow> bool" where
  "cancel_requested i d = (case get_run i d of None \<Rightarrow> False | Some r \<Rightarrow> cancel_flag r)"

definition queue_state :: "db \<Rightarrow> string" where
  "queue_state d =
     (let states = map status (filter (\<lambda>r. status r \<in> {''running'', ''queued''}) (runs d))
      in if ''running'' \<in> set states then ''running''
         else if ''queued'' \<in> set states then ''queued'' else ''idle'')"

text \<open>\<open>DISTINCT ON (vm_id)\<close> keeps the first row of each VM in the given order. A dict keyed by
  VM is a function of the VM's id.\<close>

definition first_by :: "('a \<Rightarrow> 'k::linorder) \<Rightarrow> 'a list \<Rightarrow> 'a option" where
  "first_by k rs = (case sort_key k rs of [] \<Rightarrow> None | r # _ \<Rightarrow> Some r)"

definition latest_run_result_by_vm :: "db \<Rightarrow> int \<Rightarrow> string option" where
  "latest_run_result_by_vm d vm =
     Option.bind
       (first_by (\<lambda>r. (nulls_last (map_option uminus (finished_at r)), - run_id r))
          (filter (\<lambda>r. run_vm r = vm \<and> run_result r \<noteq> None) (runs d)))
       run_result"

definition active_run_by_vm :: "db \<Rightarrow> int \<Rightarrow> (string \<times> int option) option" where
  "active_run_by_vm d vm =
     map_option (\<lambda>r. (if status r = ''running'' then ''running'' else ''queued'', percent r))
       (first_by (\<lambda>r. (if status r = ''running'' then 0 else 1 :: nat, run_id r))
          (filter (\<lambda>r. run_vm r = vm \<and> status r \<in> {''running'', ''queued'', ''planned''}) (runs d)))"

section \<open>Network interfaces\<close>

text \<open>The rows to store carry no VM id and no time stamp of their own. The primary key is
  \<open>(vm_id, nic_index)\<close>: a second row with the same key fails the whole transaction, which
  leaves the table as it was.\<close>

definition set_network_interfaces :: "int \<Rightarrow> nic_row list \<Rightarrow> db \<Rightarrow> exn + db" where
  "set_network_interfaces vm rows d =
     (if distinct (map nic_index rows)
      then Inr (d\<lparr>nics := filter (\<lambda>n. nic_vm n \<noteq> vm) (nics d)
                         @ map (\<lambda>n. n\<lparr>nic_vm := vm, seen_at := clock d\<rparr>) rows\<rparr>)
      else Inl (PyError ''UniqueViolation'' ''duplicate key value violates unique constraint''))"

definition get_network_interfaces :: "int \<Rightarrow> db \<Rightarrow> nic_row list" where
  "get_network_interfaces vm d = sort_key nic_index (filter (\<lambda>n. nic_vm n = vm) (nics d))"

section \<open>Scheduling and results\<close>

definition COUNTS_AS_TEST :: "string list" where
  "COUNTS_AS_TEST = [''passed'', ''limited'']"

definition cadence_days :: "string \<Rightarrow> int" where
  "cadence_days c =
     (if c = ''month'' then 30 else if c = ''quarter'' then 91 else if c = ''year'' then 365 else 182)"

definition last_tested :: "int \<Rightarrow> db \<Rightarrow> int option" where
  "last_tested vm d = py_max id (map tested_on (filter (\<lambda>t. test_vm t = vm) (tests d)))"

definition is_due :: "db \<Rightarrow> vm_row \<Rightarrow> policy_row \<Rightarrow> bool" where
  "is_due d v p =
     (auto_restore_enabled p
      \<and> \<not> list_ex (\<lambda>r. run_vm r = vm_id v \<and> status r \<in> {''queued'', ''running'', ''held''}) (runs d)
      \<and> (case next_run_at p of
           Some t \<Rightarrow> t \<le> clock d
         | None \<Rightarrow> (case last_tested (vm_id v) d of
                     None \<Rightarrow> True
                   | Some t \<Rightarrow> t \<le> date_of (clock d) - cadence_days (restore_cadence p))))"

definition due_auto_restore_candidates :: "db \<Rightarrow> (vm_row \<times> policy_row) list" where
  "due_auto_restore_candidates d =
     sort_key (vm_id \<circ> fst)
       (concat (map (\<lambda>(v, po). case po of None \<Rightarrow> [] | Some p \<Rightarrow> if is_due d v p then [(v, p)] else []) (vms d)))"

definition whole_minutes :: "int \<Rightarrow> int" where
  "whole_minutes secs = max 0 (round_half_even (fl64 (of_int secs / 60)))"

definition finished_row ::
  "string \<Rightarrow> string \<Rightarrow> int \<Rightarrow> int option \<Rightarrow> int \<Rightarrow> run_checks option \<Rightarrow> string option \<Rightarrow> run_row \<Rightarrow> run_row" where
  "finished_row result final secs tid t chk logtext r =
     (let r1 = r\<lparr>status := final, run_result := Some result, finished_at := Some t,
                 duration_seconds := Some secs, restore_test_id := tid\<rparr>;
          r2 = (case chk of None \<Rightarrow> r1 | Some c \<Rightarrow> r1\<lparr>checks := Some c\<rparr>)
      in (case logtext of None \<Rightarrow> r2 | Some lt \<Rightarrow> r2\<lparr>log := lt\<rparr>))"

definition record_run_result ::
  "int \<Rightarrow> int \<Rightarrow> string \<Rightarrow> int \<Rightarrow> string \<Rightarrow> run_checks option \<Rightarrow> string option \<Rightarrow> string option \<Rightarrow> db \<Rightarrow> int option \<times> db" where
  "record_run_result i vm result secs note chk logtext st d =
     (let counts = (result \<in> set COUNTS_AS_TEST);
          tid = (if counts then Some (next_test_id d) else None);
          d1 = (if counts
                then d\<lparr>tests := tests d @ [\<lparr>test_id = next_test_id d, test_vm = vm, tested_on = date_of (clock d),
                          test_result = result, recovery_type = ''auto-full-vm'',
                          duration_minutes = whole_minutes secs, evidence_note = note,
                          test_created_at = clock d\<rparr>],
                       next_test_id := next_test_id d + 1\<rparr>
                else d);
          final = (case st of Some s \<Rightarrow> if s = [] then result else s | None \<Rightarrow> result)
      in (tid, snd (update_where (\<lambda>r. run_id r = i) (finished_row result final secs tid (clock d) chk logtext) d1)))"

definition set_vm_next_run :: "int \<Rightarrow> int option \<Rightarrow> db \<Rightarrow> db" where
  "set_vm_next_run vm due_at d =
     d\<lparr>vms := map (\<lambda>(v, po). if vm_id v = vm then (v, map_option (\<lambda>p. p\<lparr>next_run_at := due_at\<rparr>) po) else (v, po)) (vms d)\<rparr>"

definition schedule_retry :: "int \<Rightarrow> int \<Rightarrow> db \<Rightarrow> db" where
  "schedule_retry vm retry_days d = set_vm_next_run vm (Some (clock d + retry_days * day)) d"


section \<open>Well-formed tables\<close>

text \<open>Ids are unique and below the sequence's next value.\<close>

definition db_wf :: "db \<Rightarrow> bool" where
  "db_wf d = (distinct (map run_id (runs d)) \<and> (\<forall>r\<in>set (runs d). run_id r < next_run_id d)
             \<and> distinct (map test_id (tests d)) \<and> (\<forall>t\<in>set (tests d). test_id t < next_test_id d))"

definition live :: "run_row \<Rightarrow> bool" where
  "live r = (status r \<in> set LIVE_RUN_STATUSES)"

text \<open>No VM has two runs that are not finished.\<close>

definition one_live_run :: "db \<Rightarrow> bool" where
  "one_live_run d = (\<forall>vm. length (filter (\<lambda>r. run_vm r = vm \<and> live r) (runs d)) \<le> 1)"

lemma update_where_runs:
  "update_where P f d = (n, d') \<Longrightarrow>
     n = length (filter P (runs d)) \<and> d' = d\<lparr>runs := map (\<lambda>r. if P r then f r else r) (runs d)\<rparr>"
  by (auto simp: update_where_def)

lemma set_field_id [simp]: "run_id (set_field f r) = run_id r" "run_vm (set_field f r) = run_vm r"
  by (cases f; simp)+

lemma fold_set_field_id [simp]:
  "run_id (fold set_field fs r) = run_id r" "run_vm (fold set_field fs r) = run_vm r"
  by (induction fs arbitrary: r) simp_all

lemma runs_update_run:
  "runs (update_run i fs d) =
     map (\<lambda>r. if run_id r = i then fold set_field (filter (\<lambda>f. col_name f \<in> set UPDATABLE) fs) r else r) (runs d)"
  by (simp add: update_run_def update_where_def Let_def map_idI)

lemma update_run_frame [frame_simps]:
  "tests (update_run i fs d) = tests d" "next_run_id (update_run i fs d) = next_run_id d"
  "next_test_id (update_run i fs d) = next_test_id d" "vms (update_run i fs d) = vms d"
  "clock (update_run i fs d) = clock d" "nics (update_run i fs d) = nics d"
  by (simp_all add: update_run_def update_where_def Let_def)

lemma map_id_if: "map (\<lambda>r. run_id (if P r then f r else r)) xs = map run_id xs"
  if "\<And>r. run_id (f r) = run_id r"
  using that by (induction xs) auto

lemma update_run_wf: "db_wf d \<Longrightarrow> db_wf (update_run i fs d)"
  by (auto simp: db_wf_def runs_update_run frame_simps comp_def map_id_if)

lemma fresh_run_simps [simp]:
  "run_id (fresh_run i vm trig now) = i" "run_vm (fresh_run i vm trig now) = vm"
  "status (fresh_run i vm trig now) = ''queued''" "run_result (fresh_run i vm trig now) = None"
  by (simp_all add: fresh_run_def)

lemma below_fresh:
  assumes "\<forall>r\<in>S. f r < (n::int)"
  shows "n \<notin> f ` S" and "\<forall>r\<in>S. f r < n + 1"
proof -
  show "n \<notin> f ` S" using assms by blast
  show "\<forall>r\<in>S. f r < n + 1"
  proof
    fix r
    assume "r \<in> S"
    with assms have "f r < n" by blast
    then show "f r < n + 1" by linarith
  qed
qed

lemma create_run_wf: "db_wf d \<Longrightarrow> create_run vm trig d = (i, d') \<Longrightarrow> db_wf d' \<and> i \<notin> run_id ` set (runs d)"
  unfolding db_wf_def create_run_def using below_fresh [of "set (runs d)" run_id "next_run_id d"] by auto

lemma enqueue_wf: "db_wf d \<Longrightarrow> enqueue_if_never_passed vm trig d = (res, d') \<Longrightarrow> db_wf d'"
  by (auto simp: enqueue_if_never_passed_def create_run_wf split: if_splits prod.splits)

lemma delete_run_wf: "db_wf d \<Longrightarrow> delete_run i d = (b, d') \<Longrightarrow> db_wf d'"
  by (auto simp: db_wf_def delete_run_def Let_def distinct_map inj_on_def)

lemma finished_row_simps [simp]:
  "run_id (finished_row res st secs tid t chk lt r) = run_id r" "run_vm (finished_row res st secs tid t chk lt r) = run_vm r"
  "status (finished_row res st secs tid t chk lt r) = st" "run_result (finished_row res st secs tid t chk lt r) = Some res"
  "restore_vmid (finished_row res st secs tid t chk lt r) = restore_vmid r"
  "helper_vmid (finished_row res st secs tid t chk lt r) = helper_vmid r"
  "vlan_tag (finished_row res st secs tid t chk lt r) = vlan_tag r" "mgmt_ip (finished_row res st secs tid t chk lt r) = mgmt_ip r"
  by (simp_all add: finished_row_def Let_def split: option.splits)

lemma runs_record_run_result:
  "runs (snd (record_run_result i vm res secs nt chk lt st d)) =
     map (\<lambda>r. if run_id r = i
              then finished_row res (case st of Some s \<Rightarrow> if s = [] then res else s | None \<Rightarrow> res) secs
                     (if res \<in> set COUNTS_AS_TEST then Some (next_test_id d) else None) (clock d) chk lt r
              else r) (runs d)"
  by (simp add: record_run_result_def update_where_def Let_def)

lemma record_run_result_runs:
  "record_run_result i vm result secs note chk lt st d = (tid, d') \<Longrightarrow>
     map run_id (runs d') = map run_id (runs d) \<and> next_run_id d' = next_run_id d \<and> vms d' = vms d
     \<and> clock d' = clock d"
  by (auto simp: record_run_result_def finished_row_def update_where_def Let_def comp_def split: option.splits)

lemma record_run_result_wf:
  assumes "db_wf d" and "record_run_result i vm result secs note chk lt st d = (tid, d')"
  shows "db_wf d'"
proof -
  have ids: "map run_id (runs d') = map run_id (runs d)" "next_run_id d' = next_run_id d"
    using record_run_result_runs [OF assms(2)] by auto
  have "\<forall>r\<in>set (runs d'). run_id r < next_run_id d'"
    using assms(1) ids by (metis (no_types, lifting) db_wf_def imageE image_eqI set_map)
  moreover have "distinct (map test_id (tests d')) \<and> (\<forall>t\<in>set (tests d'). test_id t < next_test_id d')"
  proof (cases "result \<in> set COUNTS_AS_TEST")
    case True
    then obtain t where "tests d' = tests d @ [t]" "test_id t = next_test_id d"
      "next_test_id d' = next_test_id d + 1"
      using assms(2) by (auto simp: record_run_result_def finished_row_def update_where_def Let_def)
    then show ?thesis
      using assms(1) below_fresh [of "set (tests d)" test_id "next_test_id d"] by (auto simp: db_wf_def)
  next
    case False
    then have "tests d' = tests d" "next_test_id d' = next_test_id d"
      using assms(2) by (auto simp: record_run_result_def finished_row_def update_where_def Let_def)
    then show ?thesis using assms(1) by (simp add: db_wf_def)
  qed
  ultimately show ?thesis using assms(1) ids by (simp add: db_wf_def)
qed

lemma get_run_Some: "get_run i d = Some r \<Longrightarrow> r \<in> set (runs d) \<and> run_id r = i"
  by (auto simp: get_run_def dest: find_Some_first)

lemma get_run_unique:
  assumes "db_wf d" and "r \<in> set (runs d)"
  shows "get_run (run_id r) d = Some r"
proof -
  have "List.find (\<lambda>q. run_id q = run_id r) rs = Some r"
    if "distinct (map run_id rs)" "r \<in> set rs" for rs
    using that by (induction rs) (auto simp: rev_image_eqI)
  then show ?thesis using assms by (simp add: get_run_def db_wf_def)
qed

lemma get_run_map:
  assumes "\<And>r. run_id (g r) = run_id r"
  shows "List.find (\<lambda>r. run_id r = i) (map g rs) = map_option g (List.find (\<lambda>r. run_id r = i) rs)"
  using assms by (induction rs) auto

lemma get_run_update_run:
  "get_run j (update_run i fs d) =
     (if j = i then map_option (fold set_field (filter (\<lambda>f. col_name f \<in> set UPDATABLE) fs)) (get_run j d)
      else get_run j d)"
proof -
  let ?g = "\<lambda>r. if run_id r = i then fold set_field (filter (\<lambda>f. col_name f \<in> set UPDATABLE) fs) r else r"
  have "get_run j (update_run i fs d) = map_option ?g (get_run j d)"
    unfolding get_run_def runs_update_run by (rule get_run_map) simp
  then show ?thesis
    by (cases "get_run j d") (auto dest: get_run_Some)
qed

lemma update_where_wf:
  assumes "db_wf d" and "\<And>r. run_id (f r) = run_id r" and "update_where P f d = (n, d')"
  shows "db_wf d'"
proof -
  have d': "d' = d\<lparr>runs := map (\<lambda>r. if P r then f r else r) (runs d)\<rparr>"
    using update_where_runs [OF assms(3)] by blast
  have ids: "map run_id (runs d') = map run_id (runs d)"
    unfolding d' by (simp add: comp_def map_id_if assms(2))
  moreover have "run_id ` set (runs d') = run_id ` set (runs d)"
    using ids by (metis set_map)
  moreover have "next_run_id d' = next_run_id d" "tests d' = tests d" "next_test_id d' = next_test_id d"
    unfolding d' by simp_all
  ultimately show ?thesis
    using assms(1) unfolding db_wf_def by (metis (no_types, lifting) imageE image_eqI)
qed

lemma reorder_from_wf: "db_wf d \<Longrightarrow> reorder_from pos ids n d = (m, d') \<Longrightarrow> db_wf d'"
proof (induction ids arbitrary: pos n d)
  case (Cons i ids)
  obtain k d1 where d1: "update_where (\<lambda>r. run_id r = i \<and> status r = ''queued'')
      (\<lambda>r. r\<lparr>sort_order := Some pos\<rparr>) d = (k, d1)" by fastforce
  have "db_wf d1" by (rule update_where_wf [OF Cons.prems(1) _ d1]) simp
  moreover have "reorder_from (pos + 1) ids (n + k) d1 = (m, d')"
    using Cons.prems(2) by (simp add: d1)
  ultimately show ?case by (rule Cons.IH)
qed simp

section \<open>The order of the queue\<close>

lemma sorted_unique:
  assumes "inj_on k (set xs)" "set ys = set xs" "distinct ys" "distinct xs" "sorted (map k ys)"
  shows "sort_key k xs = ys"
proof -
  have "distinct (map k ys)" "distinct (map k xs)" using assms by (simp_all add: distinct_map)
  then have "map k (sort_key k xs) = map k ys"
    using assms by (intro sorted_distinct_set_unique) (simp_all add: distinct_map)
  then show ?thesis
    using assms(1,2) by (intro map_inj_on [where f = k and xs = "sort_key k xs" and ys = ys]) simp_all
qed

text \<open>The queue is served in \<open>queue_order\<close>; the first entry is the next one.\<close>

lemma list_queued_sorted: "sorted (map queue_order (list_queued_runs d))"
  by (simp add: list_queued_runs_def)

lemma set_list_queued: "set (list_queued_runs d) = {r \<in> set (runs d). status r = ''queued''}"
  by (auto simp: list_queued_runs_def)

lemma set_active_and_held: "set (active_and_held_runs d) = {r \<in> set (runs d). status r \<in> {''running'', ''held''}}"
  by (auto simp: active_and_held_runs_def)

text \<open>What a reordering does to a row: its own position, if it is queued and named.\<close>

definition place_row :: "int \<Rightarrow> int list \<Rightarrow> run_row \<Rightarrow> run_row" where
  "place_row pos ids r =
     (if status r = ''queued'' \<and> run_id r \<in> set ids
      then r\<lparr>sort_order := Some (pos + int (length (takeWhile (\<lambda>i. i \<noteq> run_id r) ids)))\<rparr> else r)"

lemma place_row_simps [simp]:
  "run_id (place_row pos ids r) = run_id r" "status (place_row pos ids r) = status r"
  "run_vm (place_row pos ids r) = run_vm r" "queued_at (place_row pos ids r) = queued_at r"
  by (simp_all add: place_row_def)

lemma set_runs_twice: "runs (d\<lparr>runs := xs\<rparr>) = xs" "d\<lparr>runs := xs, runs := ys\<rparr> = d\<lparr>runs := ys\<rparr>"
  by simp_all

lemma reorder_from_runs:
  assumes "distinct ids" and "reorder_from pos ids n d = (m, d')"
  shows "d' = d\<lparr>runs := map (place_row pos ids) (runs d)\<rparr>"
  using assms
proof (induction ids arbitrary: pos n d)
  case Nil
  then show ?case by (simp add: place_row_def)
next
  case (Cons i ids)
  define d1 where "d1 = snd (update_where (\<lambda>r. run_id r = i \<and> status r = ''queued'')
                                 (\<lambda>r. r\<lparr>sort_order := Some pos\<rparr>) d)"
  from Cons.prems obtain n1 where step: "reorder_from (pos + 1) ids n1 d1 = (m, d')"
    by (auto simp: d1_def split: prod.splits)
  let ?g = "\<lambda>r. if run_id r = i \<and> status r = ''queued'' then r\<lparr>sort_order := Some pos\<rparr> else r"
  have d': "d' = d1\<lparr>runs := map (place_row (pos + 1) ids) (runs d1)\<rparr>"
    using Cons.IH [OF _ step] Cons.prems(1) by simp
  have d1: "d1 = d\<lparr>runs := map ?g (runs d)\<rparr>"
    by (simp only: d1_def update_where_def snd_conv)
  have "place_row (pos + 1) ids (?g r) = place_row pos (i # ids) r" for r
  proof (cases "status r = ''queued'' \<and> run_id r \<in> set (i # ids)")
    case False
    have g: "?g r = r" by (rule if_not_P) (use False in \<open>simp; blast\<close>)
    have n: "place_row (pos + 1) ids r = r" unfolding place_row_def by (rule if_not_P) (use False in simp)
    have m: "place_row pos (i # ids) r = r" unfolding place_row_def by (rule if_not_P) (use False in simp)
    show ?thesis unfolding g n m ..
  next
    case True
    show ?thesis
    proof (cases "run_id r = i")
      case True
      with \<open>status r = ''queued'' \<and> run_id r \<in> set (i # ids)\<close> Cons.prems(1) show ?thesis by (simp add: place_row_def)
    next
      case False
      then have "?g r = r" by (intro if_not_P) simp
      moreover have "place_row (pos + 1) ids r = place_row pos (i # ids) r"
        using True False by (simp add: place_row_def algebra_simps)
      ultimately show ?thesis by (simp only:)
    qed
  qed
  then have "map (place_row (pos + 1) ids) (map ?g (runs d)) = map (place_row pos (i # ids)) (runs d)"
    by (simp only: map_map comp_def)
  then show ?case
    unfolding d' d1 by (simp only: set_runs_twice)
qed

lemma takeWhile_index:
  assumes "distinct ids" and "n < length ids"
  shows "length (takeWhile (\<lambda>i. i \<noteq> ids ! n) ids) = n"
proof -
  have "takeWhile (\<lambda>i. i \<noteq> ids ! n) ids = take n ids"
    using assms by (intro takeWhile_eq_take_P_nth) (auto simp: nth_eq_iff_index_eq)
  then show ?thesis using assms(2) by simp
qed


lemma queued_after_reorder:
  assumes d: "db_wf d" and ids: "distinct ids"
    and all: "set ids = run_id ` {r \<in> set (runs d). status r = ''queued''}"
    and step: "reorder_queue ids d = (n, d')"
  shows "map run_id (list_queued_runs d') = ids"
proof -
  have d': "d' = d\<lparr>runs := map (place_row 0 ids) (runs d)\<rparr>"
  proof (cases "ids = []")
    case True
    have "place_row 0 [] r = r" for r by (simp add: place_row_def)
    then show ?thesis using step True by (simp add: reorder_queue_def map_idI)
  next
    case False
    then have "reorder_from 0 ids 0 d = (n, d')" using step by (simp add: reorder_queue_def)
    from reorder_from_runs [OF ids this] show ?thesis .
  qed
  let ?Q = "{r \<in> set (runs d). status r = ''queued''}"
  let ?idx = "\<lambda>i. length (takeWhile (\<lambda>j. j \<noteq> i) ids)"
  let ?row = "\<lambda>i. place_row 0 ids (the (get_run i d))"
  have the_run: "the (get_run (run_id r) d) = r" if "r \<in> set (runs d)" for r
    using get_run_unique [OF d that] by simp
  have queued: "set (filter (\<lambda>r. status r = ''queued'') (runs d')) = place_row 0 ids ` ?Q"
    unfolding d' by (auto simp: image_iff)
  have rows: "place_row 0 ids ` ?Q = ?row ` set ids"
    unfolding all image_image by (rule image_cong) (auto simp: the_run)
  have id_row: "run_id (?row i) = i" and key: "queue_order (?row i) = ((0, int (?idx i)), queued_at (?row i), i)"
    if "i \<in> set ids" for i
  proof -
    from that all obtain r where r: "r \<in> set (runs d)" "status r = ''queued''" "i = run_id r" by blast
    show "run_id (?row i) = i" by (simp add: r the_run)
    have so: "sort_order (?row i) = Some (int (?idx i))"
      using r that by (simp add: the_run place_row_def)
    show "queue_order (?row i) = ((0, int (?idx i)), queued_at (?row i), i)"
      unfolding queue_order_def so using \<open>run_id (?row i) = i\<close> by (simp add: nulls_last_def)
  qed
  have ids_rows: "map run_id (map ?row ids) = ids"
    using id_row by (simp add: map_idI)
  have "sorted (map queue_order (map ?row ids))"
    unfolding sorted_iff_nth_mono_less
  proof (intro allI impI)
    fix a b
    assume "a < b" "b < length (map queue_order (map ?row ids))"
    then have ab: "a < b" "b < length ids" by simp_all
    then have "queue_order (?row (ids ! a)) \<le> queue_order (?row (ids ! b))"
      using takeWhile_index [OF ids] by (simp add: key)
    then show "map queue_order (map ?row ids) ! a \<le> map queue_order (map ?row ids) ! b"
      using ab by simp
  qed
  moreover have "distinct (map run_id (runs d'))"
    unfolding d' using d by (simp add: db_wf_def comp_def)
  then have dist: "distinct (filter (\<lambda>r. status r = ''queued'') (runs d'))"
    by (simp add: distinct_map)
  moreover have "inj_on queue_order (set (filter (\<lambda>r. status r = ''queued'') (runs d')))"
    using \<open>distinct (map run_id (runs d'))\<close>
    by (auto simp: distinct_map queue_order_def inj_on_def)
  moreover have "distinct (map ?row ids)"
    using ids_rows ids by (metis distinct_map)
  moreover have "set (map ?row ids) = set (filter (\<lambda>r. status r = ''queued'') (runs d'))"
    using queued rows by simp
  ultimately have "list_queued_runs d' = map ?row ids"
    unfolding list_queued_runs_def by (intro sorted_unique)
  then show ?thesis using ids_rows by simp
qed


section \<open>Updates and the columns they may write\<close>

lemma set_field_keeps [simp]:
  "col_name f \<in> set UPDATABLE \<Longrightarrow> task_upid (set_field f r) = task_upid r"
  "col_name f \<in> set UPDATABLE \<Longrightarrow> sort_order (set_field f r) = sort_order r"
  "col_name f \<in> set UPDATABLE \<Longrightarrow> cancel_flag (set_field f r) = cancel_flag r"
  by (cases f; simp add: UPDATABLE_def)+

lemma fold_allowed_keeps [simp]:
  "task_upid (fold set_field (filter (\<lambda>f. col_name f \<in> set UPDATABLE) fs) r) = task_upid r"
  "sort_order (fold set_field (filter (\<lambda>f. col_name f \<in> set UPDATABLE) fs) r) = sort_order r"
  "cancel_flag (fold set_field (filter (\<lambda>f. col_name f \<in> set UPDATABLE) fs) r) = cancel_flag r"
  by (induction fs arbitrary: r) simp_all

section \<open>Live runs\<close>

lemma live_simps [simp]: "live r \<longleftrightarrow> status r \<in> {''queued'', ''running'', ''held''}"
  by (simp add: live_def LIVE_RUN_STATUSES_def)

lemma one_live_run_append:
  assumes "one_live_run d" and "\<forall>r\<in>set (runs d). run_vm r = vm \<longrightarrow> \<not> live r"
  shows "one_live_run (d\<lparr>runs := runs d @ [fresh_run i vm trig now], next_run_id := n\<rparr>)"
proof -
  have none: "filter (\<lambda>r. run_vm r = vm \<and> live r) (runs d) = []"
    using assms(2) by (simp add: filter_empty_conv)
  have "length (filter (\<lambda>r. run_vm r = w \<and> live r) (runs d @ [fresh_run i vm trig now])) \<le> 1" for w
    using assms(1) none unfolding one_live_run_def by (cases "w = vm") simp_all
  then show ?thesis unfolding one_live_run_def by simp
qed

lemma due_candidate_no_live_run:
  "(v, p) \<in> set (due_auto_restore_candidates d) \<Longrightarrow> r \<in> set (runs d) \<Longrightarrow> run_vm r = vm_id v \<Longrightarrow> \<not> live r"
  by (auto simp: due_auto_restore_candidates_def is_due_def list_ex_iff split: option.splits if_splits)

lemma due_candidate_is_due:
  "(v, p) \<in> set (due_auto_restore_candidates d) \<longleftrightarrow> (v, Some p) \<in> set (vms d) \<and> is_due d v p"
  by (force simp: due_auto_restore_candidates_def split: option.splits if_splits)

lemma active_and_held_delete:
  "active_and_held_runs (snd (delete_run i d)) = active_and_held_runs d"
proof -
  have "filter (\<lambda>r. status r \<in> {''running'', ''held''}) (filter (\<lambda>r. \<not> (run_id r = i \<and> status r = ''queued'')) rs)
      = filter (\<lambda>r. status r \<in> {''running'', ''held''}) rs" for rs :: "run_row list"
    by (induction rs) auto
  then show ?thesis
    unfolding active_and_held_runs_def delete_run_def Let_def by (simp only: snd_conv set_runs_twice)
qed

lemma last_tested_max:
  "last_tested vm d = None \<longleftrightarrow> (\<forall>t\<in>set (tests d). test_vm t \<noteq> vm)"
  "last_tested vm d = Some m \<Longrightarrow> t \<in> set (tests d) \<Longrightarrow> test_vm t = vm \<Longrightarrow> tested_on t \<le> m"
proof -
  show "last_tested vm d = None \<longleftrightarrow> (\<forall>t\<in>set (tests d). test_vm t \<noteq> vm)"
    by (simp add: last_tested_def filter_empty_conv)
  assume "last_tested vm d = Some m" "t \<in> set (tests d)" "test_vm t = vm"
  then show "tested_on t \<le> m"
    using py_max_Some(2) [of id "map tested_on (filter (\<lambda>t. test_vm t = vm) (tests d))" m "tested_on t"]
    by (simp add: last_tested_def)
qed

section \<open>Properties\<close>

text \<open>\<open>update_run\<close> never writes the \<open>task_upid\<close> column, whatever it is asked to write:
  the column is not in the whitelist, so the UPID that the worker hands over is lost.\<close>

theorem update_run_drops_task_upid:
  "map task_upid (runs (update_run i fs d)) = map task_upid (runs d)"
  by (simp add: runs_update_run)

text \<open>\<open>enqueue_if_never_passed\<close> queues a run exactly when the VM has no live run and never
  passed, and it never gives a VM a second live run.\<close>

theorem enqueue_if_never_passed_correct:
  assumes "one_live_run d"
  shows "case enqueue_if_never_passed vm trig d of
      (None, d') \<Rightarrow> d' = d \<and> list_ex (\<lambda>r. run_vm r = vm \<and> (live r \<or> run_result r = Some ''passed'')) (runs d)
    | (Some i, d') \<Rightarrow> one_live_run d' \<and> list_all (\<lambda>r. run_vm r \<noteq> vm \<or> \<not> live r \<and> run_result r \<noteq> Some ''passed'') (runs d)
                       \<and> runs d' = runs d @ [fresh_run i vm trig (clock d)]"
proof (cases "\<exists>r\<in>set (runs d). run_vm r = vm \<and> (live r \<or> run_result r = Some ''passed'')")
  case True
  then have "enqueue_if_never_passed vm trig d = (None, d)"
    by (auto simp: enqueue_if_never_passed_def list_ex_iff LIVE_RUN_STATUSES_def)
  then show ?thesis using True by (simp add: list_ex_iff)
next
  case False
  then have "enqueue_if_never_passed vm trig d =
      (Some (next_run_id d), d\<lparr>runs := runs d @ [fresh_run (next_run_id d) vm trig (clock d)],
                               next_run_id := next_run_id d + 1\<rparr>)"
    by (auto simp: enqueue_if_never_passed_def list_ex_iff LIVE_RUN_STATUSES_def create_run_def)
  moreover have "\<forall>r\<in>set (runs d). run_vm r = vm \<longrightarrow> \<not> live r" using False by blast
  ultimately show ?thesis
    using one_live_run_append [OF assms] False by (auto simp: list_all_iff)
qed

text \<open>queueing a run for a due candidate keeps at most one live run per VM.\<close>

theorem create_for_candidate_one_live:
  assumes "one_live_run d" and "(v, p) \<in> set (due_auto_restore_candidates d)"
  shows "one_live_run (snd (create_run (vm_id v) trig d))"
  unfolding create_run_def snd_conv
  by (rule one_live_run_append [OF assms(1)]) (use due_candidate_no_live_run [OF assms(2)] in blast)

text \<open>deleting a queue entry never drops a run that owns an environment.\<close>

theorem delete_run_keeps_environments:
  "active_and_held_runs (snd (delete_run i d)) = active_and_held_runs d
   \<and> (fst (delete_run i d) \<longleftrightarrow> (\<exists>r\<in>set (runs d). run_id r = i \<and> status r = ''queued''))"
  by (simp add: active_and_held_delete) (auto simp: delete_run_def Let_def filter_empty_conv)

text \<open>recording a result appends one restore test exactly for \<open>passed\<close> and \<open>limited\<close>,
  so that a failed or aborted run never resets the due clock.\<close>

theorem record_run_result_counts:
  "case record_run_result i vm result secs note chk lt st d of (tid, d') \<Rightarrow>
     (if result \<in> {''passed'', ''limited''}
      then last_tested vm d' = Some (case last_tested vm d of None \<Rightarrow> date_of (clock d)
                                      | Some t \<Rightarrow> max t (date_of (clock d)))
           \<and> tid = Some (next_test_id d)
      else tests d' = tests d \<and> tid = None)"
proof -
  have max_snoc: "py_max id (xs @ [x]) = Some (case py_max id xs of None \<Rightarrow> x | Some m \<Rightarrow> max m x)"
    for xs :: "int list" and x
  proof -
    have "max_by id b (ys @ [x]) = max (max_by id b ys) x" for b ys
      by (induction ys arbitrary: b) (auto simp: max_def)
    then show ?thesis by (cases xs) (simp_all add: max_def)
  qed
  show ?thesis
    by (auto simp: record_run_result_def finished_row_def COUNTS_AS_TEST_def update_where_def Let_def last_tested_def max_snoc)
qed

lemma set_vm_next_run_policy:
  assumes "(v, Some p) \<in> set (vms (set_vm_next_run vm a d))" and "vm_id v = vm"
  shows "next_run_at p = a"
proof -
  from assms(1) obtain w po where
    "(v, Some p) = (if vm_id w = vm then (w, map_option (\<lambda>p. p\<lparr>next_run_at := a\<rparr>) po) else (w, po))"
    unfolding set_vm_next_run_def by fastforce
  then obtain q where "p = q\<lparr>next_run_at := a\<rparr>"
    using assms(2) by (cases po) (simp_all split: if_splits)
  then show ?thesis by simp
qed

text \<open>the retry time: after \<open>schedule_retry\<close> the VM is not due before its time has come,
  and it is due from then on unless a run of it is live.\<close>

theorem schedule_retry_defers:
  assumes "(v, Some p) \<in> set (vms (schedule_retry vm days d))" and "vm_id v = vm"
    and "clock d' \<ge> clock d" and "auto_restore_enabled p"
  shows "is_due d' v p \<longleftrightarrow>
     clock d' \<ge> clock d + days * day \<and> (\<forall>r\<in>set (runs d'). run_vm r = vm \<longrightarrow> \<not> live r)"
proof -
  have "next_run_at p = Some (clock d + days * day)"
    using set_vm_next_run_policy assms(1,2) unfolding schedule_retry_def by blast
  then have "is_due d' v p \<longleftrightarrow> \<not> list_ex (\<lambda>r. run_vm r = vm \<and> live r) (runs d') \<and> clock d + days * day \<le> clock d'"
    using assms(2,4) by (simp add: is_due_def)
  then show ?thesis unfolding list_ex_iff by blast
qed

text \<open>consecutive pages of the runs list are consecutive slices of one ordered list whose
  length is the count that the pager shows.\<close>

theorem list_runs_pages:
  "list_runs n st off trig cl q d @ list_runs m st (off + n) trig cl q d = list_runs (n + m) st off trig cl q d
   \<and> length (list_runs (count_runs st trig cl q d) st 0 trig cl q d) = count_runs st trig cl q d"
  unfolding list_runs_def count_runs_def by (simp add: take_add add.commute [of off])

text \<open>the indicator's word, and the head of the queue.\<close>

theorem queue_state_correct:
  "queue_state d = (if has_active_run d then ''running'' else if has_queued_runs d then ''queued'' else ''idle'')
   \<and> (case next_queued_run d of
         None \<Rightarrow> \<not> has_queued_runs d
       | Some r \<Rightarrow> has_queued_runs d
           \<and> list_all (\<lambda>q. queue_order r \<le> queue_order q) (filter (\<lambda>q. status q = ''queued'') (runs d)))"
proof -
  have a: "queue_state d = (if has_active_run d then ''running'' else if has_queued_runs d then ''queued'' else ''idle'')"
    unfolding queue_state_def has_active_run_def has_queued_runs_def list_ex_iff Let_def
    by (auto simp: image_iff)
  have b: "next_queued_run d = (case list_queued_runs d of [] \<Rightarrow> None | r # _ \<Rightarrow> Some r)"
    by (simp add: next_queued_run_def list_queued_runs_def)
  have c: "has_queued_runs d \<longleftrightarrow> list_queued_runs d \<noteq> []"
    using set_list_queued [of d] by (auto simp: has_queued_runs_def list_ex_iff simp del: set_empty simp flip: set_empty)
  have "queue_order r \<le> queue_order q"
    if "next_queued_run d = Some r" "q \<in> set (runs d)" "status q = ''queued''" for r q
  proof -
    note prems = that
    obtain rs where rs: "list_queued_runs d = r # rs"
      using prems(1) unfolding b by (auto split: list.splits)
    have "q \<in> set (list_queued_runs d)" using prems(2,3) by (simp add: set_list_queued)
    then show ?thesis using list_queued_sorted [of d] rs by auto
  qed
  then show ?thesis using a b c by (auto simp: list_all_iff split: list.splits)
qed

end
