(* ===== verification/RestoreAlloc.thy ===== *)
theory RestoreAlloc imports Ipv4 RestoreDb begin

text \<open>
  Allocation of a restore environment's resources (\<open>app/services/restore_alloc.py\<close>): two
  VMIDs, a sandbox VLAN tag and a management IP, each the lowest one of its configured range
  that no running or held run owns. The locale \<open>env_allocator\<close> is what the drainer relies
  on: a new environment shares nothing with those that exist, so that the environments of all
  running and held runs stay pairwise disjoint.
\<close>

record allocation =
  al_restore_vmid :: int
  al_helper_vmid :: int
  al_vlan_tag :: int
  al_mgmt_ip :: string

text \<open>\<open>ip_range\<close>: \<open>None\<close> is the \<open>AddressValueError\<close> of a bound that is no address.\<close>

definition ip_range :: "string \<Rightarrow> string \<Rightarrow> string list option" where
  "ip_range ip_from ip_to =
     (case (ipv4_of_string ip_from, ipv4_of_string ip_to) of
        (Some start, Some end_) \<Rightarrow> Some (if end_ < start then [] else map string_of_ipv4 [start ..< end_ + 1])
      | _ \<Rightarrow> None)"

fun lowest_free :: "'a list \<Rightarrow> 'a set \<Rightarrow> 'a option" where
  "lowest_free [] in_use = None"
| "lowest_free (c # cs) in_use = (if c \<notin> in_use then Some c else lowest_free cs in_use)"

text \<open>\<open>picked\<close> holds the candidates picked so far.\<close>

fun two_lowest_free :: "'a list \<Rightarrow> 'a list \<Rightarrow> 'a set \<Rightarrow> ('a \<times> 'a) option" where
  "two_lowest_free picked [] in_use = None"
| "two_lowest_free picked (c # cs) in_use =
     (if c \<notin> in_use
      then (let picked' = picked @ [c]
            in if length picked' = 2 then Some (picked' ! 0, picked' ! 1) else two_lowest_free picked' cs in_use)
      else two_lowest_free picked cs in_use)"

definition in_use_vmids :: "run_row list \<Rightarrow> int set" where
  "in_use_vmids owned =
     set (concat (map (\<lambda>r. concat (map (\<lambda>v. case v of None \<Rightarrow> [] | Some x \<Rightarrow> [x]) [restore_vmid r, helper_vmid r])) owned))"

definition in_use_tags :: "run_row list \<Rightarrow> int set" where
  "in_use_tags owned = set (List.map_filter vlan_tag owned)"

definition in_use_ips :: "run_row list \<Rightarrow> string set" where
  "in_use_ips owned = set (List.map_filter mgmt_ip owned)"

record alloc_ranges =
  vmid_from :: int
  vmid_to :: int
  vlan_from :: int
  vlan_to :: int
  ip_from :: string
  ip_to :: string

definition allocate :: "alloc_ranges \<Rightarrow> run_row list \<Rightarrow> exn + allocation option" where
  "allocate c owned =
     (case two_lowest_free [] [vmid_from c .. vmid_to c] (in_use_vmids owned) of
        None \<Rightarrow> Inr None
      | Some (v1, v2) \<Rightarrow>
     (case lowest_free [vlan_from c .. vlan_to c] (in_use_tags owned) of
        None \<Rightarrow> Inr None
      | Some vlan \<Rightarrow>
     (case ip_range (ip_from c) (ip_to c) of
        None \<Rightarrow> Inl (PyError ''AddressValueError'' (ip_from c))
      | Some ips \<Rightarrow>
     (case lowest_free ips (in_use_ips owned) of
        None \<Rightarrow> Inr None
      | Some mgmt \<Rightarrow> Inr (Some \<lparr>al_restore_vmid = v1, al_helper_vmid = v2, al_vlan_tag = vlan, al_mgmt_ip = mgmt\<rparr>)))))"

section \<open>The lowest free candidates\<close>

lemma lowest_free_find: "lowest_free cs in_use = List.find (\<lambda>c. c \<notin> in_use) cs"
  by (induction cs) auto

lemma lowest_free_Some:
  "lowest_free cs in_use = Some c \<Longrightarrow> c \<in> set cs \<and> c \<notin> in_use"
  using find_Some_first [of "\<lambda>c. c \<notin> in_use"] by (metis lowest_free_find)

lemma lowest_free_None: "lowest_free cs in_use = None \<longleftrightarrow> set cs \<subseteq> in_use"
  by (auto simp: lowest_free_find find_None_all)

lemma lowest_free_least:
  "sorted cs \<Longrightarrow> lowest_free cs in_use = Some c \<Longrightarrow> d \<in> set cs \<Longrightarrow> d \<notin> in_use \<Longrightarrow> c \<le> d"
  by (induction cs) (auto split: if_splits)

lemma two_lowest_free_one:
  "two_lowest_free [a] cs in_use = map_option (\<lambda>b. (a, b)) (lowest_free cs in_use)"
  by (induction cs) auto

text \<open>The pair is the first free candidate and the first free one after it.\<close>

lemma two_lowest_free_filter:
  "two_lowest_free [] cs in_use =
     (case filter (\<lambda>c. c \<notin> in_use) cs of a # b # _ \<Rightarrow> Some (a, b) | _ \<Rightarrow> None)"
proof (induction cs)
  case (Cons c cs)
  have "lowest_free cs in_use = (case filter (\<lambda>c. c \<notin> in_use) cs of [] \<Rightarrow> None | b # _ \<Rightarrow> Some b)" for cs
    by (induction cs) auto
  with Cons show ?case by (auto simp: two_lowest_free_one split: list.splits)
qed simp

lemma two_lowest_free_Some:
  assumes "two_lowest_free [] cs in_use = Some (a, b)" and "distinct cs"
  shows "a \<in> set cs - in_use \<and> b \<in> set cs - in_use \<and> a \<noteq> b"
proof -
  obtain rest where f: "filter (\<lambda>c. c \<notin> in_use) cs = a # b # rest"
    using assms(1) by (auto simp: two_lowest_free_filter split: list.splits)
  have "distinct (a # b # rest)" using assms(2) f by (metis distinct_filter)
  moreover have "set (a # b # rest) \<subseteq> set cs - in_use" unfolding f [symmetric] by auto
  ultimately show ?thesis by auto
qed

lemma two_lowest_free_None:
  assumes "distinct cs"
  shows "two_lowest_free [] cs in_use = None \<longleftrightarrow> card (set cs - in_use) \<le> 1"
proof -
  have "card (set cs - in_use) = length (filter (\<lambda>c. c \<notin> in_use) cs)"
    using distinct_card [of "filter (\<lambda>c. c \<notin> in_use) cs"] assms by (simp add: set_diff_eq)
  then show ?thesis by (auto simp: two_lowest_free_filter split: list.splits)
qed

section \<open>Ranges and registries\<close>

lemma ip_range_Some:
  assumes "ip_range f t = Some ips"
  obtains a b where "ipv4_of_string f = Some a" "ipv4_of_string t = Some b"
    "ips = (if b < a then [] else map string_of_ipv4 [a ..< b + 1])" "a < 2 ^ 32" "b < 2 ^ 32"
proof -
  from assms obtain a b where ab: "ipv4_of_string f = Some a" "ipv4_of_string t = Some b"
    "ips = (if b < a then [] else map string_of_ipv4 [a ..< b + 1])"
    by (auto simp: ip_range_def split: option.splits)
  show thesis
    by (rule that [OF ab]) (use ab(1,2) [THEN ipv4_of_string_Some] in simp_all)
qed

text \<open>The range is exactly the addresses between its bounds.\<close>

lemma set_ip_range:
  assumes "ip_range f t = Some ips" and "ipv4_of_string f = Some a" and "ipv4_of_string t = Some b"
  shows "s \<in> set ips \<longleftrightarrow> (\<exists>i. ipv4_of_string s = Some i \<and> a \<le> i \<and> i \<le> b)"
proof -
  have ips: "ips = (if b < a then [] else map string_of_ipv4 [a ..< b + 1])" and b: "b < 2 ^ 32"
    using assms by (auto elim: ip_range_Some)
  have "s \<in> set ips \<longleftrightarrow> (\<exists>i. a \<le> i \<and> i \<le> b \<and> s = string_of_ipv4 i)"
    unfolding ips by (auto simp: less_Suc_eq_le image_iff simp del: upt_Suc)
  also have "\<dots> \<longleftrightarrow> (\<exists>i. ipv4_of_string s = Some i \<and> a \<le> i \<and> i \<le> b)"
    using b by (metis ipv4_of_string_Some ipv4_of_string_of_ipv4 le_less_trans)
  finally show ?thesis .
qed

definition env_vmids :: "run_row \<Rightarrow> int set" where
  "env_vmids r = set_option (restore_vmid r) \<union> set_option (helper_vmid r)"

lemma in_use_vmids_alt: "in_use_vmids owned = (\<Union>r\<in>set owned. env_vmids r)"
  by (induction owned) (auto simp: in_use_vmids_def env_vmids_def split: option.splits)

lemma in_use_tags_alt: "in_use_tags owned = (\<Union>r\<in>set owned. set_option (vlan_tag r))"
  by (induction owned) (auto simp: in_use_tags_def List.map_filter_def split: option.splits)

lemma in_use_ips_alt: "in_use_ips owned = (\<Union>r\<in>set owned. set_option (mgmt_ip r))"
  by (induction owned) (auto simp: in_use_ips_def List.map_filter_def split: option.splits)

text \<open>Two rows whose environments share nothing.\<close>

definition apart :: "run_row \<Rightarrow> run_row \<Rightarrow> bool" where
  "apart r q = (env_vmids r \<inter> env_vmids q = {} \<and> set_option (vlan_tag r) \<inter> set_option (vlan_tag q) = {}
               \<and> set_option (mgmt_ip r) \<inter> set_option (mgmt_ip q) = {})"

lemma apart_sym: "apart r q = apart q r"
  by (auto simp: apart_def)

text \<open>What a run owns once it has been given an allocation.\<close>

definition give :: "allocation \<Rightarrow> run_row \<Rightarrow> run_row" where
  "give a r = r\<lparr>restore_vmid := Some (al_restore_vmid a), helper_vmid := Some (al_helper_vmid a),
                vlan_tag := Some (al_vlan_tag a), mgmt_ip := Some (al_mgmt_ip a)\<rparr>"

definition owners :: "db \<Rightarrow> run_row set" where
  "owners d = {r \<in> set (runs d). status r \<in> {''running'', ''held''}}"

definition environments_apart :: "db \<Rightarrow> bool" where
  "environments_apart d = (\<forall>r\<in>owners d. \<forall>q\<in>owners d. run_id r \<noteq> run_id q \<longrightarrow> apart r q)"

section \<open>The allocator's contract\<close>

locale env_allocator =
  fixes alloc :: "run_row list \<Rightarrow> exn + allocation option"
  assumes fresh: "alloc owned = Inr (Some a) \<Longrightarrow> q \<in> set owned \<Longrightarrow> apart (give a r) q"
    and two_vmids: "alloc owned = Inr (Some a) \<Longrightarrow> al_restore_vmid a \<noteq> al_helper_vmid a"
begin

text \<open>Starting a run on what the allocator returned keeps all environments apart.\<close>

lemma start_keeps_apart:
  assumes d: "environments_apart d" and a: "alloc (active_and_held_runs d) = Inr (Some a)"
    and d': "runs d' = map (\<lambda>r. if run_id r = i then f r else r) (runs d)"
    and f: "\<And>r. run_id (f r) = run_id r \<and> env_vmids (f r) = env_vmids (give a r)
                \<and> vlan_tag (f r) = Some (al_vlan_tag a) \<and> mgmt_ip (f r) = Some (al_mgmt_ip a)"
  shows "environments_apart d'"
  unfolding environments_apart_def
proof (intro ballI impI)
  fix r q
  assume rq: "r \<in> owners d'" "q \<in> owners d'" "run_id r \<noteq> run_id q"
  have from_old: "\<exists>x\<in>set (runs d). p = (if run_id x = i then f x else x)" if "p \<in> owners d'" for p
    using that by (auto simp: owners_def d')
  have new: "apart (f x) y" if "y \<in> owners d" for x y
    using fresh [OF a, of y x] that f [of x]
    by (simp add: owners_def set_active_and_held apart_def) (simp add: give_def)
  obtain x y where x: "x \<in> set (runs d)" "r = (if run_id x = i then f x else x)"
    and y: "y \<in> set (runs d)" "q = (if run_id y = i then f y else y)"
    using rq(1,2) from_old by blast
  have ids: "run_id x = run_id r" "run_id y = run_id q"
    using x(2) y(2) f by (metis (full_types))+
  show "apart r q"
  proof (cases "run_id r = i")
    case True
    then have "run_id y \<noteq> i" using rq(3) ids(2) by metis
    then have "q = y" using y(2) by (metis (full_types))
    then have "q \<in> owners d" using rq(2) y(1) by (simp add: owners_def)
    then show ?thesis using new x(2) True ids by simp
  next
    case False
    then have "r = x" using x(2) ids(1) by (metis (full_types))
    then have r: "r \<in> owners d" using rq(1) x(1) by (simp add: owners_def)
    show ?thesis
    proof (cases "run_id q = i")
      case True
      then have "q = f y" using y(2) ids(2) by (metis (full_types))
      then show ?thesis using new [OF r, of y] by (simp add: apart_sym [of r])
    next
      case False
      then have "q = y" using y(2) ids(2) by (metis (full_types))
      then have "q \<in> owners d" using rq(2) y(1) by (simp add: owners_def)
      then show ?thesis using d r rq(3) by (simp add: environments_apart_def)
    qed
  qed
qed

end

lemma allocate_Some:
  assumes "allocate c owned = Inr (Some a)"
  shows "al_restore_vmid a \<in> {vmid_from c .. vmid_to c} - in_use_vmids owned"
    and "al_helper_vmid a \<in> {vmid_from c .. vmid_to c} - in_use_vmids owned"
    and "al_restore_vmid a \<noteq> al_helper_vmid a"
    and "al_vlan_tag a \<in> {vlan_from c .. vlan_to c} - in_use_tags owned"
    and "\<exists>ips. ip_range (ip_from c) (ip_to c) = Some ips \<and> al_mgmt_ip a \<in> set ips - in_use_ips owned"
  using assms two_lowest_free_Some [of "[vmid_from c .. vmid_to c]" "in_use_vmids owned"]
    lowest_free_Some [of "[vlan_from c .. vlan_to c]" "in_use_tags owned"]
    lowest_free_Some [of _ "in_use_ips owned"]
  by (auto simp: allocate_def split: option.splits prod.splits)

interpretation restore_allocator: env_allocator "allocate c" for c
proof unfold_locales
  fix owned a q r
  assume a: "allocate c owned = Inr (Some a)" and q: "q \<in> set owned"
  note facts = allocate_Some [OF a]
  from facts q show "apart (give a r) q"
    unfolding in_use_vmids_alt in_use_tags_alt in_use_ips_alt apart_def give_def env_vmids_def
    by auto
next
  fix owned a
  assume "allocate c owned = Inr (Some a)"
  then show "al_restore_vmid a \<noteq> al_helper_vmid a" by (rule allocate_Some(3))
qed

section \<open>Properties\<close>


text \<open>\<open>allocate\<close> makes the caller wait only when a range is really exhausted: fewer than
  two free VMIDs, no free VLAN tag, or no free management IP.\<close>

theorem allocate_waits_iff_exhausted:
  assumes "ip_range (ip_from c) (ip_to c) = Some ips"
  shows "allocate c owned = Inr None \<longleftrightarrow>
     card ({vmid_from c .. vmid_to c} - in_use_vmids owned) \<le> 1
     \<or> {vlan_from c .. vlan_to c} \<subseteq> in_use_tags owned \<or> set ips \<subseteq> in_use_ips owned"
  using two_lowest_free_None [of "[vmid_from c .. vmid_to c]" "in_use_vmids owned"]
    lowest_free_None [of "[vlan_from c .. vlan_to c]" "in_use_tags owned"]
    lowest_free_None [of ips "in_use_ips owned"] assms
  by (auto simp: allocate_def split: option.splits)

end
