(* ===== verification/RestorePack.thy ===== *)
theory RestorePack imports Prelude "HOL-Library.Multiset" begin

text \<open>
  Packing a guest's disks onto target storages (\<open>app/services/restore_pack.py\<close>): the
  backtracking search of \<open>pack_disks\<close> over its two dicts, \<open>remaining\<close> (capacity left, by
  storage) and \<open>result\<close> (storage, by device), and the three-way decision of
  \<open>plan_distribution\<close>. \<open>None\<close> of the search stands for the \<open>KeyError\<close> of \<open>del\<close> on a
  device that is not in \<open>result\<close>, which can only happen when a device name occurs twice.
\<close>

type_synonym disks = "(string \<times> int) list"
type_synonym remaining = "string \<Rightarrow> int"
type_synonym placement = "string \<rightharpoonup> string"

text \<open>\<open>place\<close> returns whether the rest could be placed, and both dicts. The loop over the
  storage names of one disk is \<open>place_on\<close>.\<close>

function (sequential) place :: "string list \<Rightarrow> disks \<Rightarrow> remaining \<times> placement \<Rightarrow> (bool \<times> remaining \<times> placement) option"
  and place_on :: "string list \<Rightarrow> string list \<Rightarrow> string \<Rightarrow> int \<Rightarrow> disks \<Rightarrow> remaining \<times> placement
                   \<Rightarrow> (bool \<times> remaining \<times> placement) option" where
  "place names [] (rem, res) = Some (True, rem, res)"
| "place names ((dev, sz) # ds) (rem, res) = place_on names names dev sz ds (rem, res)"
| "place_on names [] dev sz ds (rem, res) = Some (False, rem, res)"
| "place_on names (n # ns) dev sz ds (rem, res) =
     (if rem n \<ge> sz
      then (case place names ds (rem(n := rem n - sz), res(dev \<mapsto> n)) of
              None \<Rightarrow> None
            | Some (True, st) \<Rightarrow> Some (True, st)
            | Some (False, rem', res') \<Rightarrow>
                if res' dev = None then None
                else place_on names ns dev sz ds (rem'(n := rem' n + sz), res'(dev := None)))
      else place_on names ns dev sz ds (rem, res))"
  by pat_completeness auto
termination
  by (relation "measures [\<lambda>x. case x of Inl (_, ds, _) \<Rightarrow> 2 * length ds | Inr (_, _, _, _, ds, _) \<Rightarrow> 2 * length ds + 1,
                          \<lambda>x. case x of Inl _ \<Rightarrow> 0 | Inr (_, ns, _) \<Rightarrow> length ns]") auto

text \<open>\<open>{name: cap for name, cap in storages}\<close>: the last entry of a name counts.\<close>

definition capacities :: "(string \<times> int) list \<Rightarrow> remaining" where
  "capacities storages n = opt_or (map_of (rev storages) n) 0"

definition pack_disks :: "disks \<Rightarrow> (string \<times> int) list \<Rightarrow> placement option option" where
  "pack_disks disks storages =
     (if disks = [] then Some (Some Map.empty)
      else (case place (map fst storages) (sorted_desc snd disks) (capacities storages, Map.empty) of
              None \<Rightarrow> None
            | Some (True, _, res) \<Rightarrow> Some (Some res)
            | Some (False, _, _) \<Rightarrow> Some None))"

text \<open>A disk row of the database: its device and its sz, if that is known.\<close>

datatype pack_decision = PackOk placement | PackRetry | PackImpossible

definition plan_distribution :: "(string \<times> int option) list \<Rightarrow> (string \<times> int) list \<Rightarrow> (string \<times> int) list \<Rightarrow> pack_decision option" where
  "plan_distribution disks avail totals =
     (let pairs = map (\<lambda>(dev, sz). (dev, opt_or sz 0)) disks
      in case pack_disks pairs avail of
           None \<Rightarrow> None
         | Some (Some by_avail) \<Rightarrow> Some (PackOk by_avail)
         | Some None \<Rightarrow>
             (case pack_disks pairs totals of
                None \<Rightarrow> None
              | Some (Some _) \<Rightarrow> Some PackRetry
              | Some None \<Rightarrow> Some PackImpossible))"

section \<open>What a packing is\<close>

text \<open>The load that an assignment of devices puts on a storage.\<close>

definition load :: "(string \<Rightarrow> string) \<Rightarrow> disks \<Rightarrow> string \<Rightarrow> int" where
  "load asg ds n = sum_list (map snd (filter (\<lambda>d. asg (fst d) = n) ds))"

definition packs :: "string list \<Rightarrow> remaining \<Rightarrow> disks \<Rightarrow> (string \<Rightarrow> string) \<Rightarrow> bool" where
  "packs names rem ds asg =
     (\<forall>n\<in>asg ` fst ` set ds. n \<in> set names \<and> load asg ds n \<le> rem n)"

lemma load_Nil [simp]: "load asg [] n = 0"
  by (simp add: load_def)

lemma load_Cons [simp]: "load asg (d # ds) n = (if asg (fst d) = n then snd d else 0) + load asg ds n"
  by (simp add: load_def)

lemma load_nonneg: "\<forall>d\<in>set ds. 0 \<le> snd d \<Longrightarrow> 0 \<le> load asg ds n"
  by (induction ds) auto

lemma load_perm: "mset ds = mset es \<Longrightarrow> load asg ds n = load asg es n"
proof -
  assume m: "mset ds = mset es"
  have "load asg xs n = sum_mset (image_mset snd (filter_mset (\<lambda>d. asg (fst d) = n) (mset xs)))" for xs
    by (simp add: load_def sum_mset_sum_list flip: mset_filter mset_map)
  then show ?thesis using m by simp
qed

lemma load_cong: "(\<And>d. d \<in> set ds \<Longrightarrow> asg (fst d) = asg' (fst d)) \<Longrightarrow> load asg ds n = load asg' ds n"
  by (induction ds) auto

lemma load_outside: "n \<notin> asg ` fst ` set ds \<Longrightarrow> load asg ds n = 0"
  by (induction ds) auto

lemma packs_perm: "mset ds = mset es \<Longrightarrow> packs names rem ds asg = packs names rem es asg"
  unfolding packs_def using load_perm by (metis mset_eq_setD)

text \<open>Placing one disk first.\<close>

lemma insert_bound:
  assumes "0 \<le> L k" and "k \<notin> A \<Longrightarrow> L k = (0::int)"
  shows "(\<forall>n\<in>insert k A. n \<in> N \<and> (if k = n then sz else 0) + L n \<le> rem n) \<longleftrightarrow>
    k \<in> N \<and> sz \<le> rem k \<and> (\<forall>n\<in>A. n \<in> N \<and> L n \<le> (rem(k := rem k - sz)) n)"
proof (cases "k \<in> A")
  case True
  then have "insert k A = A" by blast
  then show ?thesis using True assms(1) by fastforce
next
  case False
  then have "(\<forall>n\<in>A. n \<in> N \<and> (if k = n then sz else 0) + L n \<le> rem n)
      = (\<forall>n\<in>A. n \<in> N \<and> L n \<le> (rem(k := rem k - sz)) n)"
    by (intro ball_cong) auto
  with False assms(2) show ?thesis by simp
qed

lemma packs_Cons:
  assumes "\<forall>d\<in>set ds. 0 \<le> snd d"
  shows "packs names rem ((dev, sz) # ds) asg \<longleftrightarrow>
    asg dev \<in> set names \<and> sz \<le> rem (asg dev) \<and> packs names (rem(asg dev := rem (asg dev) - sz)) ds asg"
  unfolding packs_def list.set image_insert load_Cons fst_conv snd_conv
  by (rule insert_bound) (use load_nonneg [OF assms] load_outside in blast)+

text \<open>The placement that a search returns, as an assignment.\<close>

definition asg_of :: "placement \<Rightarrow> string \<Rightarrow> string" where
  "asg_of res d = opt_or (res d) []"

definition placed :: "string list \<Rightarrow> disks \<Rightarrow> remaining \<Rightarrow> placement \<Rightarrow> placement \<Rightarrow> bool" where
  "placed names ds rem res res' =
     (packs names rem ds (asg_of res') \<and> (\<forall>d\<in>set ds. res' (fst d) \<noteq> None)
      \<and> (\<forall>d. d \<notin> fst ` set ds \<longrightarrow> res' d = res d))"

text \<open>The search finds a packing exactly when there is one, and gives the dicts back as they
  were when there is none.\<close>

definition search_ok :: "string list \<Rightarrow> disks \<Rightarrow> remaining \<Rightarrow> placement \<Rightarrow> (bool \<times> remaining \<times> placement) option \<Rightarrow> bool" where
  "search_ok names ds rem res out =
     (case out of None \<Rightarrow> False
      | Some (True, _, res') \<Rightarrow> placed names ds rem res res'
      | Some (False, rem', res') \<Rightarrow> (\<nexists>asg. packs names rem ds asg) \<and> rem' = rem \<and> res' = res)"

definition search_on_ok :: "string list \<Rightarrow> string list \<Rightarrow> string \<Rightarrow> int \<Rightarrow> disks \<Rightarrow> remaining \<Rightarrow> placement
    \<Rightarrow> (bool \<times> remaining \<times> placement) option \<Rightarrow> bool" where
  "search_on_ok names ns dev sz ds rem res out =
     (case out of None \<Rightarrow> False
      | Some (True, _, res') \<Rightarrow> placed names ((dev, sz) # ds) rem res res'
      | Some (False, rem', res') \<Rightarrow>
          (\<nexists>asg. asg dev \<in> set ns \<and> packs names rem ((dev, sz) # ds) asg) \<and> rem' = rem \<and> res' = res)"

lemma placed_Cons:
  assumes sizes: "\<forall>d\<in>set ds. 0 \<le> snd d" and dev: "dev \<notin> fst ` set ds"
    and n: "n \<in> set names" "sz \<le> rem n"
    and p: "placed names ds (rem(n := rem n - sz)) (res(dev \<mapsto> n)) res'"
  shows "placed names ((dev, sz) # ds) rem res res'"
proof -
  have "res' dev = Some n" using p dev by (simp add: placed_def)
  then have "asg_of res' dev = n" by (simp add: asg_of_def)
  then have "packs names rem ((dev, sz) # ds) (asg_of res')"
    using p n by (simp add: packs_Cons [OF sizes] placed_def)
  then show ?thesis
    using p \<open>res' dev = Some n\<close> by (auto simp: placed_def)
qed

lemma place_correct:
  "\<lbrakk>\<forall>d\<in>set ds. 0 \<le> snd d; distinct (map fst ds); \<forall>d\<in>set ds. snd st (fst d) = None\<rbrakk>
   \<Longrightarrow> search_ok names ds (fst st) (snd st) (place names ds st)"
  "\<lbrakk>set ns \<subseteq> set names; 0 \<le> sz; \<forall>d\<in>set ds. 0 \<le> snd d; distinct (dev # map fst ds);
    \<forall>d\<in>set ds. snd st (fst d) = None; snd st dev = None\<rbrakk>
   \<Longrightarrow> search_on_ok names ns dev sz ds (fst st) (snd st) (place_on names ns dev sz ds st)"
proof (induction names ds st and names ns dev sz ds st rule: place_place_on.induct)
  case (1 names rem res)
  then show ?case
    by (simp add: search_ok_def placed_def packs_def)
next
  case (2 names dev sz ds rem res)
  then have "search_on_ok names names dev sz ds rem res (place_on names names dev sz ds (rem, res))"
    by simp
  moreover have "packs names rem ((dev, sz) # ds) asg \<Longrightarrow> asg dev \<in> set names" for asg
    by (simp add: packs_def)
  ultimately show ?case
    by (auto simp: search_ok_def search_on_ok_def split: option.splits prod.splits bool.splits)
next
  case (3 names dev sz ds rem res)
  then show ?case by (simp add: search_on_ok_def)
next
  case (4 names n ns dev sz ds rem res)
  have n: "n \<in> set names" using 4 by simp
  have dev: "dev \<notin> fst ` set ds" using 4 by auto
  show ?case
  proof (cases "sz \<le> rem n")
    case False
    then have "search_on_ok names ns dev sz ds rem res (place_on names ns dev sz ds (rem, res))"
      using "4.IH"(3) "4.prems" by simp
    moreover have "\<not> packs names rem ((dev, sz) # ds) asg" if "asg dev = n" for asg
      using that False "4.prems" by (simp add: packs_Cons)
    ultimately show ?thesis
      using False
      by (auto simp: search_on_ok_def split: option.splits prod.splits bool.splits)
  next
    case True
    let ?rem = "rem(n := rem n - sz)" and ?res = "res(dev \<mapsto> n)"
    have "\<forall>d\<in>set ds. ?res (fst d) = None" using 4 dev by auto
    then have inner: "search_ok names ds ?rem ?res (place names ds (?rem, ?res))"
      using "4.IH"(1) [OF True] "4.prems"(3,4) by (simp only: fst_conv snd_conv distinct.simps)
    show ?thesis
    proof (cases "place names ds (?rem, ?res)")
      case None
      then show ?thesis using inner by (simp add: search_ok_def)
    next
      case (Some out)
      obtain b rem' res' where out: "out = (b, rem', res')" by (cases out) auto
      show ?thesis
      proof (cases b)
        case True
        then have "placed names ds ?rem ?res res'" using inner Some out by (simp add: search_ok_def)
        then have "placed names ((dev, sz) # ds) rem res res'"
          using "4.prems" \<open>sz \<le> rem n\<close> n dev by (intro placed_Cons) auto
        then show ?thesis using True Some out \<open>sz \<le> rem n\<close> by (simp add: search_on_ok_def)
      next
        case False
        then have no: "\<nexists>asg. packs names ?rem ds asg" and same: "rem' = ?rem" "res' = ?res"
          using inner Some out by (simp_all add: search_ok_def)
        have undo: "rem'(n := rem' n + sz) = rem" "res'(dev := None) = res"
          using "4.prems" by (auto simp: same fun_eq_iff)
        have "search_on_ok names ns dev sz ds rem res (place_on names ns dev sz ds (rem, res))"
        proof -
          have dev_in: "res' dev \<noteq> None" by (simp add: same)
          have "set ns \<subseteq> set names" using "4.prems"(1) by simp
          from "4.IH"(2) [of out b "(rem', res')" rem' res', unfolded undo fst_conv snd_conv, OF \<open>sz \<le> rem n\<close> Some out [symmetric]
              _ refl dev_in this "4.prems"(2-4)] "4.prems"(5,6) False
          show ?thesis by simp
        qed
        moreover have "\<not> packs names rem ((dev, sz) # ds) asg" if "asg dev = n" for asg
          using that no "4.prems" by (simp add: packs_Cons)
        ultimately have "search_on_ok names (n # ns) dev sz ds rem res (place_on names ns dev sz ds (rem, res))"
          by (auto simp: search_on_ok_def split: option.splits prod.splits bool.splits)
        then show ?thesis
          using Some out False \<open>sz \<le> rem n\<close> undo by (simp add: same)
      qed
    qed
  qed
qed

section \<open>Properties\<close>

text \<open>The capacities of distinct storages.\<close>

definition fits_on :: "(string \<times> int) list \<Rightarrow> disks \<Rightarrow> (string \<Rightarrow> string) \<Rightarrow> bool" where
  "fits_on storages ds asg = packs (map fst storages) (capacities storages) ds asg"

lemma capacities_distinct:
  "distinct (map fst storages) \<Longrightarrow> (n, c) \<in> set storages \<Longrightarrow> capacities storages n = c"
  proof -
  assume "distinct (map fst storages)" "(n, c) \<in> set storages"
  then have "map_of (rev storages) n = Some c"
    by (intro map_of_is_SomeI) (simp_all add: rev_map [symmetric])
  then show ?thesis by (simp add: capacities_def)
qed


lemma pack_disks_search:
  assumes "distinct (map fst ds)" and "\<forall>d\<in>set ds. 0 \<le> snd d"
  shows "case pack_disks ds storages of
      None \<Rightarrow> False
    | Some None \<Rightarrow> \<nexists>asg. fits_on storages ds asg
    | Some (Some res) \<Rightarrow> fits_on storages ds (asg_of res) \<and> dom res = fst ` set ds"
proof (cases "ds = []")
  case True
  then show ?thesis
    by (simp add: pack_disks_def fits_on_def packs_def)
next
  case False
  let ?names = "map fst storages" and ?es = "sorted_desc snd ds"
  have mset: "mset ?es = mset ds" unfolding sorted_desc_def by (rule mset_sort)
  have "search_ok ?names ?es (capacities storages) Map.empty (place ?names ?es (capacities storages, Map.empty))"
    using place_correct(1) [of ?es "(capacities storages, Map.empty)" ?names] assms(1,2)
    by simp
  moreover have "packs ?names (capacities storages) ?es asg = fits_on storages ds asg" for asg
    unfolding fits_on_def by (rule packs_perm [OF mset])
  moreover have "dom res = fst ` set ds" if "placed ?names ?es (capacities storages) Map.empty res" for res
    using that unfolding placed_def by force
  ultimately show ?thesis
    using False
    by (auto simp: pack_disks_def search_ok_def placed_def split: option.splits prod.splits bool.splits)
qed

text \<open>C39: \<open>pack_disks\<close> finds an assignment of whole disks to storages within their capacities
  exactly when there is one, and what it returns is one; it never raises.\<close>

theorem pack_disks_correct:
  assumes "distinct (map fst ds)" and "\<forall>d\<in>set ds. 0 \<le> snd d"
  shows "case pack_disks ds storages of
      None \<Rightarrow> False
    | Some None \<Rightarrow> \<nexists>asg. fits_on storages ds asg
    | Some (Some res) \<Rightarrow> fits_on storages ds (asg_of res) \<and> dom res = fst ` set ds"
  by (rule pack_disks_search [OF assms])

text \<open>the three-way decision: \<open>ok\<close> comes with a placement within the free space,
  \<open>retry\<close> means that only the capacities allow one, \<open>impossible\<close> that not even they do.\<close>

theorem plan_distribution_correct:
  assumes "distinct (map fst ds)" and "\<forall>d\<in>set ds. 0 \<le> opt_or (snd d) 0"
  shows "case plan_distribution ds avail totals of
      None \<Rightarrow> False
    | Some (PackOk res) \<Rightarrow> fits_on avail (map (\<lambda>(dev, sz). (dev, opt_or sz 0)) ds) (asg_of res)
    | Some PackRetry \<Rightarrow> (\<nexists>asg. fits_on avail (map (\<lambda>(dev, sz). (dev, opt_or sz 0)) ds) asg)
                       \<and> (\<exists>asg. fits_on totals (map (\<lambda>(dev, sz). (dev, opt_or sz 0)) ds) asg)
    | Some PackImpossible \<Rightarrow> (\<nexists>asg. fits_on avail (map (\<lambda>(dev, sz). (dev, opt_or sz 0)) ds) asg)
                       \<and> (\<nexists>asg. fits_on totals (map (\<lambda>(dev, sz). (dev, opt_or sz 0)) ds) asg)"
proof -
  let ?pairs = "map (\<lambda>(dev, sz). (dev, opt_or sz 0)) ds"
  have fst: "map fst ?pairs = map fst ds" by (simp add: comp_def case_prod_unfold)
  have pairs: "distinct (map fst ?pairs)" "\<forall>d\<in>set ?pairs. 0 \<le> snd d"
    unfolding fst using assms(1,2) by auto
  note a = pack_disks_search [OF pairs, of avail] and t = pack_disks_search [OF pairs, of totals]
  show ?thesis
  proof (cases "pack_disks ?pairs avail")
    case None
    then show ?thesis using a by simp
  next
    case (Some ra)
    then show ?thesis
      using a t
      by (cases ra; cases "pack_disks ?pairs totals"; cases "the (pack_disks ?pairs totals)")
        (auto simp: plan_distribution_def Let_def)
  qed
qed

end
