(* ===== verification/RestoreMatch.thy ===== *)
theory RestoreMatch imports Prelude begin

text \<open>
  Matching a VM's backups to a datastore of the restore host
  (\<open>app/services/restore_match.py\<close>): the first host entry whose canonical location is one of
  the VM's backup locations, and the newest complete snapshot of the matched datastore.
\<close>

record host_entry =
  location :: string
  entry_storage :: string
  entry_pbs :: string
  entry_datastore :: string
  entry_namespace :: string
  resolved :: bool

text \<open>\<open>complete\<close> is the truth value of the entry, \<open>backup_time\<close> is 0 where it is missing.\<close>

record snapshot =
  snap_id :: string
  backup_time :: int
  complete :: bool
  snap_size :: "int option"

definition match_source :: "string list \<Rightarrow> host_entry list \<Rightarrow> host_entry option" where
  "match_source vm_locations host_entries = List.find (\<lambda>e. location e \<in> set vm_locations) host_entries"

definition is_auto_restorable :: "string list \<Rightarrow> host_entry list \<Rightarrow> bool" where
  "is_auto_restorable vm_locations host_entries = (match_source vm_locations host_entries \<noteq> None)"

definition pick_latest_complete :: "snapshot list \<Rightarrow> snapshot option" where
  "pick_latest_complete snapshots = py_max backup_time (filter complete snapshots)"

lemma match_source_None: "match_source ls hs = None \<longleftrightarrow> (\<forall>e\<in>set hs. location e \<notin> set ls)"
  by (simp add: match_source_def find_None_all)

text \<open>what is matched is an entry of the host at a location of the VM, the first such
  entry in the host's order; a VM is auto-restorable iff there is one.\<close>

theorem match_source_first:
  "(case match_source ls hs of
      Some e \<Rightarrow> e \<in> set hs \<and> location e \<in> set ls
                \<and> (\<exists>before after. hs = before @ e # after \<and> list_all (\<lambda>x. location x \<notin> set ls) before)
    | None \<Rightarrow> list_all (\<lambda>e. location e \<notin> set ls) hs)
   \<and> (is_auto_restorable ls hs \<longleftrightarrow> list_ex (\<lambda>e. location e \<in> set ls) hs)"
proof (cases "match_source ls hs")
  case None
  then show ?thesis unfolding is_auto_restorable_def using match_source_None [of ls hs] by (simp add: list_all_iff list_ex_iff)
next
  case (Some e)
  then have "\<not> (\<forall>e\<in>set hs. location e \<notin> set ls)" using match_source_None [of ls hs] by simp
  with Some show ?thesis
    unfolding is_auto_restorable_def match_source_def
    using find_Some_first [of "\<lambda>e. location e \<in> set ls" hs e] by (simp add: list_all_iff list_ex_iff)
qed

text \<open>the snapshot to restore is complete and none of the complete ones is newer; there
  is none only when no snapshot is complete.\<close>

theorem pick_latest_complete_newest:
  "case pick_latest_complete snaps of
     Some s \<Rightarrow> s \<in> set snaps \<and> complete s \<and> list_all (\<lambda>t. backup_time t \<le> backup_time s) (filter complete snaps)
   | None \<Rightarrow> filter complete snaps = []"
proof (cases "pick_latest_complete snaps")
  case None
  then show ?thesis by (simp add: pick_latest_complete_def filter_empty_conv)
next
  case (Some s)
  then have s: "py_max backup_time (filter complete snaps) = Some s" by (simp add: pick_latest_complete_def)
  with py_max_Some(1) [OF s] py_max_Some(2) [OF s] Some show ?thesis by (simp add: list_all_iff)
qed

end
