(* ===== verification/RestoreIpCollect.thy ===== *)
theory RestoreIpCollect imports PyJson PyRegex RestoreDb begin

text \<open>
  Best-effort collection of a guest's MACs and addresses from production
  (\<open>app/services/restore_ip_collect.py\<close>). The Proxmox API is the injected \<open>pve_get\<close>: a
  function from a path to the JSON payload or an exception. The agent reports an address as
  text; a NIC row has no VM and no time stamp until it is stored (\<open>nic_vm\<close> and \<open>seen_at\<close>
  are 0 here).
\<close>

section \<open>Regular expressions\<close>

text \<open>\<open>\b([0-9A-Fa-f]{2}(?::[0-9A-Fa-f]{2}){5})\b\<close> and \<open>net(\d+)\<close>.\<close>

definition hex2 :: rx where
  "hex2 = rep 2 (one_of ''0123456789ABCDEFabcdef'')"

definition MAC_RE :: rx where
  "MAC_RE = seqs [WordB, Grp 1 (Seq hex2 (rep 5 (Seq (chr_rx (CHR '':'')) hex2))), WordB]"

definition net_key_rx :: rx where
  "net_key_rx = Seq (lit ''net'') (Grp 1 digits)"

section \<open>Parsing\<close>

fun macs_loop :: "(string \<times> json) list \<Rightarrow> (int \<times> string) list \<Rightarrow> (int \<times> string) list" where
  "macs_loop [] out = out"
| "macs_loop ((key, value) # items) out =
     (case (rx_fullmatch net_key_rx key, value) of
        (Some m, JStr s) \<Rightarrow>
          (case rx_search MAC_RE s of
             None \<Rightarrow> macs_loop items out
           | Some found \<Rightarrow>
               macs_loop items (dict_set (opt_or (py_int (group_text m 1)) 0) (py_lower (group_text found 1)) out))
      | _ \<Rightarrow> macs_loop items out)"

definition macs_from_config :: "json \<Rightarrow> exn + (int \<times> string) list" where
  "macs_from_config config = rmap (\<lambda>items. macs_loop items []) (jitems config)"

definition v4_addrs :: "json \<Rightarrow> exn + (string \<times> int option) list" where
  "v4_addrs iface =
     rbind (jget iface ''ip-addresses'' (JArr [])) (\<lambda>lst.
     rbind (jiter (py_or lst (JArr []))) (\<lambda>addrs.
     rcollect (\<lambda>a.
       rbind (jget a ''ip-address'' (JStr [])) (\<lambda>ip.
       rbind (jget a ''ip-address-type'' JNull) (\<lambda>ty.
       if ty \<noteq> JStr ''ipv4'' then Inr []
       else case Option.bind (the_text ip) ipv4_of_string of
              None \<Rightarrow> Inr []
            | Some parsed \<Rightarrow>
                if is_loopback parsed \<or> is_link_local parsed then Inr []
                else rmap (\<lambda>p. [(opt_or (the_text ip) [], the_int p)]) (jget a ''prefix'' JNull)))) addrs))"

record agent_nic =
  an_mac :: string
  an_addresses :: "string list"
  an_prefix :: "int option"

definition nic_of_iface :: "json \<Rightarrow> exn + agent_nic list" where
  "nic_of_iface iface =
     rbind (jget iface ''hardware-address'' JNull) (\<lambda>hw.
     rbind (jtext (py_or hw (JStr []))) (\<lambda>hwtext.
     let m = py_lower hwtext
     in if m = [] \<or> m = ''00:00:00:00:00:00'' then Inr []
        else rmap (\<lambda>v4. if v4 = [] then []
                         else [\<lparr>an_mac = m, an_addresses = map fst v4, an_prefix = snd (hd v4)\<rparr>])
               (v4_addrs iface)))"

definition nics_from_agent :: "json \<Rightarrow> exn + agent_nic list" where
  "nics_from_agent agent_result = rbind (jiter (py_or agent_result (JArr []))) (rcollect nic_of_iface)"

text \<open>The body of the \<open>try\<close>: the index of each configured MAC, and the agent's NICs.\<close>

definition fetch_nics :: "string \<Rightarrow> int \<Rightarrow> string \<Rightarrow> (string \<Rightarrow> exn + json) \<Rightarrow> exn + ((string \<times> int) list \<times> agent_nic list)" where
  "fetch_nics node vid gtype pve_get =
     rbind (pve_get (''/nodes/'' @ node @ ''/'' @ gtype @ ''/'' @ string_of_int vid @ ''/config'')) (\<lambda>payload.
     rbind (macs_from_config (py_or payload (JObj []))) (\<lambda>macs.
     let mac_to_index = fold (\<lambda>(idx, m). dict_set m idx) macs []
     in if gtype = ''qemu''
        then rbind (pve_get (''/nodes/'' @ node @ ''/qemu/'' @ string_of_int vid @ ''/agent/network-get-interfaces'')) (\<lambda>agent.
             rbind (jget (py_or agent (JObj [])) ''result'' (JArr [])) (\<lambda>result.
             rmap (Pair mac_to_index) (nics_from_agent result)))
        else Inr (mac_to_index, [])))"

definition agent_row :: "(string \<times> int) list \<Rightarrow> int \<Rightarrow> agent_nic \<Rightarrow> nic_row" where
  "agent_row mac_to_index sq nic =
     \<lparr>nic_vm = 0, nic_index = opt_or (map_of mac_to_index (an_mac nic)) sq, mac = an_mac nic,
      ip_addresses = an_addresses nic, prefix = an_prefix nic, is_primary = False, source = ''agent'',
      seen_at = 0\<rparr>"

definition enumerate0 :: "'a list \<Rightarrow> (int \<times> 'a) list" where
  "enumerate0 xs = zip (map int [0..<length xs]) xs"

definition collect_for_vm :: "string \<Rightarrow> int \<Rightarrow> string \<Rightarrow> (string \<Rightarrow> exn + json) \<Rightarrow> nic_row list" where
  "collect_for_vm node vid gtype pve_get =
     (case fetch_nics node vid gtype pve_get of
        Inl _ \<Rightarrow> []
      | Inr (mac_to_index, agent_nics) \<Rightarrow>
          sort_key nic_index (map (\<lambda>(sq, nic). agent_row mac_to_index sq nic) (enumerate0 agent_nics)))"

definition primary_ip :: "nic_row list \<Rightarrow> string option \<Rightarrow> string option" where
  "primary_ip ns override =
     (if truthy_str override then override
      else case List.find (\<lambda>nic. ip_addresses nic \<noteq> []) (sort_key nic_index ns) of
             None \<Rightarrow> None
           | Some nic \<Rightarrow> Some (hd (ip_addresses nic)))"

definition mark_primary :: "nic_row list \<Rightarrow> string option \<Rightarrow> nic_row list" where
  "mark_primary ns override =
     (let pip = primary_ip ns override
      in map (\<lambda>nic. nic\<lparr>is_primary := (case pip of None \<Rightarrow> False | Some ip \<Rightarrow> ip \<in> set (ip_addresses nic))\<rparr>) ns)"

section \<open>Facts\<close>

lemma rcollect_all:
  "rcollect f xs = Inr ys \<Longrightarrow> (\<And>x zs. f x = Inr zs \<Longrightarrow> \<forall>z\<in>set zs. P z) \<Longrightarrow> \<forall>y\<in>set ys. P y"
  by (induction xs arbitrary: ys) (fastforce simp: rbind_Inr_iff rmap_Inr_iff)+

text \<open>Every address that is kept is a real, routable IPv4 address in canonical text.\<close>

definition routable :: "string \<Rightarrow> bool" where
  "routable s = (\<exists>a. ipv4_of_string s = Some a \<and> \<not> is_loopback a \<and> \<not> is_link_local a)"

lemma v4_addrs_routable: "v4_addrs iface = Inr ads \<Longrightarrow> \<forall>x\<in>set ads. routable (fst x)"
  unfolding v4_addrs_def rbind_Inr_iff
  by (elim exE conjE, erule rcollect_all)
    (auto simp: rbind_Inr_iff rmap_Inr_iff routable_def bind_eq_Some_conv
      split: if_splits option.splits)

definition nic_ok :: "agent_nic \<Rightarrow> bool" where
  "nic_ok n = (an_mac n \<noteq> [] \<and> an_mac n \<noteq> ''00:00:00:00:00:00'' \<and> an_addresses n \<noteq> []
              \<and> list_all routable (an_addresses n))"

lemma nic_of_iface_ok:
  assumes "nic_of_iface iface = Inr ns"
  shows "\<forall>n\<in>set ns. nic_ok n"
proof -
  obtain hwtext where body: "(let m = py_lower hwtext in if m = [] \<or> m = ''00:00:00:00:00:00'' then Inr []
        else rmap (\<lambda>v4. if v4 = [] then []
                         else [\<lparr>an_mac = m, an_addresses = map fst v4, an_prefix = snd (hd v4)\<rparr>])
               (v4_addrs iface)) = Inr ns"
    using assms unfolding nic_of_iface_def rbind_Inr_iff by blast
  show ?thesis
  proof (cases "py_lower hwtext = [] \<or> py_lower hwtext = ''00:00:00:00:00:00''")
    case True
    then show ?thesis using body by (simp add: Let_def)
  next
    case False
    then obtain v4 where v4: "v4_addrs iface = Inr v4"
      "ns = (if v4 = [] then [] else [\<lparr>an_mac = py_lower hwtext, an_addresses = map fst v4, an_prefix = snd (hd v4)\<rparr>])"
      using body by (auto simp: Let_def rmap_Inr_iff)
    then show ?thesis
      using False v4_addrs_routable [OF v4(1)] by (simp add: nic_ok_def list_all_iff)
  qed
qed

lemma nics_from_agent_ok: "nics_from_agent r = Inr ns \<Longrightarrow> \<forall>n\<in>set ns. nic_ok n"
  unfolding nics_from_agent_def rbind_Inr_iff 
  by (elim exE conjE, erule rcollect_all, rule nic_of_iface_ok)

lemma fetch_nics_ok:
  assumes "fetch_nics node vid gtype pve_get = Inr (mi, ns)"
  shows "\<forall>n\<in>set ns. nic_ok n"
  using assms nics_from_agent_ok
  unfolding fetch_nics_def rbind_Inr_iff Let_def
  by (cases "gtype = ''qemu''") (auto simp: rbind_Inr_iff rmap_Inr_iff)

lemma agent_row_simps [simp]:
  "mac (agent_row mi sq n) = an_mac n" "ip_addresses (agent_row mi sq n) = an_addresses n"
  by (simp_all add: agent_row_def)

lemma set_enumerate0: "(sq, x) \<in> set (enumerate0 xs) \<Longrightarrow> x \<in> set xs"
  by (auto simp: enumerate0_def dest: set_zip_rightD)

section \<open>Properties\<close>

text \<open>whatever the API answers, the rows collected for a VM have a MAC and at least one
  address, their addresses are routable IPv4 addresses, and they are sorted by index.\<close>

theorem collect_for_vm_rows:
  "sorted (map nic_index (collect_for_vm node vid gtype pve_get))
   \<and> list_all (\<lambda>row. mac row \<noteq> [] \<and> ip_addresses row \<noteq> [] \<and> list_all routable (ip_addresses row))
        (collect_for_vm node vid gtype pve_get)"
proof (cases "fetch_nics node vid gtype pve_get")
  case (Inl e)
  then show ?thesis by (simp add: collect_for_vm_def)
next
  case (Inr p)
  obtain mi ns where p: "p = (mi, ns)" by (cases p) auto
  have "\<forall>n\<in>set ns. nic_ok n" using fetch_nics_ok Inr p by blast
  then show ?thesis
    using Inr p by (auto simp: collect_for_vm_def nic_ok_def list_all_iff [of _ "sort_key _ _"] dest!: set_enumerate0)
qed

text \<open>the NIC that is marked as primary carries the probed address; without an override that
  is the first address of the lowest NIC index that has one.\<close>

theorem mark_primary_correct:
  "map ip_addresses (mark_primary ns override) = map ip_addresses ns
   \<and> list_all (\<lambda>nic. is_primary nic \<longleftrightarrow>
        (\<exists>ip. primary_ip ns override = Some ip \<and> ip \<in> set (ip_addresses nic))) (mark_primary ns override)
   \<and> (case (truthy_str override, primary_ip ns override) of
        (False, Some ip) \<Rightarrow>
          (\<exists>nic. nic \<in> set ns \<and> ip = hd (ip_addresses nic) \<and> ip_addresses nic \<noteq> []
             \<and> list_all (\<lambda>other. nic_index nic \<le> nic_index other) (filter (\<lambda>other. ip_addresses other \<noteq> []) ns))
      | _ \<Rightarrow> True)"
proof (intro conjI)
  show "map ip_addresses (mark_primary ns override) = map ip_addresses ns"
    by (simp add: mark_primary_def Let_def)
  show "list_all (\<lambda>nic. is_primary nic \<longleftrightarrow>
        (\<exists>ip. primary_ip ns override = Some ip \<and> ip \<in> set (ip_addresses nic))) (mark_primary ns override)"
    by (auto simp: mark_primary_def Let_def list_all_iff split: option.splits)
next
  have "\<exists>nic. nic \<in> set ns \<and> ip = hd (ip_addresses nic) \<and> ip_addresses nic \<noteq> []
      \<and> list_all (\<lambda>other. nic_index nic \<le> nic_index other) (filter (\<lambda>other. ip_addresses other \<noteq> []) ns)"
    if none: "\<not> truthy_str override" and ip: "primary_ip ns override = Some ip" for ip
  proof -
  from none ip obtain nic where find: "List.find (\<lambda>nic. ip_addresses nic \<noteq> []) (sort_key nic_index ns) = Some nic"
    and hd: "ip = hd (ip_addresses nic)"
    by (auto simp: primary_ip_def split: option.splits)
  obtain before after where split: "sort_key nic_index ns = before @ nic # after"
    "\<forall>a\<in>set before. ip_addresses a = []" and nic: "ip_addresses nic \<noteq> []"
    using find_Some_first [OF find] by auto
  have least: "nic_index nic \<le> nic_index other" if "other \<in> set ns" "ip_addresses other \<noteq> []" for other
  proof -
    have "sorted (map nic_index (before @ nic # after))"
      using sorted_sort_key [of nic_index ns] by (simp only: split(1))
    moreover have "other \<in> insert nic (set after)"
      using \<open>other \<in> set ns\<close> \<open>ip_addresses other \<noteq> []\<close> split set_sort [of nic_index ns] by (metis Un_iff list.set(2) set_append)
    ultimately show ?thesis by (auto simp: sorted_append)
  qed
  have "nic \<in> set ns" using split(1) set_sort [of nic_index ns] by (metis in_set_conv_decomp)
  then show ?thesis
    using hd nic least by (intro exI [of _ nic]) (simp add: list_all_iff)
  qed
  then show "case (truthy_str override, primary_ip ns override) of
        (False, Some ip) \<Rightarrow>
          (\<exists>nic. nic \<in> set ns \<and> ip = hd (ip_addresses nic) \<and> ip_addresses nic \<noteq> []
             \<and> list_all (\<lambda>other. nic_index nic \<le> nic_index other) (filter (\<lambda>other. ip_addresses other \<noteq> []) ns))
      | _ \<Rightarrow> True"
    by (simp split: bool.splits option.splits)
qed

text \<open>A guest whose second NIC is the only one with an address, and which runs a bridge of its
  own whose MAC no \<open>netN\<close> entry lists.\<close>

definition bridge_config :: json where
  "bridge_config = JObj [(''net0'', JStr ''virtio=BC:24:11:00:00:01,bridge=vmbr0''),
                         (''net1'', JStr ''virtio=BC:24:11:00:00:02,bridge=vmbr1'')]"

definition bridge_agent :: json where
  "bridge_agent = JArr
     [JObj [(''hardware-address'', JStr ''bc:24:11:00:00:02''),
            (''ip-addresses'', JArr [JObj [(''ip-address'', JStr ''10.0.0.5''),
                                          (''ip-address-type'', JStr ''ipv4''), (''prefix'', JInt 24)]])],
      JObj [(''hardware-address'', JStr ''02:42:ac:11:00:01''),
            (''ip-addresses'', JArr [JObj [(''ip-address'', JStr ''172.17.0.1''),
                                          (''ip-address-type'', JStr ''ipv4''), (''prefix'', JInt 16)]])]]"

definition bridge_guest :: "string \<Rightarrow> exn + json" where
  "bridge_guest path =
     Inr (if ends_with ''/config'' path then bridge_config else JObj [(''result'', bridge_agent)])"

lemma bridge_macs: "macs_from_config bridge_config = Inr [(0, ''bc:24:11:00:00:01''), (1, ''bc:24:11:00:00:02'')]"
  by code_simp

lemma bridge_nics:
  "nics_from_agent bridge_agent =
     Inr [\<lparr>an_mac = ''bc:24:11:00:00:02'', an_addresses = [''10.0.0.5''], an_prefix = Some 24\<rparr>,
          \<lparr>an_mac = ''02:42:ac:11:00:01'', an_addresses = [''172.17.0.1''], an_prefix = Some 16\<rparr>]"
  by (simp add: nics_from_agent_def nic_of_iface_def bridge_agent_def v4_addrs_def dict_get_def py_or_def
      the_text_def the_int_def ipv4_eval is_loopback_def is_link_local_def py_lower_def lower_eval)

text \<open>the position of an unlisted MAC can be the index of a configured one, and then
  storing the rows violates the primary key of the table.\<close>

theorem collected_rows_may_collide:
  "map nic_index (collect_for_vm ''pve1'' 100 ''qemu'' bridge_guest) = [1, 1]
   \<and> (\<exists>e. set_network_interfaces vm (collect_for_vm ''pve1'' 100 ''qemu'' bridge_guest) d = Inl e)"
proof -
  have "fetch_nics ''pve1'' 100 ''qemu'' bridge_guest =
      Inr ([(''bc:24:11:00:00:01'', 0), (''bc:24:11:00:00:02'', 1)],
           [\<lparr>an_mac = ''bc:24:11:00:00:02'', an_addresses = [''10.0.0.5''], an_prefix = Some 24\<rparr>,
            \<lparr>an_mac = ''02:42:ac:11:00:01'', an_addresses = [''172.17.0.1''], an_prefix = Some 16\<rparr>])"
    using bridge_macs bridge_nics
    by (simp add: fetch_nics_def bridge_guest_def ends_with_def starts_with_def py_or_def dict_get_def
        bridge_config_def)
  then have "map nic_index (collect_for_vm ''pve1'' 100 ''qemu'' bridge_guest) = [1, 1]"
    by (simp add: collect_for_vm_def enumerate0_def agent_row_def)
  then show ?thesis by (simp add: set_network_interfaces_def)
qed

end
