(* ===== verification/RestoreServerPure.thy ===== *)
theory RestoreServerPure imports PyJson PyRegex RestoreDb begin

text \<open>
  The pure decisions of the restore client (\<open>app/services/restore_server.py\<close>): rewriting a
  guest's network lines for the sandbox, naming its guests, ejecting CD-ROMs, selecting what
  the reaper destroys, reading errors, progress and sizes out of task logs, the overall
  progress and the stall backstop.
\<close>

section \<open>Guest configuration\<close>

definition managed_net_keys :: "string list" where
  "managed_net_keys = [''bridge='', ''tag='', ''trunks='', ''firewall='', ''mtu='']"

definition is_managed :: "string \<Rightarrow> bool" where
  "is_managed p = list_ex (\<lambda>k. starts_with k p) managed_net_keys"

definition rewrite_net_line :: "string \<Rightarrow> string \<Rightarrow> int option \<Rightarrow> int option \<Rightarrow> string" where
  "rewrite_net_line net_line bridge tag trunks =
     (let parts = filter (\<lambda>p. p \<noteq> []) (split_on (CHR '','') net_line);
          kept = filter (\<lambda>p. \<not> is_managed p) parts
                 @ [''bridge='' @ bridge]
                 @ (if parts \<noteq> [] \<and> starts_with ''virtio'' (hd parts) then [''mtu=1500''] else [])
                 @ (case tag of None \<Rightarrow> [] | Some t \<Rightarrow> [''tag='' @ string_of_int t])
                 @ (case trunks of None \<Rightarrow> [] | Some t \<Rightarrow> [''trunks='' @ string_of_int t])
      in py_join '','' kept)"

text \<open>\<open>re.sub(r"[^a-z0-9-]+", "-", s)\<close>\<close>

definition name_char :: "char \<Rightarrow> bool" where
  "name_char c = (is_lower c \<or> is_digit c \<or> c = CHR ''-'')"

function collapse :: "string \<Rightarrow> string" where
  "collapse [] = []"
| "collapse (c # s) =
     (if name_char c then c # collapse s else CHR ''-'' # collapse (dropWhile (\<lambda>d. \<not> name_char d) s))"
  by pat_completeness auto
termination
  by (relation "measure length") (auto simp: length_dropWhile_le less_Suc_eq_le)

definition sandbox_name :: "string \<Rightarrow> string \<Rightarrow> string \<Rightarrow> string" where
  "sandbox_name cluster vm sfx =
     (let joined = py_join ''-'' (filter (\<lambda>p. p \<noteq> []) [cluster, vm]);
          stripped = py_strip_chars ''-'' (collapse (py_lower joined));
          base = (if stripped = [] then ''restore'' else stripped)
      in if sfx \<noteq> []
         then (let b = py_strip_chars ''-'' (take (max 1 (63 - length sfx - 1)) base)
               in if b \<noteq> [] then b @ ''-'' @ sfx else sfx)
         else (let b = py_strip_chars ''-'' (take 63 base) in if b \<noteq> [] then b else ''restore''))"

text \<open>\<open>(ide|sata|scsi|virtio)\d+\<close>\<close>

definition DRIVE_KEY :: rx where
  "DRIVE_KEY = Seq (alts [lit ''ide'', lit ''sata'', lit ''scsi'', lit ''virtio'']) digits"

definition needs_eject :: "string \<Rightarrow> json \<Rightarrow> bool" where
  "needs_eject key v =
     (case v of
        JStr value \<Rightarrow>
          rx_fullmatch DRIVE_KEY key \<noteq> None \<and> py_in ''media=cdrom'' value
          \<and> (let first = py_strip (hd (split_on (CHR '','') value))
             in first \<noteq> [] \<and> first \<notin> {''none'', ''cdrom''})
      | _ \<Rightarrow> False)"

fun eject_cdroms :: "(string \<times> json) list \<Rightarrow> (string \<times> string) list" where
  "eject_cdroms [] = []"
| "eject_cdroms ((key, value) # items) =
     (if needs_eject key value then [(key, ''none,media=cdrom'')] else []) @ eject_cdroms items"

text \<open>A guest of the scratch host.\<close>

record guest =
  g_vmid :: int
  g_is_lxc :: bool

definition select_reaper_targets :: "guest list \<Rightarrow> int set \<Rightarrow> guest list" where
  "select_reaper_targets guests owned_vmids = filter (\<lambda>g. g_vmid g \<notin> owned_vmids) guests"

section \<open>Errors\<close>

definition backup_error_hint :: "string \<Rightarrow> string" where
  "backup_error_hint txt =
     (let t = py_lower txt; has = (\<lambda>k. py_in k t)
      in if list_ex has [''decrypt'', ''encryption key'', ''wrong key'']
         then ''backup decryption failed '' @ em_dash @ '' the PBS encryption key on the restore host does not match ''
              @ ''this backup'' @ [CHR 0x27] @ ''s key (check the datastore/namespace key)''
         else if list_ex has [''permission'', ''access denied'', ''not allowed'', ''403 forbidden'', ''no permission'']
         then ''permission denied reading the backup '' @ em_dash @ '' check the PBS user'' @ [CHR 0x27]
              @ ''s rights on this datastore/namespace''
         else if list_ex has [''fingerprint'', ''certificate verify'', ''self signed'', ''self-signed'', ''tls error'']
         then ''PBS server certificate could not be verified (fingerprint/cert mismatch)''
         else if list_ex has [''connection refused'', ''timed out'', ''no route to host'', ''could not resolve'']
         then ''could not reach the PBS server (connection/DNS)''
         else [])"

definition classify_task_error :: "string \<Rightarrow> string \<Rightarrow> string" where
  "classify_task_error exitstatus log_tail =
     (let hint = backup_error_hint log_tail;
          stripped = py_strip log_tail;
          detail = take 600 (if stripped \<noteq> [] then stripped else py_strip exitstatus)
      in if hint \<noteq> [] then hint @ '': '' @ detail else ''restore task failed: '' @ detail)"

section \<open>Numbers in logs\<close>

text \<open>\<open>float(text)\<close> of digits with at most one point; \<open>None\<close> is the \<open>ValueError\<close>.\<close>

definition parse_decimal :: "string \<Rightarrow> rat option" where
  "parse_decimal s =
     (case split_on (CHR ''.'') s of
        [a] \<Rightarrow> if all_digits a then Some (fl64 (of_nat (nat_of_digits a))) else None
      | [a, b] \<Rightarrow>
          if (a \<noteq> [] \<or> b \<noteq> []) \<and> list_all is_digit a \<and> list_all is_digit b
          then Some (fl64 (of_nat (nat_of_digits (a @ b)) / 10 ^ length b)) else None
      | _ \<Rightarrow> None)"

definition float_of :: "string \<Rightarrow> rat" where
  "float_of s = opt_or (parse_decimal s) 0"

text \<open>\<open>int(float(number) * unit)\<close>\<close>

definition scaled :: "rat \<Rightarrow> int \<Rightarrow> int" where
  "scaled x unit = py_trunc (fl64 (x * of_int unit))"

text \<open>The fio status line: \<open>\[(\d+(?:\.\d+)?)%\]\<close>, \<open>\[[rw]=([\d.]+)([KMGTP]i?)?B/s\]\<close> and
  \<open>\[eta[\s=]+([0-9hmsd:]+)\]\<close>.\<close>

definition ETA_PCT_RE :: rx where
  "ETA_PCT_RE = seqs [lit ''['', Grp 1 decimal, lit ''%]'']"

definition ETA_RATE_RE :: rx where
  "ETA_RATE_RE = seqs [lit ''['', one_of ''rw'', lit ''='', Grp 1 (plus (Cls (\<lambda>c. is_digit c \<or> c = CHR ''.''))),
     opt (Grp 2 (Seq (one_of ''KMGTP'') (opt (chr_rx (CHR ''i''))))), lit ''B/s]'']"

definition ETA_ETA_RE :: rx where
  "ETA_ETA_RE = seqs [lit ''[eta'', plus (Cls (\<lambda>c. is_space c \<or> c = CHR ''='')),
     Grp 1 (plus (one_of ''0123456789hmsd:'')), lit '']'']"

definition ETA_BIN :: "(string \<times> int) list" where
  "ETA_BIN = [([], 1), (''Ki'', 1024), (''Mi'', 1024 ^ 2), (''Gi'', 1024 ^ 3), (''Ti'', 1024 ^ 4), (''Pi'', 1024 ^ 5)]"

record fio_eta =
  fio_pct :: rat
  fio_rate_bps :: "int option"
  fio_eta_text :: "string option"

text \<open>A rate that is no number (two points) raises \<open>ValueError\<close>.\<close>

definition parse_fio_eta :: "string \<Rightarrow> exn + fio_eta option" where
  "parse_fio_eta line =
     (case rx_search ETA_PCT_RE line of
        None \<Rightarrow> Inr None
      | Some mp \<Rightarrow>
          let eta_text = map_option (\<lambda>m. group_text m 1) (rx_search ETA_ETA_RE line);
              pct = float_of (group_text mp 1)
          in case rx_search ETA_RATE_RE line of
               None \<Rightarrow> Inr (Some \<lparr>fio_pct = pct, fio_rate_bps = None, fio_eta_text = eta_text\<rparr>)
             | Some mr \<Rightarrow>
                 let unit = rev (dropWhile ((=) (CHR ''B'')) (rev (group_text mr 2)))
                 in case parse_decimal (group_text mr 1) of
                      None \<Rightarrow> Inl (value_error (group_text mr 1))
                    | Some x \<Rightarrow> Inr (Some \<lparr>fio_pct = pct, fio_rate_bps = Some (scaled x (opt_or (map_of ETA_BIN unit) 1)),
                                         fio_eta_text = eta_text\<rparr>))"

section \<open>Disks of a configuration\<close>

definition CFG_DISK_KEY_RE :: rx where
  "CFG_DISK_KEY_RE = alts
     [seqs [AtStart, alts [lit ''ide'', lit ''sata'', lit ''scsi'', lit ''virtio''], digits, AtEnd],
      seqs [AtStart, lit ''efidisk'', digits, AtEnd], seqs [AtStart, lit ''tpmstate'', digits, AtEnd]]"

definition CFG_SIZE_RE :: rx where
  "CFG_SIZE_RE = seqs [WordB, lit_ci ''size='', Grp 1 (Seq decimal (opt (one_of_ci ''KMGTP'')))]"

record config_disk =
  volid :: string
  opts :: string
  size_token :: string

fun config_disk_lines :: "string list \<Rightarrow> (string \<times> config_disk) list \<Rightarrow> (string \<times> config_disk) list" where
  "config_disk_lines [] out = out"
| "config_disk_lines (line # lines) out =
     (if starts_with ''['' line \<or> starts_with ''#'' line then out
      else case py_partition (CHR '':'') line of
        (key0, found, value0) \<Rightarrow>
          if \<not> found then config_disk_lines lines out
          else let key = py_strip key0; value = py_strip value0; first = hd (split_on (CHR '','') value)
               in if rx_match CFG_DISK_KEY_RE key = None \<or> py_in ''media=cdrom'' value then config_disk_lines lines out
                  else if \<not> py_in '':'' first then config_disk_lines lines out
                  else config_disk_lines lines
                         (dict_set key \<lparr>volid = first, opts = drop (length first) value,
                                        size_token = (case rx_search CFG_SIZE_RE value of
                                                        Some m \<Rightarrow> group_text m 1 | None \<Rightarrow> [])\<rparr> out))"

definition parse_config_disks :: "string \<Rightarrow> (string \<times> config_disk) list" where
  "parse_config_disks cfg_text = config_disk_lines (splitlines cfg_text) []"

definition CFG_UNIT :: "(string \<times> int) list" where
  "CFG_UNIT = [(''k'', 1024), (''m'', 1024 ^ 2), (''g'', 1024 ^ 3), (''t'', 1024 ^ 4), (''p'', 1024 ^ 5)]"

text \<open>The unit letter is looked up without regard to case.\<close>

definition size_token_bytes :: "string option \<Rightarrow> int option" where
  "size_token_bytes token =
     (if \<not> truthy_str token then None
      else case rx_match (Seq (Grp 1 decimal) (Grp 2 (opt (one_of_ci ''KMGTP'')))) (py_strip (opt_or token [])) of
             None \<Rightarrow> None
           | Some m \<Rightarrow> Some (scaled (float_of (group_text m 1)) (opt_or (map_of CFG_UNIT (py_lower (group_text m 2))) 1)))"

section \<open>Progress\<close>

text \<open>The dict of columns that describes the overall progress.\<close>

definition phase_of_percent :: "int \<Rightarrow> string" where
  "phase_of_percent p = (if p \<ge> 100 then ''finalizing'' else ''restoring'')"

definition overall_percent :: "int \<Rightarrow> int \<Rightarrow> int" where
  "overall_percent got tot = min 100 (py_trunc (fl64 (fl64 (of_int got / of_int tot) * 100)))"

definition overall_restore_fields :: "int \<Rightarrow> int option \<Rightarrow> run_field list option" where
  "overall_restore_fields done_bytes total_bytes =
     (case total_bytes of
        None \<Rightarrow> None
      | Some tot \<Rightarrow>
          if tot \<le> 0 then None
          else let got = max 0 (min done_bytes tot); p = overall_percent got tot
               in Some [F_percent (Some p), F_bytes_done (Some got), F_bytes_total (Some tot),
                        F_phase (Some (phase_of_percent p))])"

definition PROGRESS_RE :: rx where
  "PROGRESS_RE = seqs [WordB, lit ''progress'', plus space, Grp 1 digits, lit ''%'']"

definition unit_rx :: rx where
  "unit_rx = seqs [one_of ''KMGT'', opt (chr_rx (CHR ''i'')), chr_rx (CHR ''B'')]"

definition BYTES_RE :: rx where
  "BYTES_RE = seqs [lit ''('', Grp 1 decimal, Star space, Grp 2 unit_rx, Star space, alts [lit ''of'', lit ''/''],
     Star space, Grp 3 decimal, Star space, Grp 4 unit_rx, lit '')'']"

definition READ_RE :: rx where
  "READ_RE = seqs [lit ''read'', plus space, Grp 1 digits, plus space, lit ''bytes'']"

definition UNIT :: "(string \<times> int) list" where
  "UNIT = [(''B'', 1), (''KiB'', 1024), (''MiB'', 1024 ^ 2), (''GiB'', 1024 ^ 3), (''TiB'', 1024 ^ 4),
           (''KB'', 1000), (''MB'', 1000 ^ 2), (''GB'', 1000 ^ 3), (''TB'', 1000 ^ 4)]"

record task_progress =
  tp_percent :: "int option"
  tp_done :: "int option"
  tp_total :: "int option"

definition parse_task_progress :: "string \<Rightarrow> task_progress option" where
  "parse_task_progress line =
     (let pct = map_option (\<lambda>m. int (nat_of_digits (group_text m 1))) (rx_search PROGRESS_RE line);
          amount = (\<lambda>m i. scaled (float_of (group_text m i)) (opt_or (map_of UNIT (group_text m (i + 1))) 1));
          p = (case rx_search BYTES_RE line of
                 Some b \<Rightarrow> \<lparr>tp_percent = pct, tp_done = Some (amount b 1), tp_total = Some (amount b 3)\<rparr>
               | None \<Rightarrow>
                   \<lparr>tp_percent = pct,
                    tp_done = map_option (\<lambda>m. int (nat_of_digits (group_text m 1))) (rx_search READ_RE line),
                    tp_total = None\<rparr>)
      in if tp_percent p = None \<and> tp_done p = None \<and> tp_total p = None then None else Some p)"

definition stall_exceeded :: "rat \<Rightarrow> int \<Rightarrow> rat \<Rightarrow> rat \<Rightarrow> rat \<Rightarrow> bool" where
  "stall_exceeded seconds_since_progress percent_done elapsed_seconds factor floor_seconds =
     (if percent_done \<le> 0
      then seconds_since_progress > max floor_seconds (fl64 (elapsed_seconds * factor))
      else let expected_per_pct = fl64 (elapsed_seconds / of_int percent_done);
               allowed = max floor_seconds (fl64 (expected_per_pct * factor))
           in seconds_since_progress > allowed)"

section \<open>Facts\<close>

lemma collapse_name_chars: "list_all name_char (collapse s)"
  by (induction s rule: collapse.induct) (auto simp: name_char_def)

lemma set_py_strip_chars: "set (py_strip_chars cs s) \<subseteq> set s"
proof
  fix x
  assume "x \<in> set (py_strip_chars cs s)"
  then have "x \<in> set (dropWhile (\<lambda>c. c \<in> set cs) (rev (dropWhile (\<lambda>c. c \<in> set cs) s)))"
    by (simp add: py_strip_chars_def)
  then have "x \<in> set (dropWhile (\<lambda>c. c \<in> set cs) s)" by (metis set_dropWhileD set_rev)
  then show "x \<in> set s" by (metis set_dropWhileD)
qed

lemma length_py_strip_chars: "length (py_strip_chars cs s) \<le> length s"
proof -
  have "length (dropWhile P xs) \<le> length xs" for P and xs :: string by (rule length_dropWhile_le)
  then show ?thesis unfolding py_strip_chars_def by (metis (no_types, lifting) length_rev order_trans)
qed

lemma py_strip_chars_ends:
  assumes "py_strip_chars cs s \<noteq> []"
  shows "hd (py_strip_chars cs s) \<notin> set cs \<and> last (py_strip_chars cs s) \<notin> set cs"
proof -
  let ?d = "dropWhile (\<lambda>c. c \<in> set cs) s"
  let ?e = "dropWhile (\<lambda>c. c \<in> set cs) (rev ?d)"
  have e: "?e \<noteq> []" using assms by (simp add: py_strip_chars_def)
  then have d: "?d \<noteq> []" by (metis dropWhile.simps(1) rev.simps(1))
  have "hd ?e \<notin> set cs" using hd_dropWhile [OF e] .
  moreover have "hd (rev ?e) = hd ?d"
  proof -
    obtain pre where "rev ?d = pre @ ?e" by (metis takeWhile_dropWhile_id)
    then have "?d = rev ?e @ rev pre" by (metis rev_append rev_rev_ident)
    then show ?thesis using e by (metis hd_append2 rev_is_Nil_conv)
  qed
  moreover have "hd ?d \<notin> set cs" using hd_dropWhile [OF d] .
  ultimately show ?thesis using e by (simp add: py_strip_chars_def last_rev)
qed

text \<open>A label of a host name.\<close>

definition valid_label :: "string \<Rightarrow> bool" where
  "valid_label s = (s \<noteq> [] \<and> length s \<le> 63 \<and> list_all name_char s \<and> hd s \<noteq> CHR ''-'' \<and> last s \<noteq> CHR ''-'')"

lemma valid_restore: "valid_label ''restore''"
  by code_simp

lemma strip_valid:
  assumes "list_all name_char s" and "length s \<le> 63" and "py_strip_chars ''-'' s \<noteq> []"
  shows "valid_label (py_strip_chars ''-'' s)"
  using assms set_py_strip_chars [of "''-''" s] length_py_strip_chars [of "''-''" s]
    py_strip_chars_ends [OF assms(3)]
  by (auto simp: valid_label_def list_all_iff)

text \<open>The parts of a joined line.\<close>

lemma split_rejoin:
  assumes "xs \<noteq> []" and "\<forall>x\<in>set xs. CHR '','' \<notin> set x"
  shows "split_on (CHR '','') (py_join '','' xs) = xs"
  using assms by (rule split_on_join)

lemma no_comma_in_number: "CHR '','' \<notin> set (string_of_int i)"
proof -
  have "CHR '','' \<notin> set (string_of_nat n)" for n
    using string_of_nat_digits [of n] by (auto simp: list_all_iff is_digit_def)
  then show ?thesis by (simp add: string_of_int_def)
qed

lemma starts_with_Cons: "starts_with (c # p) (d # s) = (c = d \<and> starts_with p s)"
  by (auto simp: starts_with_def)

lemma set_eject_cdroms:
  "(k, v) \<in> set (eject_cdroms items) \<longleftrightarrow> v = ''none,media=cdrom'' \<and> (\<exists>w. (k, w) \<in> set items \<and> needs_eject k w)"
  by (induction items) auto

section \<open>Properties\<close>

text \<open>rewriting a network line for the sandbox replaces the managed options and keeps every
  other part, in order: the model and the MAC first of all. The bridge is the sandbox bridge.\<close>

theorem rewrite_net_line_parts:
  assumes "CHR '','' \<notin> set bridge"
  shows "filter (\<lambda>p. \<not> is_managed p) (split_on (CHR '','') (rewrite_net_line line bridge tag trunks))
           = filter (\<lambda>p. \<not> is_managed p) (filter (\<lambda>p. p \<noteq> []) (split_on (CHR '','') line))
       \<and> filter (starts_with ''bridge='') (split_on (CHR '','') (rewrite_net_line line bridge tag trunks))
           = [''bridge='' @ bridge]"
proof -
  define parts where "parts = filter (\<lambda>p. p \<noteq> []) (split_on (CHR '','') line)"
  define added where "added = (if parts \<noteq> [] \<and> starts_with ''virtio'' (hd parts) then [''mtu=1500''] else [])
      @ (case tag of None \<Rightarrow> [] | Some t \<Rightarrow> [''tag='' @ string_of_int t])
      @ (case trunks of None \<Rightarrow> [] | Some t \<Rightarrow> [''trunks='' @ string_of_int t])"
  let ?kept = "filter (\<lambda>p. \<not> is_managed p) parts"
  have line: "rewrite_net_line line bridge tag trunks = py_join '','' (?kept @ [''bridge='' @ bridge] @ added)"
    by (simp add: rewrite_net_line_def Let_def parts_def added_def)
  have "\<forall>x\<in>set parts. CHR '','' \<notin> set x"
    unfolding parts_def using split_on_parts by auto
  then have nc: "\<forall>x\<in>set (?kept @ [''bridge='' @ bridge] @ added). CHR '','' \<notin> set x"
    using assms no_comma_in_number by (auto simp: added_def split: if_splits option.splits)
  have split: "split_on (CHR '','') (rewrite_net_line line bridge tag trunks) = ?kept @ [''bridge='' @ bridge] @ added"
    unfolding line using nc by (intro split_rejoin) simp_all
  have "is_managed (''bridge='' @ bridge)" by (simp add: is_managed_def managed_net_keys_def starts_with_Cons)
  moreover have "\<forall>x\<in>set added. is_managed x \<and> \<not> starts_with ''bridge='' x"
    by (auto simp: added_def is_managed_def managed_net_keys_def starts_with_Cons split: if_splits option.splits)
  moreover have "\<not> starts_with ''bridge='' p" if "\<not> is_managed p" for p
    using that by (simp add: is_managed_def managed_net_keys_def)
  ultimately show ?thesis
    unfolding split parts_def [symmetric]
    by (auto simp: filter_empty_conv starts_with_Cons)
qed

text \<open>the name of a sandbox guest is a valid host name label, whatever the cluster and the
  VM are called, and so is the helper's name with its suffix.\<close>

theorem sandbox_name_valid:
  assumes "sfx = [] \<or> valid_label sfx \<and> length sfx \<le> 61"
  shows "valid_label (sandbox_name cluster vm sfx)"
proof -
  define stripped where
    "stripped = py_strip_chars ''-'' (collapse (py_lower (py_join ''-'' (filter (\<lambda>p. p \<noteq> []) [cluster, vm]))))"
  define base where "base = (if stripped = [] then ''restore'' else stripped)"
  have "list_all name_char stripped"
    using collapse_name_chars set_py_strip_chars unfolding stripped_def list_all_iff by blast
  then have base: "list_all name_char base"
    using valid_restore by (simp add: base_def valid_label_def)
  have taken: "list_all name_char (take n base)" for n
    using base by (auto simp: list_all_iff dest: in_set_takeD)
  show ?thesis
  proof (cases "sfx = []")
    case True
    have "sandbox_name cluster vm [] =
        (let b = py_strip_chars ''-'' (take 63 base) in if b \<noteq> [] then b else ''restore'')"
      by (simp add: sandbox_name_def base_def stripped_def Let_def)
    then show ?thesis
      using True strip_valid [OF taken [of 63]] valid_restore by (simp add: Let_def)
  next
    case False
    let ?n = "max 1 (63 - length sfx - 1)"
    let ?b = "py_strip_chars ''-'' (take ?n base)"
    have name: "sandbox_name cluster vm sfx = (if ?b \<noteq> [] then ?b @ ''-'' @ sfx else sfx)"
      using False by (simp add: sandbox_name_def base_def stripped_def Let_def)
    have sfx: "valid_label sfx" "length sfx \<le> 61" using assms False by auto
    have "length ?b \<le> ?n" using length_py_strip_chars [of "''-''" "take ?n base"] by simp
    then have len: "length ?b + 1 + length sfx \<le> 63" using sfx(2) by simp
    show ?thesis
    proof (cases "?b = []")
      case True
      then show ?thesis using name sfx(1) by simp
    next
      case False
      then have "valid_label ?b" using strip_valid [OF taken [of ?n]] sfx(2) by simp
      then have "valid_label (?b @ ''-'' @ sfx)"
        using sfx(1) len by (simp add: valid_label_def name_char_def)
      then show ?thesis using name False by simp
    qed
  qed
qed

text \<open>ejecting changes only CD-ROM drives that point at a volume, and after the changes
  no drive needs ejecting any more.\<close>

theorem eject_cdroms_complete:
  assumes "distinct (map fst items)"
  shows "\<forall>(k, v) \<in> set (fold (\<lambda>(k, v). dict_set k (JStr v)) (eject_cdroms items) items). \<not> needs_eject k v"
proof -
  have ejected: "\<not> needs_eject k (JStr ''none,media=cdrom'')" for k
  proof -
    have "py_strip (hd (split_on (CHR '','') ''none,media=cdrom'')) = ''none''" by code_simp
    then show ?thesis by (simp add: needs_eject_def)
  qed
  let ?eject = "\<lambda>cs al. fold (\<lambda>(k, v). dict_set k (JStr v)) cs al"
  have inv: "v = JStr ''none,media=cdrom'' \<or> ((k, v) \<in> set al \<and> k \<notin> fst ` set cs)"
    if "distinct (map fst al)" "\<forall>c\<in>set cs. snd c = ''none,media=cdrom''" "(k, v) \<in> set (?eject cs al)" for cs al k v
    using that
  proof (induction cs arbitrary: al)
    case (Cons c cs)
    let ?al = "dict_set (fst c) (JStr (snd c)) al"
    have "(k, v) \<in> set (?eject cs ?al)" using Cons.prems(3) by (simp add: case_prod_unfold)
    then have "v = JStr ''none,media=cdrom'' \<or> ((k, v) \<in> set ?al \<and> k \<notin> fst ` set cs)"
      using Cons.prems(1,2) by (intro Cons.IH) (simp_all add: distinct_dict_set)
    moreover have "v = JStr (snd c) \<or> ((k, v) \<in> set al \<and> k \<noteq> fst c)" if "(k, v) \<in> set ?al"
    proof -
      have "map_of ?al k = Some v" using that Cons.prems(1) by (simp add: distinct_dict_set)
      then have "(if k = fst c then Some (JStr (snd c)) else map_of al k) = Some v" by (simp add: update_conv')
      then show ?thesis by (auto split: if_splits dest: map_of_SomeD)
    qed
    moreover have "snd c = ''none,media=cdrom''" using Cons.prems(2) by simp
    ultimately show ?case unfolding list.set(2) image_insert by (metis insert_iff)
  qed simp
  have "\<not> needs_eject k v" if "(k, v) \<in> set items" "k \<notin> fst ` set (eject_cdroms items)" for k v
    using that set_eject_cdroms [of k "''none,media=cdrom''" items] by force
  moreover have "\<forall>c\<in>set (eject_cdroms items). snd c = ''none,media=cdrom''"
    using set_eject_cdroms by (metis prod.collapse)
  ultimately show ?thesis using ejected inv [OF assms] by blast
qed

text \<open>the overall progress is a percentage of a known total, grows with the bytes that were
  read, and is 100 when everything was.\<close>

theorem overall_restore_fields_progress:
  assumes "0 < tot" and "got \<le> got'"
  shows "\<exists>p p'. overall_restore_fields got (Some tot) = Some [F_percent (Some p), F_bytes_done (Some (max 0 (min got tot))),
            F_bytes_total (Some tot), F_phase (Some (phase_of_percent p))]
      \<and> overall_restore_fields got' (Some tot) = Some [F_percent (Some p'), F_bytes_done (Some (max 0 (min got' tot))),
            F_bytes_total (Some tot), F_phase (Some (phase_of_percent p'))]
      \<and> 0 \<le> p \<and> p \<le> p' \<and> p' \<le> 100 \<and> (tot \<le> got \<longrightarrow> p = 100)"
proof -
  let ?q = "\<lambda>n. fl64 (fl64 (of_int n / of_int tot) * 100)"
  let ?d = "max 0 (min got tot)" and ?d' = "max 0 (min got' tot)"
  have "(of_int ?d :: rat) / of_int tot \<le> of_int ?d' / of_int tot"
    using assms by (intro divide_right_mono) auto
  then have mono: "py_trunc (?q ?d) \<le> py_trunc (?q ?d')"
    by (intro py_trunc_mono binary64.percent_mono)
  have "(0::rat) \<le> of_int ?d / of_int tot" using assms by simp
  then have "0 \<le> ?q ?d" by (rule binary64.percent_nonneg)
  then have nonneg: "0 \<le> py_trunc (?q ?d)" using py_trunc_mono [of 0 "?q ?d"] py_trunc_of_int [of 0] by simp
  have full: "py_trunc (?q ?d) = 100" if "tot \<le> got"
  proof -
    have "?d = tot" using that assms(1) by simp
    then have "?q ?d = 100" using assms(1) binary64.percent_full by simp
    then show ?thesis using py_trunc_of_int [of 100] by simp
  qed
  let ?p = "overall_percent ?d tot" and ?p' = "overall_percent ?d' tot"
  have "0 \<le> ?p" "?p \<le> ?p'" "?p' \<le> 100" "tot \<le> got \<Longrightarrow> ?p = 100"
    using mono nonneg full unfolding overall_percent_def by linarith+
  moreover have "overall_restore_fields got (Some tot) = Some [F_percent (Some ?p), F_bytes_done (Some ?d),
      F_bytes_total (Some tot), F_phase (Some (phase_of_percent ?p))]"
    "overall_restore_fields got' (Some tot) = Some [F_percent (Some ?p'), F_bytes_done (Some ?d'),
      F_bytes_total (Some tot), F_phase (Some (phase_of_percent ?p'))]"
    using assms(1) by (simp_all add: overall_restore_fields_def Let_def)
  ultimately show ?thesis by blast
qed

text \<open>the stall backstop never fires within the floor, nor while the quiet time is within
  \<open>factor\<close> times the time that one percent took so far.\<close>

theorem stall_not_exceeded:
  assumes "idle \<le> floor_seconds \<or> (0 < pct \<and> idle \<le> fl64 (fl64 (elapsed / of_int pct) * factor))"
  shows "\<not> stall_exceeded idle pct elapsed factor floor_seconds"
  using assms by (auto simp: stall_exceeded_def Let_def)

end
