(* ===== verification/SandboxNet.thy ===== *)
theory SandboxNet imports PyRegex PyEffects Ipv4 begin

text \<open>
  Addressing of the sandbox (the helpers at the end of \<open>app/services/restore_server.py\<close>):
  the operator's \<open>ip[/prefix]\<close> override, netmasks, the helper's address in the guest's
  subnet, the isolated fallback range, the derived MAC, and the helper container's two
  network legs. An exception of \<open>ipaddress\<close> is the left side of the result.
\<close>

text \<open>\<open>re.search(r"https?://([^:/]+)", url or "")\<close>\<close>

definition HOST_RE :: rx where
  "HOST_RE = seqs [lit ''http'', opt (chr_rx (CHR ''s'')), lit ''://'', Grp 1 (plus (none_of '':/''))]"

definition host_of :: "string \<Rightarrow> string" where
  "host_of url = (case rx_search HOST_RE url of Some m \<Rightarrow> py_lower (group_text m 1) | None \<Rightarrow> [])"

definition hex_digit :: "nat \<Rightarrow> char" where
  "hex_digit d = ''0123456789abcdef'' ! d"

text \<open>\<open>f"{b:02x}"\<close>\<close>

definition hex2_text :: "nat \<Rightarrow> string" where
  "hex2_text b = [hex_digit (b div 16 mod 16), hex_digit (b mod 16)]"

definition address_error :: "string \<Rightarrow> exn" where
  "address_error s = PyError ''AddressValueError'' s"

definition stable_mac :: "string \<Rightarrow> exn + string" where
  "stable_mac ip =
     (case ipv4_of_string ip of
        None \<Rightarrow> Inl (address_error ip)
      | Some a \<Rightarrow> Inr (''02:00:'' @ py_join '':'' (map hex2_text (octets a))))"

definition prefix_from_netmask :: "string \<Rightarrow> nat" where
  "prefix_from_netmask netmask =
     (case ip_network (''0.0.0.0/'' @ netmask) of Some n \<Rightarrow> prefixlen n | None \<Rightarrow> 24)"

definition netmask_from_prefix :: "int \<Rightarrow> string" where
  "netmask_from_prefix p =
     (case ip_network (''0.0.0.0/'' @ string_of_int p) of
        Some n \<Rightarrow> string_of_ipv4 (netmask_of (prefixlen n))
      | None \<Rightarrow> ''255.255.255.0'')"

definition parse_cidr :: "string \<Rightarrow> int \<Rightarrow> (string \<times> int) option" where
  "parse_cidr txt default_prefix =
     (let raw = py_strip txt
      in if raw = [] then None
         else case py_partition (CHR ''/'') raw of
                (ip_part, _, prefix_part) \<Rightarrow>
                  (case ipv4_of_string (py_strip ip_part) of
                     None \<Rightarrow> None
                   | Some a \<Rightarrow>
                       if py_strip prefix_part \<noteq> []
                       then (case py_int (py_strip prefix_part) of
                               None \<Rightarrow> None
                             | Some p \<Rightarrow> if \<not> (0 \<le> p \<and> p \<le> 32) then None else Some (string_of_ipv4 a, p))
                       else Some (string_of_ipv4 a, default_prefix)))"

text \<open>\<open>f"{ip}/{prefix}"\<close> as a network, \<open>strict=False\<close>.\<close>

definition net_of :: "string \<Rightarrow> int \<Rightarrow> ipv4_net option" where
  "net_of ip p = ip_network (ip @ ''/'' @ string_of_int p)"

definition plus_addr :: "ipv4 \<Rightarrow> nat \<Rightarrow> exn + string" where
  "plus_addr a n =
     (case ipv4_of_int (int a + int n) of
        None \<Rightarrow> Inl (address_error (string_of_ipv4 a)) | Some b \<Rightarrow> Inr (string_of_ipv4 b))"

definition sandbox_host_ip :: "string \<Rightarrow> int \<Rightarrow> exn + string" where
  "sandbox_host_ip guest_ip p =
     (case net_of guest_ip p of
        None \<Rightarrow> Inl (PyError ''ValueError'' guest_ip)
      | Some net \<Rightarrow>
          (case ipv4_of_string guest_ip of
             None \<Rightarrow> Inl (address_error guest_ip)
           | Some guest \<Rightarrow>
               (case List.find (\<lambda>h. h \<noteq> guest) (hosts net) of
                  Some h \<Rightarrow> Inr (string_of_ipv4 h)
                | None \<Rightarrow> plus_addr guest 1)))"

definition SANDBOX_HELPER_HOST :: nat where "SANDBOX_HELPER_HOST = 254"
definition SANDBOX_GUEST_HOST :: nat where "SANDBOX_GUEST_HOST = 200"
definition SANDBOX_FALLBACK_CIDR :: string where "SANDBOX_FALLBACK_CIDR = ''100.64.0.0/24''"

definition sandbox_addrs :: "string \<Rightarrow> int \<Rightarrow> exn + string \<times> string \<times> string" where
  "sandbox_addrs mgmt_ip mgmt_prefix =
     (case net_of mgmt_ip mgmt_prefix of
        None \<Rightarrow> Inl (PyError ''ValueError'' mgmt_ip)
      | Some net \<Rightarrow>
          (case (plus_addr (net_address net) SANDBOX_HELPER_HOST, plus_addr (net_address net) SANDBOX_GUEST_HOST) of
             (Inr h, Inr g) \<Rightarrow> Inr (h, g, string_of_ipv4 (netmask_of (prefixlen net)))
           | _ \<Rightarrow> Inl (address_error mgmt_ip)))"

definition sandbox_fallback_addrs :: "string \<Rightarrow> exn + string \<times> string \<times> nat" where
  "sandbox_fallback_addrs cidr =
     (case ip_network cidr of
        None \<Rightarrow> Inl (PyError ''ValueError'' cidr)
      | Some net \<Rightarrow>
          (case (plus_addr (net_address net) SANDBOX_HELPER_HOST, plus_addr (net_address net) SANDBOX_GUEST_HOST) of
             (Inr h, Inr g) \<Rightarrow> Inr (h, g, prefixlen net)
           | _ \<Rightarrow> Inl (address_error cidr)))"

definition dnsmasq_config :: "string \<Rightarrow> string \<Rightarrow> string" where
  "dnsmasq_config guest_ip netmask =
     py_join nl
       [''# generated by backup-sentinel restore helper'', ''interface=sbx'', ''bind-interfaces'',
        ''except-interface=lo'', ''no-resolv'',
        ''dhcp-range='' @ guest_ip @ '','' @ guest_ip @ '','' @ netmask @ '',infinite''] @ nl"

text \<open>The prefix of the sandbox leg: the guest's own, but 32 where the guest's subnet is the
  management subnet. Text that is no network (\<open>ValueError\<close>) leaves the prefix as it is.\<close>

definition sandbox_leg_prefix :: "string \<Rightarrow> int \<Rightarrow> string \<Rightarrow> int \<Rightarrow> int" where
  "sandbox_leg_prefix sandbox_ip sandbox_prefix mgmt_ip mgmt_prefix =
     (case (net_of sandbox_ip sandbox_prefix, net_of mgmt_ip mgmt_prefix) of
        (Some s, Some m) \<Rightarrow> if s = m then 32 else sandbox_prefix
      | _ \<Rightarrow> sandbox_prefix)"

text \<open>The two legs: \<open>net0\<close> (sandbox) and \<open>net1\<close> (management).\<close>

definition helper_legs ::
  "string \<Rightarrow> int \<Rightarrow> string \<Rightarrow> string \<Rightarrow> int \<Rightarrow> int option \<Rightarrow> string \<Rightarrow> string \<Rightarrow> int \<Rightarrow> exn + string \<times> string" where
  "helper_legs bridge vlan_tag mgmt_iface mgmt_ip mgmt_prefix mgmt_vlan mgmt_gateway sandbox_ip sandbox_prefix =
     (case stable_mac mgmt_ip of
        Inl e \<Rightarrow> Inl e
      | Inr hw \<Rightarrow>
          let mgmt_net = ''name=mgmt,bridge='' @ mgmt_iface @ '',hwaddr='' @ hw @ '',ip='' @ mgmt_ip @ ''/''
                         @ string_of_int mgmt_prefix
                         @ (if mgmt_gateway \<noteq> [] then '',gw='' @ mgmt_gateway else [])
                         @ (if truthy_int mgmt_vlan then '',tag='' @ string_of_int (opt_or mgmt_vlan 0) else []);
              sbx_prefix = sandbox_leg_prefix sandbox_ip sandbox_prefix mgmt_ip mgmt_prefix;
              net0 = ''name=sbx,bridge='' @ bridge @ '',tag='' @ string_of_int vlan_tag @ '',ip='' @ sandbox_ip
                     @ ''/'' @ string_of_int sbx_prefix
          in Inr (net0, mgmt_net))"

section \<open>Facts about addresses and prefixes\<close>

lemma digits_no_slash: "list_all is_digit s \<Longrightarrow> CHR ''/'' \<notin> set s"
  by (auto simp: list_all_iff is_digit_def)

lemma set_string_of_ipv4: "c \<in> set (string_of_ipv4 a) \<Longrightarrow> is_digit c \<or> c = CHR ''.''"
  using string_of_nat_digits by (auto simp: string_of_ipv4_def octets_def list_all_iff)

lemma no_slash_in_ipv4: "CHR ''/'' \<notin> set (string_of_ipv4 a)"
  using set_string_of_ipv4 [of "CHR ''/''" a] by (auto simp: is_digit_def)

lemma string_of_int_nonneg [simp]: "string_of_int (int n) = string_of_nat n"
  by (simp add: string_of_int_def)

lemma parse_prefix_number [simp]: "p \<le> 32 \<Longrightarrow> parse_prefix (string_of_nat p) = Some p"
  by (simp add: parse_prefix_def)

lemma net_of_number:
  assumes "a < 2 ^ 32" and "p \<le> 32"
  shows "net_of (string_of_ipv4 a) (int p) = Some (ipv4_network a p)"
proof -
  have "split_on (CHR ''/'') (string_of_ipv4 a @ CHR ''/'' # string_of_nat p) = [string_of_ipv4 a, string_of_nat p]"
    using no_slash_in_ipv4 digits_no_slash string_of_nat_digits
    by (simp add: split_on_append_sep split_on_no_sep)
  then show ?thesis using assms by (simp add: net_of_def ip_network_def)
qed

lemma netmask_of_inj: "p \<le> 32 \<Longrightarrow> q \<le> 32 \<Longrightarrow> netmask_of p = netmask_of q \<longleftrightarrow> p = q"
proof -
  assume pq: "p \<le> 32" "q \<le> 32"
  have le: "net_size r \<le> 2 ^ 32" for r unfolding net_size_def by (rule power_increasing) simp_all
  have "netmask_of p = netmask_of q \<longleftrightarrow> net_size p = net_size q"
    using le [of p] le [of q] unfolding netmask_of_def by linarith
  also have "\<dots> \<longleftrightarrow> 32 - p = 32 - q" by (simp add: net_size_def)
  also have "\<dots> \<longleftrightarrow> p = q" using pq by linarith
  finally show ?thesis .
qed

lemma netmask_bound: "netmask_of p < 2 ^ 32"
  by (simp add: netmask_of_def)

lemma prefix_of_mask_netmask:
  assumes "p \<le> 32"
  shows "prefix_of_mask (netmask_of p) = Some p"
proof -
  have "List.find (\<lambda>q. netmask_of q = netmask_of p) [0..<33] \<noteq> None"
    using assms by (auto simp: find_None_all)
  then obtain q where q: "List.find (\<lambda>q. netmask_of q = netmask_of p) [0..<33] = Some q" by blast
  then have "q \<in> set [0..<33] \<and> netmask_of q = netmask_of p" using find_Some_first [OF q] by blast
  then have "q < 33" "netmask_of q = netmask_of p" by (simp_all only: set_upt atLeastLessThan_iff)
  then have "q = p" using assms netmask_of_inj by simp
  then show ?thesis using q by (simp add: prefix_of_mask_def)
qed

lemma ipv4_text_not_digits: "\<not> all_digits (string_of_ipv4 a)"
proof -
  have "CHR ''.'' \<in> set (string_of_ipv4 a)" by (simp add: string_of_ipv4_def octets_def)
  then show ?thesis by (auto simp: all_digits_def dest: no_dot_in_digits)
qed

section \<open>Properties\<close>

text \<open>a netmask and its prefix length determine each other.\<close>

theorem netmask_prefix_roundtrip:
  assumes "p \<le> 32"
  shows "prefix_from_netmask (netmask_from_prefix (int p)) = p"
proof -
  have "digit_char 0 = CHR ''0''" by code_simp
  then have zero: "string_of_ipv4 0 = ''0.0.0.0''"
    by (simp add: string_of_ipv4_def octets_def string_of_nat_small)
  have n: "ip_network (''0.0.0.0/'' @ string_of_nat p) = Some (ipv4_network 0 p)"
    using net_of_number [of 0 p] assms by (simp add: net_of_def zero)
  have "split_on (CHR ''/'') (''0.0.0.0/'' @ string_of_ipv4 (netmask_of p)) = [''0.0.0.0'', string_of_ipv4 (netmask_of p)]"
    using no_slash_in_ipv4 by (simp add: split_on_no_sep)
  moreover have "parse_prefix (string_of_ipv4 (netmask_of p)) = Some p"
    using netmask_bound ipv4_text_not_digits assms by (simp add: parse_prefix_def prefix_of_mask_netmask)
  moreover have "ipv4_of_string ''0.0.0.0'' = Some 0" using ipv4_of_string_of_ipv4 [of 0] by (simp add: zero)
  ultimately have "ip_network (''0.0.0.0/'' @ string_of_ipv4 (netmask_of p)) = Some (ipv4_network 0 p)"
    by (simp add: ip_network_def)
  with n show ?thesis
    by (simp add: prefix_from_netmask_def netmask_from_prefix_def ipv4_network_def)
qed


lemma find_hosts_lowest:
  assumes "List.find (\<lambda>h. h \<noteq> g) (hosts n) = Some h"
  shows "h \<in> set (hosts n) \<and> h \<noteq> g \<and> (\<forall>k\<in>set (hosts n). k \<noteq> g \<longrightarrow> h \<le> k)"
proof -
  obtain before after where split: "hosts n = before @ h # after" and before: "\<forall>a\<in>set before. \<not> a \<noteq> g"
    and h: "h \<in> set (hosts n)" "h \<noteq> g"
    using find_Some_first [OF assms] by blast
  have "sorted (hosts n)" by (simp add: hosts_def Let_def)
  then have "\<forall>k\<in>set after. h \<le> k" by (simp add: split sorted_append)
  then show ?thesis using h before by (auto simp: split)
qed

lemma host_other_than:
  assumes "p \<le> 30"
  shows "List.find (\<lambda>h. h \<noteq> g) (hosts (ipv4_network a p)) \<noteq> None"
proof -
  let ?lo = "net_address (ipv4_network a p)"
  have "(4::nat) = 2 ^ 2" by simp
  also have "\<dots> \<le> 2 ^ (32 - p)" using assms by (intro power_increasing) simp_all
  finally have size: "4 \<le> net_size p" by (simp add: net_size_def)
  have pl: "prefixlen (ipv4_network a p) = p" by (simp add: ipv4_network_def)
  have "?lo + 1 \<in> set (hosts (ipv4_network a p))" "?lo + 2 \<in> set (hosts (ipv4_network a p))"
    using size assms by (auto simp: hosts_def Let_def pl)
  then have "\<exists>h\<in>set (hosts (ipv4_network a p)). h \<noteq> g"
    by (metis add_left_cancel one_eq_numeral_iff num.distinct(1))
  then show ?thesis by (simp add: find_None_all)
qed

text \<open>the helper's own address is a usable host of the guest's subnet, is not the guest's
  address, and is the lowest such host.\<close>

theorem sandbox_host_ip_correct:
  assumes "g < 2 ^ 32" and "p \<le> 30"
  shows "\<exists>h. sandbox_host_ip (string_of_ipv4 g) (int p) = Inr (string_of_ipv4 h)
    \<and> h \<in> set (hosts (ipv4_network g p)) \<and> h \<noteq> g
    \<and> (\<forall>k\<in>set (hosts (ipv4_network g p)). k \<noteq> g \<longrightarrow> h \<le> k)
    \<and> in_net h (ipv4_network g p) \<and> in_net g (ipv4_network g p)"
proof -
  obtain h where h: "List.find (\<lambda>h. h \<noteq> g) (hosts (ipv4_network g p)) = Some h"
    using host_other_than [OF assms(2)] by blast
  then have "sandbox_host_ip (string_of_ipv4 g) (int p) = Inr (string_of_ipv4 h)"
    using assms net_of_number [of g p] by (simp add: sandbox_host_ip_def)
  then show ?thesis
    using find_hosts_lowest [OF h] hosts_in_net in_own_network by blast
qed

text \<open>two management addresses have the same MAC only if they are the same address.\<close>

theorem stable_mac_injective:
  assumes "stable_mac ip = Inr m" and "stable_mac ip' = Inr m"
  shows "ip = ip'"
proof -
  obtain a b where a: "ipv4_of_string ip = Some a" and b: "ipv4_of_string ip' = Some b"
    and m: "m = ''02:00:'' @ py_join '':'' (map hex2_text (octets a))"
           "m = ''02:00:'' @ py_join '':'' (map hex2_text (octets b))"
    using assms by (auto simp: stable_mac_def split: option.splits)
  have hex_inj: "hex_digit x = hex_digit y \<longleftrightarrow> x = y" if "x < 16" "y < 16" for x y
  proof -
    have "distinct ''0123456789abcdef''" by code_simp
    then show ?thesis using that by (simp add: hex_digit_def nth_eq_iff_index_eq)
  qed
  have hex2_inj: "hex2_text x = hex2_text y \<Longrightarrow> x = y" if "x < 256" "y < 256" for x y
  proof -
    assume "hex2_text x = hex2_text y"
    then have "x div 16 = y div 16" "x mod 16 = y mod 16"
      using that by (simp_all add: hex2_text_def hex_inj)
    then show "x = y" by (metis div_mult_mod_eq)
  qed
  have colon: "CHR '':'' \<notin> set (hex2_text x)" for x
  proof -
    have "hex_digit d \<noteq> CHR '':''" if "d < 16" for d
    proof -
      have "hex_digit d \<in> set ''0123456789abcdef''" using that by (simp add: hex_digit_def del: set_simps)
      moreover have "CHR '':'' \<notin> set ''0123456789abcdef''" by code_simp
      ultimately show ?thesis by metis
    qed
    then have "hex_digit (x div 16 mod 16) \<noteq> CHR '':''" "hex_digit (x mod 16) \<noteq> CHR '':''" by simp_all
    then show ?thesis unfolding hex2_text_def by fastforce
  qed
  have "py_join '':'' (map hex2_text (octets a)) = py_join '':'' (map hex2_text (octets b))" using m by simp
  then have "map hex2_text (octets a) = map hex2_text (octets b)"
    using colon split_on_join [of "map hex2_text (octets a)" "CHR '':''"]
      split_on_join [of "map hex2_text (octets b)" "CHR '':''"]
    by (simp add: octets_def)
  then have "octets a = octets b"
    by (simp add: octets_def hex2_inj)
  then have "a = b"
    using octets_inverse a b ipv4_of_string_Some by metis
  then show ?thesis using a b ipv4_of_string_Some by metis
qed

text \<open>the legs of the helper never span one subnet: the sandbox leg's network, with the
  prefix that is configured, is not the management network.\<close>

theorem sandbox_leg_not_mgmt_net:
  assumes "s < 2 ^ 32" and "m < 2 ^ 32" and "sp \<le> 32" and "mp < 32"
  shows "net_of (string_of_ipv4 s) (sandbox_leg_prefix (string_of_ipv4 s) (int sp) (string_of_ipv4 m) (int mp))
       \<noteq> net_of (string_of_ipv4 m) (int mp)"
proof (cases "ipv4_network s sp = ipv4_network m mp")
  case True
  then have "sandbox_leg_prefix (string_of_ipv4 s) (int sp) (string_of_ipv4 m) (int mp) = int 32"
    using assms by (simp add: sandbox_leg_prefix_def net_of_number)
  then have "net_of (string_of_ipv4 s) (sandbox_leg_prefix (string_of_ipv4 s) (int sp) (string_of_ipv4 m) (int mp))
      = Some (ipv4_network s 32)"
    by (simp only: net_of_number [OF assms(1) order_refl])
  then show ?thesis
    using assms net_of_number [of m mp] by (simp add: ipv4_network_def)
next
  case False
  then show ?thesis
    using assms by (simp add: sandbox_leg_prefix_def net_of_number)
qed


section \<open>Operator input\<close>

lemma is_space_not: "is_digit c \<or> c = CHR ''.'' \<or> c = CHR ''/'' \<Longrightarrow> \<not> is_space c"
  by (auto simp: is_digit_def is_space_def Let_def)

lemma py_strip_no_space: "list_all (\<lambda>c. \<not> is_space c) s \<Longrightarrow> py_strip s = s"
proof -
  assume ns: "list_all (\<lambda>c. \<not> is_space c) s"
  then have "dropWhile is_space s = s" by (cases s) auto
  moreover have "dropWhile is_space (rev s) = rev s"
    using ns by (cases "rev s") (auto simp: list_all_iff simp flip: set_rev [of s])
  ultimately show ?thesis by (simp add: py_strip_def py_lstrip_def py_rstrip_def)
qed

lemma strip_underscores_digits: "all_digits s \<Longrightarrow> strip_underscores s = Some s"
proof (induction s rule: strip_underscores.induct)
  case (3 c d s)
  then have "is_digit d" "d \<noteq> CHR ''_''" by (auto simp: all_digits_def is_digit_def)
  then show ?case using 3 by (simp add: all_digits_def)
qed (auto simp: all_digits_def)

lemma py_int_string_of_nat [simp]: "py_int (string_of_nat n) = Some (int n)"
proof -
  have ds: "list_all is_digit (string_of_nat n)" "string_of_nat n \<noteq> []" using string_of_nat_digits by auto
  have strip: "py_strip (string_of_nat n) = string_of_nat n"
    using ds is_space_not by (intro py_strip_no_space) (auto simp: list_all_iff)
  have "hd (string_of_nat n) \<noteq> CHR ''-''" "hd (string_of_nat n) \<noteq> CHR ''+''"
    using ds by (cases "string_of_nat n"; auto simp: is_digit_def)+
  then show ?thesis
    using strip_underscores_digits [of "string_of_nat n"] by (simp add: py_int_def strip Let_def)
qed

lemma py_partition_append: "c \<notin> set a \<Longrightarrow> py_partition c (a @ c # b) = (a, True, b)"
  by (induction a) auto

lemma py_partition_none: "c \<notin> set a \<Longrightarrow> py_partition c a = (a, False, [])"
  by (induction a) auto

lemma ipv4_text_no_space: "list_all (\<lambda>c. \<not> is_space c) (string_of_ipv4 a)"
  using set_string_of_ipv4 is_space_not by (auto simp: list_all_iff)

lemma string_of_ipv4_nonempty [simp]: "string_of_ipv4 a \<noteq> []"
  by (simp add: string_of_ipv4_def octets_def)

text \<open>what the operator enters as \<open>ip/prefix\<close> or \<open>ip\<close> is read as that address and prefix
  (a bare address takes the default), and whatever is accepted is a canonical address with a
  prefix between 0 and 32.\<close>

theorem parse_cidr_correct:
  assumes "0 \<le> dp" and "dp \<le> 32"
  shows "(\<forall>a p. a < 2 ^ 32 \<longrightarrow> p \<le> 32 \<longrightarrow>
            parse_cidr (string_of_ipv4 a @ ''/'' @ string_of_nat p) dp = Some (string_of_ipv4 a, int p)
            \<and> parse_cidr (string_of_ipv4 a) dp = Some (string_of_ipv4 a, dp))
       \<and> (\<forall>txt ip p. parse_cidr txt dp = Some (ip, p) \<longrightarrow>
            (\<exists>a. ipv4_of_string ip = Some a) \<and> 0 \<le> p \<and> p \<le> 32)"
proof (intro conjI allI impI)
  fix a p :: nat
  assume a: "a < 2 ^ 32" and p: "p \<le> 32"
  have nodigits: "list_all (\<lambda>c. \<not> is_space c) (string_of_nat p)"
    using string_of_nat_digits [of p] is_space_not by (auto simp: list_all_iff)
  then have "list_all (\<lambda>c. \<not> is_space c) (string_of_ipv4 a @ ''/'' @ string_of_nat p)"
    using ipv4_text_no_space is_space_not by simp
  then show "parse_cidr (string_of_ipv4 a @ ''/'' @ string_of_nat p) dp = Some (string_of_ipv4 a, int p)"
    using a p nodigits ipv4_text_no_space string_of_nat_digits [of p]
    by (simp add: parse_cidr_def Let_def py_strip_no_space py_partition_append no_slash_in_ipv4)
  show "parse_cidr (string_of_ipv4 a) dp = Some (string_of_ipv4 a, dp)"
    using a ipv4_text_no_space
    by (simp add: parse_cidr_def Let_def py_strip_no_space py_partition_none no_slash_in_ipv4)
next
  fix t0 ip p
  assume "parse_cidr t0 dp = Some (ip, p)"
  then obtain b t a where "ipv4_of_string t = Some a" "ip = string_of_ipv4 a" "0 \<le> p" "p \<le> 32"
    using assms by (auto simp: parse_cidr_def Let_def split: if_splits prod.splits option.splits)
  then show "(\<exists>a. ipv4_of_string ip = Some a)" "0 \<le> p" "p \<le> 32"
    using ipv4_of_string_Some by auto
qed

end
