(* ===== verification/RestoreServer.thy ===== *)
theory RestoreServer
  imports RestoreServerPure SandboxNet RestoreIpCollect RestoreMatch HostStats
    "HOL-Library.Char_ord" "HOL-Library.List_Lexorder"
begin

text \<open>
  The active client of the restore host (class \<open>RestoreServer\<close> of
  \<open>app/services/restore_server.py\<close>): identity interlock, presence and liveness checks, the
  reaper, NIC rewriting and the listings. The transports (the Proxmox API, root SSH, the
  helper agent's HTTP endpoint, \<open>time\<close>, the first eight digits of a SHA-256) are the injected protocols of the source: a record
  of actions on an arbitrary world \<open>'w\<close>. The object's cached node name and the module's cache
  of counter samples live in the world too; \<open>tr_sha8\<close> is the start of the SHA-256 digest. A method is an action with the transports and the configuration as arguments.
\<close>

record 'w transport =
  tr_get :: "string \<Rightarrow> ('w, json) act"
  tr_get_quick :: "string \<Rightarrow> ('w, json) act"
  tr_post :: "string \<Rightarrow> (string \<times> json) list \<Rightarrow> ('w, json) act"
  tr_root_post :: "string \<Rightarrow> (string \<times> json) list \<Rightarrow> ('w, json) act"
  tr_delete :: "string \<Rightarrow> ('w, json) act"
  tr_upload :: "string \<Rightarrow> string \<Rightarrow> string \<Rightarrow> string \<Rightarrow> ('w, json) act"
  tr_ssh :: "string \<Rightarrow> ('w, string) act"
  tr_agent_post :: "string \<Rightarrow> string \<Rightarrow> json \<Rightarrow> rat \<Rightarrow> ('w, json) act"
  tr_agent_healthy :: "string \<Rightarrow> ('w, bool) act"
  tr_now :: "('w, rat) act"
  tr_sleep :: "rat \<Rightarrow> ('w, unit) act"
  tr_node_cache :: "'w \<Rightarrow> string option"
  tr_set_node :: "string \<Rightarrow> 'w \<Rightarrow> 'w"
  tr_io_cache :: "'w \<Rightarrow> (string \<times> io_sample) list"
  tr_set_io :: "string \<Rightarrow> io_sample \<Rightarrow> 'w \<Rightarrow> 'w"
  tr_sha8 :: "string \<Rightarrow> string"

record target_storage =
  ts_storage :: string
  ts_disk_class :: "string option"
  ts_use :: bool
  ts_order :: "int option"

record server_config =
  cfg_ssh_host :: string
  cfg_api_url :: string
  cfg_sandbox_bridge :: string
  cfg_mgmt_iface :: string
  cfg_mgmt_netmask :: string
  cfg_mgmt_vlan :: "int option"
  cfg_mgmt_gateway :: string
  cfg_targets :: "target_storage list"
  cfg_stall_factor :: "rat option"
  cfg_helper_image :: "exn + string"

definition lift_r :: "exn + 'a \<Rightarrow> ('w, 'a) act" where
  "lift_r r = (case r of Inl e \<Rightarrow> raise e | Inr x \<Rightarrow> ret x)"

text \<open>\<open>(...) or []\<close> of a listing, as its elements; \<open>(...) or {}\<close>.\<close>

definition listed :: "('w, json) act \<Rightarrow> ('w, json list) act" where
  "listed m = bnd m (\<lambda>x. lift_r (jiter (py_or x (JArr []))))"

definition as_dict :: "('w, json) act \<Rightarrow> ('w, json) act" where
  "as_dict m = bnd m (\<lambda>x. ret (py_or x (JObj [])))"

definition kind_of :: "bool \<Rightarrow> string" where
  "kind_of is_lxc = (if is_lxc then ''lxc'' else ''qemu'')"

text \<open>\<open>str(x)\<close> of a scalar.\<close>

fun py_str :: "json \<Rightarrow> string" where
  "py_str JNull = ''None''"
| "py_str (JBool b) = (if b then ''True'' else ''False'')"
| "py_str (JInt i) = string_of_int i"
| "py_str (JStr s) = s"
| "py_str (JNum r) = string_of_int (py_trunc r)"
| "py_str (JArr xs) = ''[...]''"
| "py_str (JObj kvs) = ''{...}''"

section \<open>Identity and node\<close>

definition verify_host_identity :: "server_config \<Rightarrow> string list \<Rightarrow> ('w, unit) act" where
  "verify_host_identity cfg production_hosts =
     (let ours = [py_lower (cfg_ssh_host cfg), host_of (cfg_api_url cfg)];
          clash = filter (\<lambda>h. h \<in> set (map py_lower production_hosts)) ours
      in if clash \<noteq> []
         then raise (HostIdentityError (''restore host overlaps production endpoint(s): '' @ py_join '', '' clash))
         else ret ())"

definition pick_node :: "json list \<Rightarrow> exn + string" where
  "pick_node nodes =
     rbind (rcollect (\<lambda>n. rmap (\<lambda>st. if st = JStr ''online'' then [n] else []) (jget n ''status'' JNull)) nodes) (\<lambda>online.
     case (if online \<noteq> [] then online else nodes) of
       [] \<Rightarrow> Inl (PyError ''IndexError'' ''list index out of range'')
     | n # _ \<Rightarrow> rbind (jindex n ''node'') jtext)"

definition node :: "'w transport \<Rightarrow> ('w, string) act" where
  "node tr = bnd (gets (tr_node_cache tr)) (\<lambda>c. case c of
       Some n \<Rightarrow> ret n
     | None \<Rightarrow> bnd (listed (tr_get tr ''/nodes'')) (\<lambda>nodes. bnd (lift_r (pick_node nodes)) (\<lambda>n.
               thn (modify (tr_set_node tr n)) (ret n))))"

text \<open>\<open>/nodes/<node>/<rest>\<close>\<close>

definition at_node :: "string \<Rightarrow> string \<Rightarrow> string" where
  "at_node n rest = ''/nodes/'' @ n @ ''/'' @ rest"

section \<open>Presence and liveness\<close>

definition guest_vmid :: "json \<Rightarrow> json \<Rightarrow> exn + int" where
  "guest_vmid dflt g = rbind (jget g ''vmid'' dflt) jint"

definition exists_guest :: "'w transport \<Rightarrow> int \<Rightarrow> bool \<Rightarrow> ('w, bool) act" where
  "exists_guest tr vid is_lxc =
     (if vid = 0 then ret False
      else bnd (catch (bnd (node tr) (\<lambda>n. bnd (tr_get tr (at_node n (kind_of is_lxc))) (\<lambda>x. ret (Some (py_or x (JArr []))))))
                      (\<lambda>_. ret None)) (\<lambda>guests.
           case guests of
             None \<Rightarrow> ret False
           | Some gs \<Rightarrow> bnd (lift_r (jiter gs)) (\<lambda>l.
               bnd (lift_r (rcollect (\<lambda>g. rmap (\<lambda>v. [v]) (guest_vmid (JInt (-1)) g)) l)) (\<lambda>ids. ret (vid \<in> set ids)))))"

text \<open>A vmid that is no number is left out; an entry that is no dict raises.\<close>

definition numeric_vmids :: "json list \<Rightarrow> exn + int list" where
  "numeric_vmids gs = rcollect (\<lambda>g. rmap (\<lambda>v. case jint v of Inl _ \<Rightarrow> [] | Inr i \<Rightarrow> [i]) (jget g ''vmid'' JNull)) gs"

definition present_vmids :: "'w transport \<Rightarrow> ('w, int list) act" where
  "present_vmids tr = bnd (node tr) (\<lambda>n.
     bnd (listed (tr_get tr (at_node n ''qemu''))) (\<lambda>q. bnd (lift_r (numeric_vmids q)) (\<lambda>qs.
     bnd (listed (tr_get tr (at_node n ''lxc''))) (\<lambda>l. bnd (lift_r (numeric_vmids l)) (\<lambda>ls. ret (remdups (qs @ ls)))))))"

definition task_running :: "'w transport \<Rightarrow> string \<Rightarrow> ('w, bool) act" where
  "task_running tr upid =
     bnd (catch (bnd (node tr) (\<lambda>n. bnd (tr_get tr (at_node n (''tasks/'' @ upid @ ''/status''))) (\<lambda>x. ret (Some (py_or x (JObj []))))))
                (\<lambda>_. ret None)) (\<lambda>st. case st of
       None \<Rightarrow> ret False
     | Some d \<Rightarrow> bnd (lift_r (jget d ''status'' JNull)) (\<lambda>s. ret (s = JStr ''running'')))"

text \<open>The running restore tasks of a vmid, and the latest of them.\<close>

definition is_restore_task :: "int \<Rightarrow> json \<Rightarrow> exn + bool" where
  "is_restore_task vid t =
     rbind (jget t ''id'' JNull) (\<lambda>i. rbind (jget t ''type'' JNull) (\<lambda>ty.
     rbind (jget t ''endtime'' JNull) (\<lambda>e. rbind (jget t ''upid'' JNull) (\<lambda>u.
     Inr (py_str i = string_of_int vid \<and> py_in ''restore'' (py_lower (py_str (py_or ty (JStr []))))
          \<and> \<not> py_truth e \<and> py_truth u)))))"

definition running_restore_tasks :: "int \<Rightarrow> json list \<Rightarrow> exn + json list" where
  "running_restore_tasks vid tasks = rcollect (\<lambda>t. rmap (\<lambda>b. if b then [t] else []) (is_restore_task vid t)) tasks"

definition latest_task_upid :: "json list \<Rightarrow> exn + string option" where
  "latest_task_upid running =
     rbind (rcollect (\<lambda>t. rbind (jget t ''starttime'' (JInt 0)) (\<lambda>s. rmap (\<lambda>i. [(t, i)]) (jint s))) running) (\<lambda>ts.
     case py_max snd ts of
       None \<Rightarrow> Inr None
     | Some (t, _) \<Rightarrow> rmap Some (rbind (jindex t ''upid'') jtext))"

definition tasks_path :: "string \<Rightarrow> int \<Rightarrow> string" where
  "tasks_path n vid = at_node n (''tasks?vmid='' @ string_of_int vid @ ''&source=active&limit=50'')"

definition find_running_restore_upid :: "'w transport \<Rightarrow> int \<Rightarrow> ('w, string option) act" where
  "find_running_restore_upid tr vid = bnd (node tr) (\<lambda>n.
     bnd (catch (bnd (tr_get tr (tasks_path n vid)) (\<lambda>x. ret (Some (py_or x (JArr []))))) (\<lambda>_. ret None)) (\<lambda>tasks.
     case tasks of
       None \<Rightarrow> ret None
     | Some ts \<Rightarrow> lift_r (rbind (jiter ts) (\<lambda>l. rbind (running_restore_tasks vid l) latest_task_upid))))"

definition is_running :: "'w transport \<Rightarrow> int \<Rightarrow> bool \<Rightarrow> ('w, bool) act" where
  "is_running tr vid is_lxc =
     bnd (catch (bnd (node tr) (\<lambda>n. bnd (tr_get tr (at_node n (kind_of is_lxc @ ''/'' @ string_of_int vid @ ''/status/current'')))
                    (\<lambda>x. ret (Some x)))) (\<lambda>_. ret None)) (\<lambda>st.
     ret (case st of
            Some (JObj kvs) \<Rightarrow> dict_get kvs ''status'' JNull = JStr ''running''
          | _ \<Rightarrow> False))"

definition vm_locked :: "'w transport \<Rightarrow> int \<Rightarrow> bool \<Rightarrow> ('w, bool) act" where
  "vm_locked tr vid is_lxc =
     bnd (catch (bnd (node tr) (\<lambda>n. bnd (tr_get tr (at_node n (kind_of is_lxc @ ''/'' @ string_of_int vid @ ''/config'')))
                    (\<lambda>x. ret (Some (py_or x (JObj [])))))) (\<lambda>_. ret None)) (\<lambda>cfg.
     case cfg of
       None \<Rightarrow> ret False
     | Some d \<Rightarrow> bnd (lift_r (jget d ''lock'' JNull)) (\<lambda>l. ret (py_truth l)))"

section \<open>Destroying\<close>

definition unlock :: "'w transport \<Rightarrow> int \<Rightarrow> bool \<Rightarrow> ('w, unit) act" where
  "unlock tr vid is_lxc =
     quiet (bnd (tr_ssh tr ((if is_lxc then ''pct'' else ''qm'') @ '' unlock '' @ string_of_int vid)) (\<lambda>_. ret ()))"

text \<open>Up to \<open>n\<close> rounds of waiting until the guest is down.\<close>

primrec wait_down :: "nat \<Rightarrow> 'w transport \<Rightarrow> int \<Rightarrow> bool \<Rightarrow> ('w, unit) act" where
  "wait_down 0 tr vid is_lxc = ret ()"
| "wait_down (Suc n) tr vid is_lxc =
     bnd (is_running tr vid is_lxc) (\<lambda>r. if \<not> r then ret () else thn (tr_sleep tr 1) (wait_down n tr vid is_lxc))"

definition destroy_path :: "string \<Rightarrow> int \<Rightarrow> bool \<Rightarrow> string" where
  "destroy_path n vid is_lxc = at_node n (kind_of is_lxc @ ''/'' @ string_of_int vid @ ''?purge=1&destroy-unreferenced-disks=1'')"

definition destroy :: "'w transport \<Rightarrow> int \<Rightarrow> bool \<Rightarrow> ('w, unit) act" where
  "destroy tr vid is_lxc = bnd (node tr) (\<lambda>n.
     block
       [unlock tr vid is_lxc,
        quiet (bnd (tr_post tr (at_node n (kind_of is_lxc @ ''/'' @ string_of_int vid @ ''/status/stop'')) []) (\<lambda>_. ret ())),
        wait_down 30 tr vid is_lxc,
        bnd (tr_delete tr (destroy_path n vid is_lxc)) (\<lambda>_. ret ())])"

text \<open>\<open>g["vmid"]\<close> of the listed guests, kept unless a live run owns it.\<close>

definition as_guests :: "bool \<Rightarrow> json list \<Rightarrow> exn + guest list" where
  "as_guests is_lxc gs = rcollect (\<lambda>g. rbind (jindex g ''vmid'') (\<lambda>v. rmap (\<lambda>i. [\<lparr>g_vmid = i, g_is_lxc = is_lxc\<rparr>]) (jint v))) gs"

definition reap_kind :: "'w transport \<Rightarrow> string \<Rightarrow> int list \<Rightarrow> bool \<Rightarrow> ('w, int list) act" where
  "reap_kind tr n owned is_lxc =
     bnd (listed (tr_get tr (at_node n (kind_of is_lxc)))) (\<lambda>l. bnd (lift_r (as_guests is_lxc l)) (\<lambda>gs.
     let targets = select_reaper_targets gs (set owned)
     in thn (foreach (\<lambda>g. destroy tr (g_vmid g) is_lxc) targets) (ret (map g_vmid targets))))"

definition reap :: "'w transport \<Rightarrow> int list \<Rightarrow> ('w, int list) act" where
  "reap tr owned = bnd (node tr) (\<lambda>n. bnd (reap_kind tr n owned False) (\<lambda>q. bnd (reap_kind tr n owned True) (\<lambda>l. ret (q @ l))))"

section \<open>Booting the restored guest\<close>

definition start :: "'w transport \<Rightarrow> int \<Rightarrow> ('w, unit) act" where
  "start tr vid = bnd (node tr) (\<lambda>n. bnd (tr_post tr (at_node n (''qemu/'' @ string_of_int vid @ ''/status/start'')) []) (\<lambda>_. ret ()))"

definition start_lxc :: "'w transport \<Rightarrow> int \<Rightarrow> ('w, unit) act" where
  "start_lxc tr vid = bnd (node tr) (\<lambda>n. bnd (tr_post tr (at_node n (''lxc/'' @ string_of_int vid @ ''/status/start'')) []) (\<lambda>_. ret ()))"

definition HOSTPCI :: rx where "HOSTPCI = Seq (lit ''hostpci'') digits"
definition NET_KEY :: rx where "NET_KEY = Seq (lit ''net'') digits"

definition nic_changes :: "string \<Rightarrow> int \<Rightarrow> int option \<Rightarrow> string \<Rightarrow> (string \<times> json) list \<Rightarrow> (string \<times> string) list" where
  "nic_changes bridge tag guest_vlan name items =
     fold (\<lambda>(k, v). dict_set k v) (eject_cdroms items)
       (fold (\<lambda>(k, v) ch. case v of
            JStr s \<Rightarrow> if rx_fullmatch NET_KEY k \<noteq> None then dict_set k (rewrite_net_line s bridge (Some tag) guest_vlan) ch else ch
          | _ \<Rightarrow> ch) items
        (if name \<noteq> [] then [(''name'', name)] else []))"

definition rewrite_nics :: "'w transport \<Rightarrow> server_config \<Rightarrow> int \<Rightarrow> int \<Rightarrow> int option \<Rightarrow> string \<Rightarrow> ('w, unit) act" where
  "rewrite_nics tr cfg vid tag guest_vlan name = bnd (node tr) (\<lambda>n.
     let path = at_node n (''qemu/'' @ string_of_int vid @ ''/config'')
     in bnd (as_dict (tr_get tr path)) (\<lambda>config. bnd (lift_r (jitems config)) (\<lambda>items.
        let changes = nic_changes (cfg_sandbox_bridge cfg) tag guest_vlan name items;
            hostpci = sort_key id (filter (\<lambda>k. rx_fullmatch HOSTPCI k \<noteq> None) (map fst items))
        in thn (on_cond (changes \<noteq> []) (bnd (tr_post tr path (map (\<lambda>(k, v). (k, JStr v)) changes)) (\<lambda>_. ret ())))
               (on_cond (hostpci \<noteq> []) (bnd (tr_root_post tr path [(''delete'', JStr (py_join '','' hostpci))]) (\<lambda>_. ret ()))))))"

primrec wait_unlocked_loop :: "nat \<Rightarrow> 'w transport \<Rightarrow> string \<Rightarrow> int \<Rightarrow> json \<Rightarrow> ('w, unit) act" where
  "wait_unlocked_loop 0 tr n vid lock =
     raise (RestoreTaskError (''VM '' @ string_of_int vid @ '' still locked ('' @ [CHR 0x27] @ py_str lock @ [CHR 0x27]
                              @ '') '' @ em_dash @ '' restore not finished, not starting''))"
| "wait_unlocked_loop (Suc k) tr n vid lock =
     bnd (as_dict (tr_get tr (at_node n (''qemu/'' @ string_of_int vid @ ''/config'')))) (\<lambda>cfg.
     bnd (lift_r (jget cfg ''lock'' JNull)) (\<lambda>l.
     if \<not> py_truth l then ret () else thn (tr_sleep tr 1) (wait_unlocked_loop k tr n vid l)))"

definition wait_unlocked :: "'w transport \<Rightarrow> int \<Rightarrow> ('w, unit) act" where
  "wait_unlocked tr vid = bnd (node tr) (\<lambda>n. wait_unlocked_loop 120 tr n vid JNull)"

end
