(* ===== verification/ShellQuote.thy ===== *)
theory ShellQuote imports PyRegex begin

text \<open>
  Commands for the restore host's root shell: \<open>shlex.quote\<close> of the standard library, the
  \<open>pvesh\<close> command line that mirrors a REST call (\<open>pvesh_command\<close> of
  \<open>app/services/restore_server.py\<close>), and, as the specification it is checked against, the
  word splitting of a POSIX shell. The splitter refuses (\<open>None\<close>) every character that the
  shell would interpret: an unquoted character outside of the literal ones, and an expansion
  inside double quotes.
\<close>

definition is_safe :: "char \<Rightarrow> bool" where
  "is_safe c = (is_word c \<or> c \<in> set ''@%+=:,./-'')"

text \<open>\<open>s.replace("'", "'\"'\"'")\<close>\<close>

definition squote :: char where "squote = CHR 0x27"
definition dquote :: char where "dquote = CHR 0x22"

fun escape_squotes :: "string \<Rightarrow> string" where
  "escape_squotes [] = []"
| "escape_squotes (c # s) =
     (if c = squote then [squote, dquote, squote, dquote, squote] else [c]) @ escape_squotes s"

definition shlex_quote :: "string \<Rightarrow> string" where
  "shlex_quote s =
     (if s = [] then [squote, squote]
      else if list_all is_safe s then s
      else [squote] @ escape_squotes s @ [squote])"

text \<open>A value of \<open>None\<close> drops the parameter; every other value is given by its text.\<close>

definition pvesh_args :: "string \<Rightarrow> string \<Rightarrow> (string \<times> string option) list \<Rightarrow> string list" where
  "pvesh_args verb path params =
     [''pvesh'', verb, path]
     @ concat (map (\<lambda>(key, value). case value of None \<Rightarrow> [] | Some v \<Rightarrow> [''-'' @ key, v]) params)
     @ [''--output-format'', ''json'']"

definition pvesh_command :: "string \<Rightarrow> string \<Rightarrow> (string \<times> string option) list \<Rightarrow> string" where
  "pvesh_command verb path params = py_join '' '' (map shlex_quote (pvesh_args verb path params))"

section \<open>The shell's words\<close>

datatype quoting = Plain | Single | Double

fun add_char :: "string option \<Rightarrow> char \<Rightarrow> string option" where
  "add_char w c = Some (opt_or w [] @ [c])"

fun sh_words :: "quoting \<Rightarrow> string option \<Rightarrow> string \<Rightarrow> string list option" where
  "sh_words Plain w [] = Some (case w of None \<Rightarrow> [] | Some x \<Rightarrow> [x])"
| "sh_words _ w [] = None"
| "sh_words Plain w (c # s) =
     (if c = CHR '' '' then (case w of None \<Rightarrow> sh_words Plain None s
                               | Some x \<Rightarrow> map_option ((#) x) (sh_words Plain None s))
      else if c = squote then sh_words Single (Some (opt_or w [])) s
      else if c = dquote then sh_words Double (Some (opt_or w [])) s
      else if is_safe c then sh_words Plain (add_char w c) s
      else None)"
| "sh_words Single w (c # s) =
     (if c = squote then sh_words Plain w s else sh_words Single (add_char w c) s)"
| "sh_words Double w (c # s) =
     (if c = dquote then sh_words Plain w s
      else if c \<in> {CHR ''$'', CHR 0x60, CHR 0x5C, CHR ''!''} then None
      else sh_words Double (add_char w c) s)"

lemma is_safe_not: "is_safe c \<Longrightarrow> c \<noteq> CHR '' '' \<and> c \<noteq> squote \<and> c \<noteq> dquote"
  by (auto simp: is_safe_def is_word_def is_alpha_def is_upper_def is_lower_def is_digit_def squote_def dquote_def)

lemma quote_chars [simp]: "squote \<noteq> dquote" "squote \<noteq> CHR '' ''" "dquote \<noteq> CHR '' ''" "dquote \<noteq> squote"
  by (simp_all add: squote_def dquote_def)

lemma sh_words_safe:
  "list_all is_safe a \<Longrightarrow> a \<noteq> [] \<Longrightarrow> sh_words Plain w (a @ s) = sh_words Plain (Some (opt_or w [] @ a)) s"
proof (induction a arbitrary: w)
  case (Cons c a)
  then show ?case
    using is_safe_not [of c] by (cases "a = []") simp_all
qed simp

lemma sh_words_single:
  "sh_words Single (Some w) (escape_squotes a @ [squote] @ s) = sh_words Plain (Some (w @ a)) s"
proof (induction a arbitrary: w)
  case (Cons c a)
  have "sh_words Single (Some w) (squote # dquote # squote # dquote # squote # t)
      = sh_words Single (Some (w @ [squote])) t" for t
    by (simp add: squote_def dquote_def)
  with Cons show ?case by simp
qed simp

text \<open>One quoted argument is one word, whatever it contains.\<close>

lemma sh_words_quote:
  "sh_words Plain None (shlex_quote a @ s) = sh_words Plain (Some a) s"
  using sh_words_safe [of a None s] sh_words_single [of "[]" a s]
  by (simp add: shlex_quote_def)

section \<open>Properties\<close>

text \<open>C40: the shell reads the command as exactly the intended argument vector: no VM name,
  path or parameter value can end its word, add an argument or be expanded.\<close>

theorem pvesh_command_is_one_argv:
  "sh_words Plain None (pvesh_command verb path params) = Some (pvesh_args verb path params)"
proof -
  have "sh_words Plain None (py_join '' '' (map shlex_quote args)) = Some args" for args
  proof (induction args)
    case (Cons a args)
    then show ?case
      using sh_words_quote [of a "[]"] sh_words_quote [of a "CHR '' '' # py_join '' '' (map shlex_quote args)"]
      by (cases args) simp_all
  qed simp
  then show ?thesis by (simp add: pvesh_command_def)
qed

end
