(* ===== verification/RestorePipeline.thy ===== *)
theory RestorePipeline imports RestoreServer ShellQuote begin

text \<open>
  The restore pipeline of the client (\<open>app/services/restore_server.py\<close>): the pre-flight read,
  starting a restore task and following it with the stall backstop, the disk-by-disk restore
  with its rollback, listings of storages and snapshots, and the helper container. A loop
  that only the clock or the host ends takes a bound on its rounds (\<open>fuel\<close>).
\<close>

type_synonym progress = "task_progress \<times> string option"

text \<open>\<open>urllib.parse.quote(s, safe="")\<close>\<close>

definition hex_upper :: "nat \<Rightarrow> char" where
  "hex_upper d = ''0123456789ABCDEF'' ! d"

definition url_quote :: "string \<Rightarrow> string" where
  "url_quote s = concat (map (\<lambda>c. if is_alpha c \<or> is_digit c \<or> c \<in> set ''_.-~'' then [c]
       else [CHR ''%'', hex_upper (of_char c div 16), hex_upper (of_char c mod 16)]) s)"

definition quoted :: "string \<Rightarrow> string" where
  "quoted s = [squote] @ s @ [squote]"

section \<open>Archives and pre-flight\<close>

record source_info =
  src_storage :: string
  src_vmid :: "int option"
  src_pbs :: "string option"
  src_datastore :: "string option"
  src_namespace :: "string option"

definition archive_volid :: "source_info \<Rightarrow> string \<Rightarrow> string" where
  "archive_volid src snapshot =
     (if CHR '':'' \<in> set snapshot then snapshot
      else src_storage src @ '':backup/vm/'' @ (case src_vmid src of None \<Rightarrow> ''None'' | Some v \<Rightarrow> string_of_int v)
           @ ''/'' @ snapshot)"

definition extract_path :: "string \<Rightarrow> string \<Rightarrow> string" where
  "extract_path n vol = at_node n (''vzdump/extractconfig?volume='' @ url_quote vol)"

definition preflight_check :: "'w transport \<Rightarrow> source_info \<Rightarrow> string \<Rightarrow> ('w, unit) act" where
  "preflight_check tr src snapshot = bnd (node tr) (\<lambda>n.
     catch (bnd (tr_get tr (extract_path n (archive_volid src snapshot))) (\<lambda>_. ret ()))
       (\<lambda>e. let hint = backup_error_hint (exn_text e)
            in if hint \<noteq> [] then raise (RestoreTaskError (hint @ '': '' @ take 600 (exn_text e))) else ret ()))"

section \<open>Following a task\<close>

primrec stop_wait :: "nat \<Rightarrow> 'w transport \<Rightarrow> string \<Rightarrow> string \<Rightarrow> ('w, unit) act" where
  "stop_wait 0 tr n upid = ret ()"
| "stop_wait (Suc k) tr n upid =
     bnd (catch (bnd (as_dict (tr_get tr (at_node n (''tasks/'' @ upid @ ''/status'')))) (\<lambda>x. ret (Some x))) (\<lambda>_. ret None))
       (\<lambda>st. case st of
          None \<Rightarrow> ret ()
        | Some d \<Rightarrow> bnd (lift_r (jget d ''status'' JNull)) (\<lambda>s.
            if s = JStr ''stopped'' then ret () else thn (tr_sleep tr 1) (stop_wait k tr n upid)))"

definition stop_task :: "'w transport \<Rightarrow> string \<Rightarrow> string \<Rightarrow> ('w, unit) act" where
  "stop_task tr n upid = bnd (tr_delete tr (at_node n (''tasks/'' @ upid))) (\<lambda>_. stop_wait 30 tr n upid)"

text \<open>\<open>\b(drive-[A-Za-z0-9]+)\.img\.fidx\b\<close>\<close>

definition DRIVE_RE :: rx where
  "DRIVE_RE = seqs [WordB, Grp 1 (Seq (lit ''drive-'') (plus (Cls (\<lambda>c. is_alpha c \<or> is_digit c)))), lit ''.img.fidx'', WordB]"

record poll_state =
  ps_last_at :: rat
  ps_percent :: int
  ps_seen :: nat
  ps_drive :: "string option"
  ps_recent :: "string list"

definition entry_text :: "json \<Rightarrow> exn + string" where
  "entry_text e = (case e of
       JObj kvs \<Rightarrow> (case dict_get kvs ''t'' (JStr []) of JStr s \<Rightarrow> Inr s | _ \<Rightarrow> Inl type_error)
     | _ \<Rightarrow> Inr (py_str e))"

definition log_entry :: "'w transport \<Rightarrow> (progress \<Rightarrow> ('w, unit) act) \<Rightarrow> json \<Rightarrow> poll_state \<Rightarrow> ('w, poll_state) act" where
  "log_entry tr on_progress e ps = bnd (lift_r (entry_text e)) (\<lambda>txt.
     let ps1 = (if txt \<noteq> [] then ps\<lparr>ps_recent := ps_recent ps @ [txt]\<rparr> else ps);
         ps2 = (case rx_search DRIVE_RE txt of Some m \<Rightarrow> ps1\<lparr>ps_drive := Some (group_text m 1)\<rparr> | None \<Rightarrow> ps1)
     in case parse_task_progress txt of
          None \<Rightarrow> ret ps2
        | Some prog \<Rightarrow> bnd (tr_now tr) (\<lambda>t.
            let ps3 = ps2\<lparr>ps_last_at := t, ps_percent := opt_or (tp_percent prog) (ps_percent ps2)\<rparr>
            in thn (on_progress (prog, ps_drive ps3)) (ret ps3)))"

definition keep_last :: "nat \<Rightarrow> 'a list \<Rightarrow> 'a list" where
  "keep_last n xs = drop (length xs - n) xs"

definition cancelled_msg :: string where "cancelled_msg = ''restore cancelled by operator''"

definition stalled_now :: "'w transport \<Rightarrow> rat \<Rightarrow> rat \<Rightarrow> poll_state \<Rightarrow> ('w, bool) act" where
  "stalled_now tr factor started ps = bnd (tr_now tr) (\<lambda>t1. bnd (tr_now tr) (\<lambda>t2.
     ret (stall_exceeded (fl64 (t1 - ps_last_at ps)) (ps_percent ps) (fl64 (t2 - started)) factor 900)))"

definition task_failure :: "json \<Rightarrow> string list \<Rightarrow> exn" where
  "task_failure exitstatus recent =
     RestoreTaskError (classify_task_error (py_str exitstatus)
       (py_join nl (filter (\<lambda>l. py_strip l \<noteq> []) (keep_last 10 recent))))"

primrec poll_loop ::
  "nat \<Rightarrow> 'w transport \<Rightarrow> rat \<Rightarrow> string \<Rightarrow> string \<Rightarrow> (progress \<Rightarrow> ('w, unit) act) \<Rightarrow> rat \<Rightarrow> ('w, bool) act \<Rightarrow> rat
   \<Rightarrow> poll_state \<Rightarrow> ('w, unit) act" where
  "poll_loop 0 tr factor n upid on_progress interval should_cancel started ps = no_fuel"
| "poll_loop (Suc k) tr factor n upid on_progress interval should_cancel started ps =
     bnd should_cancel (\<lambda>c.
     if c then thn (quiet (stop_task tr n upid)) (raise (RestoreCancelled cancelled_msg))
     else bnd (catch
            (bnd (as_dict (tr_get tr (at_node n (''tasks/'' @ upid @ ''/status'')))) (\<lambda>st.
             bnd (tr_get tr (at_node n (''tasks/'' @ upid @ ''/log?start='' @ string_of_nat (ps_seen ps) @ ''&limit=500''))) (\<lambda>l.
             ret (Inr (st, py_or l (JArr []))))))
            (\<lambda>e. ret (Inl e))) (\<lambda>r.
     case r of
       Inl e \<Rightarrow>
         thn (tr_sleep tr interval) (bnd (stalled_now tr factor started ps) (\<lambda>s.
           if s then raise (RestoreTaskError ''restore task unreachable past the adaptive backstop'')
           else poll_loop k tr factor n upid on_progress interval should_cancel started ps))
     | Inr (st, l) \<Rightarrow>
         bnd (lift_r (jiter l)) (\<lambda>entries.
         bnd (foldact (log_entry tr on_progress) entries ps) (\<lambda>ps1.
         let ps2 = ps1\<lparr>ps_seen := ps_seen ps1 + length entries, ps_recent := keep_last 40 (ps_recent ps1)\<rparr>
         in bnd (lift_r (jget st ''status'' JNull)) (\<lambda>status.
            if status = JStr ''stopped''
            then bnd (lift_r (jget st ''exitstatus'' JNull)) (\<lambda>x.
                 if x \<notin> {JNull, JStr ''OK''} then raise (task_failure x (ps_recent ps2)) else ret ())
            else bnd (stalled_now tr factor started ps2) (\<lambda>s.
                 if s then raise (RestoreTaskError ''restore task stalled (no progress; adaptive backstop exceeded)'')
                 else thn (tr_sleep tr interval)
                        (poll_loop k tr factor n upid on_progress interval should_cancel started ps2)))))))"

text \<open>\<open>float(config.get("stall_backstop_factor") or 6.0)\<close>\<close>

definition stall_factor :: "server_config \<Rightarrow> rat" where
  "stall_factor cfg = (case cfg_stall_factor cfg of None \<Rightarrow> 6 | Some f \<Rightarrow> if f = 0 then 6 else f)"

definition poll_task_on ::
  "nat \<Rightarrow> 'w transport \<Rightarrow> server_config \<Rightarrow> string \<Rightarrow> string \<Rightarrow> (progress \<Rightarrow> ('w, unit) act) \<Rightarrow> rat \<Rightarrow> ('w, bool) act
   \<Rightarrow> ('w, unit) act" where
  "poll_task_on fuel tr cfg n upid on_progress interval should_cancel =
     bnd (tr_now tr) (\<lambda>t0.
       poll_loop fuel tr (stall_factor cfg) n upid on_progress interval should_cancel t0
         \<lparr>ps_last_at = t0, ps_percent = 0, ps_seen = 0, ps_drive = None, ps_recent = []\<rparr>)"

definition poll_task ::
  "nat \<Rightarrow> 'w transport \<Rightarrow> server_config \<Rightarrow> string \<Rightarrow> (progress \<Rightarrow> ('w, unit) act) \<Rightarrow> ('w, bool) act \<Rightarrow> ('w, unit) act" where
  "poll_task fuel tr cfg upid on_progress should_cancel =
     bnd (node tr) (\<lambda>n. poll_task_on fuel tr cfg n upid on_progress 5 should_cancel)"

section \<open>Starting a restore\<close>

primrec await_task :: "nat \<Rightarrow> 'w transport \<Rightarrow> string \<Rightarrow> int \<Rightarrow> rat \<Rightarrow> ('w, string option) act" where
  "await_task 0 tr n vid deadline = no_fuel"
| "await_task (Suc k) tr n vid deadline = bnd (tr_now tr) (\<lambda>t.
     if \<not> t < deadline then ret None
     else bnd (listed (tr_get tr (tasks_path n vid))) (\<lambda>tasks.
          bnd (lift_r (running_restore_tasks vid tasks)) (\<lambda>running.
          bnd (lift_r (latest_task_upid running)) (\<lambda>u.
          case u of
            Some upid \<Rightarrow> ret (Some upid)
          | None \<Rightarrow> thn (tr_sleep tr 2) (await_task k tr n vid deadline)))))"

definition start_restore_task :: "nat \<Rightarrow> 'w transport \<Rightarrow> int \<Rightarrow> string \<Rightarrow> string \<Rightarrow> string \<Rightarrow> ('w, string) act" where
  "start_restore_task fuel tr vid archive storage n =
     (let out = ''/tmp/bsentinel-restore-'' @ string_of_int vid @ ''.log''
      in bnd (tr_ssh tr (''nohup pvesh create /nodes/'' @ shlex_quote n @ ''/qemu -vmid '' @ string_of_int vid
                @ '' -archive '' @ shlex_quote archive @ '' -storage '' @ shlex_quote storage
                @ '' -live-restore 0 > '' @ shlex_quote out @ '' 2>&1 & echo kicked'')) (\<lambda>_.
         bnd (tr_now tr) (\<lambda>t. bnd (await_task fuel tr n vid (fl64 (t + 120))) (\<lambda>u.
         case u of
           Some upid \<Rightarrow> ret upid
         | None \<Rightarrow>
             bnd (catch (bnd (tr_ssh tr (''tail -c 400 '' @ shlex_quote out @ '' 2>/dev/null || true'')) (\<lambda>s. ret (py_strip s)))
                        (\<lambda>_. ret [])) (\<lambda>tail.
             raise (RestoreTaskError (classify_task_error
               (''restore task for VM '' @ string_of_int vid @ '' did not appear'') tail)))))))"

section \<open>Restoring disk by disk\<close>

record pbs_creds =
  cr_repository :: string
  cr_fingerprint :: string
  cr_pwfile :: string
  cr_keyfile :: "string option"
  cr_namespace :: string

text \<open>The \<open>key value\<close> lines of the storage's block: from its header to the next line that
  does not begin with white space.\<close>

definition pbs_header :: "string \<Rightarrow> rx" where
  "pbs_header storeid = seqs [AtStart, lit ''pbs:'', plus space, lit storeid, Star space, AtEnd]"

text \<open>\<open>line.strip().split(None, 1)\<close>, when it has two parts.\<close>

definition key_value :: "string \<Rightarrow> (string \<times> string) option" where
  "key_value line =
     (let t = py_strip line; k = takeWhile (\<lambda>c. \<not> is_space c) t; v = py_lstrip (drop (length k) t)
      in if k = [] \<or> v = [] then None else Some (k, v))"

fun storage_block :: "rx \<Rightarrow> bool \<Rightarrow> string list \<Rightarrow> (string \<times> string) list \<Rightarrow> (string \<times> string) list" where
  "storage_block hdr inside [] acc = acc"
| "storage_block hdr inside (line # lines) acc =
     (if rx_match hdr line \<noteq> None then storage_block hdr True lines acc
      else if \<not> inside then storage_block hdr inside lines acc
      else if line \<noteq> [] \<and> \<not> is_space (hd line) then acc
      else storage_block hdr inside lines
             (case key_value line of None \<Rightarrow> acc | Some (k, v) \<Rightarrow> dict_set k v acc))"

definition pbs_source_creds :: "'w transport \<Rightarrow> string \<Rightarrow> string option \<Rightarrow> ('w, pbs_creds) act" where
  "pbs_source_creds tr storeid namespace =
     bnd (tr_ssh tr ''cat /etc/pve/storage.cfg 2>/dev/null || true'') (\<lambda>raw.
     let blk = storage_block (pbs_header storeid) False (splitlines raw) [];
         get = (\<lambda>k. opt_or (map_of blk k) []);
         username = (if get ''username'' \<noteq> [] then get ''username'' else ''root@pam'')
     in if get ''server'' = [] \<or> get ''datastore'' = []
        then raise (RestoreTaskError (''could not resolve PBS repository for storage '' @ quoted storeid
                      @ '' from the restore host'' @ [squote] @ ''s storage.cfg''))
        else bnd (tr_ssh tr (''test -f /etc/pve/priv/storage/'' @ shlex_quote storeid @ ''.enc && echo y || true'')) (\<lambda>k.
             ret \<lparr>cr_repository = username @ ''@'' @ get ''server'' @ '':'' @ get ''datastore'',
                  cr_fingerprint = get ''fingerprint'', cr_pwfile = ''/etc/pve/priv/storage/'' @ storeid @ ''.pw'',
                  cr_keyfile = (if py_strip k = ''y'' then Some (''/etc/pve/priv/storage/'' @ storeid @ ''.enc'') else None),
                  cr_namespace = py_strip (opt_or namespace [])\<rparr>))"

text \<open>\<open>(\d+)\s*%\<close>\<close>

definition PERCENT_RE :: rx where
  "PERCENT_RE = seqs [Grp 1 digits, Star space, lit ''%'']"

definition disk_progress :: "string \<Rightarrow> int \<Rightarrow> int option \<Rightarrow> int option \<Rightarrow> string \<Rightarrow> progress option" where
  "disk_progress dev base_done disk_bytes total_bytes tail =
     (if truthy_int total_bytes \<and> truthy_int disk_bytes
      then (let frac = (case rx_search PERCENT_RE tail of
                          Some m \<Rightarrow> fl64 (of_nat (nat_of_digits (group_text m 1)) / 100) | None \<Rightarrow> 0);
                bytes = py_trunc (fl64 (fl64 (of_int base_done) + fl64 (frac * of_int (opt_or disk_bytes 0))));
                p = min 99 (py_trunc (fl64 (fl64 (of_int bytes / of_int (opt_or total_bytes 1)) * 100)))
            in Some (\<lparr>tp_percent = Some p, tp_done = Some bytes, tp_total = total_bytes\<rparr>, Some dev))
      else None)"

primrec pbs_disk_loop ::
  "nat \<Rightarrow> 'w transport \<Rightarrow> string \<Rightarrow> string \<Rightarrow> string \<Rightarrow> string \<Rightarrow> string \<Rightarrow> (string \<Rightarrow> progress option)
   \<Rightarrow> (progress \<Rightarrow> ('w, unit) act) \<Rightarrow> ('w, bool) act \<Rightarrow> ('w, unit) act" where
  "pbs_disk_loop 0 tr dev rc lg fidx envf prog on_progress should_cancel = no_fuel"
| "pbs_disk_loop (Suc k) tr dev rc lg fidx envf prog on_progress should_cancel = bnd should_cancel (\<lambda>c.
     if c then bnd (tr_ssh tr (''pkill -f '' @ shlex_quote fidx @ '' 2>/dev/null || true; rm -f '' @ shlex_quote envf @ '' || true''))
                 (\<lambda>_. raise (RestoreCancelled cancelled_msg))
     else bnd (tr_ssh tr (''cat '' @ shlex_quote rc @ '' 2>/dev/null || true'')) (\<lambda>code0.
          bnd (tr_ssh tr (''tail -c 600 '' @ shlex_quote lg @ '' 2>/dev/null || true'')) (\<lambda>tail.
          let code = py_strip code0
          in thn (case prog tail of None \<Rightarrow> ret () | Some p \<Rightarrow> on_progress p)
               (if code \<noteq> []
                then (if code \<noteq> ''0''
                      then raise (RestoreTaskError (classify_task_error (''pbs-restore '' @ dev @ '' exited '' @ code) tail))
                      else ret ())
                else thn (tr_sleep tr 5) (pbs_disk_loop k tr dev rc lg fidx envf prog on_progress should_cancel)))))"

definition pbs_restore_disk ::
  "nat \<Rightarrow> 'w transport \<Rightarrow> pbs_creds \<Rightarrow> string \<Rightarrow> string \<Rightarrow> string \<Rightarrow> int \<Rightarrow> int \<Rightarrow> int option \<Rightarrow> int option
   \<Rightarrow> (progress \<Rightarrow> ('w, unit) act) \<Rightarrow> ('w, bool) act \<Rightarrow> ('w, unit) act" where
  "pbs_restore_disk fuel tr creds snap_path dev device_path vid base_done disk_bytes total_bytes on_progress should_cancel =
     (let stem = string_of_int vid @ ''-'' @ dev;
          lg = ''/tmp/bsentinel-pbsrestore-'' @ stem @ ''.log'';
          rc = lg @ ''.rc'';
          envf = ''/tmp/bsentinel-pbsenv-'' @ stem;
          ns = (if cr_namespace creds \<noteq> [] then ''--ns '' @ shlex_quote (cr_namespace creds) @ '' '' else []);
          keyf = (if truthy_str (cr_keyfile creds) then ''--keyfile '' @ shlex_quote (opt_or (cr_keyfile creds) []) @ '' '' else []);
          fidx = ''drive-'' @ dev @ ''.img.fidx''
      in bnd (tr_ssh tr (''umask 077; { echo '' @ [dquote] @ ''export PBS_PASSWORD=$(cat '' @ shlex_quote (cr_pwfile creds) @ '')''
                @ [dquote] @ ''; echo '' @ [squote] @ ''export PBS_FINGERPRINT='' @ shlex_quote (cr_fingerprint creds) @ [squote]
                @ ''; } > '' @ shlex_quote envf)) (\<lambda>_.
         bnd (tr_ssh tr (''nohup sh -c '' @ [squote] @ ''. '' @ shlex_quote envf @ ''; pbs-restore --repository ''
                @ shlex_quote (cr_repository creds) @ '' '' @ ns @ shlex_quote snap_path @ '' '' @ shlex_quote fidx @ '' ''
                @ shlex_quote device_path @ '' --format raw --skip-zero '' @ keyf @ ''; echo $? > '' @ shlex_quote rc
                @ ''; rm -f '' @ shlex_quote envf @ [squote] @ '' > '' @ shlex_quote lg @ '' 2>&1 & echo kicked'')) (\<lambda>_.
         pbs_disk_loop fuel tr dev rc lg fidx envf (disk_progress dev base_done disk_bytes total_bytes) on_progress should_cancel)))"

fun config_lines :: "(string \<times> string) list \<Rightarrow> (string \<times> config_disk) list \<Rightarrow> string list \<Rightarrow> string list" where
  "config_lines allocated disk_lines [] = []"
| "config_lines allocated disk_lines (line # lines) =
     (if starts_with ''['' line \<or> starts_with ''#'' line then []
      else let key = (case py_partition (CHR '':'') line of (k, found, _) \<Rightarrow> if found then py_strip k else [])
           in if key \<in> {''parent'', ''lock'', ''template''} then config_lines allocated disk_lines lines
              else (case map_of allocated key of
                      Some vol \<Rightarrow> key @ '': '' @ vol @ (case map_of disk_lines key of None \<Rightarrow> [] | Some d \<Rightarrow> opts d)
                    | None \<Rightarrow> py_rstrip line) # config_lines allocated disk_lines lines)"

definition config_body :: "string \<Rightarrow> (string \<times> string) list \<Rightarrow> (string \<times> config_disk) list \<Rightarrow> string" where
  "config_body cfg_text allocated disk_lines =
     py_join nl (filter (\<lambda>l. py_strip l \<noteq> []) (config_lines allocated disk_lines (splitlines cfg_text))) @ nl"

definition write_distributed_config ::
  "'w transport \<Rightarrow> int \<Rightarrow> string \<Rightarrow> (string \<times> string) list \<Rightarrow> (string \<times> config_disk) list \<Rightarrow> ('w, unit) act" where
  "write_distributed_config tr vid cfg_text allocated disk_lines =
     bnd (tr_ssh tr (''cat > '' @ shlex_quote (''/etc/pve/qemu-server/'' @ string_of_int vid @ ''.conf'') @ '' <<'' @ quoted ''BSENTINEL_EOF''
            @ nl @ config_body cfg_text allocated disk_lines @ ''BSENTINEL_EOF'')) (\<lambda>_. ret ())"

end
