(* ===== verification/NetDiag.thy ===== *)
theory NetDiag
  imports PyRegex PyEffects "HOL-Library.AList" "HOL-Library.Product_Lexorder" "HOL-Library.Char_ord"
    "HOL-Library.List_Lexorder"
begin

text \<open>
  The network diagnoses of the run log (\<open>app/services/netdiag_format.py\<close>): labelled command
  outputs become a sectioned report, one block per guest address; the one-line form of old
  runs is parsed back into such pairs. A report is a value or an exception: one branch reads
  a local variable that another branch did not set.
\<close>

section \<open>Text helpers of the Python library\<close>

definition en_dash :: string where "en_dash = [CHR 0xE2, CHR 0x80, CHR 0x93]"

text \<open>\<open>s.partition(sep)\<close> for a longer separator.\<close>

fun partition_str :: "string \<Rightarrow> string \<Rightarrow> string \<times> bool \<times> string" where
  "partition_str sep [] = ([], False, [])"
| "partition_str sep (c # s) =
     (if starts_with sep (c # s) then ([], True, drop (length sep) (c # s))
      else (case partition_str sep s of (a, found, b) \<Rightarrow> (c # a, found, b)))"

text \<open>\<open>s.split(sep)\<close> for a separator that is not empty.\<close>

function split_str :: "string \<Rightarrow> string \<Rightarrow> string list" where
  "split_str sep s = (case partition_str sep s of
      (a, found, b) \<Rightarrow> if found \<and> length b < length s then a # split_str sep b else [a])"
  by pat_completeness auto
termination by (relation "measure (length \<circ> snd)") auto

declare split_str.simps [simp del]

text \<open>\<open>re.findall\<close>: the groups of each match.\<close>

function findall_from :: "rx \<Rightarrow> char option \<Rightarrow> string \<Rightarrow> groups list" where
  "findall_from r prev s = (case s of
      [] \<Rightarrow> (case run_at r prev [] of Some g \<Rightarrow> [g] | None \<Rightarrow> [])
    | c # cs \<Rightarrow>
        (case run_at r prev s of
           None \<Rightarrow> findall_from r (Some c) cs
         | Some g \<Rightarrow>
             let m = group_text g 0
             in g # (if m = [] then findall_from r (Some c) cs
                                  else findall_from r (Some (last m)) (drop (length m) s))))"
  by pat_completeness auto
termination by (relation "measure (\<lambda>(r, p, s). length s)") (auto simp: Suc_le_eq)

declare findall_from.simps [simp del]

definition rx_findall :: "rx \<Rightarrow> string \<Rightarrow> string list" where
  "rx_findall r s = map (\<lambda>g. group_text g 1) (findall_from r None s)"

text \<open>\<open>re.split(r"\s+(?=ahead)", s)\<close>, with the look-behind \<open>before\<close> on the text read so far
  (the latest character first): \<open>read\<close> is that text, \<open>piece\<close> the current part, reversed.\<close>

function split_ahead :: "(string \<Rightarrow> bool) \<Rightarrow> rx \<Rightarrow> string \<Rightarrow> string \<Rightarrow> string \<Rightarrow> string list" where
  "split_ahead before ahead read piece [] = [rev piece]"
| "split_ahead before ahead read piece (c # s) =
     (let rest = dropWhile is_space s
      in if is_space c \<and> before read \<and> run_at ahead (Some c) rest \<noteq> None
         then rev piece # split_ahead before ahead (rev (takeWhile is_space s) @ c # read) [] rest
         else split_ahead before ahead (c # read) (c # piece) s)"
  by pat_completeness auto
termination
  by (relation "measure (\<lambda>(b, a, r, p, s). length s)")
    (auto simp: le_imp_less_Suc length_dropWhile_le)

section \<open>Parts of a report\<close>

definition is_err :: "string \<Rightarrow> bool" where
  "is_err value = starts_with ''ERR'' value"

definition diag_row :: "string \<Rightarrow> string \<Rightarrow> string" where
  "diag_row key text = ''  '' @ key @ replicate (10 - length key) (CHR '' '') @ '' '' @ text"

definition rows_under :: "string \<Rightarrow> string list \<Rightarrow> string list" where
  "rows_under key texts = (case texts of [] \<Rightarrow> [] | t # ts \<Rightarrow> diag_row key t # map (diag_row []) ts)"

type_synonym vid_range = "int \<times> int \<times> string list"

definition merge_vid :: "vid_range \<Rightarrow> vid_range list \<Rightarrow> vid_range list" where
  "merge_vid v out = (case v of (lo, hi, flags) \<Rightarrow>
     if out \<noteq> [] \<and> flags = [] \<and> snd (snd (last out)) = [] \<and> fst (snd (last out)) + 1 = lo
     then butlast out @ [(fst (last out), hi, [])]
     else out @ [(lo, hi, flags)])"

definition vid_text :: "vid_range \<Rightarrow> string" where
  "vid_text v = (case v of (lo, hi, flags) \<Rightarrow>
     let txt = (if lo = hi then string_of_int lo else string_of_int lo @ en_dash @ string_of_int hi);
         tags = (if ''PVID'' \<in> set flags then [''PVID''] else [])
                @ (if ''Untagged'' \<in> set flags then [''untagged''] else [])
     in if tags \<noteq> [] then txt @ '' ('' @ py_join '', '' tags @ '')'' else txt)"

definition vid_list :: "vid_range list \<Rightarrow> string" where
  "vid_list vids = py_join '', '' (map vid_text (fold merge_vid (sort vids) []))"

definition VLAN_FLAGS :: "string list" where
  "VLAN_FLAGS = [''PVID'', ''Egress'', ''Untagged'']"

definition VID_RE :: rx where
  "VID_RE = Seq (Grp 1 digits) (opt (Seq (lit ''-'') (Grp 2 digits)))"

type_synonym vlan_table = "(string \<times> vid_range list) list"

definition add_flag :: "string \<Rightarrow> vid_range list \<Rightarrow> vid_range list" where
  "add_flag tok vs = (if vs = [] then vs
     else case last vs of (lo, hi, flags) \<Rightarrow> butlast vs @ [(lo, hi, flags @ [tok])])"

fun parse_vlans_loop :: "string list \<Rightarrow> string option \<Rightarrow> vlan_table \<Rightarrow> vlan_table" where
  "parse_vlans_loop [] current acc = acc"
| "parse_vlans_loop (tok # toks) current acc =
     (if tok \<in> set [''port'', ''vlan-id'', ''vlan'', ''ids''] then parse_vlans_loop toks current acc
      else if tok \<in> set VLAN_FLAGS then
        parse_vlans_loop toks current
          (case current of None \<Rightarrow> acc | Some p \<Rightarrow> AList.update p (add_flag tok (opt_or (map_of acc p) [])) acc)
      else case (rx_fullmatch VID_RE tok, current) of
        (Some m, Some p) \<Rightarrow>
          let lo = int (nat_of_digits (group_text m 1));
              hi = (case group m 2 of None \<Rightarrow> lo | Some t \<Rightarrow> int (nat_of_digits t))
          in parse_vlans_loop toks current (AList.update p (opt_or (map_of acc p) [] @ [(lo, hi, [])]) acc)
      | _ \<Rightarrow> parse_vlans_loop toks (Some tok)
               (case map_of acc tok of None \<Rightarrow> acc @ [(tok, [])] | Some _ \<Rightarrow> acc))"

definition parse_vlans :: "string \<Rightarrow> vlan_table" where
  "parse_vlans value = parse_vlans_loop (split_ws value) None []"

text \<open>\<open>(?:default|\d+\.\d+\.\d+\.\d+(?:/\d+)?) (?:via|dev) \<close>\<close>

definition ROUTE_RE :: rx where
  "ROUTE_RE = seqs [Alt (lit ''default'')
       (seqs [digits, lit ''.'', digits, lit ''.'', digits, lit ''.'', digits, opt (Seq (lit ''/'') digits)]),
     lit '' '', Alt (lit ''via'') (lit ''dev''), lit '' '']"

definition not_after_via_src :: "string \<Rightarrow> bool" where
  "not_after_via_src read = (\<not> starts_with ''aiv'' read \<and> \<not> starts_with ''crs'' read)"

definition stripped_parts :: "string list \<Rightarrow> string list" where
  "stripped_parts ps = map py_strip (filter (\<lambda>p. py_strip p \<noteq> []) ps)"

definition routes :: "string \<Rightarrow> string list" where
  "routes value =
     (let lines = stripped_parts (splitlines value)
      in if length lines > 1 then lines
         else stripped_parts (split_ahead not_after_via_src ROUTE_RE [] [] value))"

section \<open>The report\<close>

definition IP_RE :: rx where
  "IP_RE = seqs [AtStart, Grp 1 (Alt (lit ''ping'') (lit ''neigh'')), lit '' '', Grp 2 (plus (Cls (\<lambda>c. \<not> is_space c))), AtEnd]"

definition TCP_RE :: rx where
  "TCP_RE = seqs [AtStart, lit ''tcp '', Grp 1 (plus (Cls (\<lambda>c. \<not> is_space c))), lit '':'', Grp 2 digits, AtEnd]"

type_synonym label_values = "(string \<times> string) list"

definition add_check :: "string \<Rightarrow> string \<times> string \<Rightarrow> (string \<times> label_values) list \<Rightarrow> (string \<times> label_values) list" where
  "add_check ip chk guests = AList.update ip (opt_or (map_of guests ip) [] @ [chk]) guests"

fun sort_parts :: "label_values \<Rightarrow> label_values \<Rightarrow> (string \<times> label_values) list
    \<Rightarrow> label_values \<times> (string \<times> label_values) list" where
  "sort_parts [] by_label guests = (by_label, guests)"
| "sort_parts ((label, value) # parts) by_label guests =
     (let v = py_strip value
      in case rx_match IP_RE label of
           Some m \<Rightarrow> sort_parts parts by_label (add_check (group_text m 2) (group_text m 1, v) guests)
         | None \<Rightarrow> (case rx_match TCP_RE label of
             Some t \<Rightarrow> sort_parts parts by_label (add_check (group_text t 1) (''tcp '' @ group_text t 2, v) guests)
           | None \<Rightarrow> sort_parts parts (AList.update label v by_label) guests))"

definition bridge_head :: "string \<Rightarrow> string \<times> string option" where
  "bridge_head v =
     (if is_err v
      then (''Sandbox bridge: missing ('' @ (let t = py_strip (drop 3 v) in if t \<noteq> [] then t else ''error'') @ '')'', None)
      else (case split_ws v @ [''?'', ''?''] of
              nm # st # _ \<Rightarrow> (''Sandbox bridge '' @ nm @ '': '' @ st, Some nm)
            | _ \<Rightarrow> ([], None)))"

text \<open>The table rows of the bridge's own ports. Without a bridge name the comparison with
  it raises, unless no port has to be compared.\<close>

definition vlan_rows :: "string list \<Rightarrow> string option \<Rightarrow> string \<Rightarrow> exn + string list" where
  "vlan_rows members name value =
     (let vlans = parse_vlans value; ports = map fst vlans
      in if members \<noteq> [] \<and> name = None \<and> list_ex (\<lambda>p. p \<notin> set members) ports
         then Inl (PyError ''UnboundLocalError'' ''name'')
         else let shown = (if members \<noteq> [] then filter (\<lambda>p. p \<in> set members \<or> Some p = name) ports else ports)
              in Inr (rows_under ''vlans'' (map (\<lambda>p. p @ '': '' @ vid_list (opt_or (map_of vlans p) [])) shown)
                      @ (if members \<noteq> [] \<and> shown = []
                         then [diag_row ''vlans'' ''bridge ports not in the captured VLAN table''] else [])))"

definition bridge_section :: "label_values \<Rightarrow> exn + string list" where
  "bridge_section by_label = (case map_of by_label ''bridge'' of
      None \<Rightarrow> Inr []
    | Some v \<Rightarrow>
        let (first, name) = bridge_head v;
            members = (case map_of by_label ''bridge ports'' of None \<Rightarrow> []
                       | Some p \<Rightarrow> filter (\<lambda>x. x \<notin> set [''none'', ''OK'']) (split_ws p));
            portrow = (case map_of by_label ''bridge ports'' of None \<Rightarrow> []
                       | Some p \<Rightarrow> [diag_row ''ports'' (if members \<noteq> [] then py_join '', '' members
                                                      else ''none '' @ em_dash @ '' no NIC attached'')])
        in case (case map_of by_label ''bridge vlans'' of None \<Rightarrow> Inr []
                 | Some t \<Rightarrow> if is_err t then Inr [] else vlan_rows members name t) of
             Inl e \<Rightarrow> Inl e
           | Inr rows \<Rightarrow> Inr (first # portrow @ rows @ [[]]))"

definition NET_AHEAD :: rx where
  "NET_AHEAD = seqs [lit ''net'', digits, lit '': '']"

definition nic_line :: "string \<Rightarrow> string" where
  "nic_line nic = (case partition_str '': '' nic of (key, _, rest) \<Rightarrow>
     diag_row (if rest \<noteq> [] then key else ''nic'')
       (if rest \<noteq> [] then py_join '', '' (split_on (CHR '','') rest) else key))"

definition vm_section :: "label_values \<Rightarrow> string list" where
  "vm_section by_label = (case map_of by_label ''vm nic'' of
      None \<Rightarrow> []
    | Some v \<Rightarrow>
        let nics = filter (\<lambda>n. n \<noteq> ''OK'') (stripped_parts (split_ahead (\<lambda>_. True) NET_AHEAD [] [] v))
        in ''Restored VM'' # map nic_line (if nics \<noteq> [] then nics else [''no NIC configured'']) @ [[]])"

definition INET_RE :: rx where
  "INET_RE = Seq (lit ''inet '') (Grp 1 (plus (Cls (\<lambda>c. \<not> is_space c))))"

definition leg_section :: "label_values \<Rightarrow> string list" where
  "leg_section by_label =
     (if map_of by_label ''sbx addr'' = None \<and> map_of by_label ''routes'' = None then []
      else ''Helper sandbox leg''
           # (case map_of by_label ''sbx addr'' of None \<Rightarrow> []
              | Some v \<Rightarrow> let addrs = rx_findall INET_RE v
                  in [diag_row ''addresses'' (if addrs \<noteq> [] then py_join '', '' addrs else if is_err v then v else ''none'')])
           @ (case map_of by_label ''routes'' of None \<Rightarrow> [] | Some v \<Rightarrow> rows_under ''routes'' (routes v))
           @ [[]])"

definition RTT_RE :: rx where
  "RTT_RE = Seq (lit ''time='') (Grp 1 (Seq (plus (Cls (\<lambda>c. is_digit c \<or> c = CHR ''.''))) (lit '' ms'')))"

definition ping_text :: "string \<Rightarrow> string" where
  "ping_text v =
     (if is_err v then ''no answer''
      else case rx_search RTT_RE v of Some m \<Rightarrow> ''answers ('' @ group_text m 1 @ '')'' | None \<Rightarrow> ''answers'')"

definition LLADDR_RE :: rx where
  "LLADDR_RE = seqs [lit ''lladdr '', Grp 1 (plus (Cls (\<lambda>c. \<not> is_space c))), plus space,
                     Grp 2 (plus (Cls (\<lambda>c. \<not> is_space c)))]"

definition NEIGH_RE :: rx where
  "NEIGH_RE = seqs [WordB, Grp 1 (alts [lit ''INCOMPLETE'', lit ''FAILED'', lit ''STALE'', lit ''DELAY'', lit ''PROBE'']), WordB]"

definition check_row :: "string \<times> string \<Rightarrow> string" where
  "check_row kv = (case kv of (kind, v) \<Rightarrow>
     if kind = ''ping'' then diag_row ''ICMP'' (ping_text v)
     else if kind = ''neigh'' then
       (case rx_search LLADDR_RE v of
          Some m \<Rightarrow> diag_row ''ARP'' (group_text m 1 @ ''  '' @ group_text m 2)
        | None \<Rightarrow> diag_row ''ARP'' (case rx_search NEIGH_RE v of
              Some m \<Rightarrow> group_text m 1 @ '' '' @ em_dash @ '' no MAC, guest not on this L2/VLAN''
            | None \<Rightarrow> ''no entry''))
     else diag_row (''TCP'' @ drop 3 kind) (if is_err v then ''no answer'' else ''open''))"

definition DIAG_TITLE :: string where
  "DIAG_TITLE = ''Network diagnostics (captured because not every check passed)''"

definition format_netdiag :: "label_values \<Rightarrow> exn + string" where
  "format_netdiag parts =
     (if parts = [] then Inr []
      else case sort_parts parts [] [] of (by_label, guests) \<Rightarrow>
        (case bridge_section by_label of
           Inl e \<Rightarrow> Inl e
         | Inr bridge \<Rightarrow>
             Inr (py_rstrip (py_join nl ([DIAG_TITLE, []] @ bridge @ vm_section by_label @ leg_section by_label
                    @ concat (map (\<lambda>(ip, chks). (''Guest '' @ ip) # map check_row chks @ [[]]) guests))) @ nl)))"

definition ADDR_RE :: rx where
  "ADDR_RE = seqs [digits, lit '':'', plus space, Grp 1 (plus (Cls (\<lambda>c. \<not> is_space c))), plus space, lit ''inet '',
                   Grp 2 (plus (Cls (\<lambda>c. \<not> is_space c)))]"

definition format_helper_netdiag :: "label_values \<Rightarrow> string" where
  "format_helper_netdiag parts =
     (let by_label = fold (\<lambda>(k, v). AList.update k (py_strip v)) parts []
      in py_join nl (''Helper network (management leg unreachable)''
           # (case map_of by_label ''addr'' of None \<Rightarrow> []
              | Some v \<Rightarrow> let addrs = map (\<lambda>g. group_text g 1 @ '' '' @ group_text g 2) (findall_from ADDR_RE None v)
                  in [diag_row ''addresses'' (if addrs \<noteq> [] then py_join '', '' addrs else if is_err v then v else ''none'')])
           @ (case map_of by_label ''route'' of None \<Rightarrow> []
              | Some v \<Rightarrow> if is_err v then [diag_row ''routes'' v] else rows_under ''routes'' (routes v))
           @ (case map_of by_label ''gw-ping'' of None \<Rightarrow> [] | Some v \<Rightarrow> [diag_row ''gateway'' (ping_text v)])))"

section \<open>Old logs\<close>

definition LEGACY_PREFIX :: string where "LEGACY_PREFIX = ''probe netdiag [''"

fun legacy_pairs :: "string list \<Rightarrow> label_values option" where
  "legacy_pairs [] = Some []"
| "legacy_pairs (chunk # chunks) =
     (case partition_str '': '' chunk of (label, sep, value) \<Rightarrow>
        if \<not> sep then None else map_option ((#) (py_strip label, value)) (legacy_pairs chunks))"

definition parse_legacy :: "string \<Rightarrow> label_values option" where
  "parse_legacy txt =
     (let t = py_strip txt
      in if \<not> (starts_with LEGACY_PREFIX t \<and> ends_with '']'' t) then None
         else legacy_pairs (split_str '' || '' (butlast (drop (length LEGACY_PREFIX) t))))"

definition format_run_log :: "string option \<Rightarrow> exn + string" where
  "format_run_log txt = (case txt of
      None \<Rightarrow> Inr []
    | Some t \<Rightarrow> if t = [] then Inr []
        else case parse_legacy t of
               Some (p # ps) \<Rightarrow> format_netdiag (p # ps)
             | _ \<Rightarrow> Inr t)"

section \<open>Facts\<close>

text \<open>A label that the report does not know adds nothing to it.\<close>

definition known_label :: "string \<Rightarrow> bool" where
  "known_label l = (l \<in> set [''bridge'', ''vm nic'', ''sbx addr'', ''routes'']
                    \<or> rx_match IP_RE l \<noteq> None \<or> rx_match TCP_RE l \<noteq> None)"

lemma sort_parts_unknown:
  assumes "\<forall>p\<in>set parts. \<not> known_label (fst p)" and "\<forall>l. known_label l \<longrightarrow> map_of acc l = None"
  shows "\<exists>by_label. sort_parts parts acc guests = (by_label, guests) \<and> (\<forall>l. known_label l \<longrightarrow> map_of by_label l = None)"
  using assms
proof (induction parts arbitrary: acc)
  case (Cons p ps)
  obtain l v where p: "p = (l, v)" by fastforce
  with Cons.prems(1) have u: "\<not> known_label l" by simp
  then have "rx_match IP_RE l = None" "rx_match TCP_RE l = None" by (simp_all add: known_label_def)
  moreover have "\<forall>k. known_label k \<longrightarrow> map_of (AList.update l (py_strip v) acc) k = None"
    using Cons.prems(2) u by (auto simp: update_conv')
  ultimately show ?case
    using Cons.IH [of "AList.update l (py_strip v) acc"] Cons.prems(1) p by simp
qed simp

lemma format_unknown_labels:
  assumes "parts \<noteq> []" and "\<forall>p\<in>set parts. \<not> known_label (fst p)"
  shows "format_netdiag parts = Inr (DIAG_TITLE @ nl)"
proof -
  obtain by_label where b: "sort_parts parts [] [] = (by_label, [])"
    "\<forall>l. known_label l \<longrightarrow> map_of by_label l = None"
    using sort_parts_unknown [OF assms(2), of "[]" "[]"] by auto
  have "map_of by_label ''bridge'' = None" "map_of by_label ''vm nic'' = None"
    "map_of by_label ''sbx addr'' = None" "map_of by_label ''routes'' = None"
    using b(2) by (simp_all add: known_label_def)
  then have "bridge_section by_label = Inr []" "vm_section by_label = []" "leg_section by_label = []"
    by (simp_all add: bridge_section_def vm_section_def leg_section_def)
  moreover have "py_rstrip (py_join nl [DIAG_TITLE, []]) = DIAG_TITLE" by code_simp
  ultimately show ?thesis using assms(1) b(1) by (simp add: format_netdiag_def)
qed

end
