(* ===== verification/RestoreHost.thy ===== *)
theory RestoreHost imports RestorePipeline NetDiag begin

text \<open>
  The rest of the restore host's client (\<open>app/services/restore_server.py\<close>): capacity with the
  host sample and its cache, listings of storages and snapshots, the sandbox bridge, the
  restore of a whole guest (one archive task, or disk by disk with rollback), what the guest
  agent reports, and the helper container with its template, its agent and its diagnoses.
\<close>

section \<open>Capacity\<close>

definition DISK_CLASS_MAX_BPS :: "(string \<times> int) list" where
  "DISK_CLASS_MAX_BPS = [(''enterprise-ssd'', 2000 * 1000000), (''standard-ssd'', 550 * 1000000),
                         (''sas-hdd'', 250 * 1000000), (''sata-hdd'', 180 * 1000000)]"

definition DISK_CLASS_FALLBACK_BPS :: int where
  "DISK_CLASS_FALLBACK_BPS = 550 * 1000000"

definition NETWORK_STORAGE_TYPES :: "string list" where
  "NETWORK_STORAGE_TYPES = [''nfs'', ''cifs'', ''glusterfs'', ''cephfs'', ''rbd'', ''iscsi'', ''iscsidirect'', ''pbs'', ''esxi'']"

text \<open>The lines of the sample by section; the first section has no header.\<close>

fun sample_sections :: "string \<Rightarrow> string list \<Rightarrow> (string \<times> string list) list \<Rightarrow> (string \<times> string list) list" where
  "sample_sections cur [] acc = acc"
| "sample_sections cur (line # lines) acc =
     (if starts_with ''@@'' line then sample_sections (drop 2 line) lines (dict_set (drop 2 line) [] acc)
      else sample_sections cur lines (dict_set cur (opt_or (map_of acc cur) [] @ [line]) acc))"

definition HOST_SAMPLE_CMD :: string where
  "HOST_SAMPLE_CMD = ''cat /proc/meminfo; echo '' @ quoted ''@@DISK'' @ ''; cat /proc/diskstats; echo '' @ quoted ''@@NET''
     @ ''; cat /proc/net/dev; echo '' @ quoted ''@@SPEED''
     @ ''; for d in /sys/class/net/*; do [ -e '' @ [dquote] @ ''$d/device'' @ [dquote] @ '' ] && echo '' @ [dquote]
     @ ''$(basename '' @ [dquote] @ ''$d'' @ [dquote] @ '') $(cat '' @ [dquote] @ ''$d/speed'' @ [dquote] @ '' 2>/dev/null)''
     @ [dquote] @ ''; done; echo '' @ quoted ''@@UP'' @ ''; cat /proc/uptime''"

definition host_sample :: "'w transport \<Rightarrow> ('w, (meminfo \<times> io_sample) option) act" where
  "host_sample tr =
     bnd (catch (bnd (tr_ssh tr HOST_SAMPLE_CMD) (\<lambda>out. ret (Some out))) (\<lambda>_. ret None)) (\<lambda>r. case r of
       None \<Rightarrow> ret None
     | Some out \<Rightarrow>
         let secs = sample_sections ''MEM'' (splitlines out) [(''MEM'', [])];
             sec = (\<lambda>k. py_join nl (opt_or (map_of secs k) []))
         in case parse_meminfo (sec ''MEM'') of
              None \<Rightarrow> ret None
            | Some memory \<Rightarrow>
                let up_parts = split_ws (py_join '' '' (opt_or (map_of secs ''UP'') []));
                    speeds = parse_speeds (sec ''SPEED'');
                    net = parse_netdev (sec ''NET'');
                    net_uplinks = filter (\<lambda>(i, _). map_of speeds i \<noteq> None) net
                in bnd (case up_parts of
                          [] \<Rightarrow> tr_now tr
                        | u # _ \<Rightarrow> (case parse_decimal u of Some t \<Rightarrow> ret t | None \<Rightarrow> tr_now tr)) (\<lambda>t.
                   ret (Some (memory,
                     \<lparr>s_time = t, s_disk = parse_diskstats (sec ''DISK''),
                      s_net = (if net_uplinks \<noteq> [] then net_uplinks else net),
                      s_link_bps = sum_list (map (\<lambda>(i, _). opt_or (map_of speeds i) 0) net_uplinks) * 1000000 div 8\<rparr>))))"

definition disk_ceiling_bps :: "(string \<times> string option) list \<Rightarrow> string list \<Rightarrow> (string \<times> int) list \<Rightarrow> int" where
  "disk_ceiling_bps classes selected measured =
     opt_or (py_max id (concat (map (\<lambda>s.
        if opt_or (map_of measured s) 0 > 0 then [opt_or (map_of measured s) 0]
        else case Option.bind (Option.bind (map_of classes s) id) (map_of DISK_CLASS_MAX_BPS) of
               Some bps \<Rightarrow> [bps] | None \<Rightarrow> []) selected))) DISK_CLASS_FALLBACK_BPS"

definition io_rates_now :: "'w transport \<Rightarrow> string \<Rightarrow> io_sample option \<Rightarrow> int \<Rightarrow> ('w, io_rates) act" where
  "io_rates_now tr n sample disk_max_bps = (case sample of
       None \<Rightarrow> ret (compute_io_rates None \<lparr>s_time = 0, s_disk = [], s_net = [], s_link_bps = 0\<rparr> disk_max_bps)
     | Some s \<Rightarrow> bnd (gets (\<lambda>w. map_of (tr_io_cache tr w) n)) (\<lambda>prev.
         thn (modify (tr_set_io tr n s)) (ret (compute_io_rates prev s disk_max_bps))))"

record store_row =
  st_storage :: string
  st_type :: string
  st_images :: bool
  st_used :: "int option"
  st_total :: "int option"
  st_avail :: "int option"
  st_disk_class :: "string option"
  st_order :: int

record resources =
  ram_free :: "int option"
  ram_total :: "int option"
  ram_detail :: "meminfo option"
  stores :: "store_row list"
  io :: io_rates

definition used_targets :: "server_config \<Rightarrow> target_storage list" where
  "used_targets cfg = filter ts_use (cfg_targets cfg)"

definition selected_storages :: "server_config \<Rightarrow> string list" where
  "selected_storages cfg = remdups (map ts_storage (used_targets cfg))"

text \<open>A last value per name wins, as in a dict comprehension.\<close>

definition dict_of :: "('k \<times> 'v) list \<Rightarrow> ('k \<times> 'v) list" where
  "dict_of kvs = fold (\<lambda>(k, v). dict_set k v) kvs []"

definition store_of :: "server_config \<Rightarrow> json \<Rightarrow> exn + store_row list" where
  "store_of cfg s =
     rbind (jget s ''storage'' JNull) (\<lambda>nm.
     case nm of
       JStr storage \<Rightarrow>
         if storage \<notin> set (selected_storages cfg) then Inr []
         else rbind (jget s ''content'' (JStr [])) (\<lambda>c. rbind (jget s ''type'' (JStr [])) (\<lambda>ty.
              rbind (jget s ''total'' JNull) (\<lambda>tot. rbind (jget s ''avail'' JNull) (\<lambda>av. rbind (jget s ''used'' JNull) (\<lambda>us.
              let content = opt_or (the_text (py_or c (JStr []))) [];
                  images = py_in ''images'' content;
                  total = the_int tot; avail = the_int av;
                  used = (case (the_int us, total, avail) of (None, Some t, Some a) \<Rightarrow> Some (t - a) | (u, _, _) \<Rightarrow> u);
                  cls = Option.bind (map_of (dict_of (map (\<lambda>t. (ts_storage t, ts_disk_class t)) (cfg_targets cfg))) storage) id
              in Inr [\<lparr>st_storage = storage, st_type = opt_or (the_text ty) [], st_images = images, st_used = used,
                       st_total = total, st_avail = avail,
                       st_disk_class = (if truthy_str cls then cls else if images then Some ''standard-ssd'' else None),
                       st_order = opt_or (map_of (dict_of (map (\<lambda>t. (ts_storage t, opt_or (ts_order t) 9999)) (cfg_targets cfg))) storage) 9999\<rparr>])))))
     | _ \<Rightarrow> Inr [])"

text \<open>\<open>perf\<close>: the measured write rates, \<open>None\<close> where the settings cannot be read.\<close>

definition free_resources :: "'w transport \<Rightarrow> server_config \<Rightarrow> (string \<times> int) list option \<Rightarrow> ('w, resources) act" where
  "free_resources tr cfg perf = bnd (node tr) (\<lambda>n.
     bnd (as_dict (tr_get tr (at_node n ''status''))) (\<lambda>status_obj.
     bnd (lift_r (jget status_obj ''memory'' (JObj []))) (\<lambda>memory.
     bnd (host_sample tr) (\<lambda>sample.
     bnd (listed (tr_get tr (at_node n ''storage''))) (\<lambda>listing.
     bnd (lift_r (rcollect (store_of cfg) listing)) (\<lambda>rows.
     let sorted_rows = sort_key (\<lambda>s. (st_order s, st_storage s)) rows;
         classes = dict_of (map (\<lambda>t. (ts_storage t, ts_disk_class t)) (cfg_targets cfg));
         local_names = map st_storage (filter (\<lambda>s. st_type s \<notin> set NETWORK_STORAGE_TYPES) sorted_rows)
     in bnd (case sample of
               Some (md, _) \<Rightarrow> ret (Some (mem_total md), Some (mem_available md))
             | None \<Rightarrow> bnd (lift_r (jget memory ''total'' JNull)) (\<lambda>t.
                       bnd (lift_r (jget memory ''free'' JNull)) (\<lambda>f. ret (the_int t, the_int f)))) (\<lambda>(tot, free).
        bnd (io_rates_now tr n (map_option snd sample) (disk_ceiling_bps classes local_names (opt_or perf []))) (\<lambda>rates.
        ret \<lparr>ram_free = free, ram_total = tot, ram_detail = map_option fst sample, stores = sorted_rows, io = rates\<rparr>))))))))"

section \<open>Listings\<close>

record pbs_storage =
  pbs_name :: string
  pbs_server :: json
  pbs_datastore :: json
  pbs_namespace :: json
  pbs_fingerprint :: json

definition pbs_storage_of :: "json \<Rightarrow> exn + pbs_storage list" where
  "pbs_storage_of s = rbind (jget s ''type'' JNull) (\<lambda>ty.
     if ty \<noteq> JStr ''pbs'' then Inr []
     else rbind (rbind (jindex s ''storage'') jtext) (\<lambda>nm. rbind (jget s ''server'' (JStr [])) (\<lambda>srv.
          rbind (jget s ''datastore'' (JStr [])) (\<lambda>ds. rbind (jget s ''namespace'' (JStr [])) (\<lambda>ns.
          rmap (\<lambda>fp. [\<lparr>pbs_name = nm, pbs_server = srv, pbs_datastore = ds, pbs_namespace = ns, pbs_fingerprint = fp\<rparr>])
            (jget s ''fingerprint'' (JStr [])))))))"

definition list_pbs_storages :: "'w transport \<Rightarrow> ('w, pbs_storage list) act" where
  "list_pbs_storages tr = bnd (listed (tr_get tr ''/storage'')) (\<lambda>l. lift_r (rcollect pbs_storage_of l))"

definition snapshot_of :: "json \<Rightarrow> exn + snapshot list" where
  "snapshot_of vol = rbind (jget vol ''volid'' (JStr [])) (\<lambda>v. rbind (jget vol ''ctime'' (JInt 0)) (\<lambda>t.
     rmap (\<lambda>sz. [\<lparr>snap_id = opt_or (the_text v) [], backup_time = opt_or (the_int t) 0, complete = True,
                  snap_size = the_int sz\<rparr>]) (jget vol ''size'' JNull)))"

definition list_snapshots :: "'w transport \<Rightarrow> string \<Rightarrow> int \<Rightarrow> ('w, snapshot list) act" where
  "list_snapshots tr storage src_vid = bnd (node tr) (\<lambda>n.
     bnd (listed (tr_get tr (at_node n (''storage/'' @ storage @ ''/content?content=backup&vmid='' @ string_of_int src_vid))))
       (\<lambda>l. lift_r (rcollect snapshot_of l)))"

record found_storage =
  fs_storage :: string
  fs_type :: json
  fs_content :: string
  fs_images :: bool
  fs_used :: json
  fs_total :: json
  fs_avail :: json

record storage_scan =
  sc_seen :: "found_storage list"
  sc_names :: "string list"
  sc_pbs :: nat

text \<open>One listed storage. A name that is empty or missing is skipped.\<close>

definition scan_row :: "json \<Rightarrow> storage_scan \<Rightarrow> exn + storage_scan" where
  "scan_row s sc = rbind (jget s ''storage'' JNull) (\<lambda>nm. rbind (jget s ''type'' JNull) (\<lambda>ty.
     case nm of
       JStr (c # cs) \<Rightarrow>
         let name = c # cs; sc1 = sc\<lparr>sc_names := List.insert name (sc_names sc)\<rparr>
         in if ty = JStr ''pbs'' then Inr (sc1\<lparr>sc_pbs := sc_pbs sc1 + 1\<rparr>)
            else if name \<in> set (map fs_storage (sc_seen sc1)) then Inr sc1
            else rbind (jget s ''content'' (JStr [])) (\<lambda>ct. rbind (jget s ''type'' (JStr [])) (\<lambda>ty2.
                 rbind (jget s ''used'' JNull) (\<lambda>u. rbind (jget s ''total'' JNull) (\<lambda>t. rmap (\<lambda>a.
                 let content = opt_or (the_text (py_or ct (JStr []))) []
                 in sc1\<lparr>sc_seen := sc_seen sc1 @ [\<lparr>fs_storage = name, fs_type = ty2, fs_content = content,
                        fs_images = py_in ''images'' content, fs_used = u, fs_total = t, fs_avail = a\<rparr>]\<rparr>)
                 (jget s ''avail'' JNull)))))
     | _ \<Rightarrow> Inr sc))"

fun scan_rows :: "json list \<Rightarrow> storage_scan \<Rightarrow> exn + storage_scan" where
  "scan_rows [] sc = Inr sc"
| "scan_rows (s # ss) sc = rbind (scan_row s sc) (scan_rows ss)"

definition scan_path :: "'w transport \<Rightarrow> string \<Rightarrow> storage_scan \<times> string list \<Rightarrow> ('w, storage_scan \<times> string list) act" where
  "scan_path tr path acc = (case acc of (sc, errors) \<Rightarrow>
     bnd (catch (bnd (tr_get tr path) (\<lambda>x. ret (Inr (py_or x (JArr []))))) (\<lambda>e. ret (Inl e))) (\<lambda>r. case r of
       Inl e \<Rightarrow> ret (sc, errors @ [path @ '': '' @ take 120 (exn_text e)])
     | Inr rows \<Rightarrow> lift_r (rbind (jiter rows) (\<lambda>l. rmap (\<lambda>sc'. (sc', errors)) (scan_rows l sc)))))"

record target_listing =
  lt_targets :: "found_storage list"
  lt_total :: nat
  lt_pbs :: nat

definition list_target_storages :: "'w transport \<Rightarrow> ('w, target_listing) act" where
  "list_target_storages tr =
     bnd (catch (bnd (node tr) (\<lambda>n. ret (Inr n))) (\<lambda>e. ret (Inl e))) (\<lambda>r.
     let paths = (case r of Inr n \<Rightarrow> [at_node n ''storage''] | Inl _ \<Rightarrow> []) @ [''/storage''];
         errors = (case r of Inr _ \<Rightarrow> [] | Inl e \<Rightarrow> [''/nodes: '' @ exn_text e])
     in bnd (foldact (scan_path tr) paths (\<lparr>sc_seen = [], sc_names = [], sc_pbs = 0\<rparr>, errors)) (\<lambda>(sc, errs).
        if sc_names sc = [] \<and> errs \<noteq> [] then raise (PyError ''RuntimeError'' (py_join ''; '' errs))
        else ret \<lparr>lt_targets = sc_seen sc, lt_total = length (sc_names sc), lt_pbs = sc_pbs sc\<rparr>))"

end
