(* ===== verification/RestoreHelper.thy ===== *)
theory RestoreHelper imports RestoreHost begin

text \<open>
  The sandbox side of the restore host's client (\<open>app/services/restore_server.py\<close>): the
  isolated bridge, the restore of a whole guest (one archive task, or disk by disk with
  rollback), what the guest agent reports, the helper container with its template, its agent
  and its diagnoses.
\<close>

section \<open>The sandbox bridge\<close>

definition bridge_create_cmd :: "string \<Rightarrow> string \<Rightarrow> string" where
  "bridge_create_cmd n b =
     ''pvesh create /nodes/'' @ shlex_quote n @ ''/network --iface '' @ shlex_quote b @ '' --type bridge ''
     @ ''--autostart 1 --bridge_vlan_aware 1 --bridge_vids 2-4094''"

definition bridge_up_cmd :: "string \<Rightarrow> string" where
  "bridge_up_cmd bridge =
     (let b = shlex_quote bridge
      in ''set -e'' @ nl
         @ ''if ! ip link show '' @ b @ '' >/dev/null 2>&1; then ip link add name '' @ b @ '' type bridge; fi'' @ nl
         @ ''ip link set '' @ b @ '' type bridge vlan_filtering 1'' @ nl
         @ ''ip link set '' @ b @ '' up'' @ nl
         @ ''ip link show '' @ b @ '' >/dev/null 2>&1'' @ nl)"

definition ensure_sandbox_bridge :: "'w transport \<Rightarrow> server_config \<Rightarrow> ('w, unit) act" where
  "ensure_sandbox_bridge tr cfg = bnd (node tr) (\<lambda>n.
     let bridge = cfg_sandbox_bridge cfg
     in bnd (catch (bnd (tr_get tr (at_node n (''network/'' @ bridge))) (\<lambda>x. ret (py_truth x))) (\<lambda>_. ret False)) (\<lambda>already.
        thn (on_cond (\<not> already) (quiet (bnd (tr_ssh tr (bridge_create_cmd n bridge)) (\<lambda>_. ret ()))))
          (catch (bnd (tr_ssh tr (bridge_up_cmd bridge)) (\<lambda>_. ret ()))
             (\<lambda>e. raise (RestoreTaskError (''could not bring up the isolated sandbox bridge '' @ bridge @ '': ''
                          @ take 200 (exn_text e)))))))"

section \<open>Restoring a guest\<close>

definition VOLID_RE :: rx where
  "VOLID_RE = seqs [lit [squote], Grp 1 (seqs [plus (none_of [squote]), lit '':'', plus (none_of [squote])]), lit [squote]]"

text \<open>\<open>except BaseException:\<close> free what was allocated so far, and raise again.\<close>

definition rollback :: "'w transport \<Rightarrow> (string \<times> string) list \<Rightarrow> ('w, 'a) act \<Rightarrow> ('w, 'a) act" where
  "rollback tr allocated m = catch m (\<lambda>e.
     thn (foreach (\<lambda>(_, vol). quiet (bnd (tr_ssh tr (''pvesm free '' @ shlex_quote vol @ '' 2>&1 || true'')) (\<lambda>_. ret ()))) allocated)
         (raise e))"

definition alloc_disk ::
  "'w transport \<Rightarrow> int \<Rightarrow> (string \<times> config_disk) list \<Rightarrow> ('w, bool) act \<Rightarrow> string \<Rightarrow> string \<Rightarrow> ('w, string) act" where
  "alloc_disk tr vid disk_lines should_cancel dev storage = bnd should_cancel (\<lambda>c.
     if c then raise (RestoreCancelled cancelled_msg)
     else case map_of disk_lines dev of
       None \<Rightarrow> raise (RestoreTaskError (''disk '' @ dev @ '' is in the plan but not in the backup config''))
     | Some info \<Rightarrow>
         bnd (tr_ssh tr (''pvesm alloc '' @ shlex_quote storage @ '' '' @ string_of_int vid @ '' '' @ [squote, squote] @ '' ''
                @ shlex_quote (size_token info) @ '' 2>&1'')) (\<lambda>out.
         case rx_search VOLID_RE out of
           None \<Rightarrow> raise (RestoreTaskError (''could not allocate '' @ dev @ '' on '' @ quoted storage @ '': '' @ take 300 (py_strip out)))
         | Some m \<Rightarrow> ret (group_text m 1)))"

primrec restore_disks ::
  "nat \<Rightarrow> 'w transport \<Rightarrow> int \<Rightarrow> pbs_creds \<Rightarrow> string \<Rightarrow> string \<Rightarrow> (string \<times> config_disk) list \<Rightarrow> (string \<times> int option) list
   \<Rightarrow> int option \<Rightarrow> (progress \<Rightarrow> ('w, unit) act) \<Rightarrow> ('w, bool) act \<Rightarrow> (string \<times> string) list
   \<Rightarrow> (string \<times> string) list \<Rightarrow> int \<Rightarrow> ('w, unit) act" where
  "restore_disks fuel tr vid creds snap_path cfg_text disk_lines sizes total_bytes on_progress should_cancel [] allocated done_bytes =
     rollback tr allocated (write_distributed_config tr vid cfg_text allocated disk_lines)"
| "restore_disks fuel tr vid creds snap_path cfg_text disk_lines sizes total_bytes on_progress should_cancel (t # ts) allocated done_bytes =
     bnd (rollback tr allocated (alloc_disk tr vid disk_lines should_cancel (fst t) (snd t))) (\<lambda>vol.
     let allocated1 = dict_set (fst t) vol allocated; sz = Option.bind (map_of sizes (fst t)) id
     in thn (rollback tr allocated1
               (bnd (tr_ssh tr (''pvesm path '' @ shlex_quote vol)) (\<lambda>path.
                pbs_restore_disk fuel tr creds snap_path (fst t) (py_strip path) vid done_bytes sz total_bytes
                  on_progress should_cancel)))
          (restore_disks fuel tr vid creds snap_path cfg_text disk_lines sizes total_bytes on_progress should_cancel ts
             allocated1 (done_bytes + opt_or sz 0)))"

definition restore_distributed ::
  "nat \<Rightarrow> 'w transport \<Rightarrow> int \<Rightarrow> source_info \<Rightarrow> string \<Rightarrow> (string \<times> string) list \<Rightarrow> (progress \<Rightarrow> ('w, unit) act)
   \<Rightarrow> string \<Rightarrow> ('w, bool) act \<Rightarrow> ('w, unit) act" where
  "restore_distributed fuel tr vid src snapshot disk_targets on_progress n should_cancel =
     (let archive = archive_volid src snapshot
      in bnd (tr_get tr (extract_path n archive)) (\<lambda>answer. case answer of
           JStr cfg_text \<Rightarrow>
             if py_strip cfg_text = [] then raise (RestoreTaskError ''could not read the backup config for a distributed restore'')
             else let disk_lines = parse_config_disks cfg_text
                  in bnd (pbs_source_creds tr (src_storage src) (src_namespace src)) (\<lambda>creds.
                     let snap_path = (case partition_str ''backup/'' archive of (_, found, b) \<Rightarrow> if found then b else snapshot);
                         sizes = map (\<lambda>(dev, _). (dev, size_token_bytes (map_option size_token (map_of disk_lines dev)))) disk_targets;
                         known = sum_list (map (\<lambda>(_, s). opt_or s 0) sizes)
                     in restore_disks fuel tr vid creds snap_path cfg_text disk_lines sizes
                          (if known = 0 then None else Some known) on_progress should_cancel disk_targets [] 0)
         | _ \<Rightarrow> raise (RestoreTaskError ''could not read the backup config for a distributed restore'')))"

definition restore ::
  "nat \<Rightarrow> 'w transport \<Rightarrow> server_config \<Rightarrow> int \<Rightarrow> source_info \<Rightarrow> string \<Rightarrow> string \<Rightarrow> (progress \<Rightarrow> ('w, unit) act)
   \<Rightarrow> (string \<Rightarrow> ('w, unit) act) \<Rightarrow> ('w, bool) act \<Rightarrow> (string \<times> string) list option \<Rightarrow> ('w, unit) act" where
  "restore fuel tr cfg vid src snapshot target on_progress on_task should_cancel disk_targets = bnd (node tr) (\<lambda>n.
     if opt_or disk_targets [] \<noteq> []
     then restore_distributed fuel tr vid src snapshot (opt_or disk_targets []) on_progress n should_cancel
     else bnd (start_restore_task fuel tr vid (archive_volid src snapshot) target n) (\<lambda>upid.
          thn (on_task upid) (poll_task_on fuel tr cfg n upid on_progress 5 should_cancel)))"

section \<open>What the guest agent reports\<close>

definition agent_addr :: "json \<Rightarrow> exn + (string \<times> int) list" where
  "agent_addr a = rbind (jget a ''ip-address'' (JStr [])) (\<lambda>ip. rbind (jget a ''ip-address-type'' JNull) (\<lambda>ty.
     if ty \<noteq> JStr ''ipv4'' then Inr []
     else case Option.bind (the_text ip) ipv4_of_string of
            None \<Rightarrow> Inr []
          | Some addr \<Rightarrow>
              if is_loopback addr \<or> is_link_local addr then Inr []
              else rbind (jget a ''prefix'' JNull) (\<lambda>p.
                   rmap (\<lambda>pfx. [(opt_or (the_text ip) [], pfx)]) (if p = JNull then Inr 24 else jint p))))"

definition agent_iface :: "string list \<Rightarrow> json \<Rightarrow> exn + (string \<times> int) list" where
  "agent_iface real_macs iface =
     rbind (if real_macs = [] then Inr True
            else rbind (jget iface ''hardware-address'' JNull) (\<lambda>hw.
                 rmap (\<lambda>t. py_lower t \<in> set real_macs) (jtext (py_or hw (JStr []))))) (\<lambda>use.
     if \<not> use then Inr []
     else rbind (jget iface ''ip-addresses'' JNull) (\<lambda>l. rbind (jiter (py_or l (JArr []))) (rcollect agent_addr)))"

definition guest_agent_nics :: "'w transport \<Rightarrow> int \<Rightarrow> ('w, (string \<times> int) list) act" where
  "guest_agent_nics tr vid = bnd (node tr) (\<lambda>n.
     bnd (catch (bnd (tr_get_quick tr (at_node n (''qemu/'' @ string_of_int vid @ ''/agent/network-get-interfaces'')))
            (\<lambda>x. ret (Some x))) (\<lambda>_. ret None)) (\<lambda>r. case r of
       None \<Rightarrow> ret []
     | Some res \<Rightarrow>
         bnd (catch (tr_get_quick tr (at_node n (''qemu/'' @ string_of_int vid @ ''/config''))) (\<lambda>_. ret JNull)) (\<lambda>cfg.
         lift_r (rbind (case cfg of JObj kvs \<Rightarrow> rmap (map snd) (macs_from_config cfg) | _ \<Rightarrow> Inr []) (\<lambda>real_macs.
                 rbind (case res of JObj kvs \<Rightarrow> Inr (dict_get kvs ''result'' JNull) | _ \<Rightarrow> Inr res) (\<lambda>ifaces.
                 rbind (jiter (py_or ifaces (JArr []))) (rcollect (agent_iface real_macs))))))))"

definition disk_name_rx :: "int \<Rightarrow> rx" where
  "disk_name_rx vid = seqs [lit (''vm-'' @ string_of_int vid @ ''-disk-''), digits]"

definition disk_size_of :: "int \<Rightarrow> json \<Rightarrow> exn + (string \<times> int) list" where
  "disk_size_of vid vol = rbind (jget vol ''volid'' (JStr [])) (\<lambda>v.
     case rx_search (disk_name_rx vid) (py_str v) of
       None \<Rightarrow> Inr []
     | Some m \<Rightarrow> rbind (jget vol ''size'' JNull) (\<lambda>sz.
         if py_truth sz then rmap (\<lambda>i. [(group_text m 0, i)]) (jint sz) else Inr []))"

definition restore_total_bytes :: "'w transport \<Rightarrow> server_config \<Rightarrow> int \<Rightarrow> ('w, int) act" where
  "restore_total_bytes tr cfg vid = bnd (node tr) (\<lambda>n.
     bnd (foldact (\<lambda>store by_disk.
            bnd (catch (bnd (tr_get tr (at_node n (''storage/'' @ store @ ''/content?content=images&vmid='' @ string_of_int vid)))
                   (\<lambda>x. ret (Some (py_or x (JArr []))))) (\<lambda>_. ret None)) (\<lambda>r. case r of
              None \<Rightarrow> ret by_disk
            | Some content \<Rightarrow> bnd (lift_r (rbind (jiter content) (rcollect (disk_size_of vid)))) (\<lambda>found.
                ret (fold (\<lambda>(k, v). dict_set k v) found by_disk))))
          (selected_storages cfg) []) (\<lambda>by_disk. ret (sum_list (map snd by_disk))))"

section \<open>The helper container\<close>

definition content_of :: "json \<Rightarrow> exn + (string \<times> string) list" where
  "content_of s = rbind (jget s ''storage'' JNull) (\<lambda>nm. rmap (\<lambda>c.
     case nm of JStr t \<Rightarrow> [(t, opt_or (the_text (py_or c (JStr []))) [])] | _ \<Rightarrow> []) (jget s ''content'' JNull))"

definition lxc_storage :: "'w transport \<Rightarrow> server_config \<Rightarrow> ('w, string) act" where
  "lxc_storage tr cfg = bnd (node tr) (\<lambda>n.
     bnd (listed (tr_get tr (at_node n ''storage''))) (\<lambda>l. bnd (lift_r (rcollect content_of l)) (\<lambda>cs.
     ret (case List.find (\<lambda>t. py_in ''rootdir'' (opt_or (map_of (dict_of cs) (ts_storage t)) []))
                 (sort_key (\<lambda>t. opt_or (ts_order t) 9999) (used_targets cfg)) of
            Some t \<Rightarrow> ts_storage t | None \<Rightarrow> []))))"

definition base_name :: "string \<Rightarrow> string" where
  "base_name vol = last (split_on (CHR ''/'') vol)"

definition has_vztmpl :: "json \<Rightarrow> exn + json list" where
  "has_vztmpl s = rmap (\<lambda>c. if py_in ''vztmpl'' (opt_or (the_text (py_or c (JStr []))) []) then [s] else []) (jget s ''content'' JNull)"

definition templates_path :: "string \<Rightarrow> string \<Rightarrow> string" where
  "templates_path n storage = at_node n (''storage/'' @ storage @ ''/content?content=vztmpl'')"

definition storage_name :: "json \<Rightarrow> exn + string" where
  "storage_name s = rmap py_str (jindex s ''storage'')"

definition volids_named :: "string \<Rightarrow> json \<Rightarrow> exn + json list" where
  "volids_named name vol = rbind (jget vol ''volid'' (JStr [])) (\<lambda>v.
     if base_name (py_str v) = name then rmap (\<lambda>x. [x]) (jindex vol ''volid'') else Inr [])"

definition OURS_RE :: rx where
  "OURS_RE = seqs [AtStart, lit ''restore-helper-'', rep 8 (one_of ''0123456789abcdef''), lit ''.tar.gz'', AtEnd]"

definition prune_helper_templates :: "'w transport \<Rightarrow> string \<Rightarrow> json list \<Rightarrow> string \<Rightarrow> ('w, unit) act" where
  "prune_helper_templates tr n tmpl_stores keep = foreach (\<lambda>s.
     bnd (lift_r (storage_name s)) (\<lambda>storage. bnd (listed (tr_get tr (templates_path n storage))) (\<lambda>vols.
     foreach (\<lambda>vol. bnd (lift_r (jget vol ''volid'' (JStr []))) (\<lambda>v.
       let vol_id = py_str v; base = base_name vol_id
       in if base = keep \<or> rx_match OURS_RE base = None then ret ()
          else quiet (bnd (tr_delete tr (at_node n (''storage/'' @ storage @ ''/content/'' @ vol_id))) (\<lambda>_. ret ())))) vols))) tmpl_stores"

primrec wait_task :: "nat \<Rightarrow> 'w transport \<Rightarrow> string \<Rightarrow> string \<Rightarrow> ('w, unit) act" where
  "wait_task 0 tr n upid = ret ()"
| "wait_task (Suc k) tr n upid =
     bnd (as_dict (tr_get tr (at_node n (''tasks/'' @ upid @ ''/status'')))) (\<lambda>st.
     bnd (lift_r (jget st ''status'' JNull)) (\<lambda>s.
     if s = JStr ''stopped''
     then bnd (lift_r (jget st ''exitstatus'' JNull)) (\<lambda>x.
          if x \<notin> {JNull, JStr ''OK''} then raise (RestoreTaskError (''helper template upload failed: '' @ py_str x)) else ret ())
     else thn (tr_sleep tr 1) (wait_task k tr n upid)))"

definition ensure_helper_template :: "'w transport \<Rightarrow> server_config \<Rightarrow> ('w, string) act" where
  "ensure_helper_template tr cfg = bnd (node tr) (\<lambda>n. bnd (lift_r (cfg_helper_image cfg)) (\<lambda>image.
     let name = ''restore-helper-'' @ tr_sha8 tr image @ ''.tar.gz''
     in bnd (listed (tr_get tr (at_node n ''storage''))) (\<lambda>all_stores. bnd (lift_r (rcollect has_vztmpl all_stores)) (\<lambda>tmpl_stores.
        case tmpl_stores of
          [] \<Rightarrow> raise (RestoreTaskError ''no vztmpl-capable storage on the restore host to hold the helper template'')
        | first # others \<Rightarrow>
            bnd (foldact (\<lambda>s current. bnd (lift_r (storage_name s)) (\<lambda>storage.
                   bnd (listed (tr_get tr (templates_path n storage))) (\<lambda>vols.
                   bnd (lift_r (rcollect (volids_named name) vols)) (\<lambda>found.
                   ret (if found = [] then current else Some (py_str (last found))))))) (first # others) None) (\<lambda>current.
            bnd (case current of
                   Some v \<Rightarrow> ret v
                 | None \<Rightarrow> bnd (lift_r (storage_name first)) (\<lambda>storage.
                     bnd (tr_upload tr n storage name image) (\<lambda>upid.
                     thn (case upid of
                            JStr u \<Rightarrow> on_cond (starts_with ''UPID'' u) (wait_task 120 tr n u)
                          | _ \<Rightarrow> ret ())
                       (ret (storage @ '':vztmpl/'' @ name))))) (\<lambda>template.
            thn (prune_helper_templates tr n (first # others) name) (ret template)))))))"

definition OWNED_TAG :: string where "OWNED_TAG = ''bsentinel-restore''"
definition AGENT_PORT :: int where "AGENT_PORT = 8765"

primrec agent_wait_loop :: "nat \<Rightarrow> 'w transport \<Rightarrow> string \<Rightarrow> rat \<Rightarrow> ('w, unit) act" where
  "agent_wait_loop 0 tr ip deadline = no_fuel"
| "agent_wait_loop (Suc k) tr ip deadline = bnd (tr_now tr) (\<lambda>t.
     if \<not> t < deadline
     then raise (RestoreTaskError (''restore helper agent not ready at '' @ ip @ '' within 60s (management leg not reachable?)''))
     else bnd (catch (tr_agent_healthy tr ip) (\<lambda>_. ret False)) (\<lambda>ok.
          if ok then ret () else thn (tr_sleep tr 1) (agent_wait_loop k tr ip deadline)))"

definition agent_wait_healthy :: "nat \<Rightarrow> 'w transport \<Rightarrow> string \<Rightarrow> ('w, unit) act" where
  "agent_wait_healthy fuel tr ip = bnd (tr_now tr) (\<lambda>t. agent_wait_loop fuel tr ip (fl64 (t + 60)))"

text \<open>The labelled outputs of a list of commands; a command that fails gives an \<open>ERR\<close> value.
  \<open>dflt\<close> is what an empty output becomes.\<close>

definition diag_parts :: "'w transport \<Rightarrow> string \<Rightarrow> (string \<times> string) list \<Rightarrow> ('w, label_values) act" where
  "diag_parts tr dflt cmds = foldact (\<lambda>(label, cmd) parts.
     bnd (catch (bnd (tr_ssh tr cmd) (\<lambda>out. ret (let t = py_strip out in if t \<noteq> [] then t else dflt)))
            (\<lambda>e. ret (''ERR '' @ take 80 (exn_text e)))) (\<lambda>v. ret (parts @ [(label, v)]))) cmds []"

definition helper_netdiag :: "'w transport \<Rightarrow> int \<Rightarrow> string \<Rightarrow> ('w, string) act" where
  "helper_netdiag tr vid gateway =
     (let pct = ''pct exec '' @ string_of_int vid @ '' -- ''
      in bnd (diag_parts tr [] ([(''addr'', pct @ ''ip -4 -o addr show''), (''route'', pct @ ''ip route show'')]
                @ (if gateway \<noteq> [] then [(''gw-ping'', pct @ ''ping -c1 -W2 '' @ gateway)] else [])))
           (\<lambda>parts. ret (format_helper_netdiag parts)))"

definition probe_netdiag_cmds :: "string \<Rightarrow> int \<Rightarrow> string list \<Rightarrow> int \<Rightarrow> int list \<Rightarrow> (string \<times> string) list" where
  "probe_netdiag_cmds bridge0 helper_vid guest_ips restore_vid tcp_ports =
     (let bridge = shlex_quote bridge0; pct = ''pct exec '' @ string_of_int helper_vid @ '' -- ''
      in [(''bridge'', ''ip -br link show '' @ bridge),
          (''bridge ports'', ''ls /sys/class/net/'' @ bridge @ ''/brif 2>/dev/null || echo none''),
          (''bridge vlans'', ''bridge -c vlan show 2>/dev/null | head -300'')]
         @ (if restore_vid \<noteq> 0
            then [(''vm nic'', ''qm config '' @ string_of_int restore_vid @ '' | grep -E '' @ quoted ''^net[0-9]'' @ '' || true'')]
            else [])
         @ [(''sbx addr'', pct @ ''ip -4 -o addr show dev sbx''), (''routes'', pct @ ''ip route show'')]
         @ concat (map (\<lambda>ip.
             [(''ping '' @ ip, pct @ ''ping -c1 -W2 '' @ shlex_quote ip),
              (''neigh '' @ ip, pct @ ''ip neigh show to '' @ shlex_quote ip)]
             @ map (\<lambda>p. (''tcp '' @ ip @ '':'' @ string_of_int p,
                        pct @ ''nc -z -w2 '' @ shlex_quote ip @ '' '' @ string_of_int p)) (take 4 tcp_ports)) (take 4 guest_ips)))"

definition probe_netdiag :: "'w transport \<Rightarrow> server_config \<Rightarrow> int \<Rightarrow> string list \<Rightarrow> int \<Rightarrow> int list \<Rightarrow> ('w, string) act" where
  "probe_netdiag tr cfg helper_vid guest_ips restore_vid tcp_ports =
     (if helper_vid = 0 then ret []
      else bnd (diag_parts tr [] (probe_netdiag_cmds (cfg_sandbox_bridge cfg) helper_vid guest_ips restore_vid tcp_ports))
             (\<lambda>parts. lift_r (format_netdiag parts)))"

definition mgmt_netdiag_cmds :: "int \<Rightarrow> string \<Rightarrow> (string \<times> string) list" where
  "mgmt_netdiag_cmds helper_vid ip =
     (let q = shlex_quote ip; port = string_of_int AGENT_PORT; pct = ''pct exec '' @ string_of_int helper_vid @ '' -- ''
      in [(''host ping '' @ ip, ''ping -c1 -W2 '' @ q),
          (''host neigh '' @ ip, ''ip neigh show to '' @ q),
          (''host'' @ right_arrow @ ''agent :'' @ port, ''nc -z -w3 '' @ q @ '' '' @ port),
          (''helper addr'', pct @ ''ip -4 -o addr show''),
          (''helper routes'', pct @ ''ip route show''),
          (''agent@helper :'' @ port, pct @ ''nc -z -w3 127.0.0.1 '' @ port)])"

definition mgmt_netdiag :: "'w transport \<Rightarrow> int \<Rightarrow> string \<Rightarrow> ('w, string) act" where
  "mgmt_netdiag tr helper_vid ip =
     (if helper_vid = 0 \<or> ip = [] then ret []
      else bnd (diag_parts tr ''OK'' (mgmt_netdiag_cmds helper_vid ip)) (\<lambda>parts. lift_r (format_netdiag parts)))"

text \<open>\<open>str()\<close> of an address that may be missing, as the f-strings print it.\<close>

definition addr_text :: "string option \<Rightarrow> string" where
  "addr_text a = opt_or a ''None''"

definition helper_body :: "int \<Rightarrow> string \<Rightarrow> string \<Rightarrow> string \<Rightarrow> string \<times> string \<Rightarrow> (string \<times> json) list" where
  "helper_body helper_vid template storage label legs =
     [(''vmid'', JInt helper_vid), (''ostemplate'', JStr template), (''storage'', JStr storage),
      (''hostname'', JStr (if label \<noteq> [] then sandbox_name label [] ''helper''
                         else OWNED_TAG @ ''-helper-'' @ string_of_int helper_vid)),
      (''memory'', JInt 256), (''cores'', JInt 1), (''net0'', JStr (fst legs)), (''net1'', JStr (snd legs)),
      (''tags'', JStr OWNED_TAG), (''start'', JInt 0)]"

definition provision_helper ::
  "nat \<Rightarrow> 'w transport \<Rightarrow> server_config \<Rightarrow> int \<Rightarrow> int \<Rightarrow> string \<Rightarrow> string option \<Rightarrow> string option \<Rightarrow> int \<Rightarrow> int option \<Rightarrow> string
   \<Rightarrow> ('w, unit) act" where
  "provision_helper fuel tr cfg helper_vid tag ip sandbox_ip guest_ip sbx_prefix guest_vlan label = bnd (node tr) (\<lambda>n.
     bnd (lxc_storage tr cfg) (\<lambda>helper_storage.
     if helper_storage = [] then raise (PyError ''RuntimeError''
        (''no selected target storage accepts LXC containers (content '' @ quoted ''rootdir'' @ '')''))
     else let mgmt_prefix = int (prefix_from_netmask (cfg_mgmt_netmask cfg));
              netmask = netmask_from_prefix sbx_prefix;
              sbx_tag = (if truthy_int guest_vlan then opt_or guest_vlan 0 else tag)
          in bnd (lift_r (helper_legs (cfg_sandbox_bridge cfg) sbx_tag (cfg_mgmt_iface cfg) ip mgmt_prefix (cfg_mgmt_vlan cfg)
                            (cfg_mgmt_gateway cfg) (addr_text sandbox_ip) sbx_prefix)) (\<lambda>legs.
             bnd (ensure_helper_template tr cfg) (\<lambda>template.
             bnd (tr_post tr (at_node n ''lxc'') (helper_body helper_vid template helper_storage label legs)) (\<lambda>_.
             thn (start_lxc tr helper_vid)
            (thn (catch (agent_wait_healthy fuel tr ip) (\<lambda>e. case e of
                    RestoreTaskError t \<Rightarrow> bnd (helper_netdiag tr helper_vid (cfg_mgmt_gateway cfg)) (\<lambda>d.
                      raise (RestoreTaskError (t @ nl @ nl @ d)))
                  | _ \<Rightarrow> raise e))
            (bnd (tr_agent_post tr ip ''/dnsmasq'' (JObj [(''conf'', JStr (dnsmasq_config (addr_text guest_ip) netmask)),
                                                        (''aliases'', JArr [])]) 15) (\<lambda>res. case res of
               JObj kvs \<Rightarrow>
                 if dict_get kvs ''ok'' JNull = JBool False
                 then raise (RestoreTaskError (''helper dnsmasq setup failed: ''
                              @ py_str (dict_get kvs ''dnsmasq_error'' (JStr ''unknown error''))))
                 else ret ()
             | _ \<Rightarrow> ret ()))))))))"

record probe_target =
  pt_ip :: "string option"
  pt_ports :: "int list"
  pt_prefix :: int

definition target_json :: "probe_target \<Rightarrow> json" where
  "target_json t = JObj [(''ip'', case pt_ip t of None \<Rightarrow> JNull | Some ip \<Rightarrow> JStr ip),
                         (''ports'', JArr (map JInt (pt_ports t))), (''prefix'', JInt (pt_prefix t))]"

definition probe :: "'w transport \<Rightarrow> string \<Rightarrow> probe_target list \<Rightarrow> bool \<Rightarrow> ('w, json) act" where
  "probe tr ip targets require =
     tr_agent_post tr ip ''/probe''
       (JObj [(''targets'', JArr (map target_json targets)), (''require_icmp'', JBool require)])
       (8 + of_nat (length targets) / 2)"

end
