(* ===== verification/RestoreWorker.thy ===== *)
theory RestoreWorker imports RestoreHelper begin

text \<open>
  The single-slot restore worker (\<open>app/services/restore_worker.py\<close>): the pipeline of one run,
  the probe loop, finalizing with hold, retry or teardown, and resuming a run after a restart
  of the application. The world is the database, the variables of the progress callback's
  closure and the host behind the transports. \<open>now\<close> and \<open>sleep\<close> are the transport's clock.
  A loop that only the clock ends takes a bound on its rounds (\<open>fuel\<close>).
\<close>

record progress_vars =
  done_base :: int
  cur_read :: int
  cur_drive :: "string option"
  total_size :: "int option"

record 'h world =
  wdb :: db
  wprog :: progress_vars
  whost :: 'h

type_synonym ('h, 'a) wact = "('h world, 'a) act"

definition on_db :: "(db \<Rightarrow> db) \<Rightarrow> ('h, unit) wact" where
  "on_db f = modify (\<lambda>w. w\<lparr>wdb := f (wdb w)\<rparr>)"

definition from_db :: "(db \<Rightarrow> 'a) \<Rightarrow> ('h, 'a) wact" where
  "from_db f = gets (\<lambda>w. f (wdb w))"

definition set_run :: "int \<Rightarrow> run_field list \<Rightarrow> ('h, unit) wact" where
  "set_run i fs = on_db (update_run i fs)"

record run_plan =
  pl_vm_id :: int
  pl_restore_vmid :: int
  pl_helper_vmid :: int
  pl_vlan_tag :: int
  pl_mgmt_ip :: string
  pl_source :: source_info
  pl_snapshot_id :: string
  pl_target_storage :: string
  pl_probe_targets :: "probe_target list"
  pl_primary_ip :: "string option"
  pl_sandbox_ip :: "string option"
  pl_sandbox_prefix :: int
  pl_guest_vlan :: "int option"
  pl_probe_override :: "string option"
  pl_label :: string
  pl_require_icmp :: bool
  pl_tcp_ports :: "int list"
  pl_hold_on_failure :: bool
  pl_retry_days :: "int option"
  pl_first_delay :: int
  pl_interval :: int
  pl_window :: int
  pl_needed_bytes :: "int option"
  pl_needed_ram :: "int option"
  pl_disk_targets :: "(string \<times> string) list option"

definition some_list :: "'a option \<Rightarrow> 'a list" where
  "some_list x = (case x of None \<Rightarrow> [] | Some v \<Rightarrow> [v])"

definition owned_vmids :: "db \<Rightarrow> int list" where
  "owned_vmids d = remdups (concat (map (\<lambda>r. some_list (restore_vmid r) @ some_list (helper_vmid r)) (active_and_held_runs d)))"

section \<open>Capacity\<close>

definition fits_disk :: "int option \<Rightarrow> int option \<Rightarrow> bool" where
  "fits_disk free_bytes needed_bytes =
     (if \<not> truthy_int free_bytes \<or> \<not> truthy_int needed_bytes then True
      else of_int (opt_or free_bytes 0) \<ge> fl64 (fl64 (of_int (opt_or needed_bytes 0)) * fl64 (12 / 10)))"

definition RAM_RESERVE_MIN_BYTES :: int where
  "RAM_RESERVE_MIN_BYTES = 10 * 1024 ^ 3"

definition ram_reserve_bytes :: "int option \<Rightarrow> int" where
  "ram_reserve_bytes total_bytes =
     (if \<not> truthy_int total_bytes then RAM_RESERVE_MIN_BYTES
      else max (py_trunc (fl64 (fl64 (of_int (opt_or total_bytes 0)) * fl64 (1 / 10)))) RAM_RESERVE_MIN_BYTES)"

definition fits_ram :: "int option \<Rightarrow> int option \<Rightarrow> int option \<Rightarrow> bool" where
  "fits_ram free_bytes total_bytes needed_bytes =
     (if \<not> truthy_int needed_bytes then True
      else case free_bytes of
             None \<Rightarrow> True
           | Some f \<Rightarrow> f - ram_reserve_bytes total_bytes \<ge> opt_or needed_bytes 0)"

section \<open>Progress\<close>

definition progress_fields :: "task_progress \<Rightarrow> run_field list" where
  "progress_fields p =
     (case tp_percent p of None \<Rightarrow> []
        | Some pc \<Rightarrow> [F_percent (Some pc), F_phase (Some (phase_of_percent pc))])
     @ (case tp_done p of None \<Rightarrow> [] | Some b \<Rightarrow> [F_bytes_done (Some b)])
     @ (case tp_total p of None \<Rightarrow> [] | Some b \<Rightarrow> [F_bytes_total (Some b)])"

definition new_progress :: progress_vars where
  "new_progress = \<lparr>done_base = 0, cur_read = 0, cur_drive = None, total_size = None\<rparr>"

text \<open>A new drive line: the finished disk's bytes are added, the new disk starts at 0.\<close>

definition next_drive :: "string option \<Rightarrow> progress_vars \<Rightarrow> progress_vars" where
  "next_drive drive st =
     st\<lparr>done_base := (if cur_drive st \<noteq> None then done_base st + cur_read st else done_base st),
        cur_drive := drive, cur_read := 0\<rparr>"

definition zero_none :: "int \<Rightarrow> int option" where
  "zero_none x = (if x = 0 then None else Some x)"

definition progress_updater :: "'h world transport \<Rightarrow> server_config \<Rightarrow> int \<Rightarrow> int \<Rightarrow> progress \<Rightarrow> ('h, unit) wact" where
  "progress_updater tr cfg rid vid = (\<lambda>(p, drive).
     let got = opt_or (tp_done p) 0
     in bnd (gets wprog) (\<lambda>st0.
        thn (on_cond (truthy_str drive \<and> drive \<noteq> cur_drive st0)
               (thn (modify (\<lambda>w. w\<lparr>wprog := next_drive drive (wprog w)\<rparr>))
                    (quiet (bnd (restore_total_bytes tr cfg vid) (\<lambda>t.
                       modify (\<lambda>w. w\<lparr>wprog := (wprog w)\<lparr>total_size :=
                         zero_none (max (opt_or (total_size (wprog w)) 0) t)\<rparr>\<rparr>))))))
        (thn (modify (\<lambda>w. w\<lparr>wprog := (wprog w)\<lparr>cur_read := max (cur_read (wprog w)) got\<rparr>\<rparr>))
        (bnd (gets wprog) (\<lambda>st.
         set_run rid (case (if truthy_str drive then overall_restore_fields (done_base st + cur_read st) (total_size st) else None) of
                        Some fs \<Rightarrow> fs | None \<Rightarrow> progress_fields p))))))"

text \<open>A callback with a fresh closure for the action that gets it.\<close>

definition with_updater ::
  "'h world transport \<Rightarrow> server_config \<Rightarrow> int \<Rightarrow> int \<Rightarrow> ((progress \<Rightarrow> ('h, unit) wact) \<Rightarrow> ('h, unit) wact) \<Rightarrow> ('h, unit) wact" where
  "with_updater tr cfg rid vid m = thn (modify (\<lambda>w. w\<lparr>wprog := new_progress\<rparr>)) (m (progress_updater tr cfg rid vid))"

section \<open>The probe loop\<close>

text \<open>What the classifier reads of the agent's answer: an object with one entry per address.
  An entry that is needed and no object raises.\<close>

definition truth_of :: "(string \<times> json) list \<Rightarrow> string \<Rightarrow> bool" where
  "truth_of kvs k = py_truth (dict_get kvs k JNull)"

definition probe_entry :: "string list \<Rightarrow> string \<times> json \<Rightarrow> exn + probe_checks" where
  "probe_entry ips kv = (case kv of (ip, v) \<Rightarrow> (case v of
       JObj kvs \<Rightarrow>
         (case py_or (dict_get kvs ''ports'' JNull) (JObj []) of
            JObj ps \<Rightarrow> Inr [(ip, \<lparr>icmp = truth_of kvs ''icmp'', arp = truth_of kvs ''arp'',
                               ports = map (\<lambda>(p, b). (p, py_truth b)) ps\<rparr>)]
          | _ \<Rightarrow> if ip \<in> set ips then Inl attribute_error else Inr [])
     | _ \<Rightarrow> if py_truth v \<and> ip \<in> set ips then Inl attribute_error else Inr []))"

definition probe_checks_of :: "string list \<Rightarrow> json \<Rightarrow> exn + probe_checks" where
  "probe_checks_of ips answer = rbind (jitems answer) (rcollect (probe_entry ips))"

definition target_at :: "run_plan \<Rightarrow> string option \<Rightarrow> int \<Rightarrow> probe_target" where
  "target_at plan ip pfx = \<lparr>pt_ip = ip, pt_ports = pl_tcp_ports plan, pt_prefix = pfx\<rparr>"

text \<open>The addresses of this pass: an override is used as it is; otherwise what the guest agent
  reports now or reported before, the address that DHCP handed out first.\<close>

definition plan_targets :: "run_plan \<Rightarrow> (string \<times> int) list \<Rightarrow> probe_target list \<times> string list" where
  "plan_targets plan discovered =
     (if truthy_str (pl_probe_override plan) \<or> discovered = []
      then ([target_at plan (pl_primary_ip plan) (pl_sandbox_prefix plan)],
            if truthy_str (pl_primary_ip plan) then some_list (pl_primary_ip plan) else [])
      else let ordered = sort_key (\<lambda>n. if Some (fst n) = pl_primary_ip plan then 0 else 1 :: nat) discovered
           in (map (\<lambda>(ip, pfx). target_at plan (Some ip) pfx) ordered, map fst ordered))"

definition discover :: "'h world transport \<Rightarrow> run_plan \<Rightarrow> (string \<times> int) list \<Rightarrow> ('h, (string \<times> int) list) wact" where
  "discover tr plan discovered =
     (if truthy_str (pl_probe_override plan) then ret discovered
      else bnd (guest_agent_nics tr (pl_restore_vmid plan)) (\<lambda>ns. ret (if ns \<noteq> [] then ns else discovered)))"

type_synonym 'h probe_fn = "probe_target list \<Rightarrow> ('h, json) wact"

definition set_run_opt :: "int option \<Rightarrow> run_field list \<Rightarrow> ('h, unit) wact" where
  "set_run_opt rid fs = (case rid of None \<Rightarrow> ret () | Some i \<Rightarrow> set_run i fs)"

definition probe_pass ::
  "'h world transport \<Rightarrow> run_plan \<Rightarrow> 'h probe_fn \<Rightarrow> int option \<Rightarrow> rat \<Rightarrow> probe_target list \<Rightarrow> string list
   \<Rightarrow> ('h, restore_result \<times> run_checks) wact" where
  "probe_pass tr plan probe_fn rid deadline targets ips =
     (if ips = [] then ret (Limited, Note ''no target IP yet (no DHCP address, override, or guest agent)'')
      else thn (set_run_opt rid [F_detected_ip (Some (hd ips))])
        (bnd (catch (bnd (probe_fn targets) (\<lambda>j. ret (Inr j)))
                (\<lambda>e. bnd (tr_now tr) (\<lambda>t. if deadline \<le> t then raise e else ret (Inl e)))) (\<lambda>r.
         case r of
           Inl e \<Rightarrow> ret (Limited, Note (''probe pass failed: '' @ exn_text e))
         | Inr j \<Rightarrow> bnd (lift_r (probe_checks_of ips j)) (\<lambda>cs.
             ret (classify_multi cs ips (pl_require_icmp plan) (pl_tcp_ports plan) True, Checks cs)))))"

definition check_cancel :: "('h, bool) wact \<Rightarrow> ('h, unit) wact" where
  "check_cancel should_cancel = bnd should_cancel (\<lambda>c. if c then raise (RestoreCancelled cancelled_msg) else ret ())"

text \<open>One pass, and whether the loop ends with it.\<close>

definition probe_round ::
  "'h world transport \<Rightarrow> run_plan \<Rightarrow> 'h probe_fn \<Rightarrow> int option \<Rightarrow> ('h, bool) wact \<Rightarrow> rat \<Rightarrow> (string \<times> int) list
   \<Rightarrow> ('h, (restore_result \<times> run_checks) option \<times> (string \<times> int) list) wact" where
  "probe_round tr plan probe_fn rid should_cancel deadline discovered = bnd (tr_now tr) (\<lambda>pass_start.
     thn (check_cancel should_cancel)
    (bnd (discover tr plan discovered) (\<lambda>found.
     bnd (case plan_targets plan found of (targets, ips) \<Rightarrow> probe_pass tr plan probe_fn rid deadline targets ips) (\<lambda>(res, chk).
     thn (set_run_opt rid [F_checks (Some chk)])
    (bnd (if res = Passed then ret True else bnd (tr_now tr) (\<lambda>t. ret (deadline \<le> t))) (\<lambda>stop.
     if stop then ret (Some (res, chk), found)
     else bnd (tr_now tr) (\<lambda>t.
          thn (tr_sleep tr (max 0 (fl64 (of_int (pl_interval plan) - fl64 (t - pass_start))))) (ret (None, found))))))))) "

primrec probe_rounds ::
  "nat \<Rightarrow> 'h world transport \<Rightarrow> run_plan \<Rightarrow> 'h probe_fn \<Rightarrow> int option \<Rightarrow> ('h, bool) wact \<Rightarrow> rat \<Rightarrow> (string \<times> int) list
   \<Rightarrow> ('h, restore_result \<times> run_checks) wact" where
  "probe_rounds 0 tr plan probe_fn rid should_cancel deadline discovered = no_fuel"
| "probe_rounds (Suc k) tr plan probe_fn rid should_cancel deadline discovered =
     bnd (probe_round tr plan probe_fn rid should_cancel deadline discovered) (\<lambda>(r, found). case r of
       Some v \<Rightarrow> ret v
     | None \<Rightarrow> probe_rounds k tr plan probe_fn rid should_cancel deadline found)"

definition probe_loop ::
  "nat \<Rightarrow> 'h world transport \<Rightarrow> run_plan \<Rightarrow> 'h probe_fn \<Rightarrow> int option \<Rightarrow> ('h, bool) wact
   \<Rightarrow> ('h, restore_result \<times> run_checks) wact" where
  "probe_loop fuel tr plan probe_fn rid should_cancel =
     thn (tr_sleep tr (of_int (pl_first_delay plan))) (bnd (tr_now tr) (\<lambda>t0.
       probe_rounds fuel tr plan probe_fn rid should_cancel (fl64 (t0 + of_int (pl_window plan))) []))"

definition default_probe :: "'h world transport \<Rightarrow> run_plan \<Rightarrow> 'h probe_fn" where
  "default_probe tr plan = (\<lambda>targets. probe tr (pl_mgmt_ip plan) targets (pl_require_icmp plan))"

section \<open>Run logs\<close>

definition blank :: string where "blank = nl @ nl"

text \<open>A diagnosis that fails or is empty is left out.\<close>

definition some_text :: "('h, string) wact \<Rightarrow> ('h, string list) wact" where
  "some_text m = catch (bnd m (\<lambda>s. ret (if s \<noteq> [] then [s] else []))) (\<lambda>_. ret [])"

definition failure_diag :: "'h world transport \<Rightarrow> server_config \<Rightarrow> run_plan \<Rightarrow> ('h, string option) wact" where
  "failure_diag tr cfg plan =
     bnd (some_text (bnd (guest_agent_nics tr (pl_restore_vmid plan)) (\<lambda>ns.
            let ips = (if ns \<noteq> [] then map fst ns
                       else if truthy_str (pl_primary_ip plan) then some_list (pl_primary_ip plan) else [])
            in probe_netdiag tr cfg (pl_helper_vmid plan) ips (pl_restore_vmid plan) (pl_tcp_ports plan)))) (\<lambda>a.
     bnd (some_text (mgmt_netdiag tr (pl_helper_vmid plan) (pl_mgmt_ip plan))) (\<lambda>b.
     ret (if a @ b = [] then None else Some (py_join blank (a @ b)))))"

definition error_log :: "'h world transport \<Rightarrow> server_config \<Rightarrow> run_plan \<Rightarrow> string \<Rightarrow> ('h, string) wact" where
  "error_log tr cfg plan msg =
     (let reason = (if py_strip msg \<noteq> [] then py_strip msg else ''unknown error'');
          first = ''Restore failed'' @ nl @ ''  '' @ reason
      in bnd (if pl_restore_vmid plan = 0 then ret False
              else catch (exists_guest tr (pl_restore_vmid plan) False) (\<lambda>_. ret False)) (\<lambda>there.
         if \<not> there then ret first
         else bnd (failure_diag tr cfg plan) (\<lambda>diag.
              ret (py_join blank (first # (if truthy_str diag then some_list diag else []))))))"

section \<open>Ending a run\<close>

text \<open>\<open>server.reap(owned_vmids())\<close>\<close>

definition reap_unowned :: "'h world transport \<Rightarrow> ('h, unit) wact" where
  "reap_unowned tr = bnd (from_db owned_vmids) (\<lambda>owned. bnd (reap tr owned) (\<lambda>_. ret ()))"

definition teardown_steps :: "'h world transport \<Rightarrow> (int \<times> bool) list \<Rightarrow> ('h, unit) wact" where
  "teardown_steps tr steps = foreach (\<lambda>g. quiet (destroy tr (fst g) (snd g))) steps"

definition teardown :: "'h world transport \<Rightarrow> run_plan \<Rightarrow> ('h, unit) wact" where
  "teardown tr plan =
     bnd (catch (bnd (exists_guest tr (pl_restore_vmid plan) False) (\<lambda>b. ret (Some b))) (\<lambda>_. ret None)) (\<lambda>vm.
     bnd (if vm = None then ret False
          else catch (exists_guest tr (pl_helper_vmid plan) True) (\<lambda>_. ret False)) (\<lambda>helper.
     thn (teardown_steps tr
            ((if vm = Some True then [(pl_restore_vmid plan, False)] else [])
             @ (if helper then [(pl_helper_vmid plan, True)] else [])))
         (quiet (reap_unowned tr))))"

text \<open>\<open>db_restore.record_run_result\<close> with its result dropped.\<close>

definition record_result ::
  "int \<Rightarrow> run_plan \<Rightarrow> string \<Rightarrow> int \<Rightarrow> string \<Rightarrow> run_checks option \<Rightarrow> string option \<Rightarrow> string option \<Rightarrow> ('h, unit) wact" where
  "record_result rid plan res secs note chk lg st =
     on_db (\<lambda>d. snd (record_run_result rid (pl_vm_id plan) res secs note chk lg st d))"

text \<open>\<open>schedule_retry\<close>: a VM without a policy has no retry days, and \<open>timedelta(days=None)\<close> raises.\<close>

definition retry_later :: "run_plan \<Rightarrow> ('h, unit) wact" where
  "retry_later plan = (case pl_retry_days plan of
       None \<Rightarrow> raise type_error
     | Some n \<Rightarrow> on_db (schedule_retry (pl_vm_id plan) n))"

definition finalize ::
  "'h world transport \<Rightarrow> int \<Rightarrow> run_plan \<Rightarrow> string \<Rightarrow> run_checks \<Rightarrow> int \<Rightarrow> string option \<Rightarrow> ('h, string) wact" where
  "finalize tr rid plan res chk secs lg =
     (if pl_hold_on_failure plan \<and> res \<in> {''failed'', ''error''}
      then thn (on_cond (pl_helper_vmid plan \<noteq> 0)
                  (quiet (bnd (exists_guest tr (pl_helper_vmid plan) True) (\<lambda>b.
                     on_cond b (destroy tr (pl_helper_vmid plan) True)))))
          (thn (record_result rid plan res secs [] (Some chk) lg (Some ''held''))
          (thn (set_run rid [F_helper_vmid None, F_mgmt_ip None])
               (ret ''held'')))
      else thn (teardown tr plan)
          (thn (record_result rid plan res secs [] (Some chk) lg None)
          (thn (if res \<in> {''failed'', ''error''} then retry_later plan else on_db (set_vm_next_run (pl_vm_id plan) None))
               (ret res))))"

section \<open>Executing a run\<close>

definition provision_for :: "nat \<Rightarrow> 'h world transport \<Rightarrow> server_config \<Rightarrow> run_plan \<Rightarrow> ('h, unit) wact" where
  "provision_for fuel tr cfg plan =
     provision_helper fuel tr cfg (pl_helper_vmid plan) (pl_vlan_tag plan) (pl_mgmt_ip plan) (pl_sandbox_ip plan)
       (pl_primary_ip plan) (pl_sandbox_prefix plan) (pl_guest_vlan plan) (pl_label plan)"

definition in_phase :: "int \<Rightarrow> string \<Rightarrow> ('h, unit) wact" where
  "in_phase rid ph = set_run rid [F_phase (Some ph)]"

definition run_pipeline ::
  "nat \<Rightarrow> 'h world transport \<Rightarrow> server_config \<Rightarrow> int \<Rightarrow> run_plan \<Rightarrow> string list \<Rightarrow> 'h probe_fn \<Rightarrow> ('h, bool) wact
   \<Rightarrow> ('h, restore_result \<times> run_checks \<times> string option) wact" where
  "run_pipeline fuel tr cfg rid plan prod_hosts probe_fn should_cancel =
     thn (block
       [verify_host_identity cfg prod_hosts,
        reap_unowned tr,
        ensure_sandbox_bridge tr cfg,
        check_cancel should_cancel,
        in_phase rid ''preflight'',
        preflight_check tr (pl_source plan) (pl_snapshot_id plan),
        check_cancel should_cancel,
        in_phase rid ''helper'',
        provision_for fuel tr cfg plan,
        check_cancel should_cancel,
        in_phase rid ''restoring'',
        with_updater tr cfg rid (pl_restore_vmid plan) (\<lambda>on_progress.
          restore fuel tr cfg (pl_restore_vmid plan) (pl_source plan) (pl_snapshot_id plan) (pl_target_storage plan)
            on_progress (\<lambda>upid. set_run rid [F_task_upid (Some upid)]) should_cancel (pl_disk_targets plan)),
        check_cancel should_cancel,
        in_phase rid ''network'',
        rewrite_nics tr cfg (pl_restore_vmid plan) (pl_vlan_tag plan) (pl_guest_vlan plan) (pl_label plan),
        in_phase rid ''booting'',
        wait_unlocked tr (pl_restore_vmid plan),
        start tr (pl_restore_vmid plan),
        in_phase rid ''probing'',
        on_cond (truthy_str (pl_primary_ip plan)) (set_run rid [F_detected_ip (pl_primary_ip plan)])])
     (bnd (probe_loop fuel tr plan probe_fn (Some rid) should_cancel) (\<lambda>(res, chk).
      if res = Passed then ret (res, chk, None)
      else bnd (failure_diag tr cfg plan) (\<lambda>lg. ret (res, chk, lg))))"

definition started_fields :: "run_plan \<Rightarrow> int \<Rightarrow> run_field list" where
  "started_fields plan t =
     [F_status ''running'', F_started_at (Some t), F_restore_vmid (Some (pl_restore_vmid plan)),
      F_helper_vmid (Some (pl_helper_vmid plan)), F_vlan_tag (Some (pl_vlan_tag plan)), F_mgmt_ip (Some (pl_mgmt_ip plan)),
      F_source_pbs (src_pbs (pl_source plan)), F_source_datastore (src_datastore (pl_source plan)),
      F_source_namespace (src_namespace (pl_source plan)), F_snapshot_id (Some (pl_snapshot_id plan)),
      F_target_storages [pl_target_storage plan]]"

text \<open>\<open>int(now() - start)\<close>\<close>

definition elapsed_since :: "'h world transport \<Rightarrow> rat \<Rightarrow> ('h, int) wact" where
  "elapsed_since tr t0 = bnd (tr_now tr) (\<lambda>t. ret (py_trunc (fl64 (t - t0))))"

text \<open>From the row that says \<open>running\<close> to the end of the run.\<close>

definition run_to_end ::
  "nat \<Rightarrow> 'h world transport \<Rightarrow> server_config \<Rightarrow> int \<Rightarrow> run_plan \<Rightarrow> string list \<Rightarrow> 'h probe_fn \<Rightarrow> ('h, bool) wact \<Rightarrow> rat
   \<Rightarrow> ('h, string) wact" where
  "run_to_end fuel tr cfg rid plan prod_hosts probe_fn should_cancel t0 =
     bnd (catch (bnd (run_pipeline fuel tr cfg rid plan prod_hosts probe_fn should_cancel) (\<lambda>(res, chk, lg). ret (result_text res, chk, lg)))
            (\<lambda>e. case e of
               RestoreCancelled _ \<Rightarrow> ret (''cancelled'', Note ''cancelled by operator'', None)
             | _ \<Rightarrow> bnd (error_log tr cfg plan (exn_text e)) (\<lambda>lg. ret (''error'', ErrorNote (exn_text e), Some lg)))) (\<lambda>(res, chk, lg).
     bnd (elapsed_since tr t0) (\<lambda>secs. finalize tr rid plan res chk secs lg))"

definition execute ::
  "nat \<Rightarrow> 'h world transport \<Rightarrow> server_config \<Rightarrow> int \<Rightarrow> run_plan \<Rightarrow> string list \<Rightarrow> 'h probe_fn \<Rightarrow> ('h, bool) wact
   \<Rightarrow> ('h, string) wact" where
  "execute fuel tr cfg rid plan prod_hosts probe_fn should_cancel = bnd (tr_now tr) (\<lambda>t0.
     thn (on_db (\<lambda>d. update_run rid (started_fields plan (clock d)) d))
         (run_to_end fuel tr cfg rid plan prod_hosts probe_fn should_cancel t0))"

text \<open>The defaults of the optional arguments.\<close>

definition cancel_of :: "int \<Rightarrow> ('h, bool) wact" where
  "cancel_of rid = from_db (cancel_requested rid)"

definition execute_run :: "nat \<Rightarrow> 'h world transport \<Rightarrow> server_config \<Rightarrow> int \<Rightarrow> run_plan \<Rightarrow> string list \<Rightarrow> ('h, string) wact" where
  "execute_run fuel tr cfg rid plan prod_hosts = execute fuel tr cfg rid plan prod_hosts (default_probe tr plan) (cancel_of rid)"

section \<open>Held environments\<close>

definition retest_held :: "nat \<Rightarrow> 'h world transport \<Rightarrow> int \<Rightarrow> run_plan \<Rightarrow> ('h, restore_result) wact" where
  "retest_held fuel tr rid plan =
     bnd (probe_loop fuel tr plan (default_probe tr plan) (Some rid) (ret False)) (\<lambda>(res, chk).
     thn (set_run rid [F_checks (Some chk)]) (ret res))"

definition promote_held :: "'h world transport \<Rightarrow> int \<Rightarrow> run_plan \<Rightarrow> int \<Rightarrow> ('h, unit) wact" where
  "promote_held tr rid plan secs = block
     [teardown tr plan,
      record_result rid plan ''passed'' secs ''promoted after manual fix + green re-test'' None None None,
      on_db (set_vm_next_run (pl_vm_id plan) None)]"

text \<open>A run that is gone: \<open>None.get\<close> raises, after the teardown.\<close>

definition reap_held :: "'h world transport \<Rightarrow> int \<Rightarrow> run_plan \<Rightarrow> ('h, unit) wact" where
  "reap_held tr rid plan = thn (teardown tr plan) (bnd (from_db (get_run rid)) (\<lambda>run. case run of
       None \<Rightarrow> raise attribute_error
     | Some r \<Rightarrow>
         let res = (if run_result r \<in> {Some ''failed'', Some ''error''} then opt_or (run_result r) [] else ''failed'')
         in block [record_result rid plan res (opt_or (duration_seconds r) 0) [] None None (Some res),
                   retry_later plan]))"

section \<open>Restarts\<close>

definition reconcile_on_startup :: "bool \<Rightarrow> db \<Rightarrow> db" where
  "reconcile_on_startup configured d =
     (if configured then d
      else fold (\<lambda>r. update_run (run_id r) [F_status ''error'', F_result (Some ''error''), F_finished_at (Some (clock d))])
             (list_runs 500 (Some ''running'') 0 None None None d) d)"

definition seconds_since :: "int option \<Rightarrow> int \<Rightarrow> int option" where
  "seconds_since started t = map_option (\<lambda>s. max 0 (py_trunc (fl64 (of_int (t - s) / 1000000)))) started"

text \<open>The tail of a resumed run: \<open>None\<close> where the config lock did not clear, so that the
  restore is still in progress.\<close>

definition resume_tail ::
  "nat \<Rightarrow> 'h world transport \<Rightarrow> server_config \<Rightarrow> int \<Rightarrow> run_plan \<Rightarrow> string option \<Rightarrow> 'h probe_fn \<Rightarrow> ('h, bool) wact
   \<Rightarrow> ('h, (restore_result \<times> run_checks) option) wact" where
  "resume_tail fuel tr cfg rid plan upid probe_fn should_cancel =
     thn (on_cond (truthy_str upid)
            (with_updater tr cfg rid (pl_restore_vmid plan) (\<lambda>on_progress.
               poll_task fuel tr cfg (opt_or upid []) on_progress should_cancel)))
    (bnd (catch (bnd (wait_unlocked tr (pl_restore_vmid plan)) (\<lambda>_. ret True))
            (\<lambda>e. case e of RestoreCancelled _ \<Rightarrow> raise e | _ \<Rightarrow> ret False)) (\<lambda>clear.
     if \<not> clear then ret None
     else bnd (is_running tr (pl_restore_vmid plan) False) (\<lambda>running.
          bnd (exists_guest tr (pl_helper_vmid plan) True) (\<lambda>helper.
          thn (on_cond (\<not> helper) (provision_for fuel tr cfg plan))
         (thn (on_cond (\<not> running) (block
            [in_phase rid ''network'',
             rewrite_nics tr cfg (pl_restore_vmid plan) (pl_vlan_tag plan) (pl_guest_vlan plan) (pl_label plan),
             in_phase rid ''booting'',
             quiet (start tr (pl_restore_vmid plan))]))
         (thn (in_phase rid ''probing'')
         (bnd (probe_loop fuel tr plan probe_fn (Some rid) should_cancel) (\<lambda>r. ret (Some r)))))))))"

definition still_locked :: "'h world transport \<Rightarrow> run_plan \<Rightarrow> ('h, bool) wact" where
  "still_locked tr plan = catch
     (bnd (exists_guest tr (pl_restore_vmid plan) False) (\<lambda>b.
        if b then vm_locked tr (pl_restore_vmid plan) False else ret False)) (\<lambda>_. ret False)"

definition resume_run ::
  "nat \<Rightarrow> 'h world transport \<Rightarrow> server_config \<Rightarrow> int \<Rightarrow> run_plan \<Rightarrow> string option \<Rightarrow> 'h probe_fn \<Rightarrow> ('h, bool) wact
   \<Rightarrow> ('h, string) wact" where
  "resume_run fuel tr cfg rid plan upid0 probe_fn should_cancel = bnd (tr_now tr) (\<lambda>t0.
     thn (quiet (ensure_sandbox_bridge tr cfg))
    (bnd (if truthy_str upid0 then ret upid0
          else catch (find_running_restore_upid tr (pl_restore_vmid plan)) (\<lambda>_. ret upid0)) (\<lambda>upid.
     bnd (catch
            (bnd (resume_tail fuel tr cfg rid plan upid probe_fn should_cancel) (\<lambda>r. ret (map_option (\<lambda>(res, chk). (result_text res, chk)) r)))
            (\<lambda>e. case e of
               RestoreCancelled _ \<Rightarrow> ret (Some (''cancelled'', Note ''cancelled by operator''))
             | _ \<Rightarrow> bnd (still_locked tr plan) (\<lambda>b. ret (if b then None else Some (''error'', ErrorNote (exn_text e)))))) (\<lambda>r.
     case r of
       None \<Rightarrow> ret ''running''
     | Some (res, chk) \<Rightarrow>
         bnd (from_db (\<lambda>d. seconds_since (Option.bind (get_run rid d) started_at) (clock d))) (\<lambda>since.
         bnd (case since of Some s \<Rightarrow> ret s | None \<Rightarrow> elapsed_since tr t0) (\<lambda>secs.
         finalize tr rid plan res chk secs None))))))"

end
