(* ===== verification/TransportLaws.thy ===== *)
theory TransportLaws imports RestoreHelper begin

text \<open>
  What a client of the restore host may rely on. \<open>transport_keeps P tr deletable\<close> says that no
  call of the transport breaks \<open>P\<close>, where DELETE is only promised for the paths that are
  \<open>deletable\<close>; the locale proves once that every operation of the client then keeps \<open>P\<close>.
  \<open>via\<close> runs a transport on a part of a larger state, \<open>recorded\<close> logs its DELETE calls.
\<close>

section \<open>Rules for the statement forms\<close>

named_theorems keeps_intro "rules for what every step of an action keeps"

lemma keeps_case_option: "keeps P a \<Longrightarrow> (\<And>x. keeps P (b x)) \<Longrightarrow> keeps P (case_option a b z)"
  by (cases z) auto

lemma keeps_case_sum: "(\<And>x. keeps P (a x)) \<Longrightarrow> (\<And>x. keeps P (b x)) \<Longrightarrow> keeps P (case_sum a b z)"
  by (cases z) auto

lemma keeps_case_prod: "(\<And>x y. keeps P (a x y)) \<Longrightarrow> keeps P (case_prod a z)"
  by (cases z) auto

lemma keeps_case_prod_app: "(\<And>x y. keeps P (a x y b)) \<Longrightarrow> keeps P (case_prod a z b)"
  by (cases z) auto

lemma keeps_case_list: "keeps P a \<Longrightarrow> (\<And>x xs. keeps P (b x xs)) \<Longrightarrow> keeps P (case_list a b z)"
  by (cases z) auto

lemma keeps_case_json:
  "keeps P a \<Longrightarrow> (\<And>x. keeps P (b x)) \<Longrightarrow> (\<And>x. keeps P (c x)) \<Longrightarrow> (\<And>x. keeps P (d x)) \<Longrightarrow> (\<And>x. keeps P (e x))
   \<Longrightarrow> (\<And>x. keeps P (f x)) \<Longrightarrow> (\<And>x. keeps P (g x)) \<Longrightarrow> keeps P (case_json a b c d e f g z)"
  by (cases z) auto

lemma keeps_case_exn:
  "(\<And>x. keeps P (a x)) \<Longrightarrow> (\<And>x. keeps P (b x)) \<Longrightarrow> (\<And>x. keeps P (c x)) \<Longrightarrow> (\<And>x. keeps P (d x)) \<Longrightarrow> (\<And>x. keeps P (e x))
   \<Longrightarrow> (\<And>x y. keeps P (f x y)) \<Longrightarrow> keeps P (case_exn a b c d e f z)"
  by (cases z) auto

lemma keeps_if: "(c \<Longrightarrow> keeps P a) \<Longrightarrow> (\<not> c \<Longrightarrow> keeps P b) \<Longrightarrow> keeps P (if c then a else b)"
  by simp

lemma keeps_blockI: "list_all (keeps P) ms \<Longrightarrow> keeps P (block ms)"
  by (simp add: list_all_iff keeps_block)

lemma list_all_consI: "Q x \<Longrightarrow> list_all Q xs \<Longrightarrow> list_all Q (x # xs)" "list_all Q []"
  by simp_all

lemma keeps_foreachI: "(\<And>x. x \<in> set xs \<Longrightarrow> keeps P (f x)) \<Longrightarrow> keeps P (foreach f xs)"
  by (rule keeps_foreach)

lemma keeps_foldactI: "(\<And>x a. x \<in> set xs \<Longrightarrow> keeps P (f x a)) \<Longrightarrow> keeps P (foldact f xs acc)"
  by (rule keeps_foldact)

lemma keeps_on_condI: "(b \<Longrightarrow> keeps P m) \<Longrightarrow> keeps P (on_cond b m)"
  by (rule keeps_on_cond)

lemmas keeps_structure [keeps_intro] =
  keeps_ret keeps_raise keeps_gets keeps_get_state keeps_no_fuel keeps_bnd keeps_thn keeps_catch keeps_quiet
  keeps_on_condI keeps_blockI keeps_foreachI keeps_foldactI list_all_consI keeps_case_option keeps_case_sum
  keeps_case_prod keeps_case_prod_app keeps_case_list keeps_case_json keeps_case_exn keeps_if

section \<open>The contract\<close>

locale transport_keeps =
  fixes P :: "'w \<Rightarrow> bool" and tr :: "'w transport" and deletable :: "string \<Rightarrow> bool"
  assumes get_keeps [keeps_intro]: "keeps P (tr_get tr p)"
    and get_quick_keeps [keeps_intro]: "keeps P (tr_get_quick tr p)"
    and post_keeps [keeps_intro]: "keeps P (tr_post tr p body)"
    and root_post_keeps [keeps_intro]: "keeps P (tr_root_post tr p body)"
    and delete_keeps: "deletable p \<Longrightarrow> keeps P (tr_delete tr p)"
    and upload_keeps [keeps_intro]: "keeps P (tr_upload tr n st fl dt)"
    and ssh_keeps [keeps_intro]: "keeps P (tr_ssh tr cmd)"
    and agent_post_keeps [keeps_intro]: "keeps P (tr_agent_post tr ip p b tmo)"
    and agent_healthy_keeps [keeps_intro]: "keeps P (tr_agent_healthy tr ip)"
    and now_keeps [keeps_intro]: "keeps P (tr_now tr)"
    and sleep_keeps [keeps_intro]: "keeps P (tr_sleep tr x)"
    and set_node_keeps: "P w \<Longrightarrow> P (tr_set_node tr n w)"
    and set_io_keeps: "P w \<Longrightarrow> P (tr_set_io tr n smp w)"
begin

lemma lift_r_keeps [keeps_intro]: "keeps P (lift_r r)"
  unfolding lift_r_def by (intro keeps_intro)

lemma listed_keeps [keeps_intro]: "keeps P m \<Longrightarrow> keeps P (listed m)"
  unfolding listed_def by (intro keeps_intro)

lemma as_dict_keeps [keeps_intro]: "keeps P m \<Longrightarrow> keeps P (as_dict m)"
  unfolding as_dict_def by (intro keeps_intro)

lemma node_keeps [keeps_intro]: "keeps P (node tr)"
  unfolding node_def by (intro keeps_intro keeps_modify set_node_keeps)

lemma verify_keeps [keeps_intro]: "keeps P (verify_host_identity cfg hs)"
  unfolding verify_host_identity_def Let_def by (intro keeps_intro)

lemma exists_keeps [keeps_intro]: "keeps P (exists_guest tr vid is_lxc)"
  unfolding exists_guest_def by (intro keeps_intro)

lemma present_keeps [keeps_intro]: "keeps P (present_vmids tr)"
  unfolding present_vmids_def by (intro keeps_intro)

lemma task_running_keeps [keeps_intro]: "keeps P (task_running tr upid)"
  unfolding task_running_def by (intro keeps_intro)

lemma find_upid_keeps [keeps_intro]: "keeps P (find_running_restore_upid tr vid)"
  unfolding find_running_restore_upid_def by (intro keeps_intro)

lemma is_running_keeps [keeps_intro]: "keeps P (is_running tr vid is_lxc)"
  unfolding is_running_def by (intro keeps_intro)

lemma vm_locked_keeps [keeps_intro]: "keeps P (vm_locked tr vid is_lxc)"
  unfolding vm_locked_def by (intro keeps_intro)

lemma wait_down_keeps [keeps_intro]: "keeps P (wait_down n tr vid is_lxc)"
proof (induction n)
  case (Suc n)
  show ?case unfolding wait_down.simps by (intro keeps_intro Suc)
qed (simp add: keeps_ret)

lemma destroy_keeps:
  assumes "\<And>n. deletable (destroy_path n vid is_lxc)"
  shows "keeps P (destroy tr vid is_lxc)"
  unfolding destroy_def unlock_def by (intro keeps_intro delete_keeps assms)

lemma reap_kind_keeps:
  assumes "\<And>n v. v \<notin> set owned \<Longrightarrow> deletable (destroy_path n v is_lxc)"
  shows "keeps P (reap_kind tr nd owned is_lxc)"
  unfolding reap_kind_def Let_def
  by (intro keeps_intro destroy_keeps assms) (auto simp: select_reaper_targets_def)

lemma reap_keeps:
  assumes "\<And>n v is_lxc. v \<notin> set owned \<Longrightarrow> deletable (destroy_path n v is_lxc)"
  shows "keeps P (reap tr owned)"
  unfolding reap_def by (intro keeps_intro reap_kind_keeps assms)

lemma start_keeps [keeps_intro]: "keeps P (start tr vid)"
  unfolding start_def by (intro keeps_intro)

lemma start_lxc_keeps [keeps_intro]: "keeps P (start_lxc tr vid)"
  unfolding start_lxc_def by (intro keeps_intro)

lemma rewrite_nics_keeps [keeps_intro]: "keeps P (rewrite_nics tr cfg vid tag gv name)"
  unfolding rewrite_nics_def Let_def by (intro keeps_intro)

lemma wait_unlocked_keeps [keeps_intro]: "keeps P (wait_unlocked tr vid)"
proof -
  have "keeps P (wait_unlocked_loop k tr n vid l)" for k n l
  proof (induction k arbitrary: l)
    case (Suc k)
    show ?case unfolding wait_unlocked_loop.simps by (intro keeps_intro Suc)
  qed (simp add: keeps_raise)
  then show ?thesis unfolding wait_unlocked_def by (intro keeps_intro)
qed

lemma free_resources_keeps [keeps_intro]: "keeps P (free_resources tr cfg perf)"
  unfolding free_resources_def host_sample_def io_rates_now_def Let_def
  by (intro keeps_intro keeps_modify set_io_keeps)

lemma list_pbs_keeps [keeps_intro]: "keeps P (list_pbs_storages tr)"
  unfolding list_pbs_storages_def by (intro keeps_intro)

lemma list_snapshots_keeps [keeps_intro]: "keeps P (list_snapshots tr storage vid)"
  unfolding list_snapshots_def by (intro keeps_intro)

lemma list_targets_keeps [keeps_intro]: "keeps P (list_target_storages tr)"
  unfolding list_target_storages_def scan_path_def Let_def by (intro keeps_intro)

lemma bridge_keeps [keeps_intro]: "keeps P (ensure_sandbox_bridge tr cfg)"
  unfolding ensure_sandbox_bridge_def Let_def by (intro keeps_intro)

lemma preflight_keeps [keeps_intro]: "keeps P (preflight_check tr src snap)"
  unfolding preflight_check_def Let_def by (intro keeps_intro)

lemma await_task_keeps [keeps_intro]: "keeps P (await_task k tr n vid deadline)"
proof (induction k)
  case (Suc k)
  show ?case unfolding await_task.simps by (intro keeps_intro Suc)
qed (simp add: keeps_no_fuel)

lemma start_restore_task_keeps [keeps_intro]: "keeps P (start_restore_task fuel tr vid arch st n)"
  unfolding start_restore_task_def Let_def by (intro keeps_intro)

lemma stop_wait_keeps [keeps_intro]: "keeps P (stop_wait k tr n upid)"
proof (induction k)
  case (Suc k)
  show ?case unfolding stop_wait.simps by (intro keeps_intro Suc)
qed (simp add: keeps_ret)

lemma pbs_creds_keeps [keeps_intro]: "keeps P (pbs_source_creds tr st ns)"
  unfolding pbs_source_creds_def Let_def by (intro keeps_intro)

lemma write_config_keeps [keeps_intro]: "keeps P (write_distributed_config tr vid c al dl)"
  unfolding write_distributed_config_def by (intro keeps_intro)

lemma pbs_disk_keeps [keeps_intro]:
  assumes "\<And>p. keeps P (on_progress p)" and "keeps P should_cancel"
  shows "keeps P (pbs_restore_disk fuel tr creds sp dev path vid b d t on_progress should_cancel)"
proof -
  have "keeps P (pbs_disk_loop k tr dev rc lg fidx envf prog on_progress should_cancel)" for k rc lg fidx envf prog
  proof (induction k)
    case (Suc k)
    show ?case unfolding pbs_disk_loop.simps Let_def by (intro keeps_intro Suc assms)
  qed (simp add: keeps_no_fuel)
  then show ?thesis unfolding pbs_restore_disk_def Let_def by (intro keeps_intro)
qed

lemma restore_disks_keeps [keeps_intro]:
  assumes "\<And>p. keeps P (on_progress p)" and "keeps P should_cancel"
  shows "keeps P (restore_disks fuel tr vid creds sp ct dl sz tb on_progress should_cancel ts al db)"
proof (induction ts arbitrary: al db)
  case Nil
  show ?case unfolding restore_disks.simps rollback_def by (intro keeps_intro)
next
  case (Cons t ts)
  show ?case unfolding restore_disks.simps rollback_def alloc_disk_def Let_def
    by (intro keeps_intro Cons assms)
qed

lemma guest_agent_nics_keeps [keeps_intro]: "keeps P (guest_agent_nics tr vid)"
  unfolding guest_agent_nics_def by (intro keeps_intro)

lemma total_bytes_keeps [keeps_intro]: "keeps P (restore_total_bytes tr cfg vid)"
  unfolding restore_total_bytes_def by (intro keeps_intro)

lemma lxc_storage_keeps [keeps_intro]: "keeps P (lxc_storage tr cfg)"
  unfolding lxc_storage_def by (intro keeps_intro)

lemma wait_task_keeps [keeps_intro]: "keeps P (wait_task k tr n upid)"
proof (induction k)
  case (Suc k)
  show ?case unfolding wait_task.simps by (intro keeps_intro Suc)
qed (simp add: keeps_ret)

lemma agent_wait_keeps [keeps_intro]: "keeps P (agent_wait_healthy fuel tr ip)"
proof -
  have "keeps P (agent_wait_loop k tr ip d)" for k d
  proof (induction k)
    case (Suc k)
    show ?case unfolding agent_wait_loop.simps by (intro keeps_intro Suc)
  qed (simp add: keeps_no_fuel)
  then show ?thesis unfolding agent_wait_healthy_def by (intro keeps_intro)
qed

lemma diag_parts_keeps [keeps_intro]: "keeps P (diag_parts tr dflt cmds)"
  unfolding diag_parts_def by (intro keeps_intro)

lemma helper_netdiag_keeps [keeps_intro]: "keeps P (helper_netdiag tr vid gw)"
  unfolding helper_netdiag_def Let_def by (intro keeps_intro)

lemma probe_netdiag_keeps [keeps_intro]: "keeps P (probe_netdiag tr cfg h ips v ps)"
  unfolding probe_netdiag_def by (intro keeps_intro)

lemma mgmt_netdiag_keeps [keeps_intro]: "keeps P (mgmt_netdiag tr h ip)"
  unfolding mgmt_netdiag_def by (intro keeps_intro)

lemma probe_keeps [keeps_intro]: "keeps P (probe tr ip ts b)"
  unfolding probe_def by (intro keeps_intro)

end

text \<open>The operations that DELETE a task or a template, too.\<close>

locale transport_keeps_all = transport_keeps +
  assumes tasks_deletable: "deletable (at_node n (''tasks/'' @ upid))"
    and templates_deletable: "deletable (at_node n (''storage/'' @ st @ ''/content/'' @ vol))"
begin

lemma stop_task_keeps [keeps_intro]: "keeps P (stop_task tr n upid)"
  unfolding stop_task_def by (intro keeps_intro delete_keeps tasks_deletable)

lemma poll_on_keeps [keeps_intro]:
  assumes "\<And>p. keeps P (on_progress p)" and "keeps P should_cancel"
  shows "keeps P (poll_task_on fuel tr cfg n upid on_progress interval should_cancel)"
proof -
  have "keeps P (poll_loop k tr factor n upid on_progress interval should_cancel started ps)" for k factor started ps
  proof (induction k arbitrary: ps)
    case (Suc k)
    show ?case unfolding poll_loop.simps stalled_now_def log_entry_def Let_def by (intro keeps_intro Suc assms)
  qed (simp add: keeps_no_fuel)
  then show ?thesis unfolding poll_task_on_def by (intro keeps_intro)
qed

lemma poll_keeps [keeps_intro]:
  assumes "\<And>p. keeps P (on_progress p)" and "keeps P should_cancel"
  shows "keeps P (poll_task fuel tr cfg upid on_progress should_cancel)"
  unfolding poll_task_def by (intro keeps_intro assms)

lemma restore_keeps [keeps_intro]:
  assumes "\<And>p. keeps P (on_progress p)" and "\<And>u. keeps P (on_task u)" and "keeps P should_cancel"
  shows "keeps P (restore fuel tr cfg vid src snap target on_progress on_task should_cancel dts)"
  unfolding restore_def restore_distributed_def Let_def by (intro keeps_intro assms)

lemma template_keeps [keeps_intro]: "keeps P (ensure_helper_template tr cfg)"
  unfolding ensure_helper_template_def prune_helper_templates_def Let_def
  by (intro keeps_intro delete_keeps templates_deletable)

lemma provision_keeps [keeps_intro]: "keeps P (provision_helper fuel tr cfg h tag ip sip gip pfx gv label)"
  unfolding provision_helper_def Let_def by (intro keeps_intro)

end

section \<open>A transport on a part of the state\<close>

definition via :: "('s \<Rightarrow> 't) \<Rightarrow> ('t \<Rightarrow> 's \<Rightarrow> 's) \<Rightarrow> 't transport \<Rightarrow> 's transport" where
  "via getp putp t =
     \<lparr>tr_get = \<lambda>p. on_part getp putp (tr_get t p), tr_get_quick = \<lambda>p. on_part getp putp (tr_get_quick t p),
      tr_post = \<lambda>p b. on_part getp putp (tr_post t p b), tr_root_post = \<lambda>p b. on_part getp putp (tr_root_post t p b),
      tr_delete = \<lambda>p. on_part getp putp (tr_delete t p),
      tr_upload = \<lambda>n st fl dt. on_part getp putp (tr_upload t n st fl dt),
      tr_ssh = \<lambda>cmd. on_part getp putp (tr_ssh t cmd),
      tr_agent_post = \<lambda>ip p b tmo. on_part getp putp (tr_agent_post t ip p b tmo),
      tr_agent_healthy = \<lambda>ip. on_part getp putp (tr_agent_healthy t ip),
      tr_now = on_part getp putp (tr_now t), tr_sleep = \<lambda>x. on_part getp putp (tr_sleep t x),
      tr_node_cache = \<lambda>s. tr_node_cache t (getp s), tr_set_node = \<lambda>n s. putp (tr_set_node t n (getp s)) s,
      tr_io_cache = \<lambda>s. tr_io_cache t (getp s), tr_set_io = \<lambda>n x s. putp (tr_set_io t n x (getp s)) s,
      tr_sha8 = tr_sha8 t\<rparr>"

lemma keeps_on_part_via:
  assumes "\<And>s. R s \<Longrightarrow> Q (getp s)" and "\<And>s t. R s \<Longrightarrow> Q t \<Longrightarrow> R (putp t s)" and "keeps Q m"
  shows "keeps R (on_part getp putp m)"
proof (rule keepsI)
  fix s r u
  assume "R s" and eq: "on_part getp putp m s = (r, u)"
  then obtain t where "m (getp s) = (r, t)" "u = putp t s"
    by (auto simp: on_part_def split: prod.splits)
  then show "R u" using assms \<open>R s\<close> by (meson keepsD)
qed

lemma via_keeps:
  assumes "transport_keeps Q t D" and "\<And>s. R s \<Longrightarrow> Q (getp s)" and "\<And>s u. R s \<Longrightarrow> Q u \<Longrightarrow> R (putp u s)"
  shows "transport_keeps R (via getp putp t) D"
  using assms(1) unfolding transport_keeps_def
  by (simp add: via_def assms(2,3) keeps_on_part_via [where Q = Q and R = R, OF assms(2,3)])

text \<open>Nothing is asked of a state on which every predicate is true.\<close>

lemma keeps_True: "keeps (\<lambda>_. True) m"
  by (simp add: keeps_def)

lemma transport_keeps_True: "transport_keeps (\<lambda>_. True) t D"
  by unfold_locales (simp_all add: keeps_True)

section \<open>Logging what is deleted\<close>

definition recorded :: "'h transport \<Rightarrow> ('h \<times> string list) transport" where
  "recorded t = (via fst (\<lambda>h s. (h, snd s)) t)\<lparr>tr_delete := \<lambda>p s. case tr_delete t p (fst s) of (r, h) \<Rightarrow> (r, (h, snd s @ [p]))\<rparr>"

lemma recorded_keeps: "transport_keeps (\<lambda>s. list_all D (snd s)) (recorded t) D"
proof -
  have "transport_keeps (\<lambda>s. list_all D (snd s)) (via fst (\<lambda>h s. (h, snd s)) t) D"
    by (rule via_keeps [OF transport_keeps_True]) simp_all
  then show ?thesis
    unfolding transport_keeps_def by (simp add: recorded_def keeps_def split: prod.splits)
qed

end
