(* ===== verification/WorkerLaws.thy ===== *)
theory WorkerLaws imports RestoreWorker TransportLaws RestoreAlloc begin

text \<open>
  What the worker keeps. \<open>running_keeps\<close> extends the transport's contract by the database
  updates of a run in progress and by which guests may be destroyed, \<open>worker_keeps\<close> by what the
  end of a run writes, \<open>run_keeps\<close> by what its start writes; the locales prove that every
  operation of the worker then keeps the predicate. They are interpreted here twice: the row of
  the run stays in the table, and the guests of another live run are never deleted.
\<close>

section \<open>The host behind the transports\<close>

text \<open>The world's transport: the host's own, and the database clock follows the host's wall
  clock.\<close>

definition lifted :: "('h \<Rightarrow> int) \<Rightarrow> 'h transport \<Rightarrow> 'h world transport" where
  "lifted wall t = via whost (\<lambda>h w. w\<lparr>whost := h, wdb := (wdb w)\<lparr>clock := wall h\<rparr>\<rparr>) t"

lemma keeps_on_db [keeps_intro]: "(\<And>w. P w \<Longrightarrow> P (w\<lparr>wdb := f (wdb w)\<rparr>)) \<Longrightarrow> keeps P (on_db f)"
  unfolding on_db_def by (rule keeps_modify)

lemma keeps_from_db [keeps_intro]: "keeps P (from_db f)"
  unfolding from_db_def by (rule keeps_gets)

text \<open>A step that uses what it read from the database.\<close>

lemma keeps_from_db_bnd:
  assumes "\<And>w. P w \<Longrightarrow> keeps P (k (f (wdb w)))"
  shows "keeps P (bnd (from_db f) k)"
  using assms by (auto simp: keeps_def from_db_def gets_def bnd_def)

section \<open>The contract of one run\<close>

locale running_keeps = transport_keeps_all P tr deletable
  for P :: "'h world \<Rightarrow> bool" and tr :: "'h world transport" and deletable :: "string \<Rightarrow> bool" +
  fixes rid :: int and plan :: run_plan and ok :: "run_field \<Rightarrow> bool"
  assumes update_run_keeps: "list_all ok fs \<Longrightarrow> P w \<Longrightarrow> P (w\<lparr>wdb := update_run rid fs (wdb w)\<rparr>)"
    and progress_ok [keeps_intro]: "ok (F_phase ph)" "ok (F_percent pc)" "ok (F_bytes_done b)" "ok (F_bytes_total b)"
    and probe_ok [keeps_intro]: "ok (F_detected_ip ip)" "ok (F_checks chk)" "ok (F_task_upid u)"
    and next_run_keeps: "P w \<Longrightarrow> P (w\<lparr>wdb := set_vm_next_run vm a (wdb w)\<rparr>)"
    and progress_keeps: "P w \<Longrightarrow> P (w\<lparr>wprog := x\<rparr>)"
    and unowned_deletable: "P w \<Longrightarrow> v \<notin> set (owned_vmids (wdb w)) \<Longrightarrow> deletable (destroy_path n v is_lxc)"
    and own_deletable: "v \<in> {pl_restore_vmid plan, pl_helper_vmid plan} \<Longrightarrow> deletable (destroy_path n v is_lxc)"
begin

lemma set_run_keeps [keeps_intro]: "list_all ok fs \<Longrightarrow> keeps P (set_run rid fs)"
  unfolding set_run_def by (intro keeps_intro update_run_keeps)

lemma set_run_opt_keeps [keeps_intro]: "list_all ok fs \<Longrightarrow> keeps P (set_run_opt (Some rid) fs)"
  unfolding set_run_opt_def by (simp add: set_run_keeps)

lemma progress_fields_ok [keeps_intro]:
  "list_all ok (case (if c then overall_restore_fields got tot else None) of Some fs \<Rightarrow> fs | None \<Rightarrow> progress_fields p)"
  using progress_ok
  by (auto simp: progress_fields_def overall_restore_fields_def Let_def split: option.splits if_splits)

lemma in_phase_keeps [keeps_intro]: "keeps P (in_phase rid ph)"
  unfolding in_phase_def by (intro keeps_intro)

lemma set_next_run_keeps [keeps_intro]: "keeps P (on_db (set_vm_next_run vm a))"
  by (intro keeps_intro next_run_keeps)

lemma schedule_retry_keeps [keeps_intro]: "keeps P (on_db (schedule_retry vm days))"
  unfolding schedule_retry_def by (intro keeps_intro next_run_keeps)

lemma retry_later_keeps [keeps_intro]: "keeps P (retry_later pl)"
  unfolding retry_later_def by (intro keeps_intro)

lemma progress_modify_keeps [keeps_intro]: "keeps P (modify (\<lambda>w. w\<lparr>wprog := f w\<rparr>))"
  by (intro keeps_modify progress_keeps)

lemma check_cancel_keeps [keeps_intro]: "keeps P sc \<Longrightarrow> keeps P (check_cancel sc)"
  unfolding check_cancel_def by (intro keeps_intro)

lemma updater_keeps [keeps_intro]: "keeps P (progress_updater tr cfg rid vid p)"
  unfolding progress_updater_def Let_def by (intro keeps_intro)

lemma with_updater_keeps [keeps_intro]:
  "(\<And>f. (\<And>p. keeps P (f p)) \<Longrightarrow> keeps P (m f)) \<Longrightarrow> keeps P (with_updater tr cfg rid vid m)"
  unfolding with_updater_def by (intro keeps_thn progress_modify_keeps) (simp add: updater_keeps)

lemma probe_loop_keeps [keeps_intro]:
  assumes "\<And>ts. keeps P (probe_fn ts)" and "keeps P sc"
  shows "keeps P (probe_loop fuel tr pl probe_fn (Some rid) sc)"
proof -
  have "keeps P (probe_rounds k tr pl probe_fn (Some rid) sc dl ds)" for k dl ds
  proof (induction k arbitrary: ds)
    case (Suc k)
    show ?case
      unfolding probe_rounds.simps probe_round_def discover_def probe_pass_def
      by (intro keeps_intro Suc assms)
  qed (simp add: keeps_no_fuel)
  then show ?thesis unfolding probe_loop_def by (intro keeps_intro)
qed

lemma default_probe_keeps [keeps_intro]: "keeps P (default_probe tr pl ts)"
  unfolding default_probe_def by (intro keeps_intro)

lemma some_text_keeps [keeps_intro]: "keeps P m \<Longrightarrow> keeps P (some_text m)"
  unfolding some_text_def by (intro keeps_intro)

lemma failure_diag_keeps [keeps_intro]: "keeps P (failure_diag tr cfg pl)"
  unfolding failure_diag_def Let_def by (intro keeps_intro)

lemma error_log_keeps [keeps_intro]: "keeps P (error_log tr cfg pl msg)"
  unfolding error_log_def Let_def by (intro keeps_intro)

lemma own_destroy_keeps: "v \<in> {pl_restore_vmid plan, pl_helper_vmid plan} \<Longrightarrow> keeps P (destroy tr v is_lxc)"
  by (intro destroy_keeps own_deletable)

lemma reap_unowned_keeps [keeps_intro]: "keeps P (reap_unowned tr)"
  unfolding reap_unowned_def by (intro keeps_from_db_bnd keeps_bnd keeps_ret reap_keeps unowned_deletable)

lemma teardown_steps_keeps:
  "fst ` set steps \<subseteq> {pl_restore_vmid plan, pl_helper_vmid plan} \<Longrightarrow> keeps P (teardown_steps tr steps)"
  unfolding teardown_steps_def by (intro keeps_foreachI keeps_quiet own_destroy_keeps) blast

lemma teardown_keeps [keeps_intro]: "keeps P (teardown tr plan)"
  unfolding teardown_def by (intro keeps_intro teardown_steps_keeps) auto

lemma provision_for_keeps [keeps_intro]: "keeps P (provision_for fuel tr cfg pl)"
  unfolding provision_for_def by (intro keeps_intro)

lemma elapsed_keeps [keeps_intro]: "keeps P (elapsed_since tr t0)"
  unfolding elapsed_since_def by (intro keeps_intro)

lemma pipeline_keeps:
  assumes "\<And>ts. keeps P (probe_fn ts)" and "keeps P sc"
  shows "keeps P (run_pipeline fuel tr cfg rid plan ph probe_fn sc)"
  unfolding run_pipeline_def by (intro keeps_intro assms)

lemma retest_keeps: "keeps P (retest_held fuel tr rid plan)"
  unfolding retest_held_def by (intro keeps_intro)

lemma resume_tail_keeps [keeps_intro]:
  assumes "\<And>ts. keeps P (probe_fn ts)" and "keeps P sc"
  shows "keeps P (resume_tail fuel tr cfg rid plan upid probe_fn sc)"
  unfolding resume_tail_def by (intro keeps_intro assms)

lemma still_locked_keeps [keeps_intro]: "keeps P (still_locked tr plan)"
  unfolding still_locked_def by (intro keeps_intro)

end

text \<open>With what the end of a run writes.\<close>

locale worker_keeps = running_keeps +
  assumes cleared_ok [keeps_intro]: "ok (F_helper_vmid None)" "ok (F_mgmt_ip None)"
    and record_keeps: "P w \<Longrightarrow> P (w\<lparr>wdb := snd (record_run_result rid vm res secs note chk lg st (wdb w))\<rparr>)"
begin

lemma record_result_keeps [keeps_intro]: "keeps P (record_result rid plan res secs note chk lg st)"
  unfolding record_result_def by (intro keeps_intro record_keeps)

lemma finalize_keeps [keeps_intro]: "keeps P (finalize tr rid plan res chk secs lg)"
  unfolding finalize_def
  by (intro keeps_if keeps_thn keeps_on_condI keeps_quiet keeps_bnd exists_keeps teardown_keeps record_result_keeps
      set_run_keeps keeps_ret own_destroy_keeps retry_later_keeps set_next_run_keeps) (simp_all add: cleared_ok)

lemma run_to_end_keeps:
  assumes "\<And>ts. keeps P (probe_fn ts)" and "keeps P sc"
  shows "keeps P (run_to_end fuel tr cfg rid plan ph probe_fn sc t0)"
  unfolding run_to_end_def by (intro keeps_intro pipeline_keeps assms)

lemma resume_keeps:
  assumes "\<And>ts. keeps P (probe_fn ts)" and "keeps P sc"
  shows "keeps P (resume_run fuel tr cfg rid plan upid probe_fn sc)"
  unfolding resume_run_def by (intro keeps_intro assms)

lemma promote_keeps: "keeps P (promote_held tr rid plan secs)"
  unfolding promote_held_def by (intro keeps_intro)

lemma reap_held_keeps: "keeps P (reap_held tr rid plan)"
  unfolding reap_held_def Let_def by (intro keeps_intro)

end

text \<open>With the fields that a run starts with.\<close>

locale run_keeps = worker_keeps +
  assumes started_ok: "list_all ok (started_fields plan t)"
begin

lemma execute_keeps:
  assumes "\<And>ts. keeps P (probe_fn ts)" and "keeps P sc"
  shows "keeps P (execute fuel tr cfg rid plan ph probe_fn sc)"
  unfolding execute_def by (intro keeps_intro run_to_end_keeps assms update_run_keeps started_ok)

lemma execute_run_keeps: "keeps P (execute_run fuel tr cfg rid plan ph)"
  unfolding execute_run_def cancel_of_def by (intro execute_keeps keeps_intro)

end

section \<open>The run's row stays\<close>

lemma get_run_None_iff: "get_run i d = None \<longleftrightarrow> i \<notin> run_id ` set (runs d)"
  unfolding get_run_def by (auto simp: find_None_iff)

lemma map_run_ids_update_run: "map run_id (runs (update_run i fs d)) = map run_id (runs d)"
  by (simp add: runs_update_run comp_def map_id_if)

lemma run_ids_update_run [simp]: "run_id ` set (runs (update_run i fs d)) = run_id ` set (runs d)"
  using map_run_ids_update_run by (metis set_map)

lemma run_ids_record [simp]:
  "run_id ` set (runs (snd (record_run_result i vm res secs nt chk lg st d))) = run_id ` set (runs d)"
  using record_run_result_runs [of i vm res secs nt chk lg st d] by (metis prod.collapse set_map)

lemma runs_next_run [simp]: "runs (set_vm_next_run vm a d) = runs d"
  by (simp add: set_vm_next_run_def)

lemma lifted_keeps:
  assumes "\<And>w h. R w \<Longrightarrow> R (w\<lparr>whost := h, wdb := (wdb w)\<lparr>clock := wall h\<rparr>\<rparr>)"
  shows "transport_keeps_all R (lifted wall t) (\<lambda>_. True)"
  unfolding lifted_def transport_keeps_all_def transport_keeps_all_axioms_def
  by (intro conjI via_keeps [OF transport_keeps_True] assms allI TrueI)

interpretation run_row: run_keeps "\<lambda>w. rid \<in> run_id ` set (runs (wdb w))" "lifted wall t" "\<lambda>_. True" rid plan "\<lambda>_. True"
  for rid :: int and wall :: "'h \<Rightarrow> int" and t :: "'h transport" and plan :: run_plan
  by (intro run_keeps.intro run_keeps_axioms.intro worker_keeps.intro worker_keeps_axioms.intro running_keeps.intro running_keeps_axioms.intro lifted_keeps) (simp_all add: list_all_iff)

section \<open>The guests of another live run\<close>

text \<open>The path of a DELETE that destroys guest \<open>v\<close> on some node.\<close>

definition guest_path :: "int \<Rightarrow> string \<Rightarrow> bool" where
  "guest_path v p = (\<exists>n is_lxc. CHR ''/'' \<notin> set n \<and> p = destroy_path n v is_lxc)"

abbreviation slashes :: "string \<Rightarrow> nat" where
  "slashes s \<equiv> count_list s (CHR ''/'')"

lemma slashes_number [simp]: "slashes (string_of_nat n) = 0" "slashes (string_of_int i) = 0"
proof -
  show a: "slashes (string_of_nat n) = 0" for n
    using string_of_nat_digits [of n] by (auto simp: count_list_0_iff list_all_iff is_digit_def)
  show "slashes (string_of_int i) = 0" by (simp add: string_of_int_def a)
qed

lemma slashes_none [simp]: "slashes n = 0 \<longleftrightarrow> CHR ''/'' \<notin> set n"
  by (simp add: count_list_0_iff)

lemma slashes_destroy_path [simp]: "slashes (destroy_path n v is_lxc) = slashes n + 4"
  by (simp add: destroy_path_def at_node_def kind_of_def)

lemma string_of_int_inj: "string_of_int a = string_of_int b \<longleftrightarrow> a = b"
proof -
  have "CHR ''-'' \<notin> set (string_of_nat n)" for n
    using string_of_nat_digits [of n] by (auto simp: list_all_iff is_digit_def)
  then have "string_of_nat m \<noteq> CHR ''-'' # s" "CHR ''-'' # s \<noteq> string_of_nat m" for m s
    by (metis list.set_intros(1))+
  then show ?thesis by (auto simp: string_of_int_def)
qed

lemma slash_free_append:
  assumes "a @ CHR ''/'' # b = c @ CHR ''/'' # d" and "CHR ''/'' \<notin> set a" and "CHR ''/'' \<notin> set c"
  shows "a = c \<and> b = d"
proof -
  have "takeWhile ((\<noteq>) (CHR ''/'')) (x @ CHR ''/'' # y) = x" if "CHR ''/'' \<notin> set x" for x y
    using that by (induction x) auto
  then have "a = c" using assms by metis
  then show ?thesis using assms(1) by simp
qed

lemma destroy_path_vmid:
  assumes "CHR ''/'' \<notin> set n" and "destroy_path n v k = destroy_path m u l"
  shows "v = u"
proof -
  let ?query = "''?purge=1&destroy-unreferenced-disks=1''"
  have "slashes n + 4 = slashes m + 4"
    using assms(2) by (metis slashes_destroy_path)
  then have m: "CHR ''/'' \<notin> set m"
    using assms(1) by (simp add: count_list_0_iff [symmetric] del: slashes_none)
  have "n @ CHR ''/'' # kind_of k @ CHR ''/'' # string_of_int v @ ?query = m @ CHR ''/'' # kind_of l @ CHR ''/'' # string_of_int u @ ?query"
    using assms(2) by (simp add: destroy_path_def at_node_def)
  then have "kind_of k @ CHR ''/'' # string_of_int v @ ?query = kind_of l @ CHR ''/'' # string_of_int u @ ?query"
    using slash_free_append [OF _ assms(1) m] by blast
  moreover have "CHR ''/'' \<notin> set (kind_of b)" for b by (simp add: kind_of_def)
  ultimately have "string_of_int v @ ?query = string_of_int u @ ?query"
    using slash_free_append by blast
  then show ?thesis by (simp add: string_of_int_inj)
qed

lemma task_is_no_guest: "\<not> guest_path v (at_node n (''tasks/'' @ upid))"
proof
  assume "guest_path v (at_node n (''tasks/'' @ upid))"
  then obtain m k where m: "CHR ''/'' \<notin> set m" and eq: "at_node n (''tasks/'' @ upid) = destroy_path m v k"
    by (auto simp: guest_path_def)
  have "slashes n + slashes upid = 0"
    using m arg_cong [OF eq, of slashes] by (simp add: at_node_def flip: slashes_none)
  then have n: "CHR ''/'' \<notin> set n" by simp
  have "n @ CHR ''/'' # ''tasks'' @ CHR ''/'' # upid
      = m @ CHR ''/'' # kind_of k @ CHR ''/'' # string_of_int v @ ''?purge=1&destroy-unreferenced-disks=1''"
    using eq by (simp add: destroy_path_def at_node_def)
  then have "''tasks'' @ CHR ''/'' # upid
      = kind_of k @ CHR ''/'' # string_of_int v @ ''?purge=1&destroy-unreferenced-disks=1''"
    using slash_free_append [OF _ n m] by blast
  then show False by (cases k) (simp_all add: kind_of_def)
qed

lemma template_is_no_guest: "\<not> guest_path v (at_node n (''storage/'' @ st @ ''/content/'' @ vol))"
proof
  assume "guest_path v (at_node n (''storage/'' @ st @ ''/content/'' @ vol))"
  then obtain m k where "CHR ''/'' \<notin> set m" "at_node n (''storage/'' @ st @ ''/content/'' @ vol) = destroy_path m v k"
    by (auto simp: guest_path_def)
  then have "slashes (at_node n (''storage/'' @ st @ ''/content/'' @ vol)) = 4" by simp
  then show False by (simp add: at_node_def)
qed

lemma other_run_stays:
  assumes "r \<in> set (runs d)" and "run_id r \<noteq> i"
  shows "r \<in> set (runs (update_run i fs d))"
    and "r \<in> set (runs (snd (record_run_result i vm res secs nt chk lg st d)))"
proof -
  show "r \<in> set (runs (update_run i fs d))"
    using assms by (auto simp: runs_update_run)
  show "r \<in> set (runs (snd (record_run_result i vm res secs nt chk lg st d)))"
    using assms by (auto simp: record_run_result_def finished_row_def update_where_def Let_def)
qed

lemma owned_vmids_iff:
  "v \<in> set (owned_vmids d) \<longleftrightarrow>
     (\<exists>r\<in>set (runs d). status r \<in> {''running'', ''held''} \<and> v \<in> env_vmids r)"
  by (auto simp: owned_vmids_def active_and_held_runs_def some_list_def env_vmids_def split: option.splits)

text \<open>Guest \<open>v\<close> belongs to a live run other than \<open>rid\<close>, and no DELETE has hit it so far; a
  guest of the plan itself is not protected.\<close>

definition protected :: "int \<Rightarrow> run_plan \<Rightarrow> int \<Rightarrow> ('h \<times> string list) world \<Rightarrow> bool" where
  "protected rid plan v w =
     (v \<in> {pl_restore_vmid plan, pl_helper_vmid plan}
      \<or> (\<exists>r\<in>set (runs (wdb w)). run_id r \<noteq> rid \<and> status r \<in> {''running'', ''held''} \<and> v \<in> env_vmids r)
         \<and> list_all (\<lambda>p. \<not> guest_path v p) (snd (whost w)))"

definition may_delete :: "run_plan \<Rightarrow> int \<Rightarrow> string \<Rightarrow> bool" where
  "may_delete plan v p = (v \<in> {pl_restore_vmid plan, pl_helper_vmid plan} \<or> \<not> guest_path v p)"

lemma destroy_path_guest: "guest_path v (destroy_path n u k) \<Longrightarrow> u = v"
  unfolding guest_path_def using destroy_path_vmid by metis

lemma recorded_protected: "transport_keeps_all (protected rid plan v) (lifted wall (recorded t)) (may_delete plan v)"
  for t :: "'h transport"
proof -
  let ?own = "v \<in> {pl_restore_vmid plan, pl_helper_vmid plan}"
  have "transport_keeps (protected rid plan v) (lifted wall (recorded t)) (may_delete plan v)"
  proof (cases ?own)
    case True
    then have eq: "protected rid plan v = (\<lambda>_ :: ('h \<times> string list) world. True)" by (auto simp: protected_def)
    show ?thesis unfolding eq by (rule transport_keeps_True)
  next
    case False
    then have d: "may_delete plan v = (\<lambda>p. \<not> guest_path v p)" by (auto simp: may_delete_def)
    show ?thesis
      unfolding d lifted_def by (rule via_keeps [OF recorded_keeps]) (use False in \<open>simp_all add: protected_def\<close>)
  qed
  then show ?thesis
    unfolding transport_keeps_all_def transport_keeps_all_axioms_def may_delete_def
    using task_is_no_guest template_is_no_guest by blast
qed

interpretation neighbours: run_keeps "protected rid plan v" "lifted wall (recorded t)" "may_delete plan v" rid plan "\<lambda>_. True"
  for rid :: int and v :: int and wall :: "'h \<times> string list \<Rightarrow> int" and t :: "'h transport" and plan :: run_plan
proof (intro run_keeps.intro run_keeps_axioms.intro worker_keeps.intro worker_keeps_axioms.intro running_keeps.intro running_keeps_axioms.intro recorded_protected)
  fix w n u is_lxc
  assume "protected rid plan v (w :: ('h \<times> string list) world)" "u \<notin> set (owned_vmids (wdb w))"
  then have "v \<in> {pl_restore_vmid plan, pl_helper_vmid plan} \<or> u \<noteq> v"
    by (auto simp: protected_def owned_vmids_iff)
  then show "may_delete plan v (destroy_path n u is_lxc)"
    unfolding may_delete_def using destroy_path_guest by blast
next
  fix n u is_lxc
  assume "u \<in> {pl_restore_vmid plan, pl_helper_vmid plan}"
  then show "may_delete plan v (destroy_path n u is_lxc)"
    unfolding may_delete_def using destroy_path_guest by blast
qed (auto simp: protected_def list_all_iff intro: other_run_stays)

end
