(* ===== verification/DemoHost.thy ===== *)
theory DemoHost imports RestoreWorker begin

text \<open>
  A small restore host for the concrete instances: one node \<open>pve\<close> with a list of guests, a
  clock that every sleep moves, and no storage. It answers the listings, destroys what it is
  told to destroy and refuses everything else.
\<close>

record demo =
  d_guests :: "(int \<times> bool) list"
  d_time :: rat
  d_node :: "string option"

definition refuse :: "(demo, 'a) act" where
  "refuse = raise (PyError ''HTTPError'' ''404 not found'')"

definition guest_list :: "bool \<Rightarrow> demo \<Rightarrow> json" where
  "guest_list is_lxc h = JArr (map (\<lambda>g. JObj [(''vmid'', JInt (fst g))]) (filter (\<lambda>g. snd g = is_lxc) (d_guests h)))"

definition demo_get :: "string \<Rightarrow> (demo, json) act" where
  "demo_get p =
     (if p = ''/nodes'' then ret (JArr [JObj [(''node'', JStr ''pve''), (''status'', JStr ''online'')]])
      else if p = ''/nodes/pve/qemu'' then gets (guest_list False)
      else if p = ''/nodes/pve/lxc'' then gets (guest_list True)
      else refuse)"

definition demo_delete :: "string \<Rightarrow> (demo, json) act" where
  "demo_delete p = thn (modify (\<lambda>h. h\<lparr>d_guests := filter (\<lambda>g. p \<noteq> destroy_path ''pve'' (fst g) (snd g)) (d_guests h)\<rparr>)) (ret JNull)"

definition demo_host :: "demo transport" where
  "demo_host =
     \<lparr>tr_get = demo_get, tr_get_quick = (\<lambda>p. refuse), tr_post = (\<lambda>p b. refuse), tr_root_post = (\<lambda>p b. refuse),
      tr_delete = demo_delete, tr_upload = (\<lambda>n s f d. refuse), tr_ssh = (\<lambda>c. refuse),
      tr_agent_post = (\<lambda>ip p b x. refuse), tr_agent_healthy = (\<lambda>ip. refuse), tr_now = gets d_time,
      tr_sleep = (\<lambda>x. modify (\<lambda>h. h\<lparr>d_time := d_time h + max x (1 / 100)\<rparr>)), tr_node_cache = d_node,
      tr_set_node = (\<lambda>n h. h\<lparr>d_node := Some n\<rparr>), tr_io_cache = (\<lambda>h. []), tr_set_io = (\<lambda>n x h. h), tr_sha8 = take 8\<rparr>"

definition demo_config :: server_config where
  "demo_config = \<lparr>cfg_ssh_host = ''scratch'', cfg_api_url = ''https://scratch:8006'', cfg_sandbox_bridge = ''vmbr9'',
     cfg_mgmt_iface = ''vmbr0'', cfg_mgmt_netmask = ''255.255.255.0'', cfg_mgmt_vlan = None, cfg_mgmt_gateway = [],
     cfg_targets = [\<lparr>ts_storage = ''fast'', ts_disk_class = None, ts_use = True, ts_order = Some 1\<rparr>],
     cfg_stall_factor = None, cfg_helper_image = Inr ''image''\<rparr>"

definition demo_plan :: run_plan where
  "demo_plan = \<lparr>pl_vm_id = 7, pl_restore_vmid = 9000, pl_helper_vmid = 9001, pl_vlan_tag = 900, pl_mgmt_ip = ''10.0.0.5'',
     pl_source = \<lparr>src_storage = ''pbs'', src_vmid = Some 100, src_pbs = None, src_datastore = None, src_namespace = None\<rparr>,
     pl_snapshot_id = ''pbs:backup/vm/100/t'', pl_target_storage = ''fast'', pl_probe_targets = [], pl_primary_ip = Some ''100.64.0.200'',
     pl_sandbox_ip = Some ''100.64.0.254'', pl_sandbox_prefix = 24, pl_guest_vlan = None, pl_probe_override = None,
     pl_label = ''c-vm'', pl_require_icmp = True, pl_tcp_ports = [22], pl_hold_on_failure = False, pl_retry_days = Some 7,
     pl_first_delay = 10, pl_interval = 5, pl_window = 300, pl_needed_bytes = None, pl_needed_ram = None,
     pl_disk_targets = None\<rparr>"

text \<open>Run 1 is queued; run 2 holds the environment 9010/9011.\<close>

definition demo_held_run :: run_row where
  "demo_held_run = (fresh_run 2 8 ''manual'' 0)\<lparr>status := ''held'', restore_vmid := Some 9010, helper_vmid := Some 9011\<rparr>"

definition demo_held_plan :: run_plan where
  "demo_held_plan = demo_plan\<lparr>pl_vm_id := 8, pl_hold_on_failure := True, pl_restore_vmid := 9010, pl_helper_vmid := 9011\<rparr>"

definition demo_db :: db where
  "demo_db = \<lparr>runs = [fresh_run 1 7 ''manual'' 0, demo_held_run],
              next_run_id = 3, tests = [], next_test_id = 1, nics = [], vms = [], clock = 0,
              db_cluster_urls = [], db_pbs_conns = [], db_events = [], db_disks = [], db_settings = []\<rparr>"

definition demo_world :: "'h \<Rightarrow> 'h world" where
  "demo_world h = \<lparr>wdb = demo_db, wprog = new_progress, whost = h\<rparr>"

text \<open>The guests: a production VM that no run owns, and the held one.\<close>

definition demo_start :: demo where
  "demo_start = \<lparr>d_guests = [(100, False), (9010, False)], d_time = 0, d_node = None\<rparr>"

end
