(* ===== verification/Answers.thy ===== *)
theory Answers imports WorkerLaws begin

text \<open>
  When the transports come back with an answer or an exception, every operation without a
  loop of its own does too: the rules that show an action never runs out of fuel.
\<close>

named_theorems fueled_intro "rules for actions that do not run out of fuel"

lemma fueled_basic [fueled_intro]:
  "fueled (ret x)" "fueled (raise e)" "fueled (gets f)" "fueled (modify g)" "fueled get_state" "fueled (on_db h)" "fueled (from_db k)"
  by (simp_all add: fueled_def act_simps on_db_def from_db_def)

lemma fueled_bnd [fueled_intro]: "fueled m \<Longrightarrow> (\<And>a. fueled (f a)) \<Longrightarrow> fueled (bnd m f)"
  unfolding fueled_def bnd_def by (auto split: prod.splits outcome.splits) (metis fst_conv)+

lemma fueled_thn [fueled_intro]: "fueled m \<Longrightarrow> fueled k \<Longrightarrow> fueled (thn m k)"
  unfolding thn_def by (rule fueled_bnd)

lemma fueled_catch [fueled_intro]: "fueled m \<Longrightarrow> (\<And>e. fueled (h e)) \<Longrightarrow> fueled (catch m h)"
  unfolding fueled_def catch_def by (auto split: prod.splits outcome.splits) (metis fst_conv)+

lemma fueled_quiet [fueled_intro]: "fueled m \<Longrightarrow> fueled (quiet m)"
  unfolding quiet_def by (intro fueled_intro)

lemma fueled_if [fueled_intro]: "fueled a \<Longrightarrow> fueled b \<Longrightarrow> fueled (if c then a else b)"
  by simp

lemma fueled_on_cond [fueled_intro]: "fueled m \<Longrightarrow> fueled (on_cond b m)"
  unfolding on_cond_def by (intro fueled_intro)

lemma fueled_block [fueled_intro]: "list_all fueled ms \<Longrightarrow> fueled (block ms)"
  by (induction ms) (auto intro: fueled_intro)

lemma fueled_foreach [fueled_intro]: "(\<And>x. fueled (f x)) \<Longrightarrow> fueled (foreach f xs)"
  by (induction xs) (auto intro: fueled_intro)

lemma fueled_foldact [fueled_intro]: "(\<And>x a. fueled (f x a)) \<Longrightarrow> fueled (foldact f xs acc)"
  by (induction xs arbitrary: acc) (auto intro: fueled_intro)

lemma fueled_cases [fueled_intro]:
  "(\<And>x y. fueled (a x y)) \<Longrightarrow> fueled (case_prod a z)"
  "fueled b \<Longrightarrow> (\<And>x. fueled (c x)) \<Longrightarrow> fueled (case_option b c o')"
  "(\<And>x. fueled (d x)) \<Longrightarrow> (\<And>x. fueled (e x)) \<Longrightarrow> fueled (case_sum d e s)"
  "fueled b \<Longrightarrow> (\<And>x xs. fueled (l x xs)) \<Longrightarrow> fueled (case_list b l ys)"
     apply (cases z; simp)
    apply (cases o'; simp)
   apply (cases s; simp)
  apply (cases ys; simp)
  done

lemma fueled_case_exn [fueled_intro]:
  "(\<And>x. fueled (a x)) \<Longrightarrow> (\<And>x. fueled (b x)) \<Longrightarrow> (\<And>x. fueled (c x)) \<Longrightarrow> (\<And>x. fueled (d x)) \<Longrightarrow> (\<And>x. fueled (e x))
   \<Longrightarrow> (\<And>x y. fueled (f x y)) \<Longrightarrow> fueled (case_exn a b c d e f z)"
  by (cases z) auto

lemma fueled_lift_r [fueled_intro]: "fueled (lift_r r)"
  unfolding lift_r_def by (intro fueled_intro)

lemma fueled_listed [fueled_intro]: "fueled m \<Longrightarrow> fueled (listed m)"
  unfolding listed_def by (intro fueled_intro)

lemma fueled_as_dict [fueled_intro]: "fueled m \<Longrightarrow> fueled (as_dict m)"
  unfolding as_dict_def by (intro fueled_intro)

lemma fueledD: "fueled m \<Longrightarrow> m s \<noteq> (NoFuel, s')"
  by (metis fst_conv fueled_def)

lemma list_all_fueledI [fueled_intro]: "fueled x \<Longrightarrow> list_all fueled xs \<Longrightarrow> list_all fueled (x # xs)" "list_all fueled []"
  by simp_all

section \<open>Transports that come back\<close>

definition answers :: "'w transport \<Rightarrow> bool" where
  "answers tr =
     ((\<forall>p. fueled (tr_get tr p)) \<and> (\<forall>p. fueled (tr_get_quick tr p)) \<and> (\<forall>p b. fueled (tr_post tr p b))
      \<and> (\<forall>p b. fueled (tr_root_post tr p b)) \<and> (\<forall>p. fueled (tr_delete tr p)) \<and> (\<forall>n s f d. fueled (tr_upload tr n s f d))
      \<and> (\<forall>c. fueled (tr_ssh tr c)) \<and> (\<forall>ip p b x. fueled (tr_agent_post tr ip p b x)) \<and> (\<forall>ip. fueled (tr_agent_healthy tr ip))
      \<and> fueled (tr_now tr) \<and> (\<forall>x. fueled (tr_sleep tr x)))"

lemma answersD:
  assumes "answers tr"
  shows "fueled (tr_get tr p)" "fueled (tr_get_quick tr p)" "fueled (tr_post tr p b)" "fueled (tr_root_post tr p b)"
    "fueled (tr_delete tr p)" "fueled (tr_upload tr n s f d)" "fueled (tr_ssh tr c)" "fueled (tr_agent_post tr ip p j x)"
    "fueled (tr_agent_healthy tr ip)" "fueled (tr_now tr)" "fueled (tr_sleep tr y)"
  using assms by (simp_all add: answers_def)

lemma fueled_on_part: "fueled m \<Longrightarrow> fueled (on_part getp putp m)"
  by (auto simp: fueled_def on_part_def split: prod.splits) (metis fst_conv)

lemma answers_via: "answers t \<Longrightarrow> answers (via getp putp t)"
  by (simp add: answers_def via_def fueled_on_part)

lemma answers_lifted: "answers t \<Longrightarrow> answers (lifted wall t)"
  unfolding lifted_def by (rule answers_via)

lemma answers_recorded:
  assumes "answers t"
  shows "answers (recorded t)"
proof -
  have "answers (via fst (\<lambda>h (s :: _ \<times> string list). (h, snd s)) t)" using assms by (rule answers_via)
  moreover have "fueled (\<lambda>s. case tr_delete t p (fst s) of (r, h) \<Rightarrow> (r, h, snd s @ [p]))" for p
    using answersD(5) [OF assms, of p] by (auto simp: fueled_def split: prod.splits) (metis fst_conv)
  ultimately show ?thesis by (simp add: answers_def recorded_def)
qed

lemma fueled_node: "answers tr \<Longrightarrow> fueled (node tr)"
  unfolding node_def by (intro fueled_intro answersD)

lemma fueled_bridge: "answers tr \<Longrightarrow> fueled (ensure_sandbox_bridge tr cfg)"
  unfolding ensure_sandbox_bridge_def Let_def by (intro fueled_intro answersD fueled_node)

lemma fueled_guest_nics: "answers tr \<Longrightarrow> fueled (guest_agent_nics tr vid)"
  unfolding guest_agent_nics_def by (intro fueled_intro answersD fueled_node)

lemma fueled_probe: "answers tr \<Longrightarrow> fueled (probe tr ip ts b)"
  unfolding probe_def by (intro answersD)

end
