(* ===== verification/ResumeProps.thy ===== *)
theory ResumeProps imports WorkerProps Answers begin

text \<open>
  Resuming a run after a restart of the application (\<open>resume_run\<close> in
  \<open>app/services/restore_worker.py\<close>) while the restore is still in progress: the run stays
  live, nothing is deleted and its row is left alone.
\<close>

text \<open>The transports come back, the config lock of the VM stays set on node \<open>n\<close>, and no restore
  task of it is listed.\<close>

definition stays_locked :: "'w transport \<Rightarrow> string \<Rightarrow> int \<Rightarrow> bool" where
  "stays_locked tr n vid =
     (answers tr \<and> (\<forall>w. fst (node tr w) = Ret n
        \<and> fst (tr_get tr (at_node n (''qemu/'' @ string_of_int vid @ ''/config'')) w)
            \<in> {Ret (JObj kvs) | kvs. py_truth (dict_get kvs ''lock'' JNull)}
        \<and> fst (tr_get tr (tasks_path n vid) w) \<in> insert (Ret (JArr [])) (range Exc)
        \<and> (\<forall>x. fst (tr_sleep tr x w) = Ret ()) \<and> fst (tr_now tr w) \<in> range Ret))"

lemma locked_node: "stays_locked tr n vid \<Longrightarrow> \<exists>u. node tr w = (Ret n, u)"
  unfolding stays_locked_def by (metis prod.collapse)

lemma wait_locked:
  assumes "stays_locked tr n vid"
  shows "\<exists>m u. wait_unlocked_loop k tr n vid l w = (Exc (RestoreTaskError m), u)"
proof (induction k arbitrary: l w)
  case 0
  show ?case by (simp add: act_simps)
next
  case (Suc k)
  define p where "p = at_node n (''qemu/'' @ string_of_int vid @ ''/config'')"
  obtain kvs u where g: "tr_get tr p w = (Ret (JObj kvs), u)" "py_truth (dict_get kvs ''lock'' JNull)"
    using assms unfolding stays_locked_def p_def by (smt (verit) mem_Collect_eq prod.collapse)
  obtain u' where s: "tr_sleep tr 1 u = (Ret (), u')"
    using assms unfolding stays_locked_def by (metis prod.collapse)
  have "kvs \<noteq> []" using g(2) by (auto simp: dict_get_def opt_or_def)
  then have a: "as_dict (tr_get tr p) w = (Ret (JObj kvs), u)"
    by (simp add: as_dict_def bnd_def g(1) py_or_def act_simps)
  show ?case
    using Suc.IH [of "dict_get kvs ''lock'' JNull" u'] g(2) unfolding wait_unlocked_loop.simps p_def [symmetric]
    by (simp add: bnd_def thn_def a s lift_r_def act_simps)
qed

lemma wait_unlocked_locked:
  assumes "stays_locked tr n vid"
  shows "\<exists>m u. wait_unlocked tr vid w = (Exc (RestoreTaskError m), u)"
proof -
  obtain v where v: "node tr w = (Ret n, v)" using locked_node [OF assms] by blast
  obtain m u where "wait_unlocked_loop 120 tr n vid JNull v = (Exc (RestoreTaskError m), u)" using wait_locked [OF assms] by blast
  then show ?thesis unfolding wait_unlocked_def bnd_def by (simp add: v)
qed

lemma find_nothing:
  assumes "stays_locked tr n vid"
  shows "\<exists>u. find_running_restore_upid tr vid w = (Ret None, u)"
proof -
  obtain v where v: "node tr w = (Ret n, v)" using locked_node [OF assms] by blast
  obtain r u where u: "tr_get tr (tasks_path n vid) v = (r, u)" "r \<in> insert (Ret (JArr [])) (range Exc)"
    using assms unfolding stays_locked_def by (metis prod.collapse)
  then show ?thesis
    unfolding find_running_restore_upid_def bnd_def v
    by (auto simp: catch_def act_simps py_or_def lift_r_def running_restore_tasks_def latest_task_upid_def)
qed

lemma bridge_quiet:
  assumes "stays_locked tr n vid"
  shows "\<exists>u. quiet (ensure_sandbox_bridge tr cfg) w = (Ret (), u)"
proof -
  have "answers tr" using assms by (simp add: stays_locked_def)
  then have "total (quiet (ensure_sandbox_bridge tr cfg))" by (intro quiet_never_raises fueled_bridge)
  then have "fst (quiet (ensure_sandbox_bridge tr cfg) w) = Ret ()" by (simp add: total_def)
  then show ?thesis by (metis prod.collapse)
qed

lemma catch_RetI: "m s = (Ret a, u) \<Longrightarrow> catch m h s = (Ret a, u)"
  by (simp add: catch_def)

lemma bnd_RetI: "m s = (Ret a, u) \<Longrightarrow> f a u = r \<Longrightarrow> bnd m f s = r"
  by (simp add: bnd_def)

lemma thn_RetI: "m s = (Ret a, u) \<Longrightarrow> k u = r \<Longrightarrow> thn m k s = r"
  by (simp add: thn_def bnd_def)

lemma resume_running:
  assumes "stays_locked tr n (pl_restore_vmid plan)" and "\<not> truthy_str upid" and tk: "transport_keeps P tr D" and p: "P w"
  shows "\<exists>w'. resume_run fuel tr cfg rid plan upid pf sc w = (Ret ''running'', w') \<and> P w'"
proof -
  have "fst (tr_now tr w) \<in> range Ret" using assms(1) unfolding stays_locked_def by blast
  then obtain t0 w0 where now: "tr_now tr w = (Ret t0, w0)" by (cases "tr_now tr w") auto
  obtain w1 where bridge: "quiet (ensure_sandbox_bridge tr cfg) w0 = (Ret (), w1)" using bridge_quiet [OF assms(1)] by blast
  obtain w2 where find: "find_running_restore_upid tr (pl_restore_vmid plan) w1 = (Ret None, w2)" using find_nothing [OF assms(1)] by blast
  obtain m w3 where wait: "wait_unlocked tr (pl_restore_vmid plan) w2 = (Exc (RestoreTaskError m), w3)"
    using wait_unlocked_locked [OF assms(1)] by blast
  have upid: "(if truthy_str upid then ret upid else catch (find_running_restore_upid tr (pl_restore_vmid plan)) (\<lambda>_. ret upid)) w1
      = (Ret None, w2)"
    by (simp add: assms(2) catch_RetI find)
  have step: "catch (bnd (wait_unlocked tr (pl_restore_vmid plan)) (\<lambda>_. ret True))
            (\<lambda>e. case e of RestoreCancelled _ \<Rightarrow> raise e | _ \<Rightarrow> ret False) w2 = (Ret False, w3)"
    by (simp add: catch_def bnd_def wait act_simps)
  have tail: "resume_tail fuel tr cfg rid plan None pf sc w2 = (Ret None, w3)"
    unfolding resume_tail_def
    by (rule thn_RetI, simp add: on_cond_def act_simps, rule bnd_RetI, rule step) (simp add: act_simps)
  have handled: "catch (bnd (resume_tail fuel tr cfg rid plan None pf sc) (\<lambda>r. ret (map_option (\<lambda>(res, chk). (result_text res, chk)) r))) h w2
      = (Ret None, w3)" for h
    by (rule catch_RetI, rule bnd_RetI, rule tail) (simp add: act_simps)
  have "resume_run fuel tr cfg rid plan upid pf sc w = (Ret ''running'', w3)"
    unfolding resume_run_def
    by (rule bnd_RetI, rule now, rule thn_RetI, rule bridge, rule bnd_RetI, rule upid, rule bnd_RetI, rule handled)
      (simp add: act_simps)
  moreover have "P w3"
    using keepsD [OF transport_keeps.now_keeps [OF tk], OF p, OF now]
      keepsD [OF keeps_quiet [OF transport_keeps.bridge_keeps [OF tk]], OF _ bridge]
      keepsD [OF transport_keeps.find_upid_keeps [OF tk], OF _ find]
      keepsD [OF transport_keeps.wait_unlocked_keeps [OF tk], OF _ wait] by blast
  ultimately show ?thesis by blast
qed


text \<open>The demonstration host while guest 9000 is being restored.\<close>

definition busy_get :: "string \<Rightarrow> (demo, json) act" where
  "busy_get p = (if p = at_node ''pve'' (''qemu/'' @ string_of_int 9000 @ ''/config'') then ret (JObj [(''lock'', JStr ''create'')])
                 else if p = ''/nodes'' then demo_get p else refuse)"

definition busy_host :: "demo transport" where
  "busy_host = demo_host\<lparr>tr_get := busy_get, tr_node_cache := (\<lambda>h. Some ''pve'')\<rparr>"

lemma busy_answers: "answers busy_host"
  unfolding answers_def busy_host_def demo_host_def busy_get_def demo_get_def refuse_def demo_delete_def
  by (simp add: fueled_intro)

lemma busy_locked: "stays_locked (lifted (\<lambda>h. 0) (recorded busy_host)) ''pve'' 9000"
proof -
  have "tasks_path ''pve'' 9000 \<noteq> at_node ''pve'' (''qemu/'' @ string_of_int 9000 @ ''/config'')" "tasks_path ''pve'' 9000 \<noteq> ''/nodes''"
    by (simp_all add: tasks_path_def at_node_def)
  then show ?thesis
    unfolding stays_locked_def
    using answers_lifted [OF answers_recorded [OF busy_answers]]
    by (simp add: lifted_def recorded_def via_def on_part_def busy_host_def demo_host_def busy_get_def refuse_def act_simps
        node_def bnd_def dict_get_def opt_or_def)
qed


end
