(* ===== verification/ProbeLoop.thy ===== *)
theory ProbeLoop imports WorkerProps Answers begin

text \<open>
  The probe loop of \<open>app/services/restore_worker.py\<close> under a clock that is never turned back
  and that a sleep moves by at least what was asked: the loop ends, and only a pass ends it
  before the window has run out.
\<close>

text \<open>\<open>tm\<close> is the clock's value in a state of the host.\<close>

definition ticking :: "('w \<Rightarrow> rat) \<Rightarrow> 'w transport \<Rightarrow> bool" where
  "ticking tm tr =
     ((\<forall>c. transport_keeps (\<lambda>w. c \<le> tm w) tr (\<lambda>_. True)) \<and> (\<forall>w. fst (tr_now tr w) = Ret (tm w))
      \<and> (\<forall>x w. fst (tr_sleep tr x w) = Ret () \<and> tm w + max 0 x \<le> tm (snd (tr_sleep tr x w))))"

abbreviation later :: "('w \<Rightarrow> rat) \<Rightarrow> ('w, 'a) act \<Rightarrow> bool" where
  "later tm m \<equiv> \<forall>c. keeps (\<lambda>w. c \<le> tm w) m"

lemma laterD: "later tm m \<Longrightarrow> m w = (r, w') \<Longrightarrow> tm w \<le> tm w'"
  by (metis keeps_def order_refl snd_conv)

lemma fl64_half: "fl64 (1 / 2) = 1 / 2"
  by code_simp

text \<open>A pass that ends at \<open>t\<close> and the pause after it take half a second together.\<close>

lemma pause_half:
  assumes "1 \<le> interval" and "s \<le> t"
  shows "s + 1 / 2 \<le> t + max 0 (fl64 (of_int interval - fl64 (t - s)))"
proof (cases "t - s < 1 / 2")
  case True
  then have "fl64 (t - s) \<le> 1 / 2" using fl64_mono [of "t - s" "1 / 2"] fl64_half by simp
  moreover have "(1 :: rat) \<le> of_int interval" using assms(1) by simp
  ultimately have "1 / 2 \<le> of_int interval - fl64 (t - s)" by linarith
  then have "1 / 2 \<le> fl64 (of_int interval - fl64 (t - s))" using fl64_mono fl64_half by metis
  then show ?thesis using assms(2) by simp
qed simp

section \<open>One round\<close>

text \<open>What the loop is run with: a ticking clock that is a part of the host, calls that come
  back, and a pause of at least a second.\<close>

definition probing :: "'h world transport \<Rightarrow> ('h world \<Rightarrow> rat) \<Rightarrow> run_plan \<Rightarrow> 'h probe_fn \<Rightarrow> ('h, bool) wact \<Rightarrow> bool" where
  "probing tr tm plan probe_fn cancelled =
     (ticking tm tr \<and> answers tr \<and> (\<forall>w d. tm (w\<lparr>wdb := d\<rparr>) = tm w)
      \<and> (\<forall>ts. later tm (probe_fn ts) \<and> fueled (probe_fn ts)) \<and> later tm cancelled \<and> fueled cancelled
      \<and> 1 \<le> pl_interval plan)"

lemma probingD:
  assumes "probing tr tm plan pf sc"
  shows "transport_keeps (\<lambda>w. c \<le> tm w) tr (\<lambda>_. True)" "answers tr" "tm (w\<lparr>wdb := d\<rparr>) = tm w"
    "keeps (\<lambda>w. c \<le> tm w) (pf ts)" "fueled (pf ts)" "keeps (\<lambda>w. c \<le> tm w) sc" "fueled sc" "1 \<le> pl_interval plan"
  using assms by (simp_all add: probing_def ticking_def)

lemma now_time:
  assumes "probing tr tm plan pf sc" and "tr_now tr w = (r, w')"
  shows "r = Ret (tm w) \<and> tm w \<le> tm w'"
  using assms(1) assms(2) laterD [OF allI [OF transport_keeps.now_keeps [OF probingD(1) [OF assms(1)]]] assms(2)]
  unfolding probing_def ticking_def by (metis fst_conv)

lemma sleep_time:
  assumes "probing tr tm plan pf sc" and "tr_sleep tr x w = (r, w')"
  shows "r = Ret () \<and> tm w + max 0 x \<le> tm w'"
  using assms unfolding probing_def ticking_def by (metis fst_conv snd_conv)

lemma set_run_opt_later:
  assumes "probing tr tm plan pf sc" shows "keeps (\<lambda>w. c \<le> tm w) (set_run_opt rid fs)"
  unfolding set_run_opt_def set_run_def by (intro keeps_intro) (simp add: probingD(3) [OF assms])

lemma steps_later:
  assumes "probing tr tm plan pf sc"
  shows "later tm (check_cancel sc)" "later tm (discover tr plan found)"
    "later tm (probe_pass tr plan pf rid deadline targets ips)"
  unfolding check_cancel_def discover_def probe_pass_def
  by (intro allI keeps_intro probingD [OF assms] transport_keeps.guest_agent_nics_keeps [OF probingD(1) [OF assms]]
      set_run_opt_later [OF assms] transport_keeps.now_keeps [OF probingD(1) [OF assms]]
      transport_keeps.lift_r_keeps [OF probingD(1) [OF assms]])+

lemma round_back:
  assumes "probing tr tm plan pf sc"
  shows "fueled (probe_round tr plan pf rid sc deadline found)"
  unfolding probe_round_def check_cancel_def discover_def set_run_opt_def set_run_def probe_pass_def
  by (intro fueled_intro answersD [OF probingD(2) [OF assms]] probingD [OF assms] fueled_guest_nics)

text \<open>A round that does not end the loop started before the deadline and took half a second;
  a round that ends it did so for a pass or because the deadline was reached.\<close>

lemma round_cases:
  assumes pr: "probing tr tm plan pf sc"
    and round: "probe_round tr plan pf rid sc deadline found w = (Ret (r, found'), w')"
  shows "case r of None \<Rightarrow> tm w < deadline \<and> tm w + 1 / 2 \<le> tm w'
    | Some (res, chk) \<Rightarrow> res = Passed \<or> deadline \<le> tm w'"
proof -
  let ?tail = "\<lambda>s fnd (res, chk). thn (set_run_opt rid [F_checks (Some chk)])
    (bnd (if res = Passed then ret True else bnd (tr_now tr) (\<lambda>t. ret (deadline \<le> t))) (\<lambda>stop.
     if stop then ret (Some (res, chk), fnd)
     else bnd (tr_now tr) (\<lambda>t.
          thn (tr_sleep tr (max 0 (fl64 (of_int (pl_interval plan) - fl64 (t - s))))) (ret (None, fnd)))))"
  from round obtain s w1 where s: "tr_now tr w = (Ret s, w1)"
    and "thn (check_cancel sc) (bnd (discover tr plan found) (\<lambda>fnd.
           bnd (case plan_targets plan fnd of (targets, ips) \<Rightarrow> probe_pass tr plan pf rid deadline targets ips) (?tail s fnd))) w1
         = (Ret (r, found'), w')"
    unfolding probe_round_def by (rule bnd_RetE)
  then obtain w2 fnd w3 where w2: "check_cancel sc w1 = (Ret (), w2)" and w3: "discover tr plan found w2 = (Ret fnd, w3)"
    and "bnd (case plan_targets plan fnd of (targets, ips) \<Rightarrow> probe_pass tr plan pf rid deadline targets ips) (?tail s fnd) w3
         = (Ret (r, found'), w')"
    by - (erule thn_RetE, erule bnd_RetE, blast)
  then obtain res chk w4 where w4: "(case plan_targets plan fnd of (targets, ips) \<Rightarrow> probe_pass tr plan pf rid deadline targets ips) w3
        = (Ret (res, chk), w4)" and "?tail s fnd (res, chk) w4 = (Ret (r, found'), w')"
    by - (erule bnd_RetE, fastforce)
  then obtain w5 stop w6 where w5: "set_run_opt rid [F_checks (Some chk)] w4 = (Ret (), w5)"
    and w6: "(if res = Passed then ret True else bnd (tr_now tr) (\<lambda>t. ret (deadline \<le> t))) w5 = (Ret stop, w6)"
    and rest: "(if stop then ret (Some (res, chk), fnd)
     else bnd (tr_now tr) (\<lambda>t. thn (tr_sleep tr (max 0 (fl64 (of_int (pl_interval plan) - fl64 (t - s))))) (ret (None, fnd)))) w6
       = (Ret (r, found'), w')"
    unfolding prod.case by - (erule thn_RetE, erule bnd_RetE, blast)
  have "s = tm w" "tm w \<le> tm w1" using now_time [OF pr s] by simp_all
  moreover have "tm w1 \<le> tm w2" "tm w2 \<le> tm w3" using laterD [OF steps_later(1) [OF pr] w2] laterD [OF steps_later(2) [OF pr] w3] .
  moreover have "tm w3 \<le> tm w4"
    using w4 laterD [OF steps_later(3) [OF pr]] by (cases "plan_targets plan fnd") auto
  moreover have "tm w4 \<le> tm w5" using laterD [OF allI [OF set_run_opt_later [OF pr]] w5] .
  ultimately have t5: "s = tm w" "tm w \<le> tm w5" by linarith+
  show ?thesis
  proof (cases stop)
    case True
    then have r: "r = Some (res, chk)" "w' = w6" using rest by (simp_all add: act_simps)
    have "deadline \<le> tm w6" if np: "res \<noteq> Passed"
    proof -
      have "bnd (tr_now tr) (\<lambda>t. ret (deadline \<le> t)) w5 = (Ret True, w6)" using w6 np True by simp
      then obtain t u where "tr_now tr w5 = (Ret t, u)" "ret (deadline \<le> t) u = (Ret True, w6)" by (rule bnd_RetE)
      then show ?thesis using now_time [OF pr, of w5 "Ret t" u] by (simp add: act_simps)
    qed
    then show ?thesis using r by auto
  next
    case False
    then have "res \<noteq> Passed" using w6 by (auto simp: act_simps)
    then have "bnd (tr_now tr) (\<lambda>t. ret (deadline \<le> t)) w5 = (Ret False, w6)" using w6 False by simp
    then obtain t u where "tr_now tr w5 = (Ret t, u)" "ret (deadline \<le> t) u = (Ret False, w6)" by (rule bnd_RetE)
    then have before: "tm w5 < deadline" "tm w5 \<le> tm w6" using now_time [OF pr, of w5 "Ret t" u] by (simp_all add: act_simps)
    from rest False obtain t u where t: "tr_now tr w6 = (Ret t, u)"
      and "thn (tr_sleep tr (max 0 (fl64 (of_int (pl_interval plan) - fl64 (t - s))))) (ret (None, fnd)) u = (Ret (r, found'), w')"
      by - (simp, erule bnd_RetE, blast)
    then obtain v where v: "tr_sleep tr (max 0 (fl64 (of_int (pl_interval plan) - fl64 (t - s)))) u = (Ret (), v)"
      and "ret (None, fnd) v = (Ret (r, found'), w')"
      by - (erule thn_RetE, blast)
    then have r: "r = None" "w' = v" by (simp_all add: act_simps)
    have "t = tm w6" "tm w6 \<le> tm u" using now_time [OF pr t] by simp_all
    moreover have "tm u + max 0 (fl64 (of_int (pl_interval plan) - fl64 (t - s))) \<le> tm v" using sleep_time [OF pr v] by simp
    moreover have "s + 1 / 2 \<le> t + max 0 (fl64 (of_int (pl_interval plan) - fl64 (t - s)))"
      by (rule pause_half [OF probingD(8) [OF pr]]) (use t5 before(2) \<open>t = tm w6\<close> in linarith)
    ultimately have "s + 1 / 2 \<le> tm v" by linarith
    then show ?thesis using t5 before r by simp
  qed
qed

section \<open>The loop\<close>

lemma rounds_end:
  assumes pr: "probing tr tm plan pf sc" and "deadline - tm w \<le> of_nat k / 2"
  shows "fst (probe_rounds (Suc k) tr plan pf rid sc deadline found w) \<noteq> NoFuel"
  using assms(2)
proof (induction k arbitrary: w found)
  case (0 w found)
  obtain r u where r: "probe_round tr plan pf rid sc deadline found w = (r, u)" by (cases "probe_round tr plan pf rid sc deadline found w")
  have "r \<noteq> NoFuel" using fueledD [OF round_back [OF pr]] r by blast
  moreover have "x \<noteq> None" if "r = Ret (x, fnd)" for x fnd
    using round_cases [OF pr r [unfolded that]] 0 by (cases x) auto
  ultimately show ?case using r by (cases r) (auto simp: bnd_def act_simps)
next
  case (Suc k)
  obtain r u where r: "probe_round tr plan pf rid sc deadline found w = (r, u)" by (cases "probe_round tr plan pf rid sc deadline found w")
  have "r \<noteq> NoFuel" using fueledD [OF round_back [OF pr]] r by blast
  moreover have "fst (probe_rounds (Suc k) tr plan pf rid sc deadline fnd u) \<noteq> NoFuel" if "r = Ret (None, fnd)" for fnd
    using round_cases [OF pr r [unfolded that]] Suc by (simp add: field_simps)
  ultimately show ?case
    using r unfolding probe_rounds.simps(2) [of "Suc k"] by (cases r) (auto simp: bnd_def act_simps split: option.splits)
qed

lemma rounds_verdict:
  assumes pr: "probing tr tm plan pf sc" and "probe_rounds k tr plan pf rid sc deadline found w = (Ret (res, chk), w')"
  shows "res = Passed \<or> deadline \<le> tm w'"
  using assms(2)
proof (induction k arbitrary: w found)
  case 0
  then show ?case by (simp add: act_simps)
next
  case (Suc k)
  from Suc.prems obtain x fnd u where x: "probe_round tr plan pf rid sc deadline found w = (Ret (x, fnd), u)"
    and "(case x of Some v \<Rightarrow> ret v | None \<Rightarrow> probe_rounds k tr plan pf rid sc deadline fnd) u = (Ret (res, chk), w')"
    unfolding probe_rounds.simps by - (erule bnd_RetE, fastforce)
  then show ?case
    using round_cases [OF pr x] Suc.IH by (cases x) (auto simp: act_simps)
qed

text \<open>C36: the probe loop ends: from some number of rounds on it returns a verdict or raises, whatever
  the probes answer, as long as the clock moves.\<close>

theorem probe_loop_ends:
  assumes "probing tr tm plan pf sc"
  shows "\<exists>k. \<forall>extra. fst (probe_loop (k + extra) tr plan pf rid sc w) \<noteq> NoFuel"
proof -
  obtain w1 where w1: "tr_sleep tr (of_int (pl_first_delay plan)) w = (Ret (), w1)"
    using sleep_time [OF assms] by (metis prod.collapse)
  obtain t0 w2 where w2: "tr_now tr w1 = (Ret t0, w2)"
    using now_time [OF assms] by (metis prod.collapse)
  let ?d = "fl64 (t0 + of_int (pl_window plan))"
  obtain k :: nat where k: "(?d - tm w2) * 2 < of_nat k" using reals_Archimedean2 by blast
  have "fst (probe_loop (Suc k + extra) tr plan pf rid sc w) \<noteq> NoFuel" for extra
  proof -
    have "?d - tm w2 \<le> of_nat (k + extra) / 2" using k by (simp add: field_simps)
    from rounds_end [OF assms this] show ?thesis
      by (simp add: probe_loop_def thn_def bnd_def w1 w2)
  qed
  then show ?thesis by blast
qed

text \<open>C37: no early failure: a verdict other than \<open>passed\<close> is given only after the first delay and the
  whole window have gone by, so that a guest that boots slowly gets all of its time.\<close>

theorem no_verdict_before_window:
  assumes "probing tr tm plan pf sc" and "0 \<le> pl_first_delay plan"
  shows "case probe_loop fuel tr plan pf rid sc w of
      (Ret (res, chk), w') \<Rightarrow>
        res = Passed \<or> fl64 (tm w + of_int (pl_first_delay plan) + of_int (pl_window plan)) \<le> tm w'
    | _ \<Rightarrow> True"
proof (cases "probe_loop fuel tr plan pf rid sc w")
  case (Pair x w')
  have "res = Passed \<or> fl64 (tm w + of_int (pl_first_delay plan) + of_int (pl_window plan)) \<le> tm w'" if x: "x = Ret (res, chk)" for res chk
  proof -
    from Pair x obtain w1 where w1: "tr_sleep tr (of_int (pl_first_delay plan)) w = (Ret (), w1)"
      and "bnd (tr_now tr) (\<lambda>t0. probe_rounds fuel tr plan pf rid sc (fl64 (t0 + of_int (pl_window plan))) []) w1 = (Ret (res, chk), w')"
      unfolding probe_loop_def by - (simp only:, erule thn_RetE, blast)
    then obtain t0 w2 where w2: "tr_now tr w1 = (Ret t0, w2)"
      and "probe_rounds fuel tr plan pf rid sc (fl64 (t0 + of_int (pl_window plan))) [] w2 = (Ret (res, chk), w')"
      by - (erule bnd_RetE, blast)
    then have "res = Passed \<or> fl64 (t0 + of_int (pl_window plan)) \<le> tm w'" using rounds_verdict [OF assms(1)] by blast
    moreover have "tm w + of_int (pl_first_delay plan) \<le> t0"
      using sleep_time [OF assms(1) w1] now_time [OF assms(1) w2] assms(2) by simp
    then have "fl64 (tm w + of_int (pl_first_delay plan) + of_int (pl_window plan)) \<le> fl64 (t0 + of_int (pl_window plan))"
      by (intro fl64_mono) simp
    ultimately show ?thesis by linarith
  qed
  then show ?thesis using Pair by (simp split: outcome.splits prod.splits)
qed

text \<open>The demonstration host's clock.\<close>

lemma demo_answers: "answers demo_host"
  unfolding answers_def demo_host_def demo_get_def refuse_def demo_delete_def by (simp add: fueled_intro)

lemma demo_probing:
  "probing (lifted (\<lambda>h. 0) demo_host) (\<lambda>w. d_time (whost w)) demo_plan (\<lambda>_. ret (JObj [])) (ret False)"
proof -
  have "transport_keeps (\<lambda>h. c \<le> d_time h) demo_host (\<lambda>_. True)" for c
    unfolding transport_keeps_def demo_host_def demo_get_def refuse_def demo_delete_def
    by (auto intro!: keeps_intro keeps_modify)
  then have "transport_keeps (\<lambda>w. c \<le> d_time (whost w)) (lifted (\<lambda>h. 0) demo_host) (\<lambda>_. True)" for c
    unfolding lifted_def by (rule via_keeps) simp_all
  moreover have "fst (tr_now (lifted (\<lambda>h. 0) demo_host) w) = Ret (d_time (whost w))" for w
    by (simp add: lifted_def via_def on_part_def demo_host_def act_simps)
  moreover have "fst (tr_sleep (lifted (\<lambda>h. 0) demo_host) x w) = Ret ()
      \<and> d_time (whost w) + max 0 x \<le> d_time (whost (snd (tr_sleep (lifted (\<lambda>h. 0) demo_host) x w)))" for x w
    by (simp add: lifted_def via_def on_part_def demo_host_def act_simps)
  ultimately have "ticking (\<lambda>w. d_time (whost w)) (lifted (\<lambda>h. 0) demo_host)"
    unfolding ticking_def by blast
  then show ?thesis
    unfolding probing_def using answers_lifted [OF demo_answers] by (simp add: fueled_intro demo_plan_def)
qed

lemma probe_loop_ends_witness:
  "\<exists>k. \<forall>extra. fst (probe_loop (k + extra) (lifted (\<lambda>h. 0) demo_host) demo_plan (\<lambda>_. ret (JObj [])) None (ret False)
     (demo_world demo_start)) \<noteq> NoFuel"
  by (rule probe_loop_ends [OF demo_probing])

lemma no_verdict_before_window_witness:
  "case probe_loop 5 (lifted (\<lambda>h. 0) demo_host) demo_plan (\<lambda>_. ret (JObj [])) None (ret False) (demo_world demo_start) of
      (Ret (res, chk), w') \<Rightarrow> res = Passed
        \<or> fl64 (d_time (whost (demo_world demo_start)) + of_int (pl_first_delay demo_plan) + of_int (pl_window demo_plan)) \<le> d_time (whost w')
    | _ \<Rightarrow> True"
  by (rule no_verdict_before_window [OF demo_probing]) (simp add: demo_plan_def)

end
