(* ===== verification/Witnesses.thy ===== *)
theory Witnesses
  imports DemoHost RestoreAlloc RestorePack
begin

text \<open>
  Concrete instances of the properties: each lemma applies a property to an input where its
  hypotheses hold.
\<close>

section \<open>Host counters and network\<close>

definition demo_sample :: "rat \<Rightarrow> int \<Rightarrow> io_sample" where
  "demo_sample t busy = \<lparr>s_time = t, s_disk = [(''sda'', (1000 + busy, 2000 + busy, busy))],
     s_net = [(''eno1'', (10 * busy, 20 * busy))], s_link_bps = 125000000\<rparr>"

lemma compute_io_rates_ranges_witness:
  "disk_util (compute_io_rates (Some (demo_sample 0 10)) (demo_sample 10 4010) 550000000) \<in> {0..100}"
  using compute_io_rates_ranges [of "demo_sample 10 4010" 550000000 "Some (demo_sample 0 10)"]
  by (simp add: demo_sample_def)

lemma netmask_prefix_roundtrip_witness: "prefix_from_netmask (netmask_from_prefix (int 24)) = 24"
  by (rule netmask_prefix_roundtrip) simp

lemma sandbox_host_ip_correct_witness:
  "\<exists>h. sandbox_host_ip (string_of_ipv4 1681915904) (int 24) = Inr (string_of_ipv4 h) \<and> h \<noteq> 1681915904"
  using sandbox_host_ip_correct [of 1681915904 24] by auto

lemma sandbox_leg_not_mgmt_net_witness:
  "net_of (string_of_ipv4 167772165) (sandbox_leg_prefix (string_of_ipv4 167772165) (int 24) (string_of_ipv4 167772170) (int 24))
   \<noteq> net_of (string_of_ipv4 167772170) (int 24)"
  by (rule sandbox_leg_not_mgmt_net) simp_all

lemma parse_cidr_correct_witness:
  "parse_cidr (string_of_ipv4 167772165 @ ''/'' @ string_of_nat 16) 24 = Some (string_of_ipv4 167772165, int 16)
   \<and> parse_cidr (string_of_ipv4 167772165) 24 = Some (string_of_ipv4 167772165, 24)"
proof -
  have "(0::int) \<le> 24" "(24::int) \<le> 32" by simp_all
  from parse_cidr_correct [OF this]
  have "\<And>a p. a < 2 ^ 32 \<Longrightarrow> p \<le> 32 \<Longrightarrow>
      parse_cidr (string_of_ipv4 a @ ''/'' @ string_of_nat p) 24 = Some (string_of_ipv4 a, int p)
      \<and> parse_cidr (string_of_ipv4 a) 24 = Some (string_of_ipv4 a, 24)"
    by blast
  from this [of 167772165 16] show ?thesis by simp
qed

section \<open>The verdict\<close>

definition demo_checks :: "probe_checks" where
  "demo_checks = [(''10.0.0.7'', \<lparr>icmp = True, arp = True, ports = []\<rparr>)]"

lemma failed_iff_silent_witness: "classify_multi demo_checks [''10.0.0.7''] True [22] True \<noteq> Failed"
  using failed_iff_silent [of "[''10.0.0.7'']" True "[22]" demo_checks]
  by (simp add: answered_def results_of_def demo_checks_def is_alive_def opt_or_def)

lemma nothing_required_passes_witness: "classify_multi [] [''10.0.0.7''] False [] True = Passed"
  by (rule nothing_required_passes) simp

lemma classify_multi_mono_witness:
  "classify_multi [] [''10.0.0.7''] True [22] True \<le> classify_multi demo_checks [''10.0.0.7'', ''10.0.0.8''] True [22] True"
  by (rule classify_multi_mono) (simp_all add: no_answer_least opt_or_def)

section \<open>The database\<close>

lemma demo_one_live: "one_live_run demo_db"
  by (auto simp: one_live_run_def demo_db_def demo_held_run_def fresh_run_def)

lemma enqueue_if_never_passed_correct_witness:
  "case enqueue_if_never_passed 9 ''manual'' demo_db of
      (None, d') \<Rightarrow> d' = demo_db \<and> list_ex (\<lambda>r. run_vm r = 9 \<and> (live r \<or> run_result r = Some ''passed'')) (runs demo_db)
    | (Some i, d') \<Rightarrow> one_live_run d' \<and> list_all (\<lambda>r. run_vm r \<noteq> 9 \<or> \<not> live r \<and> run_result r \<noteq> Some ''passed'') (runs demo_db)
                       \<and> runs d' = runs demo_db @ [fresh_run i 9 ''manual'' (clock demo_db)]"
  by (rule enqueue_if_never_passed_correct) (rule demo_one_live)

definition demo_vm :: vm_row where
  "demo_vm = \<lparr>vm_id = 9, vm_cluster = 1, vm_node = None, vmid = 109, vm_name = ''web'', guest_type = None, cluster_name = Some ''c'', memory_bytes = None\<rparr>"

definition demo_policy :: policy_row where
  "demo_policy = \<lparr>auto_restore_enabled = True, restore_cadence = ''monthly'', hold_on_failure = False, probe_primary_ip = None,
     probe_vlan = None, probe_tcp_ports = [22], probe_require_icmp = True, restore_retry_days = 7, next_run_at = None,
     probe_window_seconds = None, probe_first_delay_seconds = None, probe_interval_seconds = None\<rparr>"

definition demo_due_db :: db where
  "demo_due_db = demo_db\<lparr>vms := [(demo_vm, Some demo_policy)]\<rparr>"

lemma create_for_candidate_one_live_witness: "one_live_run (snd (create_run (vm_id demo_vm) ''auto'' demo_due_db))"
proof (rule create_for_candidate_one_live)
  show "one_live_run demo_due_db" using demo_one_live by (simp add: one_live_run_def demo_due_db_def)
  show "(demo_vm, demo_policy) \<in> set (due_auto_restore_candidates demo_due_db)"
    by (simp add: due_auto_restore_candidates_def demo_due_db_def is_due_def demo_policy_def demo_vm_def demo_db_def
        demo_held_run_def fresh_run_def last_tested_def)
qed

lemma schedule_retry_defers_witness:
  "is_due (demo_due_db\<lparr>clock := 7 * day\<rparr>) demo_vm (demo_policy\<lparr>next_run_at := Some (7 * day)\<rparr>)"
  using schedule_retry_defers [of demo_vm "demo_policy\<lparr>next_run_at := Some (7 * day)\<rparr>" 9 7 demo_due_db "demo_due_db\<lparr>clock := 7 * day\<rparr>"]
  by (simp add: schedule_retry_def set_vm_next_run_def demo_due_db_def demo_policy_def demo_vm_def demo_db_def
      demo_held_run_def fresh_run_def day_def second_def)

section \<open>Allocation and placement\<close>

definition demo_ranges :: alloc_ranges where
  "demo_ranges = \<lparr>vmid_from = 9009, vmid_to = 9020, vlan_from = 900, vlan_to = 901, ip_from = string_of_ipv4 167772165, ip_to = string_of_ipv4 167772166\<rparr>"


lemma allocate_waits_iff_exhausted_witness:
  "allocate (demo_ranges\<lparr>vmid_to := 9010\<rparr>) [demo_held_run] = Inr None"
proof -
  have ips: "ip_range (ip_from (demo_ranges\<lparr>vmid_to := 9010\<rparr>)) (ip_to (demo_ranges\<lparr>vmid_to := 9010\<rparr>)) = Some [string_of_ipv4 167772165, string_of_ipv4 167772166]"
    by (simp add: demo_ranges_def ip_range_def upt_rec)
  have "{9009..9010} - in_use_vmids [demo_held_run] = {9009::int}"
    by (auto simp: in_use_vmids_def demo_held_run_def)
  then show ?thesis
    using allocate_waits_iff_exhausted [OF ips, of "[demo_held_run]"] by (simp add: demo_ranges_def)
qed

lemma pack_disks_correct_witness:
  "case pack_disks [(''scsi0'', 30), (''scsi1'', 60)] [(''fast'', 70), (''slow'', 40)] of
      None \<Rightarrow> False
    | Some None \<Rightarrow> \<nexists>asg. fits_on [(''fast'', 70), (''slow'', 40)] [(''scsi0'', 30), (''scsi1'', 60)] asg
    | Some (Some res) \<Rightarrow> fits_on [(''fast'', 70), (''slow'', 40)] [(''scsi0'', 30), (''scsi1'', 60)] (asg_of res)
                         \<and> dom res = fst ` set [(''scsi0'', 30::int), (''scsi1'', 60)]"
  by (rule pack_disks_correct) simp_all

lemma plan_distribution_correct_witness:
  "case plan_distribution [(''scsi0'', Some 30), (''scsi1'', Some 60)] [(''fast'', 20)] [(''fast'', 70), (''slow'', 40)] of
      None \<Rightarrow> False
    | Some (PackOk res) \<Rightarrow> fits_on [(''fast'', 20)] (map (\<lambda>(dev, sz). (dev, opt_or sz 0)) [(''scsi0'', Some 30), (''scsi1'', Some 60)]) (asg_of res)
    | Some PackRetry \<Rightarrow> (\<nexists>asg. fits_on [(''fast'', 20)] (map (\<lambda>(dev, sz). (dev, opt_or sz 0)) [(''scsi0'', Some 30), (''scsi1'', Some 60)]) asg)
                       \<and> (\<exists>asg. fits_on [(''fast'', 70), (''slow'', 40)] (map (\<lambda>(dev, sz). (dev, opt_or sz 0)) [(''scsi0'', Some 30), (''scsi1'', Some 60)]) asg)
    | Some PackImpossible \<Rightarrow> (\<nexists>asg. fits_on [(''fast'', 20)] (map (\<lambda>(dev, sz). (dev, opt_or sz 0)) [(''scsi0'', Some 30), (''scsi1'', Some 60)]) asg)
                       \<and> (\<nexists>asg. fits_on [(''fast'', 70), (''slow'', 40)] (map (\<lambda>(dev, sz). (dev, opt_or sz 0)) [(''scsi0'', Some 30), (''scsi1'', Some 60)]) asg)"
  by (rule plan_distribution_correct) simp_all

section \<open>The restored guest\<close>

lemma rewrite_net_line_parts_witness:
  "filter (starts_with ''bridge='') (split_on (CHR '','') (rewrite_net_line ''virtio=BC:24:11:00:00:01,bridge=vmbr0,tag=12'' ''vmbr9'' (Some 900) None))
     = [''bridge=vmbr9'']"
  using rewrite_net_line_parts [of "''vmbr9''" "''virtio=BC:24:11:00:00:01,bridge=vmbr0,tag=12''" "Some 900" None] by simp

lemma sandbox_name_valid_witness: "valid_label (sandbox_name ''Cluster A'' ''web_01'' ''helper'')"
  by (rule sandbox_name_valid) code_simp

lemma eject_cdroms_complete_witness:
  "list_all (\<lambda>(k, v). \<not> needs_eject k v)
     (fold (\<lambda>(k, v). dict_set k (JStr v)) (eject_cdroms [(''ide2'', JStr ''local:iso/a.iso,media=cdrom'')]) [(''ide2'', JStr ''local:iso/a.iso,media=cdrom'')])"
  using eject_cdroms_complete [of "[(''ide2'', JStr ''local:iso/a.iso,media=cdrom'')]"] unfolding list_all_iff by simp

lemma overall_restore_fields_progress_witness:
  "\<exists>p p'. overall_restore_fields 10 (Some 200) = Some [F_percent (Some p), F_bytes_done (Some (max 0 (min 10 200))),
            F_bytes_total (Some 200), F_phase (Some (phase_of_percent p))]
      \<and> overall_restore_fields 200 (Some 200) = Some [F_percent (Some p'), F_bytes_done (Some (max 0 (min 200 200))),
            F_bytes_total (Some 200), F_phase (Some (phase_of_percent p'))]
      \<and> 0 \<le> p \<and> p \<le> p' \<and> p' \<le> 100"
  using overall_restore_fields_progress [of 200 10 200] by auto

lemma stall_not_exceeded_witness: "\<not> stall_exceeded 600 0 86400 6 900"
  by (rule stall_not_exceeded) simp

lemma stable_mac_injective_witness: "stable_mac ''10.0.0.6'' \<noteq> Inr ''02:00:0a:00:00:05''"
proof
  assume "stable_mac ''10.0.0.6'' = Inr ''02:00:0a:00:00:05''"
  moreover have "stable_mac ''10.0.0.5'' = Inr ''02:00:0a:00:00:05''"
    by (simp add: stable_mac_def ipv4_eval octets_def hex2_text_def hex_digit_def)
  ultimately have "''10.0.0.6'' = ''10.0.0.5''" by (rule stable_mac_injective)
  then show False by simp
qed

end
