(* ===== verification/BackupLocation.thy ===== *)
theory BackupLocation imports RestoreDb SandboxNet PyJson begin

text \<open>
  Physical locations of backups (\<open>app/services/backup_location.py\<close>): a PBS server is known by
  host names, aliases and resolved addresses, and a location is
  \<open>pbs:<server>/<datastore>[/<namespace>]\<close>. The resolver (\<open>socket.getaddrinfo\<close>) is an
  argument. \<open>urlsplit\<close> and \<open>ip_address\<close> are the standard library's.
\<close>

section \<open>\<open>ipaddress.ip_address\<close>\<close>

definition hextet :: "string \<Rightarrow> bool" where
  "hextet s = (s \<noteq> [] \<and> length s \<le> 4 \<and> list_all (\<lambda>c. c \<in> set ''0123456789abcdefABCDEF'') s)"

text \<open>A dotted quad at the end stands for two groups.\<close>

definition ipv6_parts :: "string \<Rightarrow> string list option" where
  "ipv6_parts s =
     (let parts = split_on (CHR '':'') s
      in if length parts < 3 then None
         else if CHR ''.'' \<in> set (last parts)
              then (case ipv4_of_string (last parts) of None \<Rightarrow> None | Some _ \<Rightarrow> Some (butlast parts @ [''0'', ''0'']))
              else Some parts)"

text \<open>The positions of the empty groups that are neither first nor last: at most one \<open>::\<close>.\<close>

definition inner_empty :: "string list \<Rightarrow> nat list" where
  "inner_empty parts = filter (\<lambda>i. parts ! i = []) [1 ..< length parts - 1]"

definition ipv6_groups :: "string list \<Rightarrow> bool" where
  "ipv6_groups parts =
     (length parts \<le> 9
      \<and> (case inner_empty parts of
           [] \<Rightarrow> length parts = 8 \<and> list_all hextet parts
         | [k] \<Rightarrow>
             let hi = (if hd parts = [] then k - 1 else k); lo = length parts - k - 1;
                 lo' = (if last parts = [] then lo - 1 else lo)
             in (hd parts \<noteq> [] \<or> hi = 0) \<and> (last parts \<noteq> [] \<or> lo' = 0) \<and> hi + lo' < 8
                \<and> list_all hextet (take hi parts) \<and> list_all hextet (drop (length parts - lo') parts)
         | _ \<Rightarrow> False))"

definition is_ipv6 :: "string \<Rightarrow> bool" where
  "is_ipv6 host =
     (case py_partition (CHR ''%'') host of (addr, sep, scope) \<Rightarrow>
        (\<not> sep \<or> scope \<noteq> [] \<and> CHR ''%'' \<notin> set scope)
        \<and> (case ipv6_parts addr of None \<Rightarrow> False | Some parts \<Rightarrow> ipv6_groups parts))"

definition is_ip :: "string \<Rightarrow> bool" where
  "is_ip host = (ipv4_of_string host \<noteq> None \<or> is_ipv6 host)"

section \<open>\<open>urlsplit(url).hostname\<close>\<close>

text \<open>Leading control characters and blanks, tabs and line ends are dropped; the scheme is
  letters, digits and \<open>+-.\<close> before the first colon; the network location follows \<open>//\<close> up to
  \<open>/\<close>, \<open>?\<close> or \<open>#\<close>.\<close>

definition clean_url :: "string \<Rightarrow> string" where
  "clean_url url = filter (\<lambda>c. c \<notin> {CHR 0x09, CHR 0x0A, CHR 0x0D}) (dropWhile (\<lambda>c. of_char c \<le> (32 :: nat)) url)"

definition scheme_ok :: "string \<Rightarrow> bool" where
  "scheme_ok s = (s \<noteq> [] \<and> is_alpha (hd s) \<and> list_all (\<lambda>c. is_alpha c \<or> is_digit c \<or> c \<in> set ''+-.'') s)"

definition after_scheme :: "string \<Rightarrow> string" where
  "after_scheme url = (case py_partition (CHR '':'') url of (scheme, sep, rest) \<Rightarrow> if sep \<and> scheme_ok scheme then rest else url)"

definition netloc :: "string \<Rightarrow> string" where
  "netloc url0 =
     (let rest = after_scheme (clean_url url0)
      in if starts_with ''//'' rest then takeWhile (\<lambda>c. c \<notin> set ''/?#'') (drop 2 rest) else [])"

text \<open>What stands between brackets: an IPv6 address or an \<open>IPvFuture\<close>.\<close>

definition bracketed :: "string \<Rightarrow> string" where
  "bracketed loc = fst (py_partition (CHR '']'') (snd (snd (py_partition (CHR ''['') loc))))"

definition ip_future :: "string \<Rightarrow> bool" where
  "ip_future s =
     (case py_partition (CHR ''.'') (drop 1 s) of (ver, sep, rest) \<Rightarrow>
        sep \<and> rest \<noteq> [] \<and> ver \<noteq> [] \<and> list_all (\<lambda>c. c \<in> set ''0123456789abcdefABCDEF'') ver)"

definition brackets_ok :: "string \<Rightarrow> bool" where
  "brackets_ok loc =
     ((CHR ''['' \<in> set loc) = (CHR '']'' \<in> set loc)
      \<and> (CHR ''['' \<notin> set loc
         \<or> (if starts_with ''v'' (bracketed loc) then ip_future (bracketed loc) else is_ipv6 (bracketed loc))))"

definition after_at :: "string \<Rightarrow> string" where
  "after_at s = last (split_on (CHR ''@'') s)"

text \<open>Without the user part; the bracketed text, or the text before the port, in lower case.\<close>

definition url_hostname :: "string \<Rightarrow> exn + string option" where
  "url_hostname url =
     (let loc = netloc url
      in if \<not> brackets_ok loc then Inl (value_error ''Invalid IPv6 URL'')
         else let info = after_at loc;
                  host = (if CHR ''['' \<in> set info then bracketed info else fst (py_partition (CHR '':'') info))
              in Inr (if host = [] then None else Some (py_lower host)))"

section \<open>Names of a server\<close>

definition server_name :: "string \<Rightarrow> string" where
  "server_name server =
     (let name = (case py_partition (CHR '':'') server of (a, True, b) \<Rightarrow> b | (a, False, b) \<Rightarrow> a)
      in if is_ip name then name else fst (py_partition (CHR ''.'') name))"

definition pbs_location :: "string option \<Rightarrow> string \<Rightarrow> string \<Rightarrow> string" where
  "pbs_location host datastore namespace =
     ''pbs:'' @ py_lower (py_strip (opt_or host [])) @ ''/'' @ datastore @ (if namespace \<noteq> [] then ''/'' @ namespace else [])"

definition pve_location :: "string \<Rightarrow> string" where
  "pve_location storage_id = ''pve:'' @ storage_id"

text \<open>A URL without a host raises: \<open>None\<close> has no \<open>lower\<close>.\<close>

definition connection_host :: "'a pbs_conn_scheme \<Rightarrow> exn + string" where
  "connection_host c =
     (let url = opt_or (conn_api_url c) []
      in if py_in ''://'' url
         then rbind (url_hostname url) (\<lambda>r. case r of None \<Rightarrow> Inl attribute_error | Some h \<Rightarrow> Inr (py_lower h))
         else Inr (py_lower (fst (py_partition (CHR '':'') url))))"

definition connection_name :: "'a pbs_conn_scheme \<Rightarrow> exn + string" where
  "connection_name c =
     rmap (\<lambda>n. py_lower (py_strip n))
       (if truthy_str (conn_name c) then Inr (opt_or (conn_name c) []) else connection_host c)"

definition connection_location :: "'a pbs_conn_scheme \<Rightarrow> string \<Rightarrow> string \<Rightarrow> exn + string" where
  "connection_location c datastore namespace =
     rmap (\<lambda>n. ''pbs:'' @ n @ ''/'' @ datastore @ (if namespace \<noteq> [] then ''/'' @ namespace else [])) (connection_name c)"

definition names_of :: "string \<Rightarrow> string list" where
  "names_of host0 =
     (let host = py_lower (py_strip host0)
      in if host = [] then [] else if is_ip host then [host] else [host, fst (py_partition (CHR ''.'') host)])"

definition connection_names :: "'a pbs_conn_scheme \<Rightarrow> exn + string list" where
  "connection_names c =
     rbind (connection_host c) (\<lambda>h. rmap (\<lambda>n. names_of h @ [n] @ concat (map names_of (conn_aliases c))) (connection_name c))"

section \<open>Matching a storage to a registered server\<close>

definition meets :: "'a list \<Rightarrow> 'a list \<Rightarrow> bool" where
  "meets xs ys = list_ex (\<lambda>x. x \<in> set ys) xs"

fun first_named :: "string list \<Rightarrow> 'a pbs_conn_scheme list \<Rightarrow> exn + 'a pbs_conn_scheme option" where
  "first_named names [] = Inr None"
| "first_named names (c # cs) =
     rbind (connection_names c) (\<lambda>ns. if meets names ns then Inr (Some c) else first_named names cs)"

fun first_addressed :: "(string \<Rightarrow> string list) \<Rightarrow> string list \<Rightarrow> 'a pbs_conn_scheme list \<Rightarrow> exn + 'a pbs_conn_scheme option" where
  "first_addressed resolve addresses [] = Inr None"
| "first_addressed resolve addresses (c # cs) =
     rbind (connection_host c) (\<lambda>h.
       if list_ex (\<lambda>x. meets addresses (resolve x)) (h # conn_aliases c) then Inr (Some c)
       else first_addressed resolve addresses cs)"

definition match_pbs_connection :: "string \<Rightarrow> 'a pbs_conn_scheme list \<Rightarrow> (string \<Rightarrow> string list) \<Rightarrow> exn + 'a pbs_conn_scheme option" where
  "match_pbs_connection host conns resolve =
     rbind (first_named (names_of host) conns) (\<lambda>m. case m of
       Some c \<Rightarrow> Inr (Some c)
     | None \<Rightarrow>
         let addresses = (if host \<noteq> [] then resolve host else [])
         in if addresses \<noteq> [] then first_addressed resolve addresses conns else Inr None)"

text \<open>The location of a storage on the PBS server \<open>host\<close>: under the registered name, if there is one.\<close>

definition storage_location :: "string \<Rightarrow> string \<Rightarrow> string \<Rightarrow> 'a pbs_conn_scheme list \<Rightarrow> (string \<Rightarrow> string list) \<Rightarrow> exn + string" where
  "storage_location host datastore namespace conns resolve =
     rbind (match_pbs_connection host conns resolve) (\<lambda>m. case m of
       Some c \<Rightarrow> connection_location c datastore namespace
     | None \<Rightarrow> Inr (pbs_location (Some host) datastore namespace))"

text \<open>\<open>assign_pbs_servers\<close> on the PBS targets \<open>(server, datastore, namespace)\<close> of the events, with
  their present locations.\<close>

definition assign_pbs_servers ::
  "((string \<times> string \<times> string) option \<times> string) list \<Rightarrow> 'a pbs_conn_scheme list \<Rightarrow> (string \<Rightarrow> string list) \<Rightarrow> exn + string list" where
  "assign_pbs_servers evs conns resolve =
     rcollect (\<lambda>(target, loc). case target of
        None \<Rightarrow> Inr [loc]
      | Some (server, datastore, namespace) \<Rightarrow> rmap (\<lambda>l. [l]) (storage_location server datastore namespace conns resolve)) evs"

end
