(* ===== verification/RestoreOrchestrator.thy ===== *)
theory RestoreOrchestrator
  imports RestoreWorker RestoreAlloc RestorePack BackupLocation
begin

text \<open>
  The orchestrator of restore testing (\<open>app/services/restore_orchestrator.py\<close>): where a VM can
  be restored from, the plan of a run (source, snapshot, allocation, target storage or
  distribution over several), the queue's drainer, held environments and the recovery of
  stuck runs. The world is the worker's. \<open>resolve\<close> is the DNS lookup, \<open>notify\<close> the mail that
  is sent for a result; the settings are read where the code reads them, so that a change by
  the operator between two reads is a change of the world by the transports.
\<close>

record orch_config =
  oc_server :: server_config
  oc_ranges :: alloc_ranges
  oc_first_delay :: int
  oc_interval :: int
  oc_window :: int
  oc_rates :: "db \<Rightarrow> (string \<times> int) list option"

section \<open>Endpoints, locations and sources\<close>

definition url_host :: "string \<Rightarrow> string list" where
  "url_host url = (case rx_search HOST_RE url of None \<Rightarrow> [] | Some m \<Rightarrow> [py_lower (group_text m 1)])"

definition production_endpoints :: "db \<Rightarrow> string list" where
  "production_endpoints d =
     remdups (concat (map url_host (db_cluster_urls d @ map (\<lambda>c. opt_or (conn_api_url c) []) (db_pbs_conns d))))"

definition is_backup_of :: "int \<Rightarrow> backup_event \<Rightarrow> bool" where
  "is_backup_of vm e = (ev_vm e = vm \<and> ev_status e = ''ok'' \<and> \<not> ev_removed e \<and> opt_or (ev_size e) 0 > 1)"

definition vm_backup_locations :: "int \<Rightarrow> db \<Rightarrow> string list" where
  "vm_backup_locations vm d =
     remdups (filter (starts_with ''pbs:'') (concat (map ev_locations (filter (is_backup_of vm) (db_events d)))))"

definition host_entry_of :: "(string \<Rightarrow> string list) \<Rightarrow> pbs_conn list \<Rightarrow> pbs_storage \<Rightarrow> exn + host_entry list" where
  "host_entry_of resolve conns s =
     (case py_or (pbs_server s) (JStr []) of
        JStr srv \<Rightarrow>
          let host = py_lower (py_strip srv);
              ds = py_str (pbs_datastore s);
              ns = (if py_truth (pbs_namespace s) then py_str (pbs_namespace s) else [])
          in rbind (match_pbs_connection host conns resolve) (\<lambda>m.
             rmap (\<lambda>l. [\<lparr>location = l, entry_storage = pbs_name s, entry_pbs = host, entry_datastore = ds,
                        entry_namespace = ns, resolved = (m \<noteq> None)\<rparr>])
               (storage_location host ds ns conns resolve))
      | _ \<Rightarrow> Inl attribute_error)"

definition restore_host_pbs_entries :: "'h world transport \<Rightarrow> (string \<Rightarrow> string list) \<Rightarrow> ('h, host_entry list) wact" where
  "restore_host_pbs_entries tr resolve =
     bnd (from_db db_pbs_conns) (\<lambda>conns. bnd (list_pbs_storages tr) (\<lambda>l. lift_r (rcollect (host_entry_of resolve conns) l)))"

text \<open>\<open>(guest_ip, helper_sandbox_ip, prefix)\<close>\<close>

definition sandbox_alloc :: "string option \<Rightarrow> string option \<Rightarrow> server_config \<Rightarrow> exn + string option \<times> string option \<times> int" where
  "sandbox_alloc override ip cfg =
     (case (if truthy_str override then parse_cidr (opt_or override []) 24 else None) of
        Some (guest, p) \<Rightarrow> rmap (\<lambda>h. (Some guest, Some h, p)) (sandbox_host_ip guest p)
      | None \<Rightarrow>
          if truthy_str ip then rmap (\<lambda>(h, guest, p). (Some guest, Some h, int p)) (sandbox_fallback_addrs SANDBOX_FALLBACK_CIDR)
          else Inr (None, None, int (prefix_from_netmask (cfg_mgmt_netmask cfg))))"

section \<open>The target storage\<close>

datatype target_choice = TargetOk string | TargetRetry string | TargetTooBig

text \<open>\<open>d.get(k)\<close> of a dict whose values may be \<open>None\<close>.\<close>

definition opt_get :: "(string \<times> 'a option) list \<Rightarrow> string \<Rightarrow> 'a option" where
  "opt_get d k = Option.bind (map_of d k) id"

definition choose_target_storage ::
  "string list \<Rightarrow> (string \<times> int option) list \<Rightarrow> (string \<times> int option) list \<Rightarrow> int option \<Rightarrow> exn + target_choice" where
  "choose_target_storage ordered avail_by total_by needed_bytes = (case ordered of
       [] \<Rightarrow> Inl (PyError ''IndexError'' ''list index out of range'')
     | first # _ \<Rightarrow>
         let needed = opt_or needed_bytes 0
         in if \<not> truthy_int needed_bytes then Inr (TargetOk first)
            else case List.find (\<lambda>s. case opt_get avail_by s of None \<Rightarrow> False | Some a \<Rightarrow> a \<ge> needed) ordered of
                   Some s \<Rightarrow> Inr (TargetOk s)
                 | None \<Rightarrow>
                     if list_ex (\<lambda>s. case opt_get total_by s of None \<Rightarrow> True | Some c \<Rightarrow> c \<ge> needed) ordered
                     then Inr (TargetRetry first) else Inr TargetTooBig)"

section \<open>Candidates\<close>

text \<open>A row of VM, cluster and policy; a VM without a policy has no policy columns.\<close>

type_synonym candidate = "vm_row \<times> policy_row option"

definition candidate_for_vm :: "int \<Rightarrow> db \<Rightarrow> candidate option" where
  "candidate_for_vm vm d = List.find (\<lambda>(v, _). vm_id v = vm) (vms d)"

definition is_qemu :: "candidate \<Rightarrow> bool" where
  "is_qemu c = ((if truthy_str (guest_type (fst c)) then opt_or (guest_type (fst c)) [] else ''qemu'') = ''qemu'')"

definition cand_override :: "candidate \<Rightarrow> string option" where
  "cand_override c = Option.bind (snd c) probe_primary_ip"

definition cand_ports :: "candidate \<Rightarrow> int list" where
  "cand_ports c = (case snd c of None \<Rightarrow> [] | Some p \<Rightarrow> probe_tcp_ports p)"

text \<open>\<open>cand.get(k, default)\<close>: the key is there, with \<open>None\<close>, when the VM has no policy; the
  default only counts for a missing candidate.\<close>

definition cand_require :: "candidate option \<Rightarrow> bool" where
  "cand_require co = (case co of None \<Rightarrow> True | Some (_, None) \<Rightarrow> False | Some (_, Some p) \<Rightarrow> probe_require_icmp p)"

definition cand_hold :: "candidate option \<Rightarrow> bool" where
  "cand_hold co = (case co of Some (_, Some p) \<Rightarrow> hold_on_failure p | _ \<Rightarrow> False)"

definition cand_retry_days :: "candidate option \<Rightarrow> int option" where
  "cand_retry_days co = (case co of None \<Rightarrow> Some 7 | Some (_, None) \<Rightarrow> None | Some (_, Some p) \<Rightarrow> Some (restore_retry_days p))"

definition cand_time :: "(policy_row \<Rightarrow> int option) \<Rightarrow> candidate option \<Rightarrow> int \<Rightarrow> int" where
  "cand_time f co dflt = (let t = Option.bind (Option.bind co snd) f in if truthy_int t then opt_or t 0 else dflt)"

definition cand_label :: "candidate option \<Rightarrow> string" where
  "cand_label co = (case co of None \<Rightarrow> sandbox_name [] [] []
     | Some (v, _) \<Rightarrow> sandbox_name (opt_or (cluster_name v) []) (vm_name v) [])"

section \<open>The plan of a run\<close>

definition not_runnable :: "string \<Rightarrow> ('h, 'a) wact" where
  "not_runnable msg = raise (NotRunnable msg)"

definition vm_disk_rows :: "int \<Rightarrow> db \<Rightarrow> (string \<times> int option) list" where
  "vm_disk_rows vm d = map (\<lambda>k. (dk_dev k, dk_size k)) (filter (\<lambda>k. dk_vm k = vm) (db_disks d))"

definition vm_memory_bytes :: "int \<Rightarrow> db \<Rightarrow> int option" where
  "vm_memory_bytes vm d = Option.bind (candidate_for_vm vm d) (memory_bytes \<circ> fst)"

text \<open>\<open>f"{(needed_bytes or 0) / 1024**3:.0f}"\<close>\<close>

definition gb_text :: "int option \<Rightarrow> string" where
  "gb_text needed_bytes = string_of_int (round_half_even (fl64 (of_int (opt_or needed_bytes 0) / 1024 ^ 3)))"

text \<open>The dict of a packing in the order its entries were made: by falling size.\<close>

definition placement_items :: "(string \<times> int option) list \<Rightarrow> placement \<Rightarrow> (string \<times> string) list" where
  "placement_items dks res =
     concat (map (\<lambda>(dev, _). case res dev of None \<Rightarrow> [] | Some s \<Rightarrow> [(dev, s)])
       (sorted_desc snd (map (\<lambda>(dev, sz). (dev, opt_or sz 0)) dks)))"

text \<open>The entries of a dict that are not \<open>None\<close>, in the operator's order.\<close>

definition known :: "string list \<Rightarrow> (string \<times> int option) list \<Rightarrow> (string \<times> int) list" where
  "known ordered d = concat (map (\<lambda>s. case opt_get d s of None \<Rightarrow> [] | Some a \<Rightarrow> [(s, a)]) ordered)"

text \<open>\<open>(target_storage, disk_targets)\<close> of a guest that no single storage can hold.\<close>

definition distribute ::
  "string list \<Rightarrow> (string \<times> int option) list \<Rightarrow> (string \<times> int option) list \<Rightarrow> int option \<Rightarrow> (string \<times> int option) list
   \<Rightarrow> exn + string \<times> (string \<times> string) list option" where
  "distribute ordered avail_by total_by needed_bytes dks =
     (if dks = [] \<or> known ordered total_by = []
      then Inl (NotRunnable (''guest ('' @ gb_text needed_bytes @ '' GB) is larger than every target storage and its ''
             @ ''per-disk sizes are unknown '' @ em_dash @ '' cannot plan a distribution''))
      else case plan_distribution dks (known ordered avail_by) (known ordered total_by) of
             None \<Rightarrow> Inl (key_error ''disk'')
           | Some PackImpossible \<Rightarrow>
               Inl (NotRunnable (''guest ('' @ gb_text needed_bytes @ '' GB) cannot be placed: a disk is larger than every ''
                    @ ''target storage, or the disks together exceed the total capacity''))
           | Some PackRetry \<Rightarrow> Inr (hd ordered, None)
           | Some (PackOk res) \<Rightarrow>
               let items = placement_items dks res
               in Inr (case items of [] \<Rightarrow> hd ordered | (_, s) # _ \<Rightarrow> s, Some items))"

definition choose_storages ::
  "string list \<Rightarrow> (string \<times> int option) list \<Rightarrow> (string \<times> int option) list \<Rightarrow> int option \<Rightarrow> (string \<times> int option) list
   \<Rightarrow> exn + string \<times> (string \<times> string) list option" where
  "choose_storages ordered avail_by total_by needed_bytes dks =
     rbind (choose_target_storage ordered avail_by total_by needed_bytes) (\<lambda>c. case c of
       TargetTooBig \<Rightarrow> distribute ordered avail_by total_by needed_bytes dks
     | TargetOk s \<Rightarrow> Inr (s, None)
     | TargetRetry s \<Rightarrow> Inr (s, None))"

text \<open>The dicts of free space and capacity; a host that does not answer leaves them empty.\<close>

definition store_sizes :: "'h world transport \<Rightarrow> orch_config \<Rightarrow> ('h, (string \<times> int option) list \<times> (string \<times> int option) list) wact" where
  "store_sizes tr oc =
     catch (bnd (from_db (oc_rates oc)) (\<lambda>rates. bnd (free_resources tr (oc_server oc) rates) (\<lambda>res.
              ret (dict_of (map (\<lambda>s. (st_storage s, st_avail s)) (stores res)),
                   dict_of (map (\<lambda>s. (st_storage s, st_total s)) (stores res))))))
       (\<lambda>_. ret ([], []))"

definition ticked_storages :: "server_config \<Rightarrow> string list" where
  "ticked_storages cfg = map ts_storage (sort_key (\<lambda>t. opt_or (ts_order t) 0) (used_targets cfg))"

definition allocate_now :: "orch_config \<Rightarrow> ('h, allocation option) wact" where
  "allocate_now oc = bnd (from_db active_and_held_runs) (\<lambda>owned. lift_r (allocate (oc_ranges oc) owned))"

definition targets_of :: "string option \<Rightarrow> int list \<Rightarrow> int \<Rightarrow> probe_target list" where
  "targets_of guest ps p = (if truthy_str guest then [\<lparr>pt_ip = guest, pt_ports = ps, pt_prefix = p\<rparr>] else [])"

text \<open>The matched storage of the restore host and the snapshot that is restored from it.\<close>

definition find_source ::
  "'h world transport \<Rightarrow> (string \<Rightarrow> string list) \<Rightarrow> candidate \<Rightarrow> ('h, host_entry \<times> snapshot) wact" where
  "find_source tr resolve cand =
     (if \<not> is_qemu cand
      then not_runnable (''containers (LXC) are not supported yet '' @ em_dash @ '' VM restore only'')
      else bnd (from_db (vm_backup_locations (vm_id (fst cand)))) (\<lambda>locs.
           bnd (restore_host_pbs_entries tr resolve) (\<lambda>entries.
           case match_source locs entries of
             None \<Rightarrow> not_runnable ''not auto-restorable (no matching local datastore)''
           | Some m \<Rightarrow>
           bnd (list_snapshots tr (entry_storage m) (vmid (fst cand))) (\<lambda>snaps.
           case pick_latest_complete snaps of
             None \<Rightarrow> not_runnable ''no complete snapshot available''
           | Some snap \<Rightarrow> ret (m, snap)))))"

text \<open>The fields of the plan: entry, snapshot, allocation, sandbox addresses, storages, memory.\<close>

definition assemble ::
  "orch_config \<Rightarrow> candidate \<Rightarrow> host_entry \<Rightarrow> snapshot \<Rightarrow> allocation \<Rightarrow> string option \<times> string option \<times> int
   \<Rightarrow> string \<times> (string \<times> string) list option \<Rightarrow> int option \<Rightarrow> run_plan" where
  "assemble oc cand m snap a addrs target ram = (case addrs of (guest, sbx, pfx) \<Rightarrow>
     \<lparr>pl_vm_id = vm_id (fst cand), pl_restore_vmid = al_restore_vmid a, pl_helper_vmid = al_helper_vmid a,
      pl_vlan_tag = al_vlan_tag a, pl_mgmt_ip = al_mgmt_ip a,
      pl_source = \<lparr>src_storage = entry_storage m, src_vmid = Some (vmid (fst cand)), src_pbs = Some (entry_pbs m),
        src_datastore = Some (entry_datastore m), src_namespace = Some (entry_namespace m)\<rparr>,
      pl_snapshot_id = snap_id snap, pl_target_storage = fst target,
      pl_probe_targets = targets_of guest (cand_ports cand) pfx, pl_primary_ip = guest, pl_sandbox_ip = sbx,
      pl_sandbox_prefix = pfx, pl_guest_vlan = Option.bind (snd cand) probe_vlan,
      pl_probe_override = (if truthy_str (cand_override cand) then cand_override cand else None),
      pl_label = cand_label (Some cand), pl_require_icmp = cand_require (Some cand),
      pl_tcp_ports = cand_ports cand, pl_hold_on_failure = cand_hold (Some cand),
      pl_retry_days = cand_retry_days (Some cand),
      pl_first_delay = cand_time probe_first_delay_seconds (Some cand) (oc_first_delay oc),
      pl_interval = cand_time probe_interval_seconds (Some cand) (oc_interval oc),
      pl_window = cand_time probe_window_seconds (Some cand) (oc_window oc),
      pl_needed_bytes = snap_size snap, pl_needed_ram = ram, pl_disk_targets = snd target\<rparr>)"

definition plan_with ::
  "'h world transport \<Rightarrow> orch_config \<Rightarrow> candidate \<Rightarrow> host_entry \<Rightarrow> snapshot \<Rightarrow> allocation \<Rightarrow> ('h, run_plan) wact" where
  "plan_with tr oc cand m snap a =
     bnd (lift_r (sandbox_alloc (cand_override cand) (Some (al_mgmt_ip a)) (oc_server oc))) (\<lambda>addrs.
     if ticked_storages (oc_server oc) = []
     then not_runnable (''no target storage selected '' @ em_dash @ '' tick one in Settings '' @ right_arrow @ '' Restore'')
     else bnd (store_sizes tr oc) (\<lambda>(avail_by, total_by).
          bnd (from_db (vm_disk_rows (vm_id (fst cand)))) (\<lambda>dks.
          bnd (lift_r (choose_storages (ticked_storages (oc_server oc)) avail_by total_by (snap_size snap) dks)) (\<lambda>target.
          bnd (from_db (vm_memory_bytes (vm_id (fst cand)))) (\<lambda>ram. ret (assemble oc cand m snap a addrs target ram))))))"

definition build_plan ::
  "'h world transport \<Rightarrow> (string \<Rightarrow> string list) \<Rightarrow> orch_config \<Rightarrow> candidate \<Rightarrow> ('h, run_plan option) wact" where
  "build_plan tr resolve oc cand =
     bnd (find_source tr resolve cand) (\<lambda>(m, snap).
     bnd (allocate_now oc) (\<lambda>ao. case ao of
       None \<Rightarrow> ret None
     | Some a \<Rightarrow> bnd (plan_with tr oc cand m snap a) (\<lambda>p. ret (Some p))))"

section \<open>The queue\<close>

fun enqueue_each :: "host_entry list \<Rightarrow> (vm_row \<times> policy_row) list \<Rightarrow> int \<Rightarrow> ('h, int) wact" where
  "enqueue_each entries [] n = ret n"
| "enqueue_each entries ((v, p) # cs) n =
     (if \<not> is_qemu (v, Some p) then enqueue_each entries cs n
      else bnd (from_db (vm_backup_locations (vm_id v))) (\<lambda>locs.
           if is_auto_restorable locs entries
           then thn (on_db (\<lambda>d. snd (create_run (vm_id v) ''scheduled'' d))) (enqueue_each entries cs (n + 1))
           else enqueue_each entries cs n))"

definition enqueue_due :: "'h world transport \<Rightarrow> (string \<Rightarrow> string list) \<Rightarrow> ('h, int) wact" where
  "enqueue_due tr resolve =
     bnd (restore_host_pbs_entries tr resolve) (\<lambda>entries.
     bnd (from_db due_auto_restore_candidates) (\<lambda>cands. enqueue_each entries cands 0))"

text \<open>What each storage of a distributed run has to hold.\<close>

definition demand :: "(string \<times> int option) list \<Rightarrow> (string \<times> string) list \<Rightarrow> (string \<times> int) list" where
  "demand dks dts = fold (\<lambda>(dev, sz) acc. case map_of dts dev of
       None \<Rightarrow> acc
     | Some s \<Rightarrow> if s = [] then acc else dict_set s (opt_or (map_of acc s) 0 + opt_or sz 0) acc) dks []"

definition fits_disk_now :: "'h world transport \<Rightarrow> orch_config \<Rightarrow> run_plan \<Rightarrow> ('h, bool) wact" where
  "fits_disk_now tr oc plan =
     bnd (catch (bnd (from_db (oc_rates oc)) (\<lambda>rates. bnd (free_resources tr (oc_server oc) rates) (\<lambda>res.
            ret (Some (dict_of (map (\<lambda>s. (st_storage s, st_avail s)) (stores res))))))) (\<lambda>_. ret None)) (\<lambda>r. case r of
       None \<Rightarrow> ret True
     | Some avail \<Rightarrow> (case pl_disk_targets plan of
           Some (t # ts) \<Rightarrow> bnd (from_db (vm_disk_rows (pl_vm_id plan))) (\<lambda>dks.
             ret (list_all (\<lambda>(s, need). fits_disk (opt_get avail s) (Some need)) (demand dks (t # ts))))
         | _ \<Rightarrow> ret (fits_disk (opt_get avail (pl_target_storage plan)) (pl_needed_bytes plan))))"

definition fits_ram_now :: "'h world transport \<Rightarrow> orch_config \<Rightarrow> run_plan \<Rightarrow> ('h, bool) wact" where
  "fits_ram_now tr oc plan =
     catch (bnd (from_db (oc_rates oc)) (\<lambda>rates. bnd (free_resources tr (oc_server oc) rates) (\<lambda>res.
              ret (fits_ram (ram_free res) (ram_total res) (pl_needed_ram plan))))) (\<lambda>_. ret True)"


text \<open>The settings the drainer reads in every round.\<close>

definition PAUSED_KEY :: string where "PAUSED_KEY = ''restore_server.queue_paused''"
definition RUNNING_KEY :: string where "RUNNING_KEY = ''restore_server.perf_running''"

definition queue_paused :: "db \<Rightarrow> bool" where
  "queue_paused d = (map_of (db_settings d) PAUSED_KEY = Some ''1'')"

definition running_storage :: "db \<Rightarrow> string" where
  "running_storage d = opt_or (map_of (db_settings d) RUNNING_KEY) []"

definition plan_storages :: "run_plan \<Rightarrow> string list" where
  "plan_storages plan = (case pl_disk_targets plan of Some (t # ts) \<Rightarrow> map snd (t # ts) | _ \<Rightarrow> [pl_target_storage plan])"

definition notify_result :: "(int \<Rightarrow> string \<Rightarrow> ('h, unit) wact) \<Rightarrow> int \<Rightarrow> string \<Rightarrow> ('h, unit) wact" where
  "notify_result notify vm result =
     (if result \<in> {''passed'', ''limited''} then ret ()
      else quiet (bnd (from_db (candidate_for_vm vm)) (\<lambda>row. if row = None then ret () else notify vm result)))"

text \<open>A queue entry that cannot run leaves the queue as an error.\<close>

definition dequeue_error :: "run_row \<Rightarrow> run_checks option \<Rightarrow> ('h, unit) wact" where
  "dequeue_error run chk = on_db (\<lambda>d. snd (record_run_result (run_id run) (run_vm run) ''error'' 0 [] chk None (Some ''error'') d))"

text \<open>What becomes of one entry: it was executed, it is skipped or dequeued so that the next one
  is tried, or the whole queue waits.\<close>

datatype entry_end = Executed | NextEntry | QueueWaits

definition drain_entry ::
  "nat \<Rightarrow> 'h world transport \<Rightarrow> (string \<Rightarrow> string list) \<Rightarrow> (int \<Rightarrow> string \<Rightarrow> ('h, unit) wact) \<Rightarrow> orch_config \<Rightarrow> string list
   \<Rightarrow> run_row \<Rightarrow> ('h, entry_end) wact" where
  "drain_entry fuel tr resolve notify oc prod_hosts run =
     bnd (from_db (candidate_for_vm (run_vm run))) (\<lambda>co. case co of
       None \<Rightarrow> thn (dequeue_error run None) (ret NextEntry)
     | Some cand \<Rightarrow>
     bnd (catch (bnd (build_plan tr resolve oc cand) (\<lambda>p. ret (Inr p)))
            (\<lambda>e. case e of NotRunnable m \<Rightarrow> ret (Inl m) | _ \<Rightarrow> raise e)) (\<lambda>r. case r of
       Inl m \<Rightarrow> thn (dequeue_error run (Some (ErrorNote m))) (ret NextEntry)
     | Inr None \<Rightarrow> ret QueueWaits
     | Inr (Some plan) \<Rightarrow>
     bnd (fits_disk_now tr oc plan) (\<lambda>disk_ok. if \<not> disk_ok then ret NextEntry
     else bnd (fits_ram_now tr oc plan) (\<lambda>ram_ok. if \<not> ram_ok then ret NextEntry
     else bnd (from_db running_storage) (\<lambda>busy. if busy \<noteq> [] \<and> busy \<in> set (plan_storages plan) then ret NextEntry
     else bnd (execute_run fuel tr (oc_server oc) (run_id run) plan prod_hosts) (\<lambda>res.
          thn (notify_result notify (run_vm run) res) (ret Executed)))))))"

primrec drain_queue ::
  "nat \<Rightarrow> 'h world transport \<Rightarrow> (string \<Rightarrow> string list) \<Rightarrow> (int \<Rightarrow> string \<Rightarrow> ('h, unit) wact) \<Rightarrow> orch_config \<Rightarrow> string list
   \<Rightarrow> run_row list \<Rightarrow> ('h, entry_end) wact" where
  "drain_queue fuel tr resolve notify oc prod_hosts [] = ret NextEntry"
| "drain_queue fuel tr resolve notify oc prod_hosts (run # rest) =
     bnd (drain_entry fuel tr resolve notify oc prod_hosts run) (\<lambda>e. case e of
       NextEntry \<Rightarrow> drain_queue fuel tr resolve notify oc prod_hosts rest
     | _ \<Rightarrow> ret e)"

text \<open>\<open>rounds\<close> bounds the \<open>while True\<close>.\<close>

primrec drain_rounds ::
  "nat \<Rightarrow> nat \<Rightarrow> 'h world transport \<Rightarrow> (string \<Rightarrow> string list) \<Rightarrow> (int \<Rightarrow> string \<Rightarrow> ('h, unit) wact) \<Rightarrow> orch_config \<Rightarrow> string list
   \<Rightarrow> ('h, unit) wact" where
  "drain_rounds 0 fuel tr resolve notify oc prod_hosts = no_fuel"
| "drain_rounds (Suc k) fuel tr resolve notify oc prod_hosts =
     bnd (from_db queue_paused) (\<lambda>paused. if paused then ret ()
     else bnd (from_db has_active_run) (\<lambda>active. if active then ret ()
     else bnd (from_db list_queued_runs) (\<lambda>queued. if queued = [] then ret ()
     else bnd (drain_queue fuel tr resolve notify oc prod_hosts queued) (\<lambda>e.
          if e = Executed then drain_rounds k fuel tr resolve notify oc prod_hosts else ret ()))))"

definition drain ::
  "nat \<Rightarrow> nat \<Rightarrow> 'h world transport \<Rightarrow> (string \<Rightarrow> string list) \<Rightarrow> (int \<Rightarrow> string \<Rightarrow> ('h, unit) wact) \<Rightarrow> orch_config \<Rightarrow> ('h, unit) wact" where
  "drain rounds fuel tr resolve notify oc =
     bnd (from_db production_endpoints) (\<lambda>prod_hosts. drain_rounds rounds fuel tr resolve notify oc prod_hosts)"

section \<open>Held and stuck runs\<close>

definition plan_from_run :: "run_row \<Rightarrow> orch_config \<Rightarrow> db \<Rightarrow> exn + run_plan" where
  "plan_from_run run oc d =
     (let co = candidate_for_vm (run_vm run) d;
          override = Option.bind co cand_override;
          ps = (case co of None \<Rightarrow> [] | Some c \<Rightarrow> cand_ports c)
      in rmap (\<lambda>(guest, sbx, pfx).
           \<lparr>pl_vm_id = run_vm run, pl_restore_vmid = opt_or (restore_vmid run) 0, pl_helper_vmid = opt_or (helper_vmid run) 0,
            pl_vlan_tag = opt_or (vlan_tag run) 0, pl_mgmt_ip = opt_or (mgmt_ip run) [],
            pl_source = \<lparr>src_storage = [], src_vmid = map_option (vmid \<circ> fst) co, src_pbs = source_pbs run,
              src_datastore = source_datastore run, src_namespace = source_namespace run\<rparr>,
            pl_snapshot_id = opt_or (snapshot_id run) [],
            pl_target_storage = (case target_storages run of [] \<Rightarrow> [] | s # _ \<Rightarrow> s),
            pl_probe_targets = targets_of guest ps pfx, pl_primary_ip = guest, pl_sandbox_ip = sbx, pl_sandbox_prefix = pfx,
            pl_guest_vlan = Option.bind (Option.bind co snd) probe_vlan,
            pl_probe_override = (if truthy_str override then override else None),
            pl_label = cand_label co, pl_require_icmp = cand_require co, pl_tcp_ports = ps, pl_hold_on_failure = cand_hold co,
            pl_retry_days = cand_retry_days co,
            pl_first_delay = cand_time probe_first_delay_seconds co (oc_first_delay oc),
            pl_interval = cand_time probe_interval_seconds co (oc_interval oc),
            pl_window = cand_time probe_window_seconds co (oc_window oc),
            pl_needed_bytes = None, pl_needed_ram = None, pl_disk_targets = None\<rparr>)
         (sandbox_alloc override (mgmt_ip run) (oc_server oc)))"

definition plan_of_run :: "run_row \<Rightarrow> orch_config \<Rightarrow> ('h, run_plan) wact" where
  "plan_of_run run oc = bnd (from_db (plan_from_run run oc)) lift_r"

definition reprovision_and_retest ::
  "nat \<Rightarrow> 'h world transport \<Rightarrow> orch_config \<Rightarrow> int \<Rightarrow> run_row \<Rightarrow> ('h, restore_result \<times> run_plan) wact" where
  "reprovision_and_retest fuel tr oc rid run =
     bnd (plan_of_run run oc) (\<lambda>base. bnd (allocate_now oc) (\<lambda>ao. case ao of
       None \<Rightarrow> not_runnable ''no free management IP to re-provision the re-test helper''
     | Some a \<Rightarrow>
     bnd (from_db (candidate_for_vm (run_vm run))) (\<lambda>co.
     bnd (lift_r (sandbox_alloc (Option.bind co cand_override) (Some (al_mgmt_ip a)) (oc_server oc))) (\<lambda>(guest, sbx, pfx).
     let plan = base\<lparr>pl_helper_vmid := al_helper_vmid a, pl_mgmt_ip := al_mgmt_ip a,
                     pl_probe_targets := targets_of guest (pl_tcp_ports base) pfx, pl_primary_ip := guest,
                     pl_sandbox_ip := sbx, pl_sandbox_prefix := pfx\<rparr>
     in thn (set_run rid [F_helper_vmid (Some (al_helper_vmid a)), F_mgmt_ip (Some (al_mgmt_ip a))])
       (thn (provision_for fuel tr (oc_server oc) plan)
       (bnd (retest_held fuel tr rid plan) (\<lambda>res.
        if res = Passed then ret (res, plan)
        else thn (quiet (destroy tr (pl_helper_vmid plan) True))
            (thn (set_run rid [F_helper_vmid None, F_mgmt_ip None]) (ret (res, plan)))))))))) "

definition STUCK_RUN_GRACE_SECONDS :: int where "STUCK_RUN_GRACE_SECONDS = 180"

definition too_fresh :: "run_row \<Rightarrow> int \<Rightarrow> bool" where
  "too_fresh run t = (case started_at run of None \<Rightarrow> False
     | Some s \<Rightarrow> fl64 (of_int (t - s) / 1000000) < of_int STUCK_RUN_GRACE_SECONDS)"

definition still_alive :: "'h world transport \<Rightarrow> int list \<Rightarrow> run_row \<Rightarrow> ('h, bool) wact" where
  "still_alive tr present run =
     (if truthy_int (restore_vmid run) \<and> opt_or (restore_vmid run) 0 \<in> set present then ret True
      else if truthy_str (task_upid run) then task_running tr (opt_or (task_upid run) [])
      else ret False)"

definition recover_run :: "'h world transport \<Rightarrow> orch_config \<Rightarrow> int list \<Rightarrow> int \<Rightarrow> run_row \<Rightarrow> int \<Rightarrow> ('h, int) wact" where
  "recover_run tr oc present t run n =
     (if too_fresh run t then ret n
      else bnd (still_alive tr present run) (\<lambda>alive. if alive then ret n
      else thn (on_db (\<lambda>d. snd (request_cancel (run_id run) d)))
          (thn (quiet (bnd (plan_of_run run oc) (teardown tr)))
          (thn (dequeue_error run (Some (ErrorNote (''recovered: run was stuck '' @ quoted ''running''
                  @ '' with no environment on the host''))))
               (ret (n + 1))))))"

definition recover_stuck_runs :: "'h world transport \<Rightarrow> orch_config \<Rightarrow> ('h, int) wact" where
  "recover_stuck_runs tr oc =
     bnd (from_db (list_runs 500 (Some ''running'') 0 None None None)) (\<lambda>running.
     if running = [] then ret 0
     else bnd (catch (bnd (present_vmids tr) (\<lambda>p. ret (Some p))) (\<lambda>_. ret None)) (\<lambda>r. case r of
       None \<Rightarrow> ret 0
     | Some present \<Rightarrow> bnd (from_db clock) (\<lambda>t. foldact (recover_run tr oc present t) running 0)))"

text \<open>The entry point. \<open>cfg\<close> is what the settings hold, with the pinned host key.\<close>

definition run_restore_queue ::
  "nat \<Rightarrow> nat \<Rightarrow> 'h world transport \<Rightarrow> (string \<Rightarrow> string list) \<Rightarrow> (int \<Rightarrow> string \<Rightarrow> ('h, unit) wact) \<Rightarrow> orch_config option \<Rightarrow> ('h, unit) wact" where
  "run_restore_queue rounds fuel tr resolve notify cfg = (case cfg of
       None \<Rightarrow> ret ()
     | Some oc \<Rightarrow> quiet (
         bnd (recover_stuck_runs tr oc) (\<lambda>_. bnd (enqueue_due tr resolve) (\<lambda>_. drain rounds fuel tr resolve notify oc))))"

section \<open>Collecting guest addresses\<close>

record inventory_vm =
  iv_vmid :: int
  iv_node :: "string option"
  iv_type :: "string option"

text \<open>The VMs of a cluster that are tested automatically, by vmid.\<close>

definition enabled_vms :: "int \<Rightarrow> db \<Rightarrow> (int \<times> vm_row \<times> policy_row) list" where
  "enabled_vms cluster d = dict_of (concat (map (\<lambda>(v, po). case po of
       Some p \<Rightarrow> if vm_cluster v = cluster \<and> auto_restore_enabled p then [(vmid v, v, p)] else []
     | None \<Rightarrow> []) (vms d)))"

text \<open>\<open>vm.get(k, row[k])\<close>: a column that is missing keeps what the table has.\<close>

fun collect_each :: "(int \<times> vm_row \<times> policy_row) list \<Rightarrow> inventory_vm list \<Rightarrow> (string \<Rightarrow> exn + json) \<Rightarrow> db \<Rightarrow> db" where
  "collect_each enabled [] pve_get d = d"
| "collect_each enabled (i # is) pve_get d =
     (case map_of enabled (iv_vmid i) of
        None \<Rightarrow> collect_each enabled is pve_get d
      | Some (v, p) \<Rightarrow>
          (case set_network_interfaces (vm_id v)
                  (mark_primary (collect_for_vm (opt_or (iv_node i) (opt_or (vm_node v) [])) (iv_vmid i)
                     (opt_or (iv_type i) (opt_or (guest_type v) [])) pve_get) (probe_primary_ip p)) d of
             Inl _ \<Rightarrow> d
           | Inr d' \<Rightarrow> collect_each enabled is pve_get d'))"

text \<open>The first VM whose rows the table refuses ends the collection of the whole cluster.\<close>

definition collect_cluster_ips :: "int \<Rightarrow> inventory_vm list \<Rightarrow> (string \<Rightarrow> exn + json) \<Rightarrow> db \<Rightarrow> db" where
  "collect_cluster_ips cluster inventory pve_get d = collect_each (enabled_vms cluster d) inventory pve_get d"

end
