(* ===== verification/OrchestratorProps.thy ===== *)
theory OrchestratorProps imports RestoreOrchestrator WorkerProps begin

text \<open>
  What the orchestrator guarantees (\<open>app/services/restore_orchestrator.py\<close>): the plan of a run,
  the invariants of the queue (one running restore, environments that share nothing), when
  the drainer starts nothing, and what the recovery of stuck runs leaves alone.
\<close>

section \<open>What a step does to the table of runs\<close>

definition others :: "int \<Rightarrow> db \<Rightarrow> run_row list" where
  "others i d = filter (\<lambda>r. run_id r \<noteq> i) (runs d)"

lemma others_map: "(\<And>r. run_id (f r) = run_id r) \<Longrightarrow> filter (\<lambda>r. run_id r \<noteq> i) (map (\<lambda>r. if run_id r = i then f r else r) rs)
    = filter (\<lambda>r. run_id r \<noteq> i) rs"
  by (induction rs) auto

lemma others_update_run [simp]: "others i (update_run i fs d) = others i d"
  unfolding others_def runs_update_run by (rule others_map) simp

lemma others_record [simp]: "others i (snd (record_run_result i vm res secs nt chk lg st d)) = others i d"
  unfolding others_def runs_record_run_result by (rule others_map) simp

lemma others_next_run [simp]: "others i (set_vm_next_run vm a d) = others i d"
  by (simp add: others_def)

interpretation other_rows: run_keeps "\<lambda>w. others rid (wdb w) = R" "lifted wall t" "\<lambda>_. True" rid plan "\<lambda>_. True"
  for rid :: int and R and wall :: "'h \<Rightarrow> int" and t :: "'h transport" and plan :: run_plan
  by (intro run_keeps.intro run_keeps_axioms.intro worker_keeps.intro worker_keeps_axioms.intro running_keeps.intro running_keeps_axioms.intro lifted_keeps)
    (simp_all add: others_def [of _ "_\<lparr>clock := _\<rparr>"] list_all_iff, simp add: others_def)

text \<open>The run's own row holds at most the environment of its plan.\<close>

definition env_in :: "run_plan \<Rightarrow> run_row \<Rightarrow> bool" where
  "env_in plan r = (env_vmids r \<subseteq> {pl_restore_vmid plan, pl_helper_vmid plan}
     \<and> set_option (vlan_tag r) \<subseteq> {pl_vlan_tag plan} \<and> set_option (mgmt_ip r) \<subseteq> {pl_mgmt_ip plan})"

definition own_within :: "int \<Rightarrow> run_plan \<Rightarrow> db \<Rightarrow> bool" where
  "own_within i plan d = list_all (\<lambda>r. run_id r \<noteq> i \<or> env_in plan r) (runs d)"

fun shrinks :: "run_field \<Rightarrow> bool" where
  "shrinks (F_restore_vmid _) = False"
| "shrinks (F_helper_vmid x) = (x = None)"
| "shrinks (F_vlan_tag _) = False"
| "shrinks (F_mgmt_ip x) = (x = None)"
| "shrinks _ = True"

lemma set_field_within: "shrinks f \<Longrightarrow> env_in plan r \<Longrightarrow> env_in plan (set_field f r)"
  by (cases f) (auto simp: env_in_def env_vmids_def)

lemma fold_within: "list_all shrinks fs \<Longrightarrow> env_in plan r \<Longrightarrow> env_in plan (fold set_field (filter Q fs) r)"
  by (induction fs arbitrary: r) (auto simp: set_field_within)

lemma own_within_update:
  assumes "list_all shrinks fs" and "own_within i plan d"
  shows "own_within i plan (update_run i fs d)"
  unfolding own_within_def runs_update_run list.pred_map
  by (rule list.pred_mono_strong [OF assms(2) [unfolded own_within_def]]) (simp add: fold_within [OF assms(1)])

lemma own_within_record:
  assumes "own_within i plan d"
  shows "own_within i plan (snd (record_run_result i vm res secs nt chk lg st d))"
  unfolding own_within_def runs_record_run_result list.pred_map
  by (rule list.pred_mono_strong [OF assms [unfolded own_within_def]]) (simp add: env_in_def env_vmids_def)

interpretation own_row: worker_keeps "\<lambda>w. own_within rid plan (wdb w)" "lifted wall t" "\<lambda>_. True" rid plan shrinks
  for rid :: int and wall :: "'h \<Rightarrow> int" and t :: "'h transport" and plan :: run_plan
proof (intro worker_keeps.intro worker_keeps_axioms.intro running_keeps.intro running_keeps_axioms.intro lifted_keeps)
  fix w :: "'h world" and fs
  assume "list_all shrinks fs" "own_within rid plan (wdb w)"
  then show "own_within rid plan (wdb (w\<lparr>wdb := update_run rid fs (wdb w)\<rparr>))" by (simp add: own_within_update)
next
  fix w :: "'h world" and vm res secs nt chk lg st
  assume "own_within rid plan (wdb w)"
  then show "own_within rid plan (wdb (w\<lparr>wdb := snd (record_run_result rid vm res secs nt chk lg st (wdb w))\<rparr>))"
    by (simp add: own_within_record)
qed (simp_all add: own_within_def)

section \<open>Reading the host\<close>

text \<open>An action that only reads the tables: at most the clock goes on.\<close>

lemma lifted_reads: "transport_keeps (\<lambda>w. (wdb w)\<lparr>clock := 0\<rparr> = R) (lifted wall t) (\<lambda>_. True)"
  unfolding lifted_def by (rule via_keeps [OF transport_keeps_True]) simp_all

abbreviation reads :: "('h, 'a) wact \<Rightarrow> bool" where
  "reads m \<equiv> \<forall>R. keeps (\<lambda>w. (wdb w)\<lparr>clock := 0\<rparr> = R) m"

lemma reads_tables: "reads m \<Longrightarrow> m w = (r, w') \<Longrightarrow> (wdb w')\<lparr>clock := 0\<rparr> = (wdb w)\<lparr>clock := 0\<rparr>"
  using keepsD [of "\<lambda>v. (wdb v)\<lparr>clock := 0\<rparr> = (wdb w)\<lparr>clock := 0\<rparr>" m w r w'] by simp

lemma same_tables:
  assumes "d\<lparr>clock := 0\<rparr> = d'\<lparr>clock := 0\<rparr>"
  shows "runs d = runs d'" and "next_run_id d = next_run_id d'" and "vms d = vms d'" and "db_settings d = db_settings d'"
  using arg_cong [OF assms, of runs] arg_cong [OF assms, of next_run_id] arg_cong [OF assms, of vms] arg_cong [OF assms, of db_settings]
  by simp_all

lemma readsD: "reads m \<Longrightarrow> m w = (r, w') \<Longrightarrow> runs (wdb w') = runs (wdb w)"
  using reads_tables same_tables(1) by blast

lemma entries_read: "reads (restore_host_pbs_entries (lifted wall t) resolve)"
  unfolding restore_host_pbs_entries_def
  by (intro allI keeps_intro transport_keeps.list_pbs_keeps [OF lifted_reads] transport_keeps.list_snapshots_keeps [OF lifted_reads] transport_keeps.lift_r_keeps [OF lifted_reads])

lemma fits_read: "reads (fits_disk_now (lifted wall t) oc plan)" "reads (fits_ram_now (lifted wall t) oc plan)"
  unfolding fits_disk_now_def fits_ram_now_def
  by (intro allI keeps_intro transport_keeps.free_resources_keeps [OF lifted_reads])+

lemma sizes_read: "reads (store_sizes (lifted wall t) oc)"
  unfolding store_sizes_def by (intro allI keeps_intro transport_keeps.free_resources_keeps [OF lifted_reads])

lemma source_reads: "reads (find_source (lifted wall t) resolve cand)"
  unfolding find_source_def not_runnable_def
  by (intro allI keeps_intro transport_keeps.list_snapshots_keeps [OF lifted_reads])
    (use entries_read in blast)+

lemma plan_with_reads: "reads (plan_with (lifted wall t) oc cand m snap a)"
  unfolding plan_with_def not_runnable_def
  by (intro allI keeps_intro transport_keeps.lift_r_keeps [OF lifted_reads]) (use sizes_read in blast)+

lemma allocate_reads: "reads (allocate_now oc)"
  unfolding allocate_now_def lift_r_def by (intro allI keeps_intro)

lemma plan_reads: "reads (build_plan (lifted wall t) resolve oc cand)"
  unfolding build_plan_def by (intro allI keeps_intro) (use source_reads allocate_reads plan_with_reads in blast)+

text \<open>The environment of a plan comes from the allocator, applied to the rows of that moment.\<close>

definition allocated :: "alloc_ranges \<Rightarrow> db \<Rightarrow> run_plan \<Rightarrow> bool" where
  "allocated c d plan =
     (case allocate c (active_and_held_runs d) of
        Inr (Some a) \<Rightarrow> pl_restore_vmid plan = al_restore_vmid a \<and> pl_helper_vmid plan = al_helper_vmid a
          \<and> pl_vlan_tag plan = al_vlan_tag a \<and> pl_mgmt_ip plan = al_mgmt_ip a
      | _ \<Rightarrow> False)"

lemma active_and_held_cong: "runs d = runs d' \<Longrightarrow> active_and_held_runs d = active_and_held_runs d'"
  by (simp add: active_and_held_runs_def)

lemma allocated_cong: "runs d = runs d' \<Longrightarrow> allocated c d plan = allocated c d' plan"
  by (simp add: allocated_def active_and_held_runs_def)


lemma allocate_now_Ret:
  assumes "allocate_now oc w = (Ret ao, w')"
  shows "allocate (oc_ranges oc) (active_and_held_runs (wdb w)) = Inr ao \<and> w' = w"
  using assms unfolding allocate_now_def
  by (auto simp: from_db_def bnd_def act_simps lift_r_def split: sum.splits)

lemma plan_with_Ret:
  assumes "plan_with tr oc cand m snap a w = (Ret p, w')"
  obtains addrs avail_by total_by dks target ram w1 w2
  where "sandbox_alloc (cand_override cand) (Some (al_mgmt_ip a)) (oc_server oc) = Inr addrs"
    and "store_sizes tr oc w1 = (Ret (avail_by, total_by), w2)"
    and "ticked_storages (oc_server oc) \<noteq> []"
    and "choose_storages (ticked_storages (oc_server oc)) avail_by total_by (snap_size snap) dks = Inr target"
    and "p = assemble oc cand m snap a addrs target ram"
proof -
  let ?ts = "ticked_storages (oc_server oc)"
  from assms obtain addrs w1 where addrs: "lift_r (sandbox_alloc (cand_override cand) (Some (al_mgmt_ip a)) (oc_server oc)) w = (Ret addrs, w1)"
    and r1: "(if ?ts = [] then not_runnable (''no target storage selected '' @ em_dash @ '' tick one in Settings '' @ right_arrow @ '' Restore'')
     else bnd (store_sizes tr oc) (\<lambda>(avail_by, total_by).
          bnd (from_db (vm_disk_rows (vm_id (fst cand)))) (\<lambda>dks.
          bnd (lift_r (choose_storages ?ts avail_by total_by (snap_size snap) dks)) (\<lambda>target.
          bnd (from_db (vm_memory_bytes (vm_id (fst cand)))) (\<lambda>ram. ret (assemble oc cand m snap a addrs target ram)))))) w1 = (Ret p, w')"
    unfolding plan_with_def by (rule bnd_RetE)
  from r1 have ne: "?ts \<noteq> []" by (auto simp: not_runnable_def act_simps)
  from r1 [unfolded if_not_P [OF ne]] obtain av tot w2 where sizes: "store_sizes tr oc w1 = (Ret (av, tot), w2)"
    and r2: "bnd (from_db (vm_disk_rows (vm_id (fst cand)))) (\<lambda>dks.
          bnd (lift_r (choose_storages ?ts av tot (snap_size snap) dks)) (\<lambda>target.
          bnd (from_db (vm_memory_bytes (vm_id (fst cand)))) (\<lambda>ram. ret (assemble oc cand m snap a addrs target ram)))) w2 = (Ret p, w')"
    by - (erule bnd_RetE, fastforce)
  from r2 obtain dks w3 where r3: "bnd (lift_r (choose_storages ?ts av tot (snap_size snap) dks)) (\<lambda>target.
          bnd (from_db (vm_memory_bytes (vm_id (fst cand)))) (\<lambda>ram. ret (assemble oc cand m snap a addrs target ram))) w3 = (Ret p, w')"
    by (rule bnd_RetE)
  from r3 obtain target w4 where target: "lift_r (choose_storages ?ts av tot (snap_size snap) dks) w3 = (Ret target, w4)"
    and r4: "bnd (from_db (vm_memory_bytes (vm_id (fst cand)))) (\<lambda>ram. ret (assemble oc cand m snap a addrs target ram)) w4 = (Ret p, w')"
    by (rule bnd_RetE)
  from r4 obtain ram where "p = assemble oc cand m snap a addrs target ram"
    by - (erule bnd_RetE, fastforce simp: act_simps)
  then show thesis
    using that [of addrs w1 av tot w2 dks target ram] addrs sizes ne target by (simp add: lift_r_def act_simps split: sum.splits)
qed

lemma build_plan_Some:
  assumes "build_plan tr resolve oc cand w = (Ret (Some p), w')"
  obtains m snap w1 a w2 addrs target ram
  where "find_source tr resolve cand w = (Ret (m, snap), w1)"
    and "allocate (oc_ranges oc) (active_and_held_runs (wdb w1)) = Inr (Some a)"
    and "plan_with tr oc cand m snap a w1 = (Ret p, w')"
    and "p = assemble oc cand m snap a addrs target ram"
proof -
  from assms obtain x w1 where x: "find_source tr resolve cand w = (Ret x, w1)"
    and "(case x of (m, snap) \<Rightarrow> bnd (allocate_now oc) (\<lambda>ao. case ao of
       None \<Rightarrow> ret None | Some a \<Rightarrow> bnd (plan_with tr oc cand m snap a) (\<lambda>p. ret (Some p)))) w1 = (Ret (Some p), w')"
    unfolding build_plan_def by (rule bnd_RetE)
  moreover obtain m snap where "x = (m, snap)" by (cases x)
  ultimately have rest: "bnd (allocate_now oc) (\<lambda>ao. case ao of
       None \<Rightarrow> ret None | Some a \<Rightarrow> bnd (plan_with tr oc cand m snap a) (\<lambda>p. ret (Some p))) w1 = (Ret (Some p), w')"
    and src: "find_source tr resolve cand w = (Ret (m, snap), w1)" by simp_all
  from rest obtain ao u where ao: "allocate_now oc w1 = (Ret ao, u)"
    and rest2: "(case ao of None \<Rightarrow> ret None | Some a \<Rightarrow> bnd (plan_with tr oc cand m snap a) (\<lambda>p. ret (Some p))) u = (Ret (Some p), w')"
    by (rule bnd_RetE)
  then obtain a where a: "ao = Some a" by (cases ao) (simp_all add: act_simps)
  then obtain q v where "plan_with tr oc cand m snap a u = (Ret q, v)" "ret (Some q) v = (Ret (Some p), w')"
    using rest2 by (simp, elim bnd_RetE)
  then have pw: "plan_with tr oc cand m snap a w1 = (Ret p, w')" using allocate_now_Ret [OF ao] by (simp add: act_simps)
  obtain addrs target ram where "p = assemble oc cand m snap a addrs target ram" using plan_with_Ret [OF pw] by blast
  then show thesis using that src allocate_now_Ret [OF ao] a pw by blast
qed

lemma plan_allocated:
  assumes "build_plan (lifted wall t) resolve oc cand w = (Ret (Some p), w')"
  shows "allocated (oc_ranges oc) (wdb w) p \<and> runs (wdb w') = runs (wdb w)"
proof -
  obtain m snap w1 a w2 addrs target ram where
    "find_source (lifted wall t) resolve cand w = (Ret (m, snap), w1)"
    and a: "allocate (oc_ranges oc) (active_and_held_runs (wdb w1)) = Inr (Some a)"
    and p: "p = assemble oc cand m snap a addrs target ram"
    using build_plan_Some [OF assms] by metis
  then have "runs (wdb w1) = runs (wdb w)" using readsD [OF source_reads] by blast
  then have "allocate (oc_ranges oc) (active_and_held_runs (wdb w)) = Inr (Some a)"
    using a active_and_held_cong by metis
  then show ?thesis
    using readsD [OF plan_reads assms] p by (simp add: allocated_def assemble_def split: prod.splits)
qed

end
