(* ===== verification/Triples.thy ===== *)
theory Triples imports PyEffects begin

text \<open>
  Triples for actions with exceptions: from a state with \<open>P\<close>, the action returns with \<open>Q\<close>, or
  it raises or runs out of fuel in a state with \<open>E\<close>.
\<close>

definition ends :: "('s \<Rightarrow> bool) \<Rightarrow> ('s, 'a) act \<Rightarrow> ('a \<Rightarrow> 's \<Rightarrow> bool) \<Rightarrow> ('s \<Rightarrow> bool) \<Rightarrow> bool" where
  "ends P m Q E = (\<forall>s. P s \<longrightarrow> (case m s of (Ret a, t) \<Rightarrow> Q a t | (Exc e, t) \<Rightarrow> E t | (NoFuel, t) \<Rightarrow> E t))"

lemma endsI:
  assumes "\<And>s a t. P s \<Longrightarrow> m s = (Ret a, t) \<Longrightarrow> Q a t" and "\<And>s e t. P s \<Longrightarrow> m s = (Exc e, t) \<Longrightarrow> E t"
    and "\<And>s t. P s \<Longrightarrow> m s = (NoFuel, t) \<Longrightarrow> E t"
  shows "ends P m Q E"
  using assms by (fastforce simp: ends_def split: prod.splits outcome.splits)

lemma endsD: "ends P m Q E \<Longrightarrow> P s \<Longrightarrow> case m s of (Ret a, t) \<Rightarrow> Q a t | (Exc e, t) \<Rightarrow> E t | (NoFuel, t) \<Rightarrow> E t"
  by (simp add: ends_def)

lemma ends_Ret: "ends P m Q E \<Longrightarrow> P s \<Longrightarrow> m s = (Ret a, t) \<Longrightarrow> Q a t"
  by (fastforce simp: ends_def)

lemma ends_fail: "ends P m Q E \<Longrightarrow> P s \<Longrightarrow> m s = (r, t) \<Longrightarrow> \<forall>a. r \<noteq> Ret a \<Longrightarrow> E t"
  by (cases r) (fastforce simp: ends_def)+

lemma ends_bnd:
  assumes "ends P m R E" and "\<And>a. ends (R a) (f a) Q E"
  shows "ends P (bnd m f) Q E"
proof (rule endsI)
  fix s a t assume "P s" "bnd m f s = (Ret a, t)"
  then show "Q a t" using assms by (auto elim!: bnd_cases dest: ends_Ret)
next
  fix s e t assume "P s" "bnd m f s = (Exc e, t)"
  then show "E t" using assms by (fastforce elim!: bnd_cases dest: ends_Ret ends_fail)
next
  fix s t assume "P s" "bnd m f s = (NoFuel, t)"
  then show "E t" using assms by (fastforce elim!: bnd_cases dest: ends_Ret ends_fail)
qed

lemma ends_thn: "ends P m (\<lambda>_. R) E \<Longrightarrow> ends R k Q E \<Longrightarrow> ends P (thn m k) Q E"
  unfolding thn_def by (rule ends_bnd)

lemma ends_ret: "(\<And>s. P s \<Longrightarrow> Q x s) \<Longrightarrow> ends P (ret x) Q E"
  by (simp add: ends_def act_simps)

lemma ends_raise: "(\<And>s. P s \<Longrightarrow> E s) \<Longrightarrow> ends P (raise e) Q E"
  by (simp add: ends_def act_simps)

lemma ends_no_fuel: "(\<And>s. P s \<Longrightarrow> E s) \<Longrightarrow> ends P no_fuel Q E"
  by (simp add: ends_def act_simps)

lemma ends_gets: "(\<And>s. P s \<Longrightarrow> Q (f s) s) \<Longrightarrow> ends P (gets f) Q E"
  by (simp add: ends_def act_simps)

lemma ends_modify: "(\<And>s. P s \<Longrightarrow> Q () (f s)) \<Longrightarrow> ends P (modify f) Q E"
  by (simp add: ends_def act_simps)

lemma ends_if: "(b \<Longrightarrow> ends P m Q E) \<Longrightarrow> (\<not> b \<Longrightarrow> ends P k Q E) \<Longrightarrow> ends P (if b then m else k) Q E"
  by simp

lemma ends_catch: "ends P m Q R \<Longrightarrow> (\<And>e. ends R (h e) Q E) \<Longrightarrow> (\<And>s. R s \<Longrightarrow> E s) \<Longrightarrow> ends P (catch m h) Q E"
  by (fastforce simp: ends_def catch_def split: prod.splits outcome.splits)

lemma ends_weaken:
  "ends P' m Q' E' \<Longrightarrow> (\<And>s. P s \<Longrightarrow> P' s) \<Longrightarrow> (\<And>a s. Q' a s \<Longrightarrow> Q a s) \<Longrightarrow> (\<And>s. E' s \<Longrightarrow> E s) \<Longrightarrow> ends P m Q E"
  by (fastforce simp: ends_def split: prod.splits outcome.splits)

lemma ends_keeps: "keeps I m \<Longrightarrow> ends I m (\<lambda>_. I) I"
  by (auto intro!: endsI dest: keepsD)

lemma ends_keepsI:
  "keeps I m \<Longrightarrow> (\<And>s. P s \<Longrightarrow> I s) \<Longrightarrow> (\<And>a s. I s \<Longrightarrow> Q a s) \<Longrightarrow> (\<And>s. I s \<Longrightarrow> E s) \<Longrightarrow> ends P m Q E"
  by (rule ends_weaken [OF ends_keeps])

lemma keeps_ends: "ends I m (\<lambda>_. I) I \<Longrightarrow> keeps I m"
  by (rule keepsI) (metis ends_Ret ends_fail)

end
