(* ===== verification/QueueProps.thy ===== *)
theory QueueProps imports OrchestratorProps Triples begin

text \<open>
  The invariant of the restore queue: at most one run is running, and the environments of all
  running and held runs share nothing. A pass of the scheduler (recovery of stuck runs,
  queueing of due VMs, the drainer) keeps it, whatever the host answers.
\<close>

section \<open>The invariant\<close>

definition one_slot :: "db \<Rightarrow> bool" where
  "one_slot d = (\<forall>r\<in>set (runs d). \<forall>q\<in>set (runs d). status r = ''running'' \<longrightarrow> status q = ''running'' \<longrightarrow> run_id r = run_id q)"

definition tidy :: "db \<Rightarrow> bool" where
  "tidy d = (environments_apart d \<and> one_slot d)"

definition idle :: "db \<Rightarrow> bool" where
  "idle d = (environments_apart d \<and> \<not> has_active_run d)"

lemma idle_tidy: "idle d \<Longrightarrow> tidy d"
  by (auto simp: idle_def tidy_def one_slot_def has_active_run_def list_ex_iff)

lemma tidy_idle: "tidy d \<Longrightarrow> \<not> has_active_run d \<Longrightarrow> idle d"
  by (simp add: idle_def tidy_def)

lemma owners_cong: "runs d = runs d' \<Longrightarrow> owners d = owners d'"
  by (simp add: owners_def)

lemma queue_cong:
  assumes "runs d = runs d'"
  shows "tidy d = tidy d'" and "idle d = idle d'"
  using owners_cong [OF assms] assms
  by (simp_all add: tidy_def idle_def environments_apart_def one_slot_def has_active_run_def)

text \<open>Owners may give back what they own, or stop being owners.\<close>

lemma environments_apart_shrink:
  assumes "environments_apart d"
    and "\<And>r'. r' \<in> owners d' \<Longrightarrow> \<exists>r\<in>owners d. run_id r = run_id r' \<and> env_vmids r' \<subseteq> env_vmids r
           \<and> vlan_tag r' = vlan_tag r \<and> mgmt_ip r' = mgmt_ip r"
  shows "environments_apart d'"
  unfolding environments_apart_def
proof (intro ballI impI)
  fix r' q' assume "r' \<in> owners d'" "q' \<in> owners d'" and ne: "run_id r' \<noteq> run_id q'"
  then obtain r q where r: "r \<in> owners d" "run_id r = run_id r'" "env_vmids r' \<subseteq> env_vmids r" "vlan_tag r' = vlan_tag r" "mgmt_ip r' = mgmt_ip r"
    and q: "q \<in> owners d" "run_id q = run_id q'" "env_vmids q' \<subseteq> env_vmids q" "vlan_tag q' = vlan_tag q" "mgmt_ip q' = mgmt_ip q"
    using assms(2) by meson
  then have "apart r q" using assms(1) ne by (metis environments_apart_def)
  then show "apart r' q'" using r(3-) q(3-) by (auto simp: apart_def)
qed

lemma tidy_map:
  assumes "runs d' = map f (runs d)"
    and "\<And>r. run_id (f r) = run_id r \<and> env_vmids (f r) = env_vmids r \<and> vlan_tag (f r) = vlan_tag r \<and> mgmt_ip (f r) = mgmt_ip r"
    and "\<And>r. status (f r) = status r \<or> status (f r) \<notin> {''running'', ''held''}"
  shows "tidy d \<Longrightarrow> tidy d'" and "idle d \<Longrightarrow> idle d'"
proof -
  have apart: "environments_apart d'" if "environments_apart d"
  proof (rule environments_apart_shrink [OF that])
    fix r' assume "r' \<in> owners d'"
    then obtain r where "r \<in> set (runs d)" "r' = f r" "status r' \<in> {''running'', ''held''}" by (auto simp: owners_def assms(1))
    then show "\<exists>r\<in>owners d. run_id r = run_id r' \<and> env_vmids r' \<subseteq> env_vmids r \<and> vlan_tag r' = vlan_tag r \<and> mgmt_ip r' = mgmt_ip r"
      using assms(2,3) [of r] by (intro bexI [of _ r]) (auto simp: owners_def)
  qed
  have running: "status (f r) = ''running'' \<Longrightarrow> status r = ''running''" for r using assms(3) [of r] by auto
  have slot: "one_slot d'" if d: "one_slot d"
    unfolding one_slot_def assms(1) set_map
  proof (intro ballI impI)
    fix r' q' assume "r' \<in> f ` set (runs d)" "q' \<in> f ` set (runs d)" and st: "status r' = ''running''" "status q' = ''running''"
    then obtain r q where rq: "r \<in> set (runs d)" "q \<in> set (runs d)" "r' = f r" "q' = f q" by blast
    then have "run_id r = run_id q" using d running st unfolding one_slot_def by blast
    then show "run_id r' = run_id q'" using assms(2) rq(3,4) by metis
  qed
  show "tidy d'" if "tidy d" using that apart slot by (simp add: tidy_def)
  show "idle d'" if "idle d"
    using that apart running unfolding idle_def has_active_run_def assms(1) by (auto simp: list_ex_iff)
qed

section \<open>Entries that leave the queue\<close>

lemma dequeue_keeps: "keeps (\<lambda>w. tidy (wdb w)) (dequeue_error run chk)" "keeps (\<lambda>w. idle (wdb w)) (dequeue_error run chk)"
proof -
  let ?f = "\<lambda>d r. if run_id r = run_id run then finished_row ''error'' ''error'' 0 None (clock d) chk None r else r"
  have runs: "runs (snd (record_run_result (run_id run) (run_vm run) ''error'' 0 [] chk None (Some ''error'') d)) = map (?f d) (runs d)" for d
    by (simp add: runs_record_run_result COUNTS_AS_TEST_def)
  have f: "run_id (?f d r) = run_id r \<and> env_vmids (?f d r) = env_vmids r \<and> vlan_tag (?f d r) = vlan_tag r \<and> mgmt_ip (?f d r) = mgmt_ip r"
    "status (?f d r) = status r \<or> status (?f d r) \<notin> {''running'', ''held''}" for d r
    by (auto simp: env_vmids_def)
  show "keeps (\<lambda>w. tidy (wdb w)) (dequeue_error run chk)" "keeps (\<lambda>w. idle (wdb w)) (dequeue_error run chk)"
    unfolding dequeue_error_def
    using tidy_map [OF runs f] by (auto intro!: keepsI simp: on_db_app)
qed

section \<open>A run that is executed\<close>

lemma allocated_apart:
  assumes "allocated c d plan" and "env_in plan r" and "q \<in> owners d"
  shows "apart r q"
proof -
  obtain a where a: "allocate c (active_and_held_runs d) = Inr (Some a)"
    and p: "pl_restore_vmid plan = al_restore_vmid a" "pl_helper_vmid plan = al_helper_vmid a"
      "pl_vlan_tag plan = al_vlan_tag a" "pl_mgmt_ip plan = al_mgmt_ip a"
    using assms(1) by (auto simp: allocated_def split: sum.splits option.splits)
  have "q \<in> set (active_and_held_runs d)" using assms(3) by (simp add: owners_def set_active_and_held)
  then have "apart (give a r) q" by (rule restore_allocator.fresh [OF a])
  then show ?thesis using assms(2) p by (auto simp: apart_def give_def env_in_def env_vmids_def)
qed

lemma set_others: "r \<in> set (runs d) \<Longrightarrow> run_id r \<noteq> i \<Longrightarrow> r \<in> set (others i d)"
  "r \<in> set (others i d) \<Longrightarrow> r \<in> set (runs d)"
  by (simp_all add: others_def)

text \<open>Whatever the run does to its own row within its plan, the queue stays tidy.\<close>

lemma tidy_of_parts:
  assumes d: "idle d" and alloc: "allocated c d plan" and oth: "others i d' = others i d" and own: "own_within i plan d'"
  shows "tidy d'"
proof -
  have old: "r \<in> owners d" if "r \<in> owners d'" "run_id r \<noteq> i" for r
  proof -
    have "r \<in> set (others i d')" using that by (simp add: owners_def others_def)
    then have "r \<in> set (runs d)" unfolding oth by (rule set_others)
    then show ?thesis using that by (simp add: owners_def)
  qed
  have new: "env_in plan r" if "r \<in> owners d'" "run_id r = i" for r
    using that own by (auto simp: owners_def own_within_def list_all_iff)
  have "environments_apart d'"
    unfolding environments_apart_def
  proof (intro ballI impI)
    fix r q assume rq: "r \<in> owners d'" "q \<in> owners d'" "run_id r \<noteq> run_id q"
    show "apart r q"
    proof (cases "run_id r = i")
      case True
      then show ?thesis using allocated_apart [OF alloc new [OF rq(1)] old [OF rq(2)]] rq(3) by simp
    next
      case r: False
      show ?thesis
      proof (cases "run_id q = i")
        case True
        then show ?thesis using allocated_apart [OF alloc new [OF rq(2)] old [OF rq(1) r]] apart_sym by simp
      next
        case False
        then show ?thesis using d old [OF rq(1) r] old [OF rq(2)] rq(3) by (simp add: idle_def environments_apart_def)
      qed
    qed
  qed
  moreover have "run_id r = i" if "r \<in> set (runs d')" "status r = ''running''" for r
  proof (rule ccontr)
    assume "run_id r \<noteq> i"
    then have "r \<in> set (runs d)" using that(1) oth set_others by metis
    then show False using d that(2) by (auto simp: idle_def has_active_run_def list_ex_iff)
  qed
  ultimately show ?thesis by (simp add: tidy_def one_slot_def)
qed

lemma started_within: "own_within i plan (update_run i (started_fields plan t) d)"
  unfolding own_within_def runs_update_run list.pred_map
  by (simp add: list_all_iff started_fields_def UPDATABLE_def env_in_def env_vmids_def)

abbreviation running_parts :: "int \<Rightarrow> run_plan \<Rightarrow> run_row list \<Rightarrow> 'h world \<Rightarrow> bool" where
  "running_parts i plan R w \<equiv> others i (wdb w) = R \<and> own_within i plan (wdb w)"

lemma run_to_end_parts:
  "keeps (running_parts i plan R) (run_to_end fuel (lifted wall t) cfg i plan ph (default_probe (lifted wall t) plan) (cancel_of i) t0)"
proof -
  let ?m = "run_to_end fuel (lifted wall t) cfg i plan ph (default_probe (lifted wall t) plan) (cancel_of i) t0"
  have "keeps (\<lambda>w. others i (wdb w) = R) ?m"
    by (rule other_rows.run_to_end_keeps) (simp_all add: other_rows.default_probe_keeps cancel_of_def keeps_from_db)
  moreover have "keeps (\<lambda>w. own_within i plan (wdb w)) ?m"
    by (rule own_row.run_to_end_keeps) (simp_all add: own_row.default_probe_keeps cancel_of_def keeps_from_db)
  ultimately show ?thesis by (simp add: keeps_def)
qed

lemma readsI: "reads m \<Longrightarrow> (\<And>d d'. runs d = runs d' \<Longrightarrow> J d = J d') \<Longrightarrow> keeps (\<lambda>w. J (wdb w)) m"
  by (rule keepsI) (use readsD in blast)

lemma now_reads: "reads (tr_now (lifted wall t))"
  using transport_keeps.now_keeps [OF lifted_reads] by blast

lemma execute_tidy:
  "ends (\<lambda>w. idle (wdb w) \<and> allocated c (wdb w) plan) (execute_run fuel (lifted wall t) cfg i plan ph)
     (\<lambda>_ w. tidy (wdb w)) (\<lambda>w. tidy (wdb w))"
proof -
  let ?J = "\<lambda>d. idle d \<and> allocated c d plan"
  let ?E = "\<lambda>w. tidy (wdb w)"
  have now: "ends (\<lambda>w. ?J (wdb w)) (tr_now (lifted wall t)) (\<lambda>_ w. ?J (wdb w)) ?E"
    by (rule ends_keepsI [OF readsI [OF now_reads, of ?J]]) (use queue_cong allocated_cong idle_tidy in blast)+
  have main: "ends (\<lambda>w. ?J (wdb w)) (thn (on_db (\<lambda>d. update_run i (started_fields plan (clock d)) d))
        (run_to_end fuel (lifted wall t) cfg i plan ph (default_probe (lifted wall t) plan) (cancel_of i) t0)) (\<lambda>_. ?E) ?E" for t0
  proof -
    have "ends (\<lambda>w. w = w0) (thn (on_db (\<lambda>d. update_run i (started_fields plan (clock d)) d))
        (run_to_end fuel (lifted wall t) cfg i plan ph (default_probe (lifted wall t) plan) (cancel_of i) t0)) (\<lambda>_. ?E) ?E"
      if w0: "?J (wdb w0)" for w0 :: "'a world"
    proof (rule ends_thn)
      show "ends (\<lambda>w. w = w0) (on_db (\<lambda>d. update_run i (started_fields plan (clock d)) d))
          (\<lambda>_. running_parts i plan (others i (wdb w0))) ?E"
        unfolding on_db_def by (rule ends_modify) (simp add: started_within)
      show "ends (running_parts i plan (others i (wdb w0)))
          (run_to_end fuel (lifted wall t) cfg i plan ph (default_probe (lifted wall t) plan) (cancel_of i) t0) (\<lambda>_. ?E) ?E"
        by (rule ends_keepsI [OF run_to_end_parts]) (use tidy_of_parts w0 in blast)+
    qed
    then show ?thesis by (auto simp: ends_def)
  qed
  show ?thesis unfolding execute_run_def execute_def by (rule ends_bnd [OF now main])
qed


section \<open>The drainer\<close>

abbreviation tidy_world :: "'h world \<Rightarrow> bool" where
  "tidy_world w \<equiv> tidy (wdb w)"

abbreviation idle_world :: "'h world \<Rightarrow> bool" where
  "idle_world w \<equiv> idle (wdb w)"

definition quiet_mail :: "(int \<Rightarrow> string \<Rightarrow> ('h, unit) wact) \<Rightarrow> bool" where
  "quiet_mail notify = (\<forall>vm res. reads (notify vm res))"

lemma notify_keeps:
  assumes "quiet_mail notify"
  shows "keeps tidy_world (notify_result notify vm res)"
proof -
  have "keeps tidy_world (notify vm res)"
    by (rule readsI [of "notify vm res" tidy]) (use assms in \<open>simp add: quiet_mail_def\<close>, rule queue_cong(1))
  then show ?thesis unfolding notify_result_def by (intro keeps_intro)
qed

lemma from_db_ends: "(\<And>w. P w \<Longrightarrow> Q (f (wdb w)) w) \<Longrightarrow> ends P (from_db f) Q E"
  unfolding from_db_def by (rule ends_gets) simp

lemma plan_ends:
  "ends idle_world (build_plan (lifted wall t) resolve oc cand)
     (\<lambda>po w. idle (wdb w) \<and> (\<forall>plan. po = Some plan \<longrightarrow> allocated (oc_ranges oc) (wdb w) plan)) idle_world"
proof (rule endsI)
  fix w po w' assume w: "idle_world w" and b: "build_plan (lifted wall t) resolve oc cand w = (Ret po, w')"
  have same: "runs (wdb w') = runs (wdb w)" by (rule readsD [OF plan_reads b])
  have "allocated (oc_ranges oc) (wdb w') plan" if "po = Some plan" for plan
    using plan_allocated b that allocated_cong [OF same] by blast
  then show "idle (wdb w') \<and> (\<forall>plan. po = Some plan \<longrightarrow> allocated (oc_ranges oc) (wdb w') plan)"
    using w queue_cong(2) [OF same] by blast
qed (use readsD [OF plan_reads] queue_cong in blast)+

abbreviation entry_post :: "entry_end \<Rightarrow> 'h world \<Rightarrow> bool" where
  "entry_post e w \<equiv> tidy_world w \<and> (e \<noteq> Executed \<longrightarrow> idle_world w)"

lemma drain_entry_ends:
  fixes notify :: "int \<Rightarrow> string \<Rightarrow> ('h, unit) wact"
  assumes mail: "quiet_mail notify"
  shows "ends idle_world (drain_entry fuel (lifted wall t) resolve notify oc ph run) entry_post tidy_world"
proof -
  let ?tr = "lifted wall t"
  have dequeue: "ends idle_world (thn (dequeue_error run chk) (ret NextEntry)) entry_post tidy_world" for chk
    by (intro ends_thn [OF ends_keepsI [OF dequeue_keeps(2)]] ends_ret) (auto intro: idle_tidy)
  have start: "ends (\<lambda>w. idle_world w \<and> allocated (oc_ranges oc) (wdb w) plan)
      (bnd (fits_disk_now ?tr oc plan) (\<lambda>disk_ok. if \<not> disk_ok then ret NextEntry
       else bnd (fits_ram_now ?tr oc plan) (\<lambda>ram_ok. if \<not> ram_ok then ret NextEntry
       else bnd (from_db running_storage) (\<lambda>busy. if busy \<noteq> [] \<and> busy \<in> set (plan_storages plan) then ret NextEntry
       else bnd (execute_run fuel ?tr (oc_server oc) (run_id run) plan ph) (\<lambda>res.
          thn (notify_result notify (run_vm run) res) (ret Executed)))))) entry_post tidy_world" for plan
  proof -
    let ?J = "\<lambda>d. idle d \<and> allocated (oc_ranges oc) d plan"
    have look: "ends (\<lambda>w. ?J (wdb w)) m (\<lambda>_ w. ?J (wdb w)) tidy_world" if "reads m" for m :: "('h, bool) wact"
      by (rule ends_keepsI [OF readsI [OF that, of ?J]]) (use queue_cong allocated_cong idle_tidy in blast)+
    have mailed: "ends tidy_world (thn (notify_result notify (run_vm run) res) (ret Executed)) entry_post tidy_world" for res
      by (intro ends_thn [OF ends_keeps [OF notify_keeps [OF mail]]] ends_ret) simp
    show ?thesis
      by (intro ends_bnd [OF look [OF fits_read(1)]] ends_bnd [OF look [OF fits_read(2)]] ends_if ends_ret
          ends_bnd [OF from_db_ends [of _ "\<lambda>_ w. ?J (wdb w)"]] ends_bnd [OF execute_tidy] mailed) (auto intro: idle_tidy)
  qed
  have planned: "ends idle_world (catch (bnd (build_plan ?tr resolve oc cand) (\<lambda>p. ret (Inr p)))
            (\<lambda>e. case e of NotRunnable m \<Rightarrow> ret (Inl m) | _ \<Rightarrow> raise e))
       (\<lambda>r w. idle (wdb w) \<and> (\<forall>plan. r = Inr (Some plan) \<longrightarrow> allocated (oc_ranges oc) (wdb w) plan)) tidy_world" for cand
    by (rule ends_catch [where R = idle_world], rule ends_bnd [OF plan_ends])
      (auto intro: ends_ret ends_raise idle_tidy split: exn.split)
  have tried: "ends (\<lambda>w. idle (wdb w) \<and> (\<forall>plan. r = Inr (Some plan) \<longrightarrow> allocated (oc_ranges oc) (wdb w) plan))
      (case r of
         Inl m \<Rightarrow> thn (dequeue_error run (Some (ErrorNote m))) (ret NextEntry)
       | Inr None \<Rightarrow> ret QueueWaits
       | Inr (Some plan) \<Rightarrow>
         bnd (fits_disk_now ?tr oc plan) (\<lambda>disk_ok. if \<not> disk_ok then ret NextEntry
         else bnd (fits_ram_now ?tr oc plan) (\<lambda>ram_ok. if \<not> ram_ok then ret NextEntry
         else bnd (from_db running_storage) (\<lambda>busy. if busy \<noteq> [] \<and> busy \<in> set (plan_storages plan) then ret NextEntry
         else bnd (execute_run fuel ?tr (oc_server oc) (run_id run) plan ph) (\<lambda>res.
            thn (notify_result notify (run_vm run) res) (ret Executed)))))) entry_post tidy_world" for r
    using dequeue start by (cases r) (auto intro: ends_ret idle_tidy split: option.split)
  have "ends idle_world (case co of
        None \<Rightarrow> thn (dequeue_error run None) (ret NextEntry)
      | Some cand \<Rightarrow> bnd (catch (bnd (build_plan ?tr resolve oc cand) (\<lambda>p. ret (Inr p)))
            (\<lambda>e. case e of NotRunnable m \<Rightarrow> ret (Inl m) | _ \<Rightarrow> raise e)) (\<lambda>r. case r of
         Inl m \<Rightarrow> thn (dequeue_error run (Some (ErrorNote m))) (ret NextEntry)
       | Inr None \<Rightarrow> ret QueueWaits
       | Inr (Some plan) \<Rightarrow>
         bnd (fits_disk_now ?tr oc plan) (\<lambda>disk_ok. if \<not> disk_ok then ret NextEntry
         else bnd (fits_ram_now ?tr oc plan) (\<lambda>ram_ok. if \<not> ram_ok then ret NextEntry
         else bnd (from_db running_storage) (\<lambda>busy. if busy \<noteq> [] \<and> busy \<in> set (plan_storages plan) then ret NextEntry
         else bnd (execute_run fuel ?tr (oc_server oc) (run_id run) plan ph) (\<lambda>res.
            thn (notify_result notify (run_vm run) res) (ret Executed))))))) entry_post tidy_world" for co :: "candidate option"
    using dequeue ends_bnd [OF planned tried] by (cases co) simp_all
  note body = this
  have read: "ends idle_world (from_db (candidate_for_vm (run_vm run))) (\<lambda>_. idle_world) tidy_world"
    by (rule from_db_ends)
  show ?thesis unfolding drain_entry_def by (rule ends_bnd [OF read body])
qed

lemma drain_queue_ends:
  assumes "quiet_mail notify"
  shows "ends idle_world (drain_queue fuel (lifted wall t) resolve notify oc ph queued) entry_post tidy_world"
proof (induction queued)
  case Nil
  show ?case by (simp, rule ends_ret) (simp add: idle_tidy)
next
  case (Cons run rest)
  have "ends (entry_post e) (case e of NextEntry \<Rightarrow> drain_queue fuel (lifted wall t) resolve notify oc ph rest | _ \<Rightarrow> ret e)
      entry_post tidy_world" for e
    by (cases e) (auto intro: ends_ret ends_weaken [OF Cons])
  then show ?case unfolding drain_queue.simps by (rule ends_bnd [OF drain_entry_ends [OF assms]])
qed

lemma drain_rounds_keeps:
  assumes "quiet_mail notify"
  shows "ends tidy_world (drain_rounds k fuel (lifted wall t) resolve notify oc ph) (\<lambda>_. tidy_world) tidy_world"
proof (induction k)
  case 0
  show ?case by (simp add: ends_no_fuel)
next
  case (Suc k)
  have again: "ends (entry_post e) (if e = Executed then drain_rounds k fuel (lifted wall t) resolve notify oc ph else ret ())
      (\<lambda>_. tidy_world) tidy_world" for e
    by (intro ends_if ends_weaken [OF Suc] ends_ret) simp_all
  have go: "ends idle_world (drain_queue fuel (lifted wall t) resolve notify oc ph queued) entry_post tidy_world" for queued
    by (rule drain_queue_ends [OF assms])
  have queued: "ends idle_world (if queued = [] then ret ()
      else bnd (drain_queue fuel (lifted wall t) resolve notify oc ph queued) (\<lambda>e.
           if e = Executed then drain_rounds k fuel (lifted wall t) resolve notify oc ph else ret ())) (\<lambda>_. tidy_world) tidy_world" for queued
    by (intro ends_if ends_ret ends_bnd [OF go again] idle_tidy)
  have active: "ends (\<lambda>w. tidy_world w \<and> has_active_run (wdb w) = active) (if active then ret ()
      else bnd (from_db list_queued_runs) (\<lambda>queued. if queued = [] then ret ()
      else bnd (drain_queue fuel (lifted wall t) resolve notify oc ph queued) (\<lambda>e.
           if e = Executed then drain_rounds k fuel (lifted wall t) resolve notify oc ph else ret ()))) (\<lambda>_. tidy_world) tidy_world" for active
    by (intro ends_if ends_ret ends_bnd [OF from_db_ends [of _ "\<lambda>_. idle_world"] queued]) (auto intro: tidy_idle)
  have read1: "ends tidy_world (from_db queue_paused) (\<lambda>_. tidy_world) tidy_world" by (rule from_db_ends)
  have read2: "ends tidy_world (from_db has_active_run) (\<lambda>a w. tidy_world w \<and> has_active_run (wdb w) = a) tidy_world"
    by (rule from_db_ends) simp
  show ?case unfolding drain_rounds.simps by (intro ends_bnd [OF read1] ends_if ends_ret ends_bnd [OF read2 active])
qed

lemma drain_keeps: "quiet_mail notify \<Longrightarrow> keeps tidy_world (drain rounds fuel (lifted wall t) resolve notify oc)"
  unfolding drain_def by (intro keeps_intro keeps_ends drain_rounds_keeps)

section \<open>Queueing and recovery\<close>

lemma create_run_tidy:
  assumes "tidy d"
  shows "tidy (snd (create_run vm trig d))"
proof -
  have runs: "runs (snd (create_run vm trig d)) = runs d @ [fresh_run (next_run_id d) vm trig (clock d)]"
    by (simp add: create_run_def)
  have "owners (snd (create_run vm trig d)) = owners d"
    unfolding owners_def runs by (auto simp: fresh_run_def)
  moreover have "one_slot (snd (create_run vm trig d))"
  proof -
    have "r \<in> set (runs d)" if "r \<in> set (runs (snd (create_run vm trig d)))" "status r = ''running''" for r
      using that unfolding runs by (auto simp: fresh_run_def)
    then show ?thesis using assms unfolding tidy_def one_slot_def by blast
  qed
  ultimately show ?thesis using assms by (simp add: tidy_def environments_apart_def)
qed

lemma enqueue_due_keeps: "keeps tidy_world (enqueue_due (lifted wall t) resolve)"
proof -
  have each: "keeps tidy_world (enqueue_each entries cands n)" for entries cands n
    by (induction cands arbitrary: n) (auto intro!: keeps_intro create_run_tidy)
  have entries: "keeps tidy_world (restore_host_pbs_entries (lifted wall t) resolve)"
    by (rule readsI [OF entries_read]) (rule queue_cong)
  show ?thesis unfolding enqueue_due_def by (intro keeps_intro each entries)
qed

lemma teardown_reads: "reads (teardown (lifted wall t) plan)"
  unfolding teardown_def teardown_steps_def reap_unowned_def
  by (intro allI keeps_intro transport_keeps.exists_keeps [OF lifted_reads] transport_keeps.destroy_keeps [OF lifted_reads]
      transport_keeps.reap_keeps [OF lifted_reads] TrueI)

lemma alive_reads: "reads (still_alive (lifted wall t) present run)"
  unfolding still_alive_def by (intro allI keeps_intro transport_keeps.task_running_keeps [OF lifted_reads])

lemma request_cancel_tidy: "tidy d \<Longrightarrow> tidy (snd (request_cancel i d))"
  by (rule tidy_map(1) [of _ "\<lambda>r. if run_id r = i \<and> status r = ''running'' then r\<lparr>cancel_flag := True\<rparr> else r"])
    (auto simp: request_cancel_def update_where_def env_vmids_def)

lemma recover_keeps: "keeps tidy_world (recover_stuck_runs (lifted wall t) oc)"
proof -
  have alive: "keeps tidy_world (still_alive (lifted wall t) present run)" for present run
    by (rule readsI [OF alive_reads]) (rule queue_cong)
  have down: "keeps tidy_world (teardown (lifted wall t) plan)" for plan
    by (rule readsI [OF teardown_reads]) (rule queue_cong)
  have present: "keeps tidy_world (present_vmids (lifted wall t))"
    by (rule readsI) (use transport_keeps.present_keeps [OF lifted_reads] queue_cong in blast)+
  have cancel: "keeps tidy_world (on_db (\<lambda>d. snd (request_cancel i d)))" for i
    by (rule keeps_on_db) (simp add: request_cancel_tidy)
  show ?thesis
    unfolding recover_stuck_runs_def recover_run_def plan_of_run_def lift_r_def
    by (intro keeps_intro alive down present dequeue_keeps cancel)
qed

section \<open>Property\<close>

text \<open>one pass of the scheduler, whatever the host answers or raises and wherever it stops: if
  at most one run was running and the environments of the running and held runs shared no
  VMID, VLAN tag or management address, then the same holds afterwards.\<close>

theorem queue_pass_keeps_apart:
  assumes "environments_apart (wdb w)" and "one_slot (wdb w)" and "quiet_mail notify"
  shows "environments_apart (wdb (snd (run_restore_queue rounds fuel (lifted wall t) resolve notify cfg w)))
    \<and> one_slot (wdb (snd (run_restore_queue rounds fuel (lifted wall t) resolve notify cfg w)))"
proof -
  have "keeps tidy_world (run_restore_queue rounds fuel (lifted wall t) resolve notify cfg)"
    unfolding run_restore_queue_def by (intro keeps_intro recover_keeps enqueue_due_keeps drain_keeps assms(3))
  then show ?thesis using assms(1,2) unfolding keeps_def tidy_def by blast
qed

definition demo_orch :: orch_config where
  "demo_orch = \<lparr>oc_server = demo_config,
     oc_ranges = \<lparr>vmid_from = 9000, vmid_to = 9099, vlan_from = 900, vlan_to = 909, ip_from = ''10.0.0.5'', ip_to = ''10.0.0.9''\<rparr>,
     oc_first_delay = 10, oc_interval = 5, oc_window = 300, oc_rates = (\<lambda>d. None)\<rparr>"

lemma queue_pass_keeps_apart_witness:
  "environments_apart (wdb (snd (run_restore_queue 4 9 (lifted (\<lambda>h. 0) demo_host) (\<lambda>h. []) (\<lambda>vm res. ret ()) (Some demo_orch) (demo_world demo_start))))
   \<and> one_slot (wdb (snd (run_restore_queue 4 9 (lifted (\<lambda>h. 0) demo_host) (\<lambda>h. []) (\<lambda>vm res. ret ()) (Some demo_orch) (demo_world demo_start))))"
proof (rule queue_pass_keeps_apart)
  have "status demo_held_run = ''held''" "status (fresh_run 1 7 ''manual'' 0) = ''queued''"
    by (simp_all add: demo_held_run_def fresh_run_def)
  then have owners: "owners (wdb (demo_world demo_start)) = {demo_held_run}" and idle: "\<not> has_active_run (wdb (demo_world demo_start))"
    by (auto simp: owners_def has_active_run_def demo_world_def demo_db_def)
  show apart: "environments_apart (wdb (demo_world demo_start))" by (simp add: environments_apart_def owners)
  then have "tidy (wdb (demo_world demo_start))" using idle by (intro idle_tidy) (simp add: idle_def)
  then show "one_slot (wdb (demo_world demo_start))" by (simp add: tidy_def)
  show "quiet_mail (\<lambda>vm res. ret ())" by (simp add: quiet_mail_def keeps_ret)
qed


end
