(* ===== verification/PlanProps.thy ===== *)
theory PlanProps imports OrchestratorProps begin

text \<open>
  The plan of a run (\<open>build_plan\<close> of \<open>app/services/restore_orchestrator.py\<close>): its storages are
  ones that the operator ticked, its environment is the allocator's, and the choice of one
  target storage means what its three answers say.
\<close>

section \<open>The target storage\<close>

text \<open>whether a storage has room now, and whether it could ever have it\<close>

definition has_room :: "(string \<times> int option) list \<Rightarrow> int \<Rightarrow> string \<Rightarrow> bool" where
  "has_room avail_by needed s = (case opt_get avail_by s of None \<Rightarrow> False | Some a \<Rightarrow> needed \<le> a)"

definition may_hold :: "(string \<times> int option) list \<Rightarrow> int \<Rightarrow> string \<Rightarrow> bool" where
  "may_hold total_by needed s = (case opt_get total_by s of None \<Rightarrow> True | Some c \<Rightarrow> needed \<le> c)"

lemma choose_target_alt:
  "choose_target_storage (first # rest) avail_by total_by needed_bytes =
     Inr (if \<not> truthy_int needed_bytes then TargetOk first
          else case List.find (has_room avail_by (opt_or needed_bytes 0)) (first # rest) of
                 Some s \<Rightarrow> TargetOk s
               | None \<Rightarrow> if list_ex (may_hold total_by (opt_or needed_bytes 0)) (first # rest) then TargetRetry first else TargetTooBig)"
  by (simp only: choose_target_storage_def list.case Let_def has_room_def [abs_def] may_hold_def [abs_def])
    (simp split: option.split)

text \<open>the target storage: the first ticked one with room for the guest; \<open>retry\<close> only when
  none has room now and one could hold it; too big only when the capacities of all of them are
  known and too small. A guest of unknown size goes to the preferred storage.\<close>

theorem choose_target_storage_correct:
  assumes "ordered \<noteq> []"
  shows "case choose_target_storage ordered avail_by total_by needed_bytes of
      Inl e \<Rightarrow> False
    | Inr (TargetOk s) \<Rightarrow>
        if truthy_int needed_bytes
        then \<exists>before after. ordered = before @ s # after \<and> has_room avail_by (opt_or needed_bytes 0) s
               \<and> list_all (\<lambda>x. \<not> has_room avail_by (opt_or needed_bytes 0) x) before
        else s = hd ordered
    | Inr (TargetRetry s) \<Rightarrow> s = hd ordered \<and> list_all (\<lambda>x. \<not> has_room avail_by (opt_or needed_bytes 0) x) ordered
        \<and> list_ex (may_hold total_by (opt_or needed_bytes 0)) ordered
    | Inr TargetTooBig \<Rightarrow> list_all (\<lambda>x. \<not> has_room avail_by (opt_or needed_bytes 0) x) ordered
        \<and> list_all (\<lambda>x. \<not> may_hold total_by (opt_or needed_bytes 0) x) ordered"
proof -
  obtain first rest where o: "ordered = first # rest" using assms by (cases ordered) auto
  show ?thesis
  proof (cases "truthy_int needed_bytes")
    case False
    then show ?thesis by (simp add: o choose_target_alt)
  next
    case True
    show ?thesis
    proof (cases "List.find (has_room avail_by (opt_or needed_bytes 0)) ordered")
      case None
      then have none: "list_all (\<lambda>x. \<not> has_room avail_by (opt_or needed_bytes 0) x) ordered" by (simp add: find_None_all list_all_iff)
      show ?thesis
      proof (cases "list_ex (may_hold total_by (opt_or needed_bytes 0)) ordered")
        case some: True
        have "choose_target_storage ordered avail_by total_by needed_bytes = Inr (TargetRetry first)"
          unfolding o choose_target_alt using True None some by (simp add: o)
        then show ?thesis using none some by (simp add: o)
      next
        case no: False
        have "choose_target_storage ordered avail_by total_by needed_bytes = Inr TargetTooBig"
          unfolding o choose_target_alt using True None no by (simp add: o)
        then show ?thesis using none no by (simp add: list_all_iff list_ex_iff)
      qed
    next
      case (Some s)
      have "choose_target_storage ordered avail_by total_by needed_bytes = Inr (TargetOk s)"
        unfolding o choose_target_alt using True Some by (simp add: o)
      then show ?thesis using True find_Some_first [OF Some] by (simp add: list_all_iff)
    qed
  qed
qed

lemma choose_target_storage_correct_witness:
  "choose_target_storage [''fast'', ''slow''] [(''fast'', Some 10), (''slow'', Some 500)] [(''fast'', Some 100), (''slow'', Some 900)] (Some 50)
     = Inr (TargetOk ''slow'')"
proof -
  have "[''fast'', ''slow''] \<noteq> []" by simp
  from choose_target_storage_correct [OF this, where avail_by = "[(''fast'', Some 10), (''slow'', Some 500)]"
      and total_by = "[(''fast'', Some 100), (''slow'', Some 900)]" and needed_bytes = "Some 50"]
  show ?thesis by (simp add: choose_target_storage_def opt_get_def)
qed

section \<open>The storages of a plan\<close>

lemma place_names:
  "place names ds (rem, res) = Some (b, rem', res') \<Longrightarrow> ran res' \<subseteq> ran res \<union> set names"
  "place_on names ns dev sz ds (rem, res) = Some (b, rem', res') \<Longrightarrow> set ns \<subseteq> set names \<Longrightarrow> ran res' \<subseteq> ran res \<union> set names"
proof (induction names ds "(rem, res)" and names ns dev sz ds "(rem, res)" arbitrary: rem res b rem' res' and rem res b rem' res' rule: place_place_on.induct)
  case (4 names n ns dev sz ds rem res)
  have upd: "ran (res(dev \<mapsto> n)) \<subseteq> ran res \<union> set names" using 4(5) by (auto simp: ran_def)
  have del: "ran (m(dev := None)) \<subseteq> ran m" for m :: placement by (auto simp: ran_def)
  show ?case
  proof (cases "sz \<le> rem n")
    case False
    then show ?thesis using 4(3) [OF _ _] 4(4,5) by (simp split: if_splits)
  next
    case True
    show ?thesis
    proof (cases "place names ds (rem(n := rem n - sz), res(dev \<mapsto> n))")
      case None
      then show ?thesis using 4(4) True by simp
    next
      case (Some x)
      obtain ok r1 p1 where x: "x = (ok, r1, p1)" by (cases x) auto
      have p1: "ran p1 \<subseteq> ran res \<union> set names" using 4(1) [OF True Some [unfolded x]] upd by blast
      show ?thesis
      proof (cases ok)
        case ok: True
        then show ?thesis using 4(4) True Some x p1 by simp
      next
        case no: False
        then have "place_on names ns dev sz ds (r1(n := r1 n + sz), p1(dev := None)) = Some (b, rem', res')" "p1 dev \<noteq> None"
          using 4(4) True Some x by (simp_all split: if_splits)
        then have "ran res' \<subseteq> ran (p1(dev := None)) \<union> set names"
          using 4(2) [OF True Some] x no 4(5) by (simp add: fun_upd_def)
        then show ?thesis using del [of p1] p1 by blast
      qed
    qed
  qed
qed (auto)

lemma pack_disks_names:
  assumes "pack_disks ds storages = Some (Some res)"
  shows "ran res \<subseteq> fst ` set storages"
proof (cases "ds = []")
  case True
  then show ?thesis using assms by (auto simp: pack_disks_def)
next
  case False
  then obtain r where "place (map fst storages) (sorted_desc snd ds) (capacities storages, Map.empty) = Some (True, r, res)"
    using assms by (auto simp: pack_disks_def split: option.splits prod.splits bool.splits)
  then show ?thesis using place_names(1) by fastforce
qed

lemma known_names: "fst ` set (known ordered d) \<subseteq> set ordered"
  by (auto simp: known_def split: option.splits)

lemma items_names: "snd ` set (placement_items dks res) \<subseteq> ran res"
  by (auto simp: placement_items_def ran_def split: option.splits)

definition target_names :: "string \<times> (string \<times> string) list option \<Rightarrow> string set" where
  "target_names target = insert (fst target) (case snd target of None \<Rightarrow> {} | Some items \<Rightarrow> snd ` set items)"

lemma choose_target_names:
  assumes "choose_target_storage ordered avail_by total_by needed_bytes = Inr c"
  shows "ordered \<noteq> [] \<and> (case c of TargetOk s \<Rightarrow> s \<in> set ordered | TargetRetry s \<Rightarrow> s \<in> set ordered | TargetTooBig \<Rightarrow> True)"
proof -
  obtain first rest where o: "ordered = first # rest" using assms by (cases ordered) (auto simp: choose_target_storage_def)
  show ?thesis
    using assms unfolding o choose_target_alt by (auto split: if_splits option.splits dest: find_Some_first)
qed

lemma distribute_names:
  assumes "distribute ordered avail_by total_by needed_bytes dks = Inr target" and "ordered \<noteq> []"
  shows "target_names target \<subseteq> set ordered"
proof -
  have first: "hd ordered \<in> set ordered" using assms(2) by simp
  obtain dec where dec: "plan_distribution dks (known ordered avail_by) (known ordered total_by) = Some dec"
    using assms(1) by (auto simp: distribute_def split: if_splits option.splits)
  show ?thesis
  proof (cases dec)
    case (PackOk res)
    then have "pack_disks (map (\<lambda>(dev, sz). (dev, opt_or sz 0)) dks) (known ordered avail_by) = Some (Some res)"
      using dec by (auto simp: plan_distribution_def Let_def split: option.splits)
    then have names: "snd ` set (placement_items dks res) \<subseteq> set ordered"
      using pack_disks_names known_names items_names by (meson subset_trans)
    have "target = (case placement_items dks res of [] \<Rightarrow> hd ordered | (_, s) # _ \<Rightarrow> s, Some (placement_items dks res))"
      using assms(1) dec PackOk by (auto simp: distribute_def Let_def split: if_splits)
    then show ?thesis using names first by (auto simp: target_names_def split: list.splits)
  next
    case PackRetry
    then have "target = (hd ordered, None)" using assms(1) dec by (simp add: distribute_def split: if_splits)
    then show ?thesis using first by (simp add: target_names_def)
  next
    case PackImpossible
    then show ?thesis using assms(1) dec by (simp add: distribute_def split: if_splits)
  qed
qed

lemma choose_storages_names:
  assumes "choose_storages ordered avail_by total_by needed_bytes dks = Inr target"
  shows "target_names target \<subseteq> set ordered"
proof -
  obtain c where c: "choose_target_storage ordered avail_by total_by needed_bytes = Inr c"
    and t: "(case c of TargetTooBig \<Rightarrow> distribute ordered avail_by total_by needed_bytes dks
     | TargetOk s \<Rightarrow> Inr (s, None) | TargetRetry s \<Rightarrow> Inr (s, None)) = Inr target"
    using assms by (cases "choose_target_storage ordered avail_by total_by needed_bytes") (auto simp: choose_storages_def)
  then show ?thesis
    using choose_target_names [OF c] distribute_names [of ordered avail_by total_by needed_bytes dks target]
    by (cases c) (auto simp: target_names_def)
qed

lemma plan_storages_names: "set (plan_storages (assemble oc cand m snap a addrs target ram)) \<subseteq> target_names target"
  by (cases target; cases addrs) (auto simp: plan_storages_def assemble_def target_names_def split: option.splits list.splits)

lemma find_source_Ret:
  assumes "find_source tr resolve cand w = (Ret (m, snap), w')"
  shows "is_qemu cand \<and> (\<exists>entries snaps. match_source (vm_backup_locations (vm_id (fst cand)) (wdb w)) entries = Some m
    \<and> pick_latest_complete snaps = Some snap)"
proof -
  have q: "is_qemu cand" using assms by (cases "is_qemu cand") (auto simp: find_source_def not_runnable_def act_simps)
  have "bnd (from_db (vm_backup_locations (vm_id (fst cand)))) (\<lambda>locs.
           bnd (restore_host_pbs_entries tr resolve) (\<lambda>entries.
           case match_source locs entries of
             None \<Rightarrow> not_runnable ''not auto-restorable (no matching local datastore)''
           | Some m \<Rightarrow>
           bnd (list_snapshots tr (entry_storage m) (vmid (fst cand))) (\<lambda>snaps.
           case pick_latest_complete snaps of
             None \<Rightarrow> not_runnable ''no complete snapshot available''
           | Some snap \<Rightarrow> ret (m, snap)))) w = (Ret (m, snap), w')"
    using assms q by (simp add: find_source_def)
  then have "bnd (restore_host_pbs_entries tr resolve) (\<lambda>entries.
           case match_source (vm_backup_locations (vm_id (fst cand)) (wdb w)) entries of
             None \<Rightarrow> not_runnable ''not auto-restorable (no matching local datastore)''
           | Some m \<Rightarrow>
           bnd (list_snapshots tr (entry_storage m) (vmid (fst cand))) (\<lambda>snaps.
           case pick_latest_complete snaps of
             None \<Rightarrow> not_runnable ''no complete snapshot available''
           | Some snap \<Rightarrow> ret (m, snap))) w = (Ret (m, snap), w')"
    by (simp add: from_db_def bnd_def act_simps)
  then obtain entries w1 where "(case match_source (vm_backup_locations (vm_id (fst cand)) (wdb w)) entries of
             None \<Rightarrow> not_runnable ''not auto-restorable (no matching local datastore)''
           | Some m \<Rightarrow>
           bnd (list_snapshots tr (entry_storage m) (vmid (fst cand))) (\<lambda>snaps.
           case pick_latest_complete snaps of
             None \<Rightarrow> not_runnable ''no complete snapshot available''
           | Some snap \<Rightarrow> ret (m, snap))) w1 = (Ret (m, snap), w')"
    by (rule bnd_RetE)
  then obtain m' where m': "match_source (vm_backup_locations (vm_id (fst cand)) (wdb w)) entries = Some m'"
    and rest: "bnd (list_snapshots tr (entry_storage m') (vmid (fst cand))) (\<lambda>snaps.
           case pick_latest_complete snaps of
             None \<Rightarrow> not_runnable ''no complete snapshot available''
           | Some snap \<Rightarrow> ret (m', snap)) w1 = (Ret (m, snap), w')"
    by (auto simp: not_runnable_def act_simps split: option.splits)
  from rest obtain snaps w2 where "(case pick_latest_complete snaps of
             None \<Rightarrow> not_runnable ''no complete snapshot available''
           | Some snap \<Rightarrow> ret (m', snap)) w2 = (Ret (m, snap), w')"
    by (rule bnd_RetE)
  then show ?thesis using q m' by (auto simp: not_runnable_def act_simps split: option.splits)
qed


section \<open>Property\<close>

text \<open>A row that owns nothing of the plan's environment.\<close>

definition clear_of :: "run_plan \<Rightarrow> run_row \<Rightarrow> bool" where
  "clear_of p q = (env_vmids q \<inter> {pl_restore_vmid p, pl_helper_vmid p} = {} \<and> vlan_tag q \<noteq> Some (pl_vlan_tag p)
     \<and> mgmt_ip q \<noteq> Some (pl_mgmt_ip p))"

lemma allocated_clear:
  assumes "allocate c owned = Inr (Some a)" and "pl_restore_vmid p = al_restore_vmid a" and "pl_helper_vmid p = al_helper_vmid a"
    and "pl_vlan_tag p = al_vlan_tag a" and "pl_mgmt_ip p = al_mgmt_ip a"
  shows "list_all (clear_of p) owned"
  using restore_allocator.fresh [OF assms(1)] assms(2-)
  by (auto simp: list_all_iff clear_of_def apart_def give_def env_vmids_def)



end
