(* ===== verification/RunCycle.thy ===== *)
theory RunCycle imports Main begin

text \<open>
  What restore testing promises about its runs, without tables, hosts or errors: a run waits,
  is active, may be put on hold, and is over; an active or held run owns an environment
  (VMIDs, a VLAN tag, a management address). The step relation says who may do what; its
  invariants are that at most one run is active and that environments share nothing.
\<close>

datatype stage = Waiting | Active | OnHold | Over

record env =
  e_vmids :: "int set"
  e_tags :: "int set"
  e_ips :: "string set"

record arun =
  ar_vm :: int
  ar_stage :: stage
  ar_env :: env

definition no_env :: env where
  "no_env = \<lparr>e_vmids = {}, e_tags = {}, e_ips = {}\<rparr>"

definition env_le :: "env \<Rightarrow> env \<Rightarrow> bool" where
  "env_le e f = (e_vmids e \<subseteq> e_vmids f \<and> e_tags e \<subseteq> e_tags f \<and> e_ips e \<subseteq> e_ips f)"

definition env_apart :: "env \<Rightarrow> env \<Rightarrow> bool" where
  "env_apart e f = (e_vmids e \<inter> e_vmids f = {} \<and> e_tags e \<inter> e_tags f = {} \<and> e_ips e \<inter> e_ips f = {})"

definition env_join :: "env \<Rightarrow> env \<Rightarrow> env" where
  "env_join e f = \<lparr>e_vmids = e_vmids e \<union> e_vmids f, e_tags = e_tags e \<union> e_tags f, e_ips = e_ips e \<union> e_ips f\<rparr>"

type_synonym cycle = "int \<rightharpoonup> arun"

text \<open>\<open>arrive\<close>: a VM is queued. \<open>withdraw\<close>: an entry that has not started is deleted. \<open>launch\<close>: a
  waiting run gets an environment that nobody owns, and only while no run is active. \<open>give_back\<close>:
  parts of an environment are given back. \<open>regrant\<close>: a run on hold gets something more that
  nobody owns (a helper for a new test). \<open>park\<close>: an active run is held. \<open>finish\<close>: a run that
  is not over ends and owns nothing any more.\<close>

inductive rstep :: "cycle \<Rightarrow> cycle \<Rightarrow> bool" where
  arrive: "s i = None \<Longrightarrow> rstep s (s(i \<mapsto> \<lparr>ar_vm = v, ar_stage = Waiting, ar_env = no_env\<rparr>))"
| withdraw: "s i = Some r \<Longrightarrow> ar_stage r = Waiting \<Longrightarrow> rstep s (s(i := None))"
| launch: "s i = Some r \<Longrightarrow> ar_stage r = Waiting \<Longrightarrow> \<forall>q\<in>ran s. ar_stage q \<noteq> Active \<Longrightarrow> \<forall>q\<in>ran s. env_apart e (ar_env q)
    \<Longrightarrow> rstep s (s(i \<mapsto> r\<lparr>ar_stage := Active, ar_env := e\<rparr>))"
| give_back: "s i = Some r \<Longrightarrow> env_le e (ar_env r) \<Longrightarrow> rstep s (s(i \<mapsto> r\<lparr>ar_env := e\<rparr>))"
| regrant: "s i = Some r \<Longrightarrow> ar_stage r = OnHold \<Longrightarrow> \<forall>q\<in>ran s. env_apart f (ar_env q) \<Longrightarrow> env_le e (env_join (ar_env r) f)
    \<Longrightarrow> rstep s (s(i \<mapsto> r\<lparr>ar_env := e\<rparr>))"
| park: "s i = Some r \<Longrightarrow> ar_stage r = Active \<Longrightarrow> rstep s (s(i \<mapsto> r\<lparr>ar_stage := OnHold\<rparr>))"
| finish: "s i = Some r \<Longrightarrow> ar_stage r \<noteq> Over \<Longrightarrow> rstep s (s(i \<mapsto> r\<lparr>ar_stage := Over, ar_env := no_env\<rparr>))"

inductive_cases rstepE: "rstep s t"

abbreviation rsteps :: "cycle \<Rightarrow> cycle \<Rightarrow> bool" where
  "rsteps \<equiv> rstep\<^sup>*\<^sup>*"

section \<open>Invariants\<close>

definition disjoint_envs :: "cycle \<Rightarrow> bool" where
  "disjoint_envs s = (\<forall>i j r q. s i = Some r \<longrightarrow> s j = Some q \<longrightarrow> i \<noteq> j \<longrightarrow> env_apart (ar_env r) (ar_env q))"

definition one_active :: "cycle \<Rightarrow> bool" where
  "one_active s = (\<forall>i j r q. s i = Some r \<longrightarrow> s j = Some q \<longrightarrow> ar_stage r = Active \<longrightarrow> ar_stage q = Active \<longrightarrow> i = j)"

lemma env_apart_no_env [simp]: "env_apart no_env e" "env_apart e no_env"
  by (simp_all add: env_apart_def no_env_def)

lemma env_apart_sym: "env_apart e f = env_apart f e"
  by (auto simp: env_apart_def)

lemma env_apart_le: "env_le e f \<Longrightarrow> env_apart f g \<Longrightarrow> env_apart e g"
  unfolding env_le_def env_apart_def by blast

lemma env_apart_join: "env_apart e g \<Longrightarrow> env_apart f g \<Longrightarrow> env_apart (env_join e f) g"
  by (auto simp: env_join_def env_apart_def)

lemma disjoint_envs_upd:
  assumes "disjoint_envs s" and "\<And>q j. s j = Some q \<Longrightarrow> j \<noteq> i \<Longrightarrow> env_apart (ar_env r) (ar_env q)"
  shows "disjoint_envs (s(i \<mapsto> r))"
  using assms unfolding disjoint_envs_def by (auto simp: env_apart_sym [of _ "ar_env r"])

lemma one_active_upd:
  assumes "one_active s" and "ar_stage r = Active \<Longrightarrow> \<forall>j q. s j = Some q \<longrightarrow> j \<noteq> i \<longrightarrow> ar_stage q \<noteq> Active"
  shows "one_active (s(i \<mapsto> r))"
  using assms unfolding one_active_def by (auto split: if_splits)

lemma rstep_disjoint: "rstep s t \<Longrightarrow> disjoint_envs s \<Longrightarrow> disjoint_envs t"
proof (induction rule: rstep.induct)
  case (arrive s i v)
  then show ?case by (intro disjoint_envs_upd) simp_all
next
  case (withdraw s i r)
  then show ?case unfolding disjoint_envs_def by simp
next
  case (launch s i r e)
  then show ?case by (intro disjoint_envs_upd) (auto simp: ran_def)
next
  case (give_back s i r e)
  then show ?case by (intro disjoint_envs_upd) (auto simp: disjoint_envs_def intro: env_apart_le)
next
  case (regrant s i r f e)
  show ?case
  proof (rule disjoint_envs_upd [OF regrant.prems])
    fix q j assume q: "s j = Some q" "j \<noteq> i"
    then have "env_apart (ar_env r) (ar_env q)" using regrant.prems regrant.hyps(1) unfolding disjoint_envs_def by metis
    moreover have "env_apart f (ar_env q)" using regrant.hyps(3) q(1) by (simp add: ranI)
    ultimately show "env_apart (ar_env (r\<lparr>ar_env := e\<rparr>)) (ar_env q)"
      using env_apart_le [OF regrant.hyps(4)] env_apart_join by simp
  qed
next
  case (park s i r)
  then show ?case by (intro disjoint_envs_upd) (auto simp: disjoint_envs_def)
next
  case (finish s i r)
  then show ?case by (intro disjoint_envs_upd) simp_all
qed

lemma rstep_one_active: "rstep s t \<Longrightarrow> one_active s \<Longrightarrow> one_active t"
proof (induction rule: rstep.induct)
  case (withdraw s i r)
  then show ?case unfolding one_active_def by simp
next
  case (launch s i r e)
  then show ?case by (intro one_active_upd) (auto simp: ran_def)
next
  case (give_back s i r e)
  then show ?case by (intro one_active_upd) (auto simp: one_active_def)
next
  case (regrant s i r f e)
  then show ?case by (intro one_active_upd) (auto simp: one_active_def)
qed (auto intro!: one_active_upd)

text \<open>The stages a run can go through.\<close>

fun later :: "stage \<Rightarrow> stage \<Rightarrow> bool" where
  "later Over s = (s = Over)"
| "later OnHold s = (s \<in> {OnHold, Over})"
| "later Active s = (s \<in> {Active, OnHold, Over})"
| "later Waiting s = True"

lemma later_refl [simp]: "later s s" "later s Over"
  by (cases s; simp)+

lemma later_trans: "later a b \<Longrightarrow> later b c \<Longrightarrow> later a c"
  by (cases a; cases b; cases c) simp_all

lemma rstep_later: "rstep s t \<Longrightarrow> s i = Some r \<Longrightarrow> t i = Some q \<Longrightarrow> later (ar_stage r) (ar_stage q)"
  by (induction rule: rstep.induct) (auto split: if_splits)

text \<open>A run that has started stays in the records.\<close>

lemma rstep_stays: "rstep s t \<Longrightarrow> s i = Some r \<Longrightarrow> ar_stage r \<noteq> Waiting \<Longrightarrow> \<exists>q. t i = Some q \<and> ar_stage q \<noteq> Waiting"
proof (induction rule: rstep.induct)
  case (withdraw s j q)
  then have "i \<noteq> j" by auto
  with withdraw show ?case by simp
qed (auto split: if_splits)

lemma rsteps_disjoint: "rsteps s t \<Longrightarrow> disjoint_envs s \<Longrightarrow> disjoint_envs t"
  by (induction rule: rtranclp_induct) (auto intro: rstep_disjoint)

lemma rsteps_one_active: "rsteps s t \<Longrightarrow> one_active s \<Longrightarrow> one_active t"
  by (induction rule: rtranclp_induct) (auto intro: rstep_one_active)

lemma rsteps_stays:
  "rsteps s t \<Longrightarrow> s i = Some r \<Longrightarrow> ar_stage r \<noteq> Waiting \<Longrightarrow> \<exists>q. t i = Some q \<and> later (ar_stage r) (ar_stage q)"
proof (induction rule: rtranclp_induct)
  case (step t u)
  then obtain q where q: "t i = Some q" "later (ar_stage r) (ar_stage q)" by auto
  moreover have "ar_stage q \<noteq> Waiting" using q(2) step.prems(2) by (cases "ar_stage r") auto
  ultimately obtain p where "u i = Some p" using rstep_stays [OF step.hyps(2)] by blast
  then show ?case using rstep_later [OF step.hyps(2) q(1)] q(2) later_trans by blast
qed auto

end
