(* ===== verification/QueueRefines.thy ===== *)
theory QueueRefines imports QueueProps RunCycle begin

text \<open>
  The tables refine the machine of \<open>RunCycle\<close>: the abstraction of \<open>restore_runs\<close> forgets
  everything but stage and environment, and a pass of the scheduler is a sequence of the
  machine's steps, wherever it stops and whatever the host answers.
\<close>

section \<open>The abstraction\<close>

definition stage_of :: "string \<Rightarrow> stage" where
  "stage_of st = (if st = ''queued'' then Waiting else if st = ''running'' then Active else if st = ''held'' then OnHold else Over)"

definition env_of :: "run_row \<Rightarrow> env" where
  "env_of r = (if status r \<in> {''running'', ''held''}
               then \<lparr>e_vmids = env_vmids r, e_tags = set_option (vlan_tag r), e_ips = set_option (mgmt_ip r)\<rparr> else no_env)"

definition abs_run :: "run_row \<Rightarrow> arun" where
  "abs_run r = \<lparr>ar_vm = run_vm r, ar_stage = stage_of (status r), ar_env = env_of r\<rparr>"

definition abs_db :: "db \<Rightarrow> cycle" where
  "abs_db d = (\<lambda>i. map_option abs_run (get_run i d))"

definition ids_ok :: "db \<Rightarrow> bool" where
  "ids_ok d = (distinct (map run_id (runs d)) \<and> list_all (\<lambda>r. run_id r < next_run_id d) (runs d))"

lemma get_run_iff: "ids_ok d \<Longrightarrow> get_run i d = Some r \<longleftrightarrow> r \<in> set (runs d) \<and> run_id r = i"
proof
  assume "ids_ok d" "r \<in> set (runs d) \<and> run_id r = i"
  moreover have "List.find (\<lambda>q. run_id q = run_id r) rs = Some r"
    if "distinct (map run_id rs)" "r \<in> set rs" for rs
    using that by (induction rs) (auto simp: rev_image_eqI)
  ultimately show "get_run i d = Some r" by (auto simp: get_run_def ids_ok_def)
qed (use get_run_Some in blast)

lemma ran_abs: "ids_ok d \<Longrightarrow> ran (abs_db d) = abs_run ` set (runs d)"
  unfolding abs_db_def ran_def using get_run_iff by fastforce

lemma stage_Active [simp]: "stage_of st = Active \<longleftrightarrow> st = ''running''" "stage_of st = Waiting \<longleftrightarrow> st = ''queued''"
  "stage_of st = OnHold \<longleftrightarrow> st = ''held''"
  by (simp_all add: stage_of_def)

lemma ids_ok_cong: "runs d = runs d' \<Longrightarrow> next_run_id d = next_run_id d' \<Longrightarrow> ids_ok d = ids_ok d'"
  by (simp add: ids_ok_def)

lemma abs_db_cong: "runs d = runs d' \<Longrightarrow> abs_db d = abs_db d'"
  by (simp add: abs_db_def get_run_def)

section \<open>One row changes\<close>

lemma ids_ok_map:
  assumes "ids_ok d" and "runs d' = map (\<lambda>r. if run_id r = i then f r else r) (runs d)" and "next_run_id d' = next_run_id d"
    and "\<And>r. run_id (f r) = run_id r"
  shows "ids_ok d'"
  using assms by (simp add: ids_ok_def map_id_if list.pred_map comp_def) (auto simp: list_all_iff)

lemma abs_db_map:
  assumes "runs d' = map (\<lambda>r. if run_id r = i then f r else r) (runs d)" and "\<And>r. run_id (f r) = run_id r"
  shows "abs_db d' = (case get_run i d of None \<Rightarrow> abs_db d | Some r \<Rightarrow> (abs_db d)(i \<mapsto> abs_run (f r)))"
proof
  fix j
  have "get_run j d' = map_option (\<lambda>r. if run_id r = i then f r else r) (get_run j d)"
    unfolding get_run_def assms(1) by (rule get_run_map) (simp add: assms(2))
  then show "abs_db d' j = (case get_run i d of None \<Rightarrow> abs_db d | Some r \<Rightarrow> (abs_db d)(i \<mapsto> abs_run (f r))) j"
    by (cases "j = i"; cases "get_run j d"; cases "get_run i d") (auto simp: abs_db_def dest: get_run_Some)
qed

text \<open>A change that the abstraction does not see.\<close>

lemma abs_db_same:
  assumes "runs d' = map (\<lambda>r. if run_id r = i then f r else r) (runs d)" and "\<And>r. run_id (f r) = run_id r"
    and "\<And>r. abs_run (f r) = abs_run r"
  shows "abs_db d' = abs_db d"
  using abs_db_map [OF assms(1,2)] assms(3) by (auto simp: abs_db_def split: option.splits)

definition reached :: "cycle \<Rightarrow> db \<Rightarrow> bool" where
  "reached s d = (ids_ok d \<and> rsteps s (abs_db d))"

lemma reached_step: "reached s d \<Longrightarrow> ids_ok d' \<Longrightarrow> abs_db d' = abs_db d \<or> rstep (abs_db d) (abs_db d') \<Longrightarrow> reached s d'"
  unfolding reached_def by (metis rtranclp.rtrancl_into_rtrancl)

lemma reached_cong: "runs d = runs d' \<Longrightarrow> next_run_id d = next_run_id d' \<Longrightarrow> reached s d = reached s d'"
  unfolding reached_def using ids_ok_cong abs_db_cong by metis

abbreviation reached_world :: "cycle \<Rightarrow> 'h world \<Rightarrow> bool" where
  "reached_world s w \<equiv> reached s (wdb w)"

lemma readsJ:
  assumes "reads m" and "\<And>d d'. runs d = runs d' \<Longrightarrow> next_run_id d = next_run_id d' \<Longrightarrow> J d = J d'"
  shows "keeps (\<lambda>w. J (wdb w)) m"
  by (rule keepsI) (use reads_tables [OF assms(1)] same_tables(1,2) assms(2) in metis)

lemma reads_reached: "reads m \<Longrightarrow> keeps (reached_world s) m"
  by (rule readsJ) (assumption, rule reached_cong)

section \<open>The database operations\<close>

lemma find_append: "List.find P (xs @ ys) = (case List.find P xs of Some x \<Rightarrow> Some x | None \<Rightarrow> List.find P ys)"
  by (induction xs) auto

lemma create_reached:
  assumes "reached s d"
  shows "reached s (snd (create_run vm trig d))"
proof -
  let ?d = "snd (create_run vm trig d)" and ?n = "fresh_run (next_run_id d) vm trig (clock d)"
  have ok: "ids_ok d" using assms by (simp add: reached_def)
  have new: "next_run_id d \<notin> run_id ` set (runs d)" using ok by (auto simp: ids_ok_def list_all_iff)
  have runs: "runs ?d = runs d @ [?n]" "next_run_id ?d = next_run_id d + 1" by (simp_all add: create_run_def)
  have ok': "ids_ok ?d" using ok new unfolding ids_ok_def runs by (auto simp: list_all_iff)
  have none: "get_run (next_run_id d) d = None" using new get_run_None_iff by simp
  have "get_run j ?d = (if j = next_run_id d then Some ?n else get_run j d)" for j
    unfolding get_run_def runs find_append using none get_run_def by (auto split: option.split)
  then have "abs_db ?d = (abs_db d)(next_run_id d \<mapsto> \<lparr>ar_vm = vm, ar_stage = Waiting, ar_env = no_env\<rparr>)"
    by (auto simp: abs_db_def fun_eq_iff abs_run_def env_of_def stage_of_def)
  moreover have "abs_db d (next_run_id d) = None" by (simp add: abs_db_def none)
  ultimately have "rstep (abs_db d) (abs_db ?d)" using rstep.arrive by metis
  then show ?thesis using reached_step [OF assms ok'] by blast
qed

lemma map_if_and: "map (\<lambda>r. if P r \<and> Q r then f r else r) rs = map (\<lambda>r. if P r then (if Q r then f r else r) else r) rs"
  by (rule map_cong) simp_all

lemma cancel_reached: "reached s d \<Longrightarrow> reached s (snd (request_cancel i d))"
proof -
  assume r: "reached s d"
  let ?f = "\<lambda>r. if status r = ''running'' then r\<lparr>cancel_flag := True\<rparr> else r"
  have runs: "runs (snd (request_cancel i d)) = map (\<lambda>r. if run_id r = i then ?f r else r) (runs d)"
    by (simp add: request_cancel_def update_where_def map_if_and)
  have "abs_db (snd (request_cancel i d)) = abs_db d"
    by (rule abs_db_same [OF runs]) (simp_all add: abs_run_def env_of_def env_vmids_def)
  moreover have "ids_ok (snd (request_cancel i d))"
    by (rule ids_ok_map [OF _ runs]) (use r in \<open>simp_all add: reached_def request_cancel_def update_where_def\<close>)
  ultimately show ?thesis using r reached_step by blast
qed

fun unseen :: "run_field \<Rightarrow> bool" where
  "unseen (F_status _) = False"
| "unseen (F_restore_vmid _) = False"
| "unseen (F_helper_vmid _) = False"
| "unseen (F_vlan_tag _) = False"
| "unseen (F_mgmt_ip _) = False"
| "unseen _ = True"

lemma abs_run_unseen: "list_all unseen fs \<Longrightarrow> abs_run (fold set_field (filter Q fs) r) = abs_run r"
proof (induction fs arbitrary: r)
  case (Cons f fs)
  have "abs_run (set_field f r) = abs_run r" using Cons.prems by (cases f) (auto simp: abs_run_def env_of_def env_vmids_def)
  with Cons show ?case by simp
qed simp

lemma update_unseen:
  assumes "list_all unseen fs"
  shows "abs_db (update_run i fs d) = abs_db d" and "ids_ok d \<Longrightarrow> ids_ok (update_run i fs d)"
  by (rule abs_db_same [OF runs_update_run]; simp add: abs_run_unseen [OF assms])
    (rule ids_ok_map [OF _ runs_update_run]; simp add: frame_simps)

lemma update_ids_ok: "ids_ok d \<Longrightarrow> ids_ok (update_run i fs d)"
  by (rule ids_ok_map [OF _ runs_update_run]) (simp_all add: frame_simps)

lemma helper_back_reached:
  assumes "reached s d"
  shows "reached s (update_run i [F_helper_vmid None, F_mgmt_ip None] d)"
proof -
  let ?f = "\<lambda>r. fold set_field (filter (\<lambda>f. col_name f \<in> set UPDATABLE) [F_helper_vmid None, F_mgmt_ip None]) r"
  have f: "?f r = r\<lparr>helper_vmid := None, mgmt_ip := None\<rparr>" for r by (simp add: UPDATABLE_def)
  have "abs_db (update_run i [F_helper_vmid None, F_mgmt_ip None] d) = abs_db d
      \<or> rstep (abs_db d) (abs_db (update_run i [F_helper_vmid None, F_mgmt_ip None] d))"
  proof (cases "get_run i d")
    case None
    then show ?thesis using abs_db_map [OF runs_update_run [of i "[F_helper_vmid None, F_mgmt_ip None]" d]] by simp
  next
    case (Some r)
    have new: "abs_db (update_run i [F_helper_vmid None, F_mgmt_ip None] d) = (abs_db d)(i \<mapsto> abs_run (r\<lparr>helper_vmid := None, mgmt_ip := None\<rparr>))"
      using abs_db_map [OF runs_update_run [of i "[F_helper_vmid None, F_mgmt_ip None]" d]] Some f by simp
    have "abs_run (r\<lparr>helper_vmid := None, mgmt_ip := None\<rparr>)
        = (abs_run r)\<lparr>ar_env := env_of (r\<lparr>helper_vmid := None, mgmt_ip := None\<rparr>)\<rparr>"
      by (simp add: abs_run_def)
    moreover have "env_le (env_of (r\<lparr>helper_vmid := None, mgmt_ip := None\<rparr>)) (ar_env (abs_run r))"
      by (auto simp: abs_run_def env_of_def env_le_def env_vmids_def no_env_def)
    moreover have "abs_db d i = Some (abs_run r)" using Some by (simp add: abs_db_def)
    ultimately show ?thesis unfolding new using rstep.give_back by metis
  qed
  then show ?thesis using reached_step [OF assms] update_ids_ok assms by (simp add: reached_def)
qed

text \<open>A result that is recorded for a run that is not over.\<close>

lemma record_reached:
  assumes "reached s d" and "get_run i d = Some r" and "stage_of (status r) \<noteq> Over"
    and final: "(case st of Some x \<Rightarrow> if x = [] then res else x | None \<Rightarrow> res) = fin"
    and fin: "stage_of fin = Over \<or> fin = ''held'' \<and> status r = ''running''"
  shows "reached s (snd (record_run_result i vm res secs nt chk lg st d))"
proof -
  let ?d = "snd (record_run_result i vm res secs nt chk lg st d)"
  let ?f = "finished_row res fin secs (if res \<in> set COUNTS_AS_TEST then Some (next_test_id d) else None) (clock d) chk lg"
  have runs: "runs ?d = map (\<lambda>r. if run_id r = i then ?f r else r) (runs d)"
    unfolding runs_record_run_result final by (rule refl)
  have ok: "ids_ok ?d"
    by (rule ids_ok_map [OF _ runs]) (use assms(1) in \<open>simp_all add: reached_def record_run_result_def update_where_def Let_def\<close>)
  have a: "abs_db d i = Some (abs_run r)" using assms(2) by (simp add: abs_db_def)
  have new: "abs_db ?d = (abs_db d)(i \<mapsto> abs_run (?f r))" using abs_db_map [OF runs] assms(2) by simp
  show ?thesis
  proof (cases "stage_of fin = Over")
    case True
    then have "abs_run (?f r) = (abs_run r)\<lparr>ar_stage := Over, ar_env := no_env\<rparr>"
      by (auto simp: abs_run_def env_of_def stage_of_def split: if_splits)
    moreover have "ar_stage (abs_run r) \<noteq> Over" using assms(3) by (simp add: abs_run_def)
    ultimately have "rstep (abs_db d) (abs_db ?d)" unfolding new using rstep.finish a by metis
    then show ?thesis using reached_step [OF assms(1) ok] by blast
  next
    case False
    then have h: "fin = ''held''" "status r = ''running''" using fin by auto
    then have "abs_run (?f r) = (abs_run r)\<lparr>ar_stage := OnHold\<rparr>"
      by (simp add: abs_run_def env_of_def env_vmids_def stage_of_def)
    moreover have "ar_stage (abs_run r) = Active" using h by (simp add: abs_run_def)
    ultimately have "rstep (abs_db d) (abs_db ?d)" unfolding new using rstep.park a by metis
    then show ?thesis using reached_step [OF assms(1) ok] by blast
  qed
qed


section \<open>A run from its start to its end\<close>

abbreviation steady :: "cycle \<Rightarrow> 'h world \<Rightarrow> bool" where
  "steady a w \<equiv> ids_ok (wdb w) \<and> abs_db (wdb w) = a"

text \<open>While a run is in progress nothing happens that the machine sees.\<close>

interpretation in_progress: running_keeps "steady a" "lifted wall t" "\<lambda>_. True" rid plan unseen
  for a and rid :: int and wall :: "'h \<Rightarrow> int" and t :: "'h transport" and plan :: run_plan
proof (intro running_keeps.intro running_keeps_axioms.intro lifted_keeps)
  fix w :: "'h world" and h
  assume "steady a w"
  then show "steady a (w\<lparr>whost := h, wdb := (wdb w)\<lparr>clock := wall h\<rparr>\<rparr>)"
    using ids_ok_cong [of "wdb w" "(wdb w)\<lparr>clock := wall h\<rparr>"] abs_db_cong [of "wdb w" "(wdb w)\<lparr>clock := wall h\<rparr>"] by simp
next
  fix w :: "'h world" and vm b
  assume "steady a w"
  then show "steady a (w\<lparr>wdb := set_vm_next_run vm b (wdb w)\<rparr>)"
    using ids_ok_cong [of "wdb w" "set_vm_next_run vm b (wdb w)"] abs_db_cong [of "wdb w" "set_vm_next_run vm b (wdb w)"]
    by (simp add: set_vm_next_run_def)
qed (simp_all add: update_unseen)

lemma steady_row: "steady a w \<Longrightarrow> a i = Some x \<Longrightarrow> \<exists>r. get_run i (wdb w) = Some r \<and> abs_run r = x"
  by (auto simp: abs_db_def)

lemma record_ends:
  assumes "rsteps s a" and "a i = Some x" and "ar_stage x \<noteq> Over"
    and "(case st of Some y \<Rightarrow> if y = [] then res else y | None \<Rightarrow> res) = fin"
    and "stage_of fin = Over \<or> fin = ''held'' \<and> ar_stage x = Active"
  shows "ends (steady a) (record_result i plan res secs nt chk lg st) (\<lambda>_. reached_world s) (reached_world s)"
  unfolding record_result_def on_db_def
proof (rule ends_modify)
  fix w :: "'a world" assume w: "steady a w"
  obtain r where r: "get_run i (wdb w) = Some r" "abs_run r = x" using steady_row [OF w assms(2)] by blast
  have "reached s (wdb w)" using w assms(1) by (simp add: reached_def)
  moreover have "stage_of (status r) = ar_stage x" using r(2) by (auto simp: abs_run_def)
  ultimately have "reached s (snd (record_run_result i (pl_vm_id plan) res secs nt chk lg st (wdb w)))"
    by (intro record_reached [OF _ r(1) _ assms(4)]) (use assms(3,5) in auto)
  then show "reached_world s (w\<lparr>wdb := snd (record_run_result i (pl_vm_id plan) res secs nt chk lg st (wdb w))\<rparr>)" by simp
qed

lemma reached_next_run [simp]: "reached s (set_vm_next_run vm b d) = reached s d"
  by (rule reached_cong) (simp_all add: set_vm_next_run_def)

lemma next_run_reached: "keeps (reached_world s) (on_db (set_vm_next_run vm b))"
  by (rule keeps_on_db) simp

lemma retry_reached: "keeps (reached_world s) (retry_later plan)"
  unfolding retry_later_def schedule_retry_def by (intro keeps_intro) simp

lemma helper_back_keeps: "keeps (reached_world s) (set_run i [F_helper_vmid None, F_mgmt_ip None])"
  unfolding set_run_def by (rule keeps_on_db) (simp add: helper_back_reached)

lemma finalize_ends:
  assumes "rsteps s a" and "a i = Some x" and "ar_stage x = Active" and "res \<in> set RESULTS"
  shows "ends (steady a) (finalize (lifted wall t) i plan res chk secs lg) (\<lambda>_. reached_world s) (reached_world s)"
proof -
  have over: "stage_of res = Over" using assms(4) by (auto simp: RESULTS_def stage_of_def)
  have out: "reached_world s w" if "steady a w" for w :: "'a world" using that assms(1) by (simp add: reached_def)
  have quietly: "ends (steady a) m (\<lambda>_. steady a) (reached_world s)" if "keeps (steady a) m" for m :: "('a, unit) wact"
    by (rule ends_keepsI [OF that]) (auto intro: out)
  have rec: "ends (steady a) (record_result i plan res secs [] (Some chk) lg st) (\<lambda>_. reached_world s) (reached_world s)"
    if "st = None \<or> st = Some ''held''" for st
    by (rule record_ends [OF assms(1,2) _ refl]) (use that assms(3) over in auto)
  have after: "ends (reached_world s) (thn m (ret res)) (\<lambda>_. reached_world s) (reached_world s)"
    if "keeps (reached_world s) m" for m :: "('a, unit) wact"
    by (intro ends_thn [OF ends_keeps [OF that]] ends_ret)
  show ?thesis
    unfolding finalize_def
    by (intro ends_if ends_thn [OF quietly [OF in_progress.teardown_keeps]] ends_thn [OF rec] ends_thn [OF quietly]
        ends_thn [OF ends_keeps [OF helper_back_keeps]] ends_ret after)
      (auto intro!: keeps_intro in_progress.exists_keeps in_progress.destroy_keeps after retry_reached next_run_reached)
qed


lemma ends_ret_facts: "ends P m Q E \<Longrightarrow> (\<And>s a u. P s \<Longrightarrow> m s = (Ret a, u) \<Longrightarrow> R a) \<Longrightarrow> ends P m (\<lambda>a u. Q a u \<and> R a) E"
  by (fastforce simp: ends_def split: prod.splits outcome.splits)

lemma run_to_end_ends:
  assumes "rsteps s a" and "a i = Some x" and "ar_stage x = Active"
  shows "ends (steady a) (run_to_end fuel (lifted wall t) cfg i plan ph (default_probe (lifted wall t) plan) (cancel_of i) t0)
    (\<lambda>_. reached_world s) (reached_world s)"
proof -
  let ?h = "\<lambda>e. case e of RestoreCancelled _ \<Rightarrow> ret (''cancelled'', Note ''cancelled by operator'', None)
             | _ \<Rightarrow> bnd (error_log (lifted wall t) cfg plan (exn_text e)) (\<lambda>lg. ret (''error'', ErrorNote (exn_text e), Some lg))"
  let ?b = "catch (bnd (run_pipeline fuel (lifted wall t) cfg i plan ph (default_probe (lifted wall t) plan) (cancel_of i))
      (\<lambda>(res, chk, lg). ret (result_text res, chk, lg))) ?h"
  have out: "reached_world s w" if "steady a w" for w :: "'a world" using that assms(1) by (simp add: reached_def)
  have probe: "keeps (steady a) (default_probe (lifted wall t) plan ts)" for ts by (rule in_progress.default_probe_keeps)
  have cancel: "keeps (steady a) (cancel_of i)" unfolding cancel_of_def by (rule keeps_from_db)
  have "keeps (steady a) ?b"
    by (intro keeps_intro in_progress.pipeline_keeps in_progress.error_log_keeps probe cancel)
  then have "ends (steady a) ?b (\<lambda>_. steady a) (reached_world s)"
    by (rule ends_keepsI) (auto intro: out)
  then have b: "ends (steady a) ?b (\<lambda>v w. steady a w \<and> (case v of (res, chk, lg) \<Rightarrow> res \<in> set RESULTS)) (reached_world s)"
    by (rule ends_ret_facts) (auto dest: handled_result)
  have fin: "ends (\<lambda>w. steady a w \<and> (case v of (res, chk, lg) \<Rightarrow> res \<in> set RESULTS))
      (case v of (res, chk, lg) \<Rightarrow> bnd (elapsed_since (lifted wall t) t0) (\<lambda>secs. finalize (lifted wall t) i plan res chk secs lg))
      (\<lambda>_. reached_world s) (reached_world s)" for v
  proof (cases v)
    case (fields res chk lg)
    have el: "ends (steady a) (elapsed_since (lifted wall t) t0) (\<lambda>_. steady a) (reached_world s)"
      by (rule ends_keepsI [OF in_progress.elapsed_keeps]) (auto intro: out)
    have "ends (steady a) (bnd (elapsed_since (lifted wall t) t0) (\<lambda>secs. finalize (lifted wall t) i plan res chk secs lg))
        (\<lambda>_. reached_world s) (reached_world s)" if "res \<in> set RESULTS"
      by (rule ends_bnd [OF el finalize_ends [OF assms that]])
    then show ?thesis by (simp add: fields) (auto simp: ends_def)
  qed
  show ?thesis unfolding run_to_end_def by (rule ends_bnd [OF b fin])
qed

text \<open>Queue entries that have not started.\<close>

definition waits :: "int \<Rightarrow> db \<Rightarrow> bool" where
  "waits i d = (\<exists>r. get_run i d = Some r \<and> status r = ''queued'')"

definition plan_env :: "run_plan \<Rightarrow> env" where
  "plan_env plan = \<lparr>e_vmids = {pl_restore_vmid plan, pl_helper_vmid plan}, e_tags = {pl_vlan_tag plan}, e_ips = {pl_mgmt_ip plan}\<rparr>"

lemma started_row: "abs_run (fold set_field (filter (\<lambda>f. col_name f \<in> set UPDATABLE) (started_fields plan now)) r)
    = (abs_run r)\<lparr>ar_stage := Active, ar_env := plan_env plan\<rparr>"
  by (auto simp: started_fields_def UPDATABLE_def abs_run_def env_of_def env_vmids_def plan_env_def)

lemma allocated_free:
  assumes "allocated c d plan" and "ids_ok d" and "q \<in> ran (abs_db d)"
  shows "env_apart (plan_env plan) (ar_env q)"
proof -
  obtain r where r: "r \<in> set (runs d)" "q = abs_run r" using assms(2,3) ran_abs by auto
  show ?thesis
  proof (cases "status r \<in> {''running'', ''held''}")
    case True
    let ?p = "(r\<lparr>restore_vmid := Some (pl_restore_vmid plan), helper_vmid := Some (pl_helper_vmid plan),
        vlan_tag := Some (pl_vlan_tag plan), mgmt_ip := Some (pl_mgmt_ip plan)\<rparr>)"
    have "apart ?p r"
      by (rule allocated_apart [OF assms(1)]) (use r(1) True in \<open>simp_all add: env_in_def env_vmids_def owners_def\<close>)
    then show ?thesis using r(2) True by (auto simp: apart_def env_apart_def abs_run_def env_of_def plan_env_def env_vmids_def)
  next
    case False
    then show ?thesis by (simp add: r(2) abs_run_def env_of_def)
  qed
qed

lemma start_reached:
  assumes "reached s d" and "allocated c d plan" and "\<not> has_active_run d" and "waits i d"
  shows "reached s (update_run i (started_fields plan now) d)
    \<and> (\<exists>x. abs_db (update_run i (started_fields plan now) d) i = Some x \<and> ar_stage x = Active)"
proof -
  let ?d = "update_run i (started_fields plan now) d"
  have ok: "ids_ok d" using assms(1) by (simp add: reached_def)
  obtain r where r: "get_run i d = Some r" "status r = ''queued''" using assms(4) by (auto simp: waits_def)
  have a: "abs_db d i = Some (abs_run r)" "ar_stage (abs_run r) = Waiting" using r by (simp_all add: abs_db_def abs_run_def)
  have new: "abs_db ?d = (abs_db d)(i \<mapsto> (abs_run r)\<lparr>ar_stage := Active, ar_env := plan_env plan\<rparr>)"
    using abs_db_map [OF runs_update_run [of i "started_fields plan now" d]] r started_row [of plan now r] by simp
  have none: "\<forall>q\<in>ran (abs_db d). ar_stage q \<noteq> Active"
    using assms(3) unfolding ran_abs [OF ok] by (auto simp: has_active_run_def list_ex_iff abs_run_def)
  have "rstep (abs_db d) (abs_db ?d)"
    unfolding new using rstep.launch [OF a none] allocated_free [OF assms(2) ok] by blast
  then show ?thesis using reached_step [OF assms(1) update_ids_ok [OF ok]] new by simp
qed

lemma execute_ends:
  "ends (\<lambda>w. reached s (wdb w) \<and> allocated c (wdb w) plan \<and> \<not> has_active_run (wdb w) \<and> waits i (wdb w))
     (execute_run fuel (lifted wall t) cfg i plan ph) (\<lambda>_. reached_world s) (reached_world s)"
proof -
  let ?J = "\<lambda>d. reached s d \<and> allocated c d plan \<and> \<not> has_active_run d \<and> waits i d"
  have cong: "?J d = ?J d'" if "runs d = runs d'" "next_run_id d = next_run_id d'" for d d'
    using that reached_cong [OF that] allocated_cong [OF that(1)] by (simp add: has_active_run_def waits_def get_run_def)
  have now: "ends (\<lambda>w. ?J (wdb w)) (tr_now (lifted wall t)) (\<lambda>_ w. ?J (wdb w)) (reached_world s)"
    by (rule ends_keepsI [OF readsJ [OF now_reads, of ?J]]) (assumption | rule cong | blast)+
  have "ends (\<lambda>w. w = w0) (thn (on_db (\<lambda>d. update_run i (started_fields plan (clock d)) d))
        (run_to_end fuel (lifted wall t) cfg i plan ph (default_probe (lifted wall t) plan) (cancel_of i) t0))
        (\<lambda>_. reached_world s) (reached_world s)" if w0: "?J (wdb w0)" for w0 :: "'a world" and t0
  proof (rule ends_thn)
    let ?d = "update_run i (started_fields plan (clock (wdb w0))) (wdb w0)"
    have d: "reached s ?d" "\<exists>x. abs_db ?d i = Some x \<and> ar_stage x = Active"
      using start_reached [of s "wdb w0" c plan i] w0 by blast+
    show "ends (\<lambda>w. w = w0) (on_db (\<lambda>d. update_run i (started_fields plan (clock d)) d)) (\<lambda>_. steady (abs_db ?d)) (reached_world s)"
      unfolding on_db_def by (rule ends_modify) (use d in \<open>simp add: reached_def\<close>)
    show "ends (steady (abs_db ?d)) (run_to_end fuel (lifted wall t) cfg i plan ph (default_probe (lifted wall t) plan) (cancel_of i) t0)
        (\<lambda>_. reached_world s) (reached_world s)"
      using run_to_end_ends d unfolding reached_def by blast
  qed
  then have "ends (\<lambda>w. ?J (wdb w)) (thn (on_db (\<lambda>d. update_run i (started_fields plan (clock d)) d))
        (run_to_end fuel (lifted wall t) cfg i plan ph (default_probe (lifted wall t) plan) (cancel_of i) t0))
        (\<lambda>_. reached_world s) (reached_world s)" for t0
    by (auto simp: ends_def)
  then show ?thesis unfolding execute_run_def execute_def by (rule ends_bnd [OF now])
qed


section \<open>The drainer\<close>

definition waiting :: "run_row list \<Rightarrow> db \<Rightarrow> bool" where
  "waiting rs d = list_all (\<lambda>r. waits (run_id r) d) rs"

abbreviation ready :: "cycle \<Rightarrow> run_row list \<Rightarrow> db \<Rightarrow> bool" where
  "ready s rs d \<equiv> reached s d \<and> \<not> has_active_run d \<and> waiting rs d"

lemma ready_cong: "runs d = runs d' \<Longrightarrow> next_run_id d = next_run_id d' \<Longrightarrow> ready s rs d = ready s rs d'"
  using reached_cong [of d d'] by (simp add: has_active_run_def waiting_def waits_def get_run_def)

lemma dequeue_ready:
  assumes "run_id run \<notin> run_id ` set rest"
  shows "ends (\<lambda>w. ready s (run # rest) (wdb w)) (dequeue_error run chk) (\<lambda>_ w. ready s rest (wdb w)) (reached_world s)"
  unfolding dequeue_error_def on_db_def
proof (rule ends_modify)
  fix w :: "'a world" assume w: "ready s (run # rest) (wdb w)"
  let ?d = "snd (record_run_result (run_id run) (run_vm run) ''error'' 0 [] chk None (Some ''error'') (wdb w))"
  let ?f = "finished_row ''error'' ''error'' 0 None (clock (wdb w)) chk None"
  obtain r where r: "get_run (run_id run) (wdb w) = Some r" "status r = ''queued''" using w by (auto simp: waiting_def waits_def)
  have runs: "runs ?d = map (\<lambda>r. if run_id r = run_id run then ?f r else r) (runs (wdb w))"
    by (simp add: runs_record_run_result COUNTS_AS_TEST_def)
  have "reached s ?d"
    by (rule record_reached [where r = r and fin = "''error''"]) (use w r in \<open>simp_all add: stage_of_def\<close>)
  moreover have "\<not> has_active_run ?d"
    using w by (auto simp: has_active_run_def runs list_ex_iff)
  moreover have "get_run j ?d = get_run j (wdb w)" if "j \<noteq> run_id run" for j
  proof -
    have "get_run j ?d = map_option (\<lambda>r. if run_id r = run_id run then ?f r else r) (get_run j (wdb w))"
      unfolding get_run_def runs by (rule get_run_map) simp
    then show ?thesis using that by (cases "get_run j (wdb w)") (auto dest: get_run_Some)
  qed
  then have other: "get_run (run_id q) ?d = get_run (run_id q) (wdb w)" if "q \<in> set rest" for q
    using that assms by (metis image_eqI)
  then have "waiting rest ?d" using w by (auto simp: waiting_def waits_def list_all_iff)
  ultimately show "ready s rest (wdb (w\<lparr>wdb := ?d\<rparr>))" by simp
qed

lemma mail_reached: "quiet_mail notify \<Longrightarrow> keeps (reached_world s) (notify_result notify vm res)"
  unfolding notify_result_def by (intro keeps_intro reads_reached) (auto simp: quiet_mail_def)

abbreviation entry_ready :: "cycle \<Rightarrow> run_row list \<Rightarrow> entry_end \<Rightarrow> 'h world \<Rightarrow> bool" where
  "entry_ready s rest e w \<equiv> reached_world s w \<and> (e = NextEntry \<longrightarrow> ready s rest (wdb w))"

lemma drain_entry_refines:
  fixes notify :: "int \<Rightarrow> string \<Rightarrow> ('h, unit) wact"
  assumes mail: "quiet_mail notify" and new: "run_id run \<notin> run_id ` set rest"
  shows "ends (\<lambda>w. ready s (run # rest) (wdb w)) (drain_entry fuel (lifted wall t) resolve notify oc ph run)
    (entry_ready s rest) (reached_world s)"
proof -
  let ?tr = "lifted wall t" and ?J = "\<lambda>d. ready s (run # rest) d"
  let ?K = "\<lambda>plan d. ?J d \<and> allocated (oc_ranges oc) d plan"
  have skip: "ends (\<lambda>w. ?J (wdb w)) (ret NextEntry) (entry_ready s rest) (reached_world s)"
    by (rule ends_ret) (simp add: waiting_def)
  have dequeue: "ends (\<lambda>w. ?J (wdb w)) (thn (dequeue_error run chk) (ret NextEntry)) (entry_ready s rest) (reached_world s)" for chk
    by (rule ends_thn [OF dequeue_ready [OF new] ends_ret]) simp
  have start: "ends (\<lambda>w. ?K plan (wdb w))
      (bnd (fits_disk_now ?tr oc plan) (\<lambda>disk_ok. if \<not> disk_ok then ret NextEntry
       else bnd (fits_ram_now ?tr oc plan) (\<lambda>ram_ok. if \<not> ram_ok then ret NextEntry
       else bnd (from_db running_storage) (\<lambda>busy. if busy \<noteq> [] \<and> busy \<in> set (plan_storages plan) then ret NextEntry
       else bnd (execute_run fuel ?tr (oc_server oc) (run_id run) plan ph) (\<lambda>res.
          thn (notify_result notify (run_vm run) res) (ret Executed)))))) (entry_ready s rest) (reached_world s)" for plan
  proof -
    have look: "ends (\<lambda>w. ?K plan (wdb w)) m (\<lambda>_ w. ?K plan (wdb w)) (reached_world s)" if "reads m" for m :: "('h, bool) wact"
      by (rule ends_keepsI [OF readsJ [OF that, of "?K plan"]])
        (use ready_cong allocated_cong in blast | assumption | blast)+
    have read: "ends (\<lambda>w. ?K plan (wdb w)) (from_db running_storage) (\<lambda>_ w. ?K plan (wdb w)) (reached_world s)"
      by (rule from_db_ends)
    have skip': "ends (\<lambda>w. ?K plan (wdb w)) (ret NextEntry) (entry_ready s rest) (reached_world s)"
      by (rule ends_weaken [OF skip]) simp_all
    have exec: "ends (\<lambda>w. ?K plan (wdb w)) (execute_run fuel ?tr (oc_server oc) (run_id run) plan ph) (\<lambda>_. reached_world s) (reached_world s)"
      by (rule ends_weaken [OF execute_ends]) (auto simp: waiting_def)
    have mailed: "ends (reached_world s) (thn (notify_result notify (run_vm run) res) (ret Executed)) (entry_ready s rest) (reached_world s)" for res
      by (intro ends_thn [OF ends_keeps [OF mail_reached [OF mail]]] ends_ret) simp
    show ?thesis
      by (intro ends_bnd [OF look [OF fits_read(1)]] ends_bnd [OF look [OF fits_read(2)]] ends_if skip' ends_bnd [OF read]
          ends_bnd [OF exec mailed])
  qed
  have plan_post: "ends (\<lambda>w. ?J (wdb w)) (build_plan ?tr resolve oc cand)
      (\<lambda>po w. ?J (wdb w) \<and> (\<forall>plan. po = Some plan \<longrightarrow> allocated (oc_ranges oc) (wdb w) plan)) (\<lambda>w. ?J (wdb w))" for cand
  proof (rule endsI)
    fix w po w' assume w: "?J (wdb w)" and b: "build_plan ?tr resolve oc cand w = (Ret po, w')"
    have J: "?J (wdb w')" using keepsD [OF readsJ [OF plan_reads, of ?J] w b] ready_cong by blast
    have "allocated (oc_ranges oc) (wdb w') plan" if "po = Some plan" for plan
      using plan_allocated b that allocated_cong readsD [OF plan_reads b] by blast
    then show "?J (wdb w') \<and> (\<forall>plan. po = Some plan \<longrightarrow> allocated (oc_ranges oc) (wdb w') plan)" using J by blast
  qed (use keepsD [OF readsJ [OF plan_reads, of ?J]] ready_cong in blast)+
  have planned: "ends (\<lambda>w. ?J (wdb w)) (catch (bnd (build_plan ?tr resolve oc cand) (\<lambda>p. ret (Inr p)))
            (\<lambda>e. case e of NotRunnable m \<Rightarrow> ret (Inl m) | _ \<Rightarrow> raise e))
       (\<lambda>r w. ?J (wdb w) \<and> (\<forall>plan. r = Inr (Some plan) \<longrightarrow> allocated (oc_ranges oc) (wdb w) plan)) (reached_world s)" for cand
    by (rule ends_catch [where R = "\<lambda>w. ?J (wdb w)"], rule ends_bnd [OF plan_post])
      (auto intro: ends_ret ends_raise split: exn.split)
  have tried: "ends (\<lambda>w. ?J (wdb w) \<and> (\<forall>plan. r = Inr (Some plan) \<longrightarrow> allocated (oc_ranges oc) (wdb w) plan))
      (case r of
         Inl m \<Rightarrow> thn (dequeue_error run (Some (ErrorNote m))) (ret NextEntry)
       | Inr None \<Rightarrow> ret QueueWaits
       | Inr (Some plan) \<Rightarrow>
         bnd (fits_disk_now ?tr oc plan) (\<lambda>disk_ok. if \<not> disk_ok then ret NextEntry
         else bnd (fits_ram_now ?tr oc plan) (\<lambda>ram_ok. if \<not> ram_ok then ret NextEntry
         else bnd (from_db running_storage) (\<lambda>busy. if busy \<noteq> [] \<and> busy \<in> set (plan_storages plan) then ret NextEntry
         else bnd (execute_run fuel ?tr (oc_server oc) (run_id run) plan ph) (\<lambda>res.
            thn (notify_result notify (run_vm run) res) (ret Executed)))))) (entry_ready s rest) (reached_world s)" for r
  proof (cases r)
    case (Inl m)
    then show ?thesis using dequeue by simp
  next
    case (Inr po)
    show ?thesis
    proof (cases po)
      case None
      then show ?thesis using Inr by (auto intro: ends_ret)
    next
      case (Some plan)
      then show ?thesis using Inr start [of plan] by simp
    qed
  qed
  have body: "ends (\<lambda>w. ?J (wdb w)) (case co of
        None \<Rightarrow> thn (dequeue_error run None) (ret NextEntry)
      | Some cand \<Rightarrow> bnd (catch (bnd (build_plan ?tr resolve oc cand) (\<lambda>p. ret (Inr p)))
            (\<lambda>e. case e of NotRunnable m \<Rightarrow> ret (Inl m) | _ \<Rightarrow> raise e)) (\<lambda>r. case r of
         Inl m \<Rightarrow> thn (dequeue_error run (Some (ErrorNote m))) (ret NextEntry)
       | Inr None \<Rightarrow> ret QueueWaits
       | Inr (Some plan) \<Rightarrow>
         bnd (fits_disk_now ?tr oc plan) (\<lambda>disk_ok. if \<not> disk_ok then ret NextEntry
         else bnd (fits_ram_now ?tr oc plan) (\<lambda>ram_ok. if \<not> ram_ok then ret NextEntry
         else bnd (from_db running_storage) (\<lambda>busy. if busy \<noteq> [] \<and> busy \<in> set (plan_storages plan) then ret NextEntry
         else bnd (execute_run fuel ?tr (oc_server oc) (run_id run) plan ph) (\<lambda>res.
            thn (notify_result notify (run_vm run) res) (ret Executed))))))) (entry_ready s rest) (reached_world s)" for co :: "candidate option"
    using dequeue ends_bnd [OF planned tried] by (cases co) simp_all
  have read: "ends (\<lambda>w. ?J (wdb w)) (from_db (candidate_for_vm (run_vm run))) (\<lambda>_ w. ?J (wdb w)) (reached_world s)"
    by (rule from_db_ends)
  show ?thesis unfolding drain_entry_def by (rule ends_bnd [OF read body])
qed


lemma drain_queue_refines:
  assumes "quiet_mail notify" and "distinct (map run_id queued)"
  shows "ends (\<lambda>w. ready s queued (wdb w)) (drain_queue fuel (lifted wall t) resolve notify oc ph queued)
    (\<lambda>_. reached_world s) (reached_world s)"
  using assms(2)
proof (induction queued)
  case Nil
  show ?case by (auto intro: ends_ret)
next
  case (Cons run rest)
  have new: "run_id run \<notin> run_id ` set rest" and rest: "distinct (map run_id rest)" using Cons.prems by auto
  have "ends (entry_ready s rest e) (case e of NextEntry \<Rightarrow> drain_queue fuel (lifted wall t) resolve notify oc ph rest | _ \<Rightarrow> ret e)
      (\<lambda>_. reached_world s) (reached_world s)" for e
    by (cases e) (auto intro: ends_ret ends_weaken [OF Cons.IH [OF rest]])
  then show ?case unfolding drain_queue.simps by (rule ends_bnd [OF drain_entry_refines [OF assms(1) new]])
qed

text \<open>The queue as it is read: its entries wait, under different ids.\<close>

lemma distinct_ids: "distinct (map run_id rs) = (distinct rs \<and> inj_on run_id (set rs))"
  by (rule distinct_map)

lemma ids_subset: "ids_ok d \<Longrightarrow> distinct rs \<Longrightarrow> set rs \<subseteq> set (runs d) \<Longrightarrow> distinct (map run_id rs)"
  unfolding ids_ok_def distinct_ids using inj_on_subset by blast

lemma ids_ok_distinct: "ids_ok d \<Longrightarrow> distinct (runs d)"
  by (simp add: ids_ok_def distinct_ids)

lemma queued_distinct: "ids_ok d \<Longrightarrow> distinct (map run_id (list_queued_runs d))"
  by (rule ids_subset) (use ids_ok_distinct in \<open>auto simp: list_queued_runs_def\<close>)

lemma queued_wait: "ids_ok d \<Longrightarrow> waiting (list_queued_runs d) d"
  by (auto simp: waiting_def waits_def list_all_iff set_list_queued get_run_iff)

lemma drain_rounds_refines:
  assumes "quiet_mail notify"
  shows "keeps (reached_world s) (drain_rounds k fuel (lifted wall t) resolve notify oc ph)"
proof (rule keeps_ends, induction k)
  case 0
  show ?case by (simp add: ends_no_fuel)
next
  case (Suc k)
  let ?go = "\<lambda>queued. bnd (drain_queue fuel (lifted wall t) resolve notify oc ph queued) (\<lambda>e.
           if e = Executed then drain_rounds k fuel (lifted wall t) resolve notify oc ph else ret ())"
  let ?ok = "\<lambda>queued w. ready s queued (wdb w) \<and> distinct (map run_id queued)"
  have again: "ends (reached_world s) (if e = Executed then drain_rounds k fuel (lifted wall t) resolve notify oc ph else ret ())
      (\<lambda>_. reached_world s) (reached_world s)" for e
    by (intro ends_if Suc ends_ret)
  have go: "ends (?ok queued) (if queued = [] then ret () else ?go queued) (\<lambda>_. reached_world s) (reached_world s)" for queued
  proof (cases "distinct (map run_id queued)")
    case True
    have "ends (?ok queued) (drain_queue fuel (lifted wall t) resolve notify oc ph queued) (\<lambda>_. reached_world s) (reached_world s)"
      by (rule ends_weaken [OF drain_queue_refines [OF assms True]]) simp_all
    then show ?thesis by (intro ends_if ends_ret ends_bnd [OF _ again]) simp_all
  next
    case False
    then show ?thesis by (simp add: ends_def)
  qed
  have queue: "ends (\<lambda>w. reached_world s w \<and> has_active_run (wdb w) = active)
      (if active then ret () else bnd (from_db list_queued_runs) (\<lambda>queued. if queued = [] then ret () else ?go queued))
      (\<lambda>_. reached_world s) (reached_world s)" for active
    by (intro ends_if ends_ret ends_bnd [OF from_db_ends [of _ ?ok] go])
      (auto simp: reached_def intro: queued_distinct queued_wait)
  have read1: "ends (reached_world s) (from_db queue_paused) (\<lambda>_. reached_world s) (reached_world s)" by (rule from_db_ends)
  have read2: "ends (reached_world s) (from_db has_active_run) (\<lambda>a w. reached_world s w \<and> has_active_run (wdb w) = a) (reached_world s)"
    by (rule from_db_ends) simp
  show ?case unfolding drain_rounds.simps by (intro ends_bnd [OF read1] ends_if ends_ret ends_bnd [OF read2 queue])
qed

section \<open>Queueing\<close>

lemma enqueue_due_refines: "keeps (reached_world s) (enqueue_due (lifted wall t) resolve)"
proof -
  have each: "keeps (reached_world s) (enqueue_each entries cands n)" for entries cands n
    by (induction cands arbitrary: n) (auto intro!: keeps_intro create_reached)
  show ?thesis unfolding enqueue_due_def by (intro keeps_intro each reads_reached [OF entries_read])
qed

section \<open>Recovery\<close>

text \<open>Rows of the list that are still running.\<close>

definition still :: "run_row list \<Rightarrow> db \<Rightarrow> bool" where
  "still rs d = list_all (\<lambda>r. \<exists>q. get_run (run_id r) d = Some q \<and> status q = ''running'') rs"

abbreviation stuck_world :: "cycle \<Rightarrow> run_row list \<Rightarrow> 'h world \<Rightarrow> bool" where
  "stuck_world s rs w \<equiv> reached_world s w \<and> still rs (wdb w)"

lemma still_cong: "runs d = runs d' \<Longrightarrow> still rs d = still rs d'"
  by (simp add: still_def get_run_def)

lemma stuck_cong: "runs d = runs d' \<Longrightarrow> next_run_id d = next_run_id d' \<Longrightarrow> (reached s d \<and> still rs d) = (reached s d' \<and> still rs d')"
  using reached_cong still_cong by blast

lemma still_map:
  assumes "runs d' = map (\<lambda>r. if run_id r = i then f r else r) (runs d)" and "\<And>r. run_id (f r) = run_id r"
    and "still rs d" and "i \<notin> run_id ` set rs \<or> (\<forall>r. status (f r) = status r)"
  shows "still rs d'"
  unfolding still_def list_all_iff
proof
  fix r assume r: "r \<in> set rs"
  have "get_run (run_id r) d' = map_option (\<lambda>q. if run_id q = i then f q else q) (get_run (run_id r) d)"
    unfolding get_run_def assms(1) by (rule get_run_map) (simp add: assms(2))
  moreover obtain q where q: "get_run (run_id r) d = Some q" "status q = ''running''"
    using assms(3) r by (auto simp: still_def list_all_iff)
  moreover have "run_id q = run_id r" using q(1) get_run_Some by blast
  moreover have "run_id r \<noteq> i" if "i \<notin> run_id ` set rs" using that r by auto
  ultimately show "\<exists>q. get_run (run_id r) d' = Some q \<and> status q = ''running''" using assms(4) by auto
qed

lemma cancel_stuck: "reached s d \<and> still rs d \<Longrightarrow> reached s (snd (request_cancel i d)) \<and> still rs (snd (request_cancel i d))"
proof -
  assume d: "reached s d \<and> still rs d"
  let ?f = "\<lambda>r. if status r = ''running'' then r\<lparr>cancel_flag := True\<rparr> else r"
  have runs: "runs (snd (request_cancel i d)) = map (\<lambda>r. if run_id r = i then ?f r else r) (runs d)"
    by (simp add: request_cancel_def update_where_def map_if_and)
  have "still rs (snd (request_cancel i d))" by (rule still_map [OF runs]) (use d in simp_all)
  then show ?thesis using cancel_reached d by blast
qed

lemma dequeue_stuck:
  assumes "run_id run \<notin> run_id ` set rest"
  shows "ends (stuck_world s (run # rest)) (dequeue_error run chk) (\<lambda>_. stuck_world s rest) (reached_world s)"
  unfolding dequeue_error_def on_db_def
proof (rule ends_modify)
  fix w :: "'a world" assume w: "stuck_world s (run # rest) w"
  let ?d = "snd (record_run_result (run_id run) (run_vm run) ''error'' 0 [] chk None (Some ''error'') (wdb w))"
  obtain r where r: "get_run (run_id run) (wdb w) = Some r" "status r = ''running''" using w by (auto simp: still_def)
  have "reached s ?d"
    by (rule record_reached [where r = r and fin = "''error''"]) (use w r in \<open>simp_all add: stage_of_def\<close>)
  moreover have "still rest ?d"
    by (rule still_map [OF runs_record_run_result]) (use w assms in \<open>simp_all add: still_def\<close>)
  ultimately show "stuck_world s rest (w\<lparr>wdb := ?d\<rparr>)" by simp
qed

lemma recover_run_refines:
  assumes "run_id run \<notin> run_id ` set rest"
  shows "ends (stuck_world s (run # rest)) (recover_run (lifted wall t) oc present now run n) (\<lambda>_. stuck_world s rest) (reached_world s)"
proof -
  have look: "ends (stuck_world s (run # rest)) m (\<lambda>_. stuck_world s (run # rest)) (reached_world s)"
    if "keeps (stuck_world s (run # rest)) m" for m :: "('a, 'b) wact"
    by (rule ends_keepsI [OF that]) simp_all
  have out: "ends (stuck_world s (run # rest)) (ret k) (\<lambda>_. stuck_world s rest) (reached_world s)" for k :: int
    by (rule ends_ret) (simp add: still_def)
  have alive: "keeps (stuck_world s (run # rest)) (still_alive (lifted wall t) present run)"
    by (rule readsJ [OF alive_reads]) (rule stuck_cong)
  have down: "keeps (stuck_world s (run # rest)) (teardown (lifted wall t) plan)" for plan
    by (rule readsJ [OF teardown_reads]) (rule stuck_cong)
  have cancel: "keeps (stuck_world s (run # rest)) (on_db (\<lambda>d. snd (request_cancel (run_id run) d)))"
    by (rule keeps_on_db) (use cancel_stuck in simp)
  have tear: "keeps (stuck_world s (run # rest)) (quiet (bnd (plan_of_run run oc) (teardown (lifted wall t))))"
    unfolding plan_of_run_def lift_r_def by (intro keeps_intro down)
  show ?thesis
    unfolding recover_run_def
    by (intro ends_if out ends_bnd [OF look [OF alive]] ends_thn [OF look [OF cancel]] ends_thn [OF look [OF tear]]
        ends_thn [OF dequeue_stuck [OF assms]] ends_ret)
qed

lemma recover_each_refines:
  "distinct (map run_id rs) \<Longrightarrow> ends (stuck_world s rs) (foldact (recover_run (lifted wall t) oc present now) rs n)
     (\<lambda>_. reached_world s) (reached_world s)"
proof (induction rs arbitrary: n)
  case Nil
  show ?case by (auto intro: ends_ret)
next
  case (Cons run rest)
  then have new: "run_id run \<notin> run_id ` set rest" and rest: "distinct (map run_id rest)" by auto
  show ?case unfolding foldact.simps by (rule ends_bnd [OF recover_run_refines [OF new] Cons.IH [OF rest]])
qed

lemma list_runs_rows: "set (list_runs n st k trig cl q d) \<subseteq> {r \<in> set (runs d). runs_filter st trig cl q d r}"
  unfolding list_runs_def using set_take_subset set_drop_subset by fastforce

lemma running_list:
  assumes "ids_ok d"
  shows "distinct (map run_id (list_runs n (Some ''running'') k None None None d))"
    and "still (list_runs n (Some ''running'') k None None None d) d"
proof -
  have "distinct (list_runs n (Some ''running'') k None None None d)"
    using ids_ok_distinct [OF assms] by (simp add: list_runs_def)
  then show "distinct (map run_id (list_runs n (Some ''running'') k None None None d))"
    using ids_subset [OF assms] list_runs_rows by blast
  show "still (list_runs n (Some ''running'') k None None None d) d"
    using list_runs_rows [of n "Some ''running''" k None None None d]
    by (fastforce simp: still_def list_all_iff get_run_iff [OF assms] runs_filter_def given_def)
qed

lemma recover_refines: "keeps (reached_world s) (recover_stuck_runs (lifted wall t) oc)"
proof (rule keeps_ends)
  let ?ok = "\<lambda>rs w. stuck_world s rs w \<and> distinct (map run_id rs)"
  have rows: "ends (reached_world s) (from_db (list_runs 500 (Some ''running'') 0 None None None)) ?ok (reached_world s)"
    by (rule from_db_ends) (auto simp: reached_def running_list)
  have host: "keeps (?ok rs) (catch (bnd (present_vmids (lifted wall t)) (\<lambda>p. ret (Some p))) (\<lambda>_. ret None))" for rs
  proof -
    have "reads (present_vmids (lifted wall t))" using transport_keeps.present_keeps [OF lifted_reads] by blast
    then have "keeps (?ok rs) (present_vmids (lifted wall t))" by (rule readsJ) (use stuck_cong in blast)
    then show ?thesis by (intro keeps_intro)
  qed
  have each: "ends (?ok rs) (foldact (recover_run (lifted wall t) oc present now) rs 0) (\<lambda>_. reached_world s) (reached_world s)" for rs present now
  proof (cases "distinct (map run_id rs)")
    case True
    show ?thesis by (rule ends_weaken [OF recover_each_refines [OF True]]) simp_all
  next
    case False
    then show ?thesis by (simp add: ends_def)
  qed
  have go: "ends (?ok rs) (case po of None \<Rightarrow> ret 0
      | Some present \<Rightarrow> bnd (from_db clock) (\<lambda>now. foldact (recover_run (lifted wall t) oc present now) rs 0))
      (\<lambda>_. reached_world s) (reached_world s)" for rs po
  proof (cases po)
    case None
    then show ?thesis by (auto intro: ends_ret)
  next
    case (Some present)
    then show ?thesis by (simp add: ends_bnd [OF from_db_ends [of _ "\<lambda>_. ?ok rs"] each])
  qed
  show "ends (reached_world s) (recover_stuck_runs (lifted wall t) oc) (\<lambda>_. reached_world s) (reached_world s)"
    unfolding recover_stuck_runs_def
    by (intro ends_bnd [OF rows] ends_if ends_ret ends_bnd [OF ends_keepsI [OF host] go]; assumption?; blast)
qed

section \<open>A pass of the scheduler\<close>

text \<open>A pass refines the machine: whatever the host answers or raises and
  wherever the pass stops, what it does to \<open>restore_runs\<close> is a sequence of the machine's steps
  (a run starts only while none is active and in an environment nobody owns, it is held or it
  ends and gives its environment back), and the ids stay unique.\<close>

lemma queue_pass_refines:
  assumes "ids_ok (wdb w)" and "quiet_mail notify"
  shows "ids_ok (wdb (snd (run_restore_queue rounds fuel (lifted wall t) resolve notify cfg w)))
    \<and> rsteps (abs_db (wdb w)) (abs_db (wdb (snd (run_restore_queue rounds fuel (lifted wall t) resolve notify cfg w))))"
proof -
  have "keeps (reached_world (abs_db (wdb w))) (run_restore_queue rounds fuel (lifted wall t) resolve notify cfg)"
    unfolding run_restore_queue_def drain_def
    by (intro keeps_intro recover_refines enqueue_due_refines drain_rounds_refines assms(2))
  then show ?thesis using assms(1) unfolding keeps_def reached_def by blast
qed

end
