(* ===== verification/RestoreWatch.thy ===== *)
theory RestoreWatch imports RestoreOrchestrator begin

text \<open>
  Who drives restore testing: the background loops of \<open>app/web/sync.py\<close> (self-heal of stuck
  runs, orphan sweep, queue watchdog, resuming after a restart) and the operator's actions of
  \<open>app/web/routes_restore.py\<close>. The state of the application is the worker's world and the jobs
  of the single-slot executor that are not done, oldest first; \<open>_restore_future\<close> is the
  youngest of them, so it is done exactly when there is none. \<open>cfg\<close> is what
  \<open>restore_config.load()\<close> returns, with the pinned host key.
\<close>

datatype slot_job = QueuePass | ResumeAll orch_config "run_row list"

record 'h app =
  app_world :: "'h world"
  app_slot :: "slot_job list"

abbreviation app_db :: "'h app \<Rightarrow> db" where
  "app_db a \<equiv> wdb (app_world a)"

type_synonym ('h, 'a) app_act = "('h app, 'a) act"

definition on_world :: "('h, 'a) wact \<Rightarrow> ('h, 'a) app_act" where
  "on_world = on_part app_world (\<lambda>w a. a\<lparr>app_world := w\<rparr>)"

definition submit :: "slot_job \<Rightarrow> ('h, unit) app_act" where
  "submit j = modify (\<lambda>a. a\<lparr>app_slot := app_slot a @ [j]\<rparr>)"

section \<open>The background loops\<close>

definition kick_restore_queue :: "('h, unit) app_act" where
  "kick_restore_queue =
     bnd (gets (\<lambda>a. app_slot a \<noteq> [] \<and> has_active_run (app_db a))) (\<lambda>busy. if busy then ret () else submit QueuePass)"

definition should_drain_now :: "bool \<Rightarrow> bool \<Rightarrow> bool \<Rightarrow> bool" where
  "should_drain_now has_active paused has_queued = (has_queued \<and> \<not> has_active \<and> \<not> paused)"

definition recover_stuck_restores :: "'h world transport \<Rightarrow> orch_config option \<Rightarrow> ('h, unit) app_act" where
  "recover_stuck_restores tr cfg =
     bnd (on_world (from_db (list_runs 1 (Some ''running'') 0 None None None))) (\<lambda>running.
     if running = [] then ret ()
     else case cfg of
       None \<Rightarrow> ret ()
     | Some oc \<Rightarrow> bnd (on_world (recover_stuck_runs tr oc)) (\<lambda>n. if n \<noteq> 0 then kick_restore_queue else ret ()))"

definition reap_orphans :: "'h world transport \<Rightarrow> orch_config option \<Rightarrow> ('h, unit) wact" where
  "reap_orphans tr cfg =
     bnd (from_db has_active_run) (\<lambda>active.
     if active then ret ()
     else case cfg of
       None \<Rightarrow> ret ()
     | Some oc \<Rightarrow> quiet (
         bnd (from_db production_endpoints) (\<lambda>production.
         thn (verify_host_identity (oc_server oc) production)
        (bnd (from_db owned_vmids) (\<lambda>owned. bnd (reap tr owned) (\<lambda>destroyed. ret ()))))))"

definition restore_queue_watchdog :: "'h world transport \<Rightarrow> orch_config option \<Rightarrow> ('h, unit) app_act" where
  "restore_queue_watchdog tr cfg =
     thn (recover_stuck_restores tr cfg)
    (thn (on_world (reap_orphans tr cfg))
    (bnd (gets (\<lambda>a. should_drain_now (has_active_run (app_db a)) (queue_paused (app_db a)) (has_queued_runs (app_db a)))) (\<lambda>go.
       if go then kick_restore_queue else ret ())))"

text \<open>The restore part of a round of \<open>auto_sync_loop\<close>.\<close>

definition sync_tick :: "'h world transport \<Rightarrow> orch_config option \<Rightarrow> ('h, unit) app_act" where
  "sync_tick tr cfg = thn (quiet (recover_stuck_restores tr cfg)) kick_restore_queue"

text \<open>A start of the application: the jobs of the old process are gone.\<close>

definition reconcile_and_resume_restores :: "orch_config option \<Rightarrow> ('h, unit) app_act" where
  "reconcile_and_resume_restores cfg =
     thn (modify (\<lambda>a. a\<lparr>app_slot := []\<rparr>))
    (thn (on_world (on_db (reconcile_on_startup (cfg \<noteq> None))))
    (case cfg of
       None \<Rightarrow> ret ()
     | Some oc \<Rightarrow> bnd (on_world (from_db (list_runs 50 (Some ''running'') 0 None None None))) (\<lambda>running.
         if running = [] then ret () else submit (ResumeAll oc running))))"

text \<open>\<open>_resume_all\<close>: the runs as they were listed at the start.\<close>

definition resume_one :: "nat \<Rightarrow> 'h world transport \<Rightarrow> orch_config \<Rightarrow> run_row \<Rightarrow> ('h, unit) wact" where
  "resume_one fuel tr oc run =
     quiet (bnd (plan_of_run run oc) (\<lambda>plan.
            bnd (resume_run fuel tr (oc_server oc) (run_id run) plan (task_upid run) (default_probe tr plan) (cancel_of (run_id run)))
              (\<lambda>res. ret ())))"

definition resume_all :: "nat \<Rightarrow> 'h world transport \<Rightarrow> orch_config \<Rightarrow> run_row list \<Rightarrow> ('h, unit) wact" where
  "resume_all fuel tr oc running = foreach (resume_one fuel tr oc) running"

text \<open>The executor takes its oldest job.\<close>

definition run_job ::
  "nat \<Rightarrow> nat \<Rightarrow> 'h world transport \<Rightarrow> (string \<Rightarrow> string list) \<Rightarrow> (int \<Rightarrow> string \<Rightarrow> ('h, unit) wact) \<Rightarrow> orch_config option
   \<Rightarrow> slot_job \<Rightarrow> ('h, unit) wact" where
  "run_job rounds fuel tr resolve notify cfg j = (case j of
       QueuePass \<Rightarrow> run_restore_queue rounds fuel tr resolve notify cfg
     | ResumeAll oc running \<Rightarrow> resume_all fuel tr oc running)"

definition run_slot ::
  "nat \<Rightarrow> nat \<Rightarrow> 'h world transport \<Rightarrow> (string \<Rightarrow> string list) \<Rightarrow> (int \<Rightarrow> string \<Rightarrow> ('h, unit) wact) \<Rightarrow> orch_config option
   \<Rightarrow> ('h, unit) app_act" where
  "run_slot rounds fuel tr resolve notify cfg =
     bnd (gets app_slot) (\<lambda>jobs. case jobs of
       [] \<Rightarrow> ret ()
     | j # js \<Rightarrow> thn (on_world (quiet (run_job rounds fuel tr resolve notify cfg j))) (modify (\<lambda>a. a\<lparr>app_slot := tl (app_slot a)\<rparr>)))"

section \<open>The operator\<close>

text \<open>The word that \<open>manual_test\<close> puts into its answer; the empty one for success.\<close>

definition manual_test ::
  "'h world transport \<Rightarrow> (string \<Rightarrow> string list) \<Rightarrow> orch_config option \<Rightarrow> int \<Rightarrow> ('h, string) app_act" where
  "manual_test tr resolve cfg vm = (case cfg of
       None \<Rightarrow> ret ''not_configured''
     | Some oc \<Rightarrow>
         bnd (on_world (catch
           (bnd (restore_host_pbs_entries tr resolve) (\<lambda>entries.
            bnd (from_db (vm_backup_locations vm)) (\<lambda>locs. ret (Some (is_auto_restorable locs entries)))))
           (\<lambda>e. ret None))) (\<lambda>m. case m of
         None \<Rightarrow> ret ''host''
       | Some matchable \<Rightarrow>
           if \<not> matchable then ret ''not_restorable''
           else thn (on_world (on_db (\<lambda>d. snd (create_run vm ''manual'' d)))) (thn kick_restore_queue (ret []))))"

text \<open>The settings of a VM as the form sends them.\<close>

record policy_form =
  pf_auto :: string
  pf_cadence :: string
  pf_primary_ip :: string
  pf_vlan :: string
  pf_timeout_minutes :: string
  pf_tcp_ports :: string
  pf_require_icmp :: string
  pf_hold :: string
  pf_retry_days :: int

definition timeout_minutes_to_seconds :: "string \<Rightarrow> int option" where
  "timeout_minutes_to_seconds raw =
     (let t = py_strip raw
      in if \<not> all_digits t \<or> nat_of_digits t \<le> 0 then None
         else Some (max 30 (min 86400 (int (nat_of_digits t) * 60))))"

definition form_ports :: "string \<Rightarrow> int list" where
  "form_ports raw = map (\<lambda>p. int (nat_of_digits p)) (filter all_digits (split_ws (map (\<lambda>c. if c = CHR '','' then CHR '' '' else c) raw)))"

definition form_vlan :: "string \<Rightarrow> int option" where
  "form_vlan raw = (let t = py_strip raw in if all_digits t then Some (int (nat_of_digits t)) else None)"

text \<open>What an \<open>INTEGER\<close> column takes.\<close>

definition fits_int4 :: "int \<Rightarrow> bool" where
  "fits_int4 n = (- (2 ^ 31) \<le> n \<and> n < 2 ^ 31)"

text \<open>The upsert: columns that it does not name keep what they hold, or are \<open>NULL\<close> in a new row.\<close>

definition policy_row_of :: "policy_form \<Rightarrow> policy_row option \<Rightarrow> policy_row" where
  "policy_row_of f old =
     \<lparr>auto_restore_enabled = (pf_auto f \<noteq> []), restore_cadence = pf_cadence f, hold_on_failure = (pf_hold f \<noteq> []),
      probe_primary_ip = (if pf_primary_ip f = [] then None else Some (pf_primary_ip f)),
      probe_vlan = form_vlan (pf_vlan f), probe_tcp_ports = form_ports (pf_tcp_ports f),
      probe_require_icmp = (pf_require_icmp f \<noteq> []), restore_retry_days = pf_retry_days f,
      next_run_at = Option.bind old next_run_at,
      probe_window_seconds = timeout_minutes_to_seconds (pf_timeout_minutes f),
      probe_first_delay_seconds = Option.bind old probe_first_delay_seconds,
      probe_interval_seconds = Option.bind old probe_interval_seconds\<rparr>"

definition upsert_policy :: "int \<Rightarrow> policy_form \<Rightarrow> db \<Rightarrow> exn + db" where
  "upsert_policy vm f d =
     (if \<not> list_all fits_int4 (form_ports (pf_tcp_ports f) @ some_list (form_vlan (pf_vlan f)) @ [pf_retry_days f])
      then Inl (PyError ''NumericValueOutOfRange'' ''integer out of range'')
      else if list_all (\<lambda>(v, _). vm_id v \<noteq> vm) (vms d)
      then Inl (PyError ''ForeignKeyViolation'' ''vm_policies.vm_id'')
      else Inr (d\<lparr>vms := map (\<lambda>(v, po). if vm_id v = vm then (v, Some (policy_row_of f po)) else (v, po)) (vms d)\<rparr>))"

definition update_vm_restore_policy :: "int \<Rightarrow> policy_form \<Rightarrow> ('h, unit) app_act" where
  "update_vm_restore_policy vm f =
     bnd (gets (\<lambda>a. upsert_policy vm f (app_db a))) (\<lambda>r. case r of
       Inl e \<Rightarrow> raise e
     | Inr d \<Rightarrow> thn (on_world (on_db (\<lambda>_. d)))
         (if pf_auto f = [] then ret ()
          else thn (on_world (on_db (\<lambda>d. snd (enqueue_if_never_passed vm ''scheduled'' d)))) kick_restore_queue))"

definition set_queue_paused :: "bool \<Rightarrow> db \<Rightarrow> db" where
  "set_queue_paused paused d = d\<lparr>db_settings := dict_set PAUSED_KEY (if paused then ''1'' else ''0'') (db_settings d)\<rparr>"

datatype held_choice = Reap | Promote | Retest

definition held_action :: "nat \<Rightarrow> 'h world transport \<Rightarrow> orch_config option \<Rightarrow> int \<Rightarrow> held_choice \<Rightarrow> ('h, unit) wact" where
  "held_action fuel tr cfg rid action =
     bnd (from_db (get_run rid)) (\<lambda>ro. case ro of
       None \<Rightarrow> ret ()
     | Some run \<Rightarrow> (case cfg of
         None \<Rightarrow> ret ()
       | Some oc \<Rightarrow>
           if status run \<noteq> ''held'' then ret ()
           else quiet (bnd (plan_of_run run oc) (\<lambda>plan. case action of
              Reap \<Rightarrow> reap_held tr rid plan
            | Promote \<Rightarrow> promote_held tr rid plan 0
            | Retest \<Rightarrow> bnd (reprovision_and_retest fuel tr oc rid run) (\<lambda>(res, fresh).
                 if res = Passed then promote_held tr rid fresh 0 else ret ())))))"

end
