(* ===== verification/SystemRefines.thy ===== *)
theory SystemRefines imports QueueRefines RestoreWatch begin

text \<open>
  The whole of restore testing refines the machine of \<open>RunCycle\<close>: not only a pass of the
  scheduler but everything that writes \<open>restore_runs\<close>, the operator's actions and the
  background loops included, in every order. Each of them is one step here.
\<close>

section \<open>Triples from a known abstract state\<close>

lemma ends_at: "(\<And>w0. P w0 \<Longrightarrow> ends (\<lambda>w. w = w0) m Q E) \<Longrightarrow> ends P m Q E"
  by (auto simp: ends_def)

lemma ends_steady:
  assumes "\<And>a. rsteps s a \<Longrightarrow> C a \<Longrightarrow> ends (steady a) m Q E"
  shows "ends (\<lambda>w. reached_world s w \<and> C (abs_db (wdb w))) m Q E"
proof (rule ends_at)
  fix w0 :: "'a world" assume w0: "reached_world s w0 \<and> C (abs_db (wdb w0))"
  then have "ends (steady (abs_db (wdb w0))) m Q E" using assms by (simp add: reached_def)
  then show "ends (\<lambda>w. w = w0) m Q E" by (rule ends_weaken) (use w0 in \<open>simp_all add: reached_def\<close>)
qed

lemma steady_reached: "rsteps s a \<Longrightarrow> steady a w \<Longrightarrow> reached_world s w"
  by (simp add: reached_def)

lemma steady_quietly:
  assumes "rsteps s a" and "keeps (steady a) m"
  shows "ends (steady a) m (\<lambda>_. steady a) (reached_world s)"
  by (rule ends_keepsI [OF assms(2)]) (simp_all add: steady_reached [OF assms(1)])

lemma ends_and_keeps:
  assumes "ends P m Q E" and "keeps I m"
  shows "ends (\<lambda>w. P w \<and> I w) m (\<lambda>x w. Q x w \<and> I w) E"
  by (rule endsI) (use ends_Ret [OF assms(1)] ends_fail [OF assms(1)] keepsD [OF assms(2)] in \<open>(blast | metis outcome.distinct)\<close>)+

section \<open>A run that is resumed\<close>

lemma resume_ends:
  assumes "rsteps s a" and "a i = Some x" and "ar_stage x = Active"
  shows "ends (steady a) (resume_run fuel (lifted wall t) cfg i plan upid (default_probe (lifted wall t) plan) (cancel_of i))
    (\<lambda>_. reached_world s) (reached_world s)"
proof -
  let ?tr = "lifted wall t"
  let ?tail = "\<lambda>u. catch
      (bnd (resume_tail fuel ?tr cfg i plan u (default_probe ?tr plan) (cancel_of i)) (\<lambda>r. ret (map_option (\<lambda>(res, chk). (result_text res, chk)) r)))
      (\<lambda>e. case e of
         RestoreCancelled _ \<Rightarrow> ret (Some (''cancelled'', Note ''cancelled by operator''))
       | _ \<Rightarrow> bnd (still_locked ?tr plan) (\<lambda>b. ret (if b then None else Some (''error'', ErrorNote (exn_text e)))))"
  let ?ok = "\<lambda>r. case r of None \<Rightarrow> True | Some (res, chk) \<Rightarrow> res \<in> set RESULTS"
  have probe: "keeps (steady a) (default_probe ?tr plan ts)" for ts by (rule in_progress.default_probe_keeps)
  have cancel: "keeps (steady a) (cancel_of i)" unfolding cancel_of_def by (rule keeps_from_db)
  have tail: "keeps (steady a) (?tail u)" for u
    by (intro keeps_intro in_progress.resume_tail_keeps in_progress.still_locked_keeps probe cancel)
  have res: "?ok r" if "?tail u w = (Ret r, w')" for u w r w'
    using that
  proof (cases rule: catch_cases)
    case (ok v)
    then show ?thesis using result_text_listed by (auto elim!: bnd_RetE simp: act_simps split: option.splits)
  next
    case (handled e w1)
    then show ?thesis by (auto elim!: bnd_RetE simp: act_simps RESULTS_def split: exn.splits option.splits if_splits)
  qed auto
  have tailed: "ends (steady a) (?tail u) (\<lambda>r w. steady a w \<and> ?ok r) (reached_world s)" for u
    by (rule ends_ret_facts [OF steady_quietly [OF assms(1) tail]]) (rule res)
  have upid: "keeps (steady a) (if truthy_str upid then ret upid else catch (find_running_restore_upid ?tr (pl_restore_vmid plan)) (\<lambda>_. ret upid))"
    by (intro keeps_intro in_progress.find_upid_keeps)
  have secs: "keeps (steady a) (case o1 of Some k \<Rightarrow> ret k | None \<Rightarrow> elapsed_since ?tr t0)" for o1 t0
    by (intro keeps_intro in_progress.elapsed_keeps)
  have fin: "ends (\<lambda>w. steady a w \<and> ?ok r) (case r of None \<Rightarrow> ret ''running''
     | Some (res, chk) \<Rightarrow>
         bnd (from_db (\<lambda>d. seconds_since (Option.bind (get_run i d) started_at) (clock d))) (\<lambda>since.
         bnd (case since of Some k \<Rightarrow> ret k | None \<Rightarrow> elapsed_since ?tr t0) (\<lambda>secs.
         finalize ?tr i plan res chk secs None))) (\<lambda>_. reached_world s) (reached_world s)" for r t0
  proof (cases "?ok r")
    case True
    show ?thesis
    proof (cases r)
      case None
      then show ?thesis by (auto intro!: ends_ret steady_reached [OF assms(1)])
    next
      case (Some q)
      obtain res chk where q: "q = (res, chk)" by (cases q)
      then have listed: "res \<in> set RESULTS" using True Some by simp
      show ?thesis
        unfolding Some q option.case prod.case using True Some q
        by (intro ends_weaken [OF ends_bnd [OF steady_quietly [OF assms(1) keeps_from_db]
              ends_bnd [OF steady_quietly [OF assms(1) secs] finalize_ends [OF assms listed]]]]) simp_all
    qed
  qed (auto simp: ends_def)
  show ?thesis
    unfolding resume_run_def
    by (intro ends_bnd [OF steady_quietly [OF assms(1) in_progress.now_keeps]]
        ends_thn [OF steady_quietly [OF assms(1) keeps_quiet [OF in_progress.bridge_keeps]]]
        ends_bnd [OF steady_quietly [OF assms(1) upid]] ends_bnd [OF tailed fin])
qed

lemma find_others: "others i d = others i d' \<Longrightarrow> j \<noteq> i \<Longrightarrow> get_run j d = get_run j d'"
proof -
  have other: "get_run j d = List.find (\<lambda>r. run_id r = j) (others i d)" if "j \<noteq> i" for d
  proof -
    have "List.find (\<lambda>r. run_id r = j) rs = List.find (\<lambda>r. run_id r = j) (filter (\<lambda>r. run_id r \<noteq> i) rs)" for rs
      using that by (induction rs) auto
    then show ?thesis by (simp add: get_run_def others_def)
  qed
  assume "others i d = others i d'" "j \<noteq> i"
  then show ?thesis by (simp add: other)
qed

lemma still_others: "others i d = others i d' \<Longrightarrow> i \<notin> run_id ` set rs \<Longrightarrow> still rs d = still rs d'"
  unfolding still_def list_all_iff using find_others [of i d d'] by (metis image_eqI)

text \<open>A step that ends in a reached state and writes the rows of run \<open>i\<close> only.\<close>

lemma ends_own_row:
  assumes "ends (\<lambda>w. reached_world s w \<and> still (run # rest) (wdb w)) m Q (reached_world s)"
    and "\<And>R. keeps (\<lambda>w. others (run_id run) (wdb w) = R) m" and "run_id run \<notin> run_id ` set rest"
    and "\<And>x w. Q x w \<Longrightarrow> reached_world s w"
  shows "ends (stuck_world s (run # rest)) m (\<lambda>_. stuck_world s rest) (stuck_world s rest)"
proof (rule ends_at)
  fix w0 :: "'a world" assume w0: "stuck_world s (run # rest) w0"
  let ?I = "\<lambda>w. others (run_id run) (wdb w) = others (run_id run) (wdb w0)"
  have out: "still rest (wdb w)" if "?I w" for w :: "'a world"
    using still_others [OF that assms(3)] w0 by (simp add: still_def)
  have a: "case m w0 of (Ret x, t) \<Rightarrow> Q x t | (Exc e, t) \<Rightarrow> reached_world s t | (NoFuel, t) \<Rightarrow> reached_world s t"
    by (rule endsD [OF assms(1) w0])
  have b: "still rest (wdb u)" if "m w0 = (r, u)" for r u
    by (rule out) (rule keepsD [OF assms(2) refl that])
  show "ends (\<lambda>w. w = w0) m (\<lambda>_. stuck_world s rest) (stuck_world s rest)"
  proof (rule endsI; clarify)
    fix x u assume m: "m w0 = (Ret x, u)"
    then have "Q x u" using a by simp
    then show "reached_world s u \<and> still rest (wdb u)" using assms(4) b [OF m] by blast
  next
    fix e u assume m: "m w0 = (Exc e, u)"
    then show "reached_world s u \<and> still rest (wdb u)" using a b [OF m] by simp
  next
    fix u assume m: "m w0 = (NoFuel, u)"
    then show "reached_world s u \<and> still rest (wdb u)" using a b [OF m] by simp
  qed
qed

lemma resume_one_refines:
  assumes "run_id run \<notin> run_id ` set rest"
  shows "ends (stuck_world s (run # rest)) (resume_one fuel (lifted wall t) oc run) (\<lambda>_. stuck_world s rest) (stuck_world s rest)"
proof (rule ends_own_row [OF _ _ assms, where Q = "\<lambda>_. reached_world s"])
  let ?i = "run_id run" and ?tr = "lifted wall t"
  let ?active = "\<lambda>a :: cycle. \<exists>x. a ?i = Some x \<and> ar_stage x = Active"
  let ?go = "\<lambda>plan. bnd (resume_run fuel ?tr (oc_server oc) ?i plan (task_upid run) (default_probe ?tr plan) (cancel_of ?i)) (\<lambda>res. ret ())"
  have go: "ends (\<lambda>w. reached_world s w \<and> ?active (abs_db (wdb w))) (?go plan) (\<lambda>_. reached_world s) (reached_world s)" for plan
    by (rule ends_steady) (auto intro!: ends_bnd [OF resume_ends] ends_ret)
  have plan: "keeps (\<lambda>w. reached_world s w \<and> ?active (abs_db (wdb w))) (plan_of_run run oc)"
    unfolding plan_of_run_def lift_r_def by (intro keeps_intro)
  have "ends (\<lambda>w. reached_world s w \<and> ?active (abs_db (wdb w))) (resume_one fuel ?tr oc run) (\<lambda>_. reached_world s) (reached_world s)"
    unfolding resume_one_def quiet_def
    by (intro ends_catch [OF ends_bnd [OF ends_keepsI [OF plan] go]] ends_ret) simp_all
  then show "ends (\<lambda>w. reached_world s w \<and> still (run # rest) (wdb w)) (resume_one fuel ?tr oc run) (\<lambda>_. reached_world s) (reached_world s)"
    by (rule ends_weaken) (auto simp: still_def abs_db_def abs_run_def)
  fix R
  show "keeps (\<lambda>w. others ?i (wdb w) = R) (resume_one fuel ?tr oc run)"
    unfolding resume_one_def plan_of_run_def lift_r_def cancel_of_def
    by (intro keeps_intro other_rows.resume_keeps other_rows.default_probe_keeps)
qed

lemma resume_all_refines:
  "distinct (map run_id rs) \<Longrightarrow> ends (stuck_world s rs) (resume_all fuel (lifted wall t) oc rs) (\<lambda>_. reached_world s) (reached_world s)"
  unfolding resume_all_def
proof (induction rs)
  case Nil
  show ?case by (auto intro: ends_ret)
next
  case (Cons run rest)
  then have new: "run_id run \<notin> run_id ` set rest" and rest: "distinct (map run_id rest)" by auto
  have one: "ends (stuck_world s (run # rest)) (resume_one fuel (lifted wall t) oc run) (\<lambda>_. stuck_world s rest) (reached_world s)"
    by (rule ends_weaken [OF resume_one_refines [OF new]]) blast+
  show ?case unfolding foreach.simps by (rule ends_thn [OF one Cons.IH [OF rest]])
qed

section \<open>Held environments\<close>

abbreviation held_at :: "int \<Rightarrow> cycle \<Rightarrow> bool" where
  "held_at i a \<equiv> \<exists>x. a i = Some x \<and> ar_stage x = OnHold"

abbreviation held_world :: "cycle \<Rightarrow> int \<Rightarrow> 'h world \<Rightarrow> bool" where
  "held_world s i w \<equiv> reached_world s w \<and> held_at i (abs_db (wdb w))"

lemma promote_ends: "ends (held_world s i) (promote_held (lifted wall t) i plan secs) (\<lambda>_. reached_world s) (reached_world s)"
proof (rule ends_steady)
  fix a assume a: "rsteps s a" "held_at i a"
  then obtain x where x: "a i = Some x" "ar_stage x = OnHold" by blast
  have rec: "ends (steady a) (record_result i plan ''passed'' secs ''promoted after manual fix + green re-test'' None None None)
      (\<lambda>_. reached_world s) (reached_world s)"
    by (rule record_ends [OF a(1) x(1) _ refl]) (simp_all add: x(2) stage_of_def)
  show "ends (steady a) (promote_held (lifted wall t) i plan secs) (\<lambda>_. reached_world s) (reached_world s)"
    unfolding promote_held_def block.simps
    by (intro ends_thn [OF steady_quietly [OF a(1) in_progress.teardown_keeps]] ends_thn [OF rec]
        ends_thn [OF ends_keeps [OF next_run_reached]] ends_ret)
qed

lemma reap_held_ends: "ends (held_world s i) (reap_held (lifted wall t) i plan) (\<lambda>_. reached_world s) (reached_world s)"
proof (rule ends_steady)
  fix a assume a: "rsteps s a" "held_at i a"
  then obtain x where x: "a i = Some x" "ar_stage x = OnHold" by blast
  have rec: "ends (steady a) (record_result i plan res secs [] None None (Some res)) (\<lambda>_. reached_world s) (reached_world s)"
    if "res \<in> {''failed'', ''error''}" for res secs
    by (rule record_ends [OF a(1) x(1), where fin = res]) (use that x(2) in \<open>auto simp: stage_of_def\<close>)
  have tail: "ends (steady a) (case ro of
       None \<Rightarrow> raise attribute_error
     | Some r \<Rightarrow>
         let res = (if run_result r \<in> {Some ''failed'', Some ''error''} then opt_or (run_result r) [] else ''failed'')
         in block [record_result i plan res (opt_or (duration_seconds r) 0) [] None None (Some res),
                   retry_later plan]) (\<lambda>_. reached_world s) (reached_world s)" for ro
  proof (cases ro)
    case None
    then show ?thesis by (auto intro!: ends_raise steady_reached [OF a(1)])
  next
    case (Some r)
    show ?thesis
      unfolding Some option.case Let_def block.simps
      by (intro ends_thn [OF rec] ends_thn [OF ends_keeps [OF retry_reached]] ends_ret) (auto simp: opt_or_def)
  qed
  show "ends (steady a) (reap_held (lifted wall t) i plan) (\<lambda>_. reached_world s) (reached_world s)"
    unfolding reap_held_def
    by (intro ends_thn [OF steady_quietly [OF a(1) in_progress.teardown_keeps]] ends_bnd [OF steady_quietly [OF a(1) keeps_from_db] tail])
qed

text \<open>A held run gets a new helper.\<close>

lemma regrant_reached:
  assumes "reached s d" and "allocate c (active_and_held_runs d) = Inr (Some al)" and "held_at i (abs_db d)"
  shows "reached s (update_run i [F_helper_vmid (Some (al_helper_vmid al)), F_mgmt_ip (Some (al_mgmt_ip al))] d)
    \<and> held_at i (abs_db (update_run i [F_helper_vmid (Some (al_helper_vmid al)), F_mgmt_ip (Some (al_mgmt_ip al))] d))"
proof -
  let ?fs = "[F_helper_vmid (Some (al_helper_vmid al)), F_mgmt_ip (Some (al_mgmt_ip al))]"
  let ?g = "\<lambda>r. r\<lparr>helper_vmid := Some (al_helper_vmid al), mgmt_ip := Some (al_mgmt_ip al)\<rparr>"
  let ?plan = "(undefined :: run_plan)\<lparr>pl_restore_vmid := al_restore_vmid al, pl_helper_vmid := al_helper_vmid al,
      pl_vlan_tag := al_vlan_tag al, pl_mgmt_ip := al_mgmt_ip al\<rparr>"
  have ok: "ids_ok d" using assms(1) by (simp add: reached_def)
  obtain r where r: "get_run i d = Some r" "status r = ''held''" using assms(3) by (auto simp: abs_db_def abs_run_def)
  have "fold set_field (filter (\<lambda>f. col_name f \<in> set UPDATABLE) ?fs) r = ?g r" by (simp add: UPDATABLE_def)
  then have new: "abs_db (update_run i ?fs d) = (abs_db d)(i \<mapsto> abs_run (?g r))"
    using abs_db_map [OF runs_update_run [of i ?fs d]] r(1) by simp
  have "allocated c d ?plan" by (simp add: allocated_def assms(2))
  then have "\<forall>q\<in>ran (abs_db d). env_apart (plan_env ?plan) (ar_env q)" using allocated_free ok by blast
  moreover have "env_le (env_of (?g r)) (env_join (ar_env (abs_run r)) (plan_env ?plan))"
    using r(2) by (auto simp: env_le_def env_join_def env_of_def abs_run_def plan_env_def env_vmids_def)
  moreover have "abs_db d i = Some (abs_run r)" "ar_stage (abs_run r) = OnHold" using r by (simp_all add: abs_db_def abs_run_def)
  moreover have "abs_run (?g r) = (abs_run r)\<lparr>ar_env := env_of (?g r)\<rparr>" by (simp add: abs_run_def)
  ultimately have "rstep (abs_db d) (abs_db (update_run i ?fs d))" unfolding new using rstep.regrant by metis
  then show ?thesis
    using reached_step [OF assms(1) update_ids_ok [OF ok]] new r(2) by (simp add: abs_run_def)
qed

lemma helper_back_held:
  "ends (held_world s i) (set_run i [F_helper_vmid None, F_mgmt_ip None]) (\<lambda>_. reached_world s) (reached_world s)"
  by (rule ends_keepsI [OF helper_back_keeps]) simp_all

lemma ends_lift_r: "(\<And>w. P w \<Longrightarrow> E w) \<Longrightarrow> ends P (lift_r r) (\<lambda>_. P) E"
  unfolding lift_r_def by (cases r) (auto intro: ends_ret ends_raise)

lemma retest_ends:
  "ends (held_world s i) (reprovision_and_retest fuel (lifted wall t) oc i run)
     (\<lambda>rp w. reached_world s w \<and> (fst rp = Passed \<longrightarrow> held_at i (abs_db (wdb w)))) (reached_world s)"
proof -
  let ?tr = "lifted wall t"
  let ?Q = "\<lambda>(rp :: restore_result \<times> run_plan) w. reached_world s w \<and> (fst rp = Passed \<longrightarrow> held_at i (abs_db (wdb w)))"
  let ?fs = "\<lambda>al. [F_helper_vmid (Some (al_helper_vmid al)), F_mgmt_ip (Some (al_mgmt_ip al))]"
  let ?J = "\<lambda>ao w. held_world s i w \<and> allocate (oc_ranges oc) (active_and_held_runs (wdb w)) = Inr ao"
  let ?finish = "\<lambda>plan res. if res = Passed then ret (res, plan)
        else thn (quiet (destroy ?tr (pl_helper_vmid plan) True))
            (thn (set_run i [F_helper_vmid None, F_mgmt_ip None]) (ret (res, plan)))"
  have quietly: "ends (held_world s i) m (\<lambda>_. held_world s i) (reached_world s)"
    if "\<And>a. keeps (steady a) m" for m :: "('a, 'b) wact"
  proof (rule ends_steady)
    fix a assume a: "rsteps s a" "held_at i a"
    show "ends (steady a) m (\<lambda>_. held_world s i) (reached_world s)"
      by (rule ends_keepsI [OF that [of a]]) (use a in \<open>unfold reached_def, blast+\<close>)
  qed
  have finish: "ends (held_world s i) (?finish plan res) ?Q (reached_world s)" for plan res
  proof (cases "res = Passed")
    case True
    then show ?thesis by (auto intro: ends_ret)
  next
    case False
    have "ends (held_world s i) (thn (quiet (destroy ?tr (pl_helper_vmid plan) True))
            (thn (set_run i [F_helper_vmid None, F_mgmt_ip None]) (ret (res, plan)))) ?Q (reached_world s)"
      by (intro ends_thn [OF quietly [OF keeps_quiet [OF in_progress.own_destroy_keeps [where plan = plan]]]] ends_thn [OF helper_back_held] ends_ret)
        (simp_all add: False)
    then show ?thesis using False by simp
  qed
  have grant: "ends (?J (Some al)) (set_run i (?fs al)) (\<lambda>_. held_world s i) (reached_world s)" for al
    unfolding set_run_def on_db_def by (rule ends_modify) (use regrant_reached [of s _ "oc_ranges oc" al i] in simp)
  have tail: "ends (?J (Some al)) (thn (set_run i (?fs al)) (thn (provision_for fuel ?tr (oc_server oc) plan)
       (bnd (retest_held fuel ?tr i plan) (?finish plan)))) ?Q (reached_world s)" for al plan
    by (intro ends_thn [OF grant] ends_thn [OF quietly [OF in_progress.provision_for_keeps]]
        ends_bnd [OF quietly [OF in_progress.retest_keeps] finish])
  have alloc: "ends (held_world s i) (allocate_now oc) ?J (reached_world s)"
  proof (rule endsI)
    fix w ao w' assume w: "held_world s i w" and m: "allocate_now oc w = (Ret ao, w')"
    show "?J ao w'" using allocate_now_Ret [OF m] w by blast
  qed (auto simp: allocate_now_def from_db_def bnd_def lift_r_def act_simps split: sum.splits)
  have look: "ends (?J ao) (from_db f) (\<lambda>_. ?J ao) (reached_world s)" for f :: "db \<Rightarrow> 'b" and ao
    by (rule from_db_ends)
  have addrs: "ends (?J ao) (lift_r r) (\<lambda>_. ?J ao) (reached_world s)" for r :: "exn + 'b" and ao
    by (rule ends_lift_r) blast
  have stop: "ends (?J None) (not_runnable msg) ?Q (reached_world s)" for msg
    unfolding not_runnable_def by (rule ends_raise) blast
  have plan: "ends (held_world s i) (plan_of_run run oc) (\<lambda>_. held_world s i) (reached_world s)"
    unfolding plan_of_run_def by (intro ends_bnd [OF from_db_ends ends_lift_r]) blast+
  have granted: "ends (?J ao) (case ao of
       None \<Rightarrow> not_runnable ''no free management IP to re-provision the re-test helper''
     | Some a \<Rightarrow>
     bnd (from_db (candidate_for_vm (run_vm run))) (\<lambda>co.
     bnd (lift_r (sandbox_alloc (Option.bind co cand_override) (Some (al_mgmt_ip a)) (oc_server oc))) (\<lambda>(guest, sbx, pfx).
     let plan = base\<lparr>pl_helper_vmid := al_helper_vmid a, pl_mgmt_ip := al_mgmt_ip a,
                     pl_probe_targets := targets_of guest (pl_tcp_ports base) pfx, pl_primary_ip := guest,
                     pl_sandbox_ip := sbx, pl_sandbox_prefix := pfx\<rparr>
     in thn (set_run i (?fs a)) (thn (provision_for fuel ?tr (oc_server oc) plan)
       (bnd (retest_held fuel ?tr i plan) (?finish plan)))))) ?Q (reached_world s)" for base ao
  proof (cases ao)
    case None
    then show ?thesis using stop by simp
  next
    case (Some al)
    have "ends (?J (Some al)) (case q of (guest, sbx, pfx) \<Rightarrow>
       thn (set_run i (?fs al)) (thn (provision_for fuel ?tr (oc_server oc) (upd guest sbx pfx))
         (bnd (retest_held fuel ?tr i (upd guest sbx pfx)) (?finish (upd guest sbx pfx))))) ?Q (reached_world s)"
      for q and upd :: "string option \<Rightarrow> string option \<Rightarrow> int \<Rightarrow> run_plan"
      by (cases q) (simp only: prod.case tail)
    then show ?thesis
      unfolding Some option.case Let_def
      by (intro ends_bnd [OF look] ends_bnd [OF addrs])
  qed
  show ?thesis
    unfolding reprovision_and_retest_def by (intro ends_bnd [OF plan] ends_bnd [OF alloc granted])
qed

lemma held_action_refines: "keeps (reached_world s) (held_action fuel (lifted wall t) cfg i action)"
proof (rule keeps_ends)
  let ?tr = "lifted wall t"
  let ?read = "\<lambda>ro w. reached_world s w \<and> get_run i (wdb w) = ro"
  have read: "ends (reached_world s) (from_db (get_run i)) ?read (reached_world s)" by (rule from_db_ends) simp
  have plan: "ends (held_world s i) (plan_of_run run oc) (\<lambda>_. held_world s i) (reached_world s)" for run oc
    unfolding plan_of_run_def by (intro ends_bnd [OF from_db_ends ends_lift_r]) blast+
  have tested: "ends (\<lambda>w. reached_world s w \<and> (fst rp = Passed \<longrightarrow> held_at i (abs_db (wdb w))))
      (case rp of (res, fresh) \<Rightarrow> if res = Passed then promote_held ?tr i fresh 0 else ret ()) (\<lambda>_. reached_world s) (reached_world s)"
    for rp
  proof (cases rp)
    case (Pair res fresh)
    show ?thesis
      unfolding Pair prod.case fst_conv
      by (intro ends_if ends_weaken [OF promote_ends [of s i]] ends_ret) blast+
  qed
  have act: "ends (held_world s i) (case action of
              Reap \<Rightarrow> reap_held ?tr i plan
            | Promote \<Rightarrow> promote_held ?tr i plan 0
            | Retest \<Rightarrow> bnd (reprovision_and_retest fuel ?tr oc i run) (\<lambda>(res, fresh).
                 if res = Passed then promote_held ?tr i fresh 0 else ret ())) (\<lambda>_. reached_world s) (reached_world s)" for plan oc run
    by (cases action) (simp_all add: reap_held_ends promote_ends ends_bnd [OF retest_ends tested])
  have held: "ends (held_world s i) (quiet (bnd (plan_of_run run oc) (\<lambda>plan. case action of
              Reap \<Rightarrow> reap_held ?tr i plan
            | Promote \<Rightarrow> promote_held ?tr i plan 0
            | Retest \<Rightarrow> bnd (reprovision_and_retest fuel ?tr oc i run) (\<lambda>(res, fresh).
                 if res = Passed then promote_held ?tr i fresh 0 else ret ())))) (\<lambda>_. reached_world s) (reached_world s)" for run oc
    unfolding quiet_def by (rule ends_catch [OF ends_bnd [OF plan act]]) (auto intro: ends_ret)
  have body: "ends (?read ro) (case ro of
       None \<Rightarrow> ret ()
     | Some run \<Rightarrow> (case cfg of
         None \<Rightarrow> ret ()
       | Some oc \<Rightarrow>
           if status run \<noteq> ''held'' then ret ()
           else quiet (bnd (plan_of_run run oc) (\<lambda>plan. case action of
              Reap \<Rightarrow> reap_held ?tr i plan
            | Promote \<Rightarrow> promote_held ?tr i plan 0
            | Retest \<Rightarrow> bnd (reprovision_and_retest fuel ?tr oc i run) (\<lambda>(res, fresh).
                 if res = Passed then promote_held ?tr i fresh 0 else ret ()))))) (\<lambda>_. reached_world s) (reached_world s)" for ro
  proof (cases ro; cases cfg)
    fix run oc assume ro: "ro = Some run" and cfg: "cfg = Some oc"
    show ?thesis
    proof (cases "status run = ''held''")
      case True
      then have "ends (?read ro) (quiet (bnd (plan_of_run run oc) (\<lambda>plan. case action of
              Reap \<Rightarrow> reap_held ?tr i plan
            | Promote \<Rightarrow> promote_held ?tr i plan 0
            | Retest \<Rightarrow> bnd (reprovision_and_retest fuel ?tr oc i run) (\<lambda>(res, fresh).
                 if res = Passed then promote_held ?tr i fresh 0 else ret ())))) (\<lambda>_. reached_world s) (reached_world s)"
        by (intro ends_weaken [OF held]) (auto simp: ro abs_db_def abs_run_def)
      then show ?thesis by (simp add: ro cfg True)
    qed (auto simp: ro cfg intro: ends_ret)
  qed (auto intro: ends_ret)
  show "ends (reached_world s) (held_action fuel ?tr cfg i action) (\<lambda>_. reached_world s) (reached_world s)"
    unfolding held_action_def by (rule ends_bnd [OF read body])
qed

section \<open>The operator's other writes\<close>

lemma delete_reached:
  assumes "reached s d"
  shows "reached s (snd (delete_run i d))"
proof -
  have ok: "ids_ok d" using assms by (simp add: reached_def)
  let ?d = "snd (delete_run i d)"
  have runs: "runs ?d = filter (\<lambda>r. \<not> (run_id r = i \<and> status r = ''queued'')) (runs d)" "next_run_id ?d = next_run_id d"
    by (simp_all add: delete_run_def)
  have ok': "ids_ok ?d" using ok unfolding ids_ok_def runs by (auto simp: list_all_iff distinct_map_filter)
  have get: "get_run j ?d = (case get_run j d of Some r \<Rightarrow> if j = i \<and> status r = ''queued'' then None else Some r | None \<Rightarrow> None)" for j
  proof (cases "get_run j ?d")
    case None
    then show ?thesis
      using get_run_iff [OF ok', of j] get_run_iff [OF ok, of j] unfolding runs by (auto split: option.split)
  next
    case (Some r)
    then have "get_run j d = Some r" "\<not> (j = i \<and> status r = ''queued'')"
      using get_run_iff [OF ok', of j r] get_run_iff [OF ok, of j r] unfolding runs by auto
    then show ?thesis using Some by auto
  qed
  have "abs_db ?d = abs_db d \<or> rstep (abs_db d) (abs_db ?d)"
  proof (cases "\<exists>r. get_run i d = Some r \<and> status r = ''queued''")
    case True
    then obtain r where r: "get_run i d = Some r" "status r = ''queued''" by blast
    then have "abs_db ?d = (abs_db d)(i := None)" by (auto simp: abs_db_def fun_eq_iff get split: option.split)
    moreover have "abs_db d i = Some (abs_run r)" "ar_stage (abs_run r) = Waiting" using r by (simp_all add: abs_db_def abs_run_def)
    ultimately show ?thesis using rstep.withdraw by metis
  next
    case False
    then have "abs_db ?d = abs_db d" by (auto simp: abs_db_def fun_eq_iff get split: option.split)
    then show ?thesis ..
  qed
  then show ?thesis using reached_step [OF assms ok'] by blast
qed

lemma reorder_from_reached: "reached s d \<Longrightarrow> reached s (snd (reorder_from pos ids n d))"
proof (induction ids arbitrary: pos n d)
  case (Cons i ids)
  let ?f = "\<lambda>r. if status r = ''queued'' then r\<lparr>sort_order := Some pos\<rparr> else r"
  let ?d = "snd (update_where (\<lambda>r. run_id r = i \<and> status r = ''queued'') (\<lambda>r. r\<lparr>sort_order := Some pos\<rparr>) d)"
  have runs: "runs ?d = map (\<lambda>r. if run_id r = i then ?f r else r) (runs d)"
    by (simp add: update_where_def map_if_and)
  have "abs_db ?d = abs_db d" by (rule abs_db_same [OF runs]) (simp_all add: abs_run_def env_of_def env_vmids_def)
  moreover have "ids_ok ?d" by (rule ids_ok_map [OF _ runs]) (use Cons.prems in \<open>simp_all add: reached_def update_where_def\<close>)
  ultimately have "reached s ?d" using Cons.prems reached_step by blast
  then show ?case using Cons.IH by (simp add: split_def)
qed simp

lemma reorder_reached: "reached s d \<Longrightarrow> reached s (snd (reorder_queue ids d))"
  by (simp add: reorder_queue_def reorder_from_reached)

lemma enqueue_reached: "reached s d \<Longrightarrow> reached s (snd (enqueue_if_never_passed vm trig d))"
  by (auto simp: enqueue_if_never_passed_def create_reached split: prod.splits)
    (use create_reached in \<open>metis snd_conv\<close>)

lemma abandon_reached:
  assumes "reached s d"
  shows "reached s (update_run i [F_status ''error'', F_result (Some ''error''), F_finished_at (Some now)] d)"
proof -
  let ?fs = "[F_status ''error'', F_result (Some ''error''), F_finished_at (Some now)]"
  let ?f = "\<lambda>r. r\<lparr>status := ''error'', run_result := Some ''error'', finished_at := Some now\<rparr>"
  have f: "fold set_field (filter (\<lambda>f. col_name f \<in> set UPDATABLE) ?fs) r = ?f r" for r by (simp add: UPDATABLE_def)
  have over: "abs_run (?f r) = (abs_run r)\<lparr>ar_stage := Over, ar_env := no_env\<rparr>" for r
    by (simp add: abs_run_def env_of_def stage_of_def)
  have "abs_db (update_run i ?fs d) = abs_db d \<or> rstep (abs_db d) (abs_db (update_run i ?fs d))"
  proof (cases "get_run i d")
    case None
    then show ?thesis using abs_db_map [OF runs_update_run [of i ?fs d]] by simp
  next
    case (Some r)
    then have new: "abs_db (update_run i ?fs d) = (abs_db d)(i \<mapsto> (abs_run r)\<lparr>ar_stage := Over, ar_env := no_env\<rparr>)"
      using abs_db_map [OF runs_update_run [of i ?fs d]] f over by simp
    have a: "abs_db d i = Some (abs_run r)" using Some by (simp add: abs_db_def)
    show ?thesis
    proof (cases "ar_stage (abs_run r) = Over")
      case True
      then have "(abs_run r)\<lparr>ar_stage := Over, ar_env := no_env\<rparr> = abs_run r"
        by (auto simp: abs_run_def env_of_def stage_of_def)
      then have "abs_db (update_run i ?fs d) = abs_db d" unfolding new using a by auto
      then show ?thesis ..
    next
      case False
      then show ?thesis unfolding new using rstep.finish a by metis
    qed
  qed
  then show ?thesis using reached_step [OF assms] update_ids_ok assms by (simp add: reached_def)
qed

lemma abandon_each_reached:
  "reached s d \<Longrightarrow> reached s (fold (\<lambda>r. update_run (run_id r) [F_status ''error'', F_result (Some ''error''), F_finished_at (Some now)]) rs d)"
proof (induction rs arbitrary: d)
  case (Cons r rs)
  show ?case unfolding fold.simps comp_def by (rule Cons.IH) (rule abandon_reached [OF Cons.prems])
qed simp

lemma reconcile_reached:
  assumes "reached s d"
  shows "reached s (reconcile_on_startup configured d)"
  unfolding reconcile_on_startup_def using assms abandon_each_reached [OF assms] by (cases configured) (simp_all only: if_True if_False)

section \<open>The steps of the application\<close>

text \<open>One step is a handler or a job from its start to its end, over any host, settings and
  bounds. The last rule is everything else that the application writes: other tables. A resume
  job takes its step while the runs that it listed at the start are still running.\<close>

definition resumable :: "'h app \<Rightarrow> bool" where
  "resumable a = (case app_slot a of
       ResumeAll oc rs # js \<Rightarrow> distinct (map run_id rs) \<and> still rs (app_db a)
     | _ \<Rightarrow> True)"

inductive app_step :: "'h app \<Rightarrow> 'h app \<Rightarrow> bool" where
  job: "quiet_mail notify \<Longrightarrow> resumable a \<Longrightarrow> app_step a (snd (run_slot rounds fuel (lifted wall t) resolve notify cfg a))"
| watchdog: "app_step a (snd (restore_queue_watchdog (lifted wall t) cfg a))"
| tick: "app_step a (snd (sync_tick (lifted wall t) cfg a))"
| startup: "app_step a (snd (reconcile_and_resume_restores cfg a))"
| test_now: "app_step a (snd (manual_test (lifted wall t) resolve cfg vm a))"
| policy: "app_step a (snd (update_vm_restore_policy vm f a))"
| held: "app_step a (snd (on_world (held_action fuel (lifted wall t) cfg i action) a))"
| delete: "app_step a (snd (on_world (on_db (\<lambda>d. snd (delete_run i d))) a))"
| cancel: "app_step a (snd (on_world (on_db (\<lambda>d. snd (request_cancel i d))) a))"
| reorder: "app_step a (snd (on_world (on_db (\<lambda>d. snd (reorder_queue ids d))) a))"
| pause: "app_step a (snd (on_world (on_db (set_queue_paused p)) a))"
| elsewhere: "runs (app_db b) = runs (app_db a) \<Longrightarrow> next_run_id (app_db b) = next_run_id (app_db a) \<Longrightarrow> app_step a b"

abbreviation reached_app :: "cycle \<Rightarrow> 'h app \<Rightarrow> bool" where
  "reached_app s a \<equiv> reached s (app_db a)"

lemma on_world_keeps: "keeps (reached_world s) m \<Longrightarrow> keeps (reached_app s) (on_world m)"
  by (auto simp: keeps_def on_world_def on_part_def split: prod.splits)

lemma slot_keeps: "keeps (reached_app s) (modify (\<lambda>a. a\<lparr>app_slot := f a\<rparr>))"
  by (rule keeps_modify) simp

lemma kick_keeps: "keeps (reached_app s) kick_restore_queue"
  unfolding kick_restore_queue_def submit_def by (intro keeps_intro slot_keeps)

lemma heal_keeps: "keeps (reached_app s) (recover_stuck_restores (lifted wall t) cfg)"
  unfolding recover_stuck_restores_def by (intro keeps_intro on_world_keeps recover_refines kick_keeps)

lemma orphans_read: "reads (reap_orphans (lifted wall t) cfg)"
  unfolding reap_orphans_def verify_host_identity_def Let_def
  by (intro allI keeps_intro transport_keeps.reap_keeps [OF lifted_reads] TrueI)

lemma watchdog_keeps: "keeps (reached_app s) (restore_queue_watchdog (lifted wall t) cfg)"
  unfolding restore_queue_watchdog_def
  by (intro keeps_intro heal_keeps on_world_keeps reads_reached [OF orphans_read] kick_keeps)

lemma tick_keeps: "keeps (reached_app s) (sync_tick (lifted wall t) cfg)"
  unfolding sync_tick_def by (intro keeps_intro heal_keeps kick_keeps)

lemma startup_keeps: "keeps (reached_app s) (reconcile_and_resume_restores cfg)"
  unfolding reconcile_and_resume_restores_def submit_def
  by (intro keeps_intro slot_keeps on_world_keeps) (drule reconcile_reached, simp)

lemma manual_test_keeps: "keeps (reached_app s) (manual_test (lifted wall t) resolve cfg vm)"
  unfolding manual_test_def
  by (intro keeps_intro kick_keeps on_world_keeps reads_reached [OF entries_read]) (simp add: create_reached)

lemma upsert_tables: "upsert_policy vm f d = Inr d' \<Longrightarrow> runs d' = runs d \<and> next_run_id d' = next_run_id d"
  by (auto simp: upsert_policy_def split: if_splits)

lemma policy_keeps: "keeps (reached_app s) (update_vm_restore_policy vm f)"
proof (rule keeps_ends)
  let ?read = "\<lambda>r a. reached_app s a \<and> upsert_policy vm f (app_db a) = r"
  have read: "ends (reached_app s) (gets (\<lambda>a. upsert_policy vm f (app_db a))) ?read (reached_app s)"
    by (rule ends_gets) simp
  have rest: "ends (reached_app s) (if pf_auto f = [] then ret ()
      else thn (on_world (on_db (\<lambda>d. snd (enqueue_if_never_passed vm ''scheduled'' d)))) kick_restore_queue)
      (\<lambda>_. reached_app s) (reached_app s)"
    by (intro ends_keeps keeps_intro on_world_keeps kick_keeps) (drule enqueue_reached, simp)
  have stored: "ends (?read (Inr d)) (on_world (on_db (\<lambda>_. d))) (\<lambda>_. reached_app s) (reached_app s)" for d
  proof (rule endsI)
    fix a x b assume a: "?read (Inr d) a" and m: "on_world (on_db (\<lambda>_. d)) a = (Ret x, b)"
    have "app_db b = d" using m by (auto simp: on_world_def on_part_def on_db_def act_simps)
    moreover have "reached s d = reached s (app_db a)" by (rule reached_cong) (use upsert_tables a in blast)+
    ultimately show "reached_app s b" using a by blast
  qed (simp_all add: on_world_def on_part_def on_db_def act_simps)
  have body: "ends (?read r) (case r of
       Inl e \<Rightarrow> raise e
     | Inr d \<Rightarrow> thn (on_world (on_db (\<lambda>_. d)))
         (if pf_auto f = [] then ret ()
          else thn (on_world (on_db (\<lambda>d. snd (enqueue_if_never_passed vm ''scheduled'' d)))) kick_restore_queue))
      (\<lambda>_. reached_app s) (reached_app s)" for r
  proof (cases r)
    case (Inl e)
    then show ?thesis by (auto intro: ends_raise)
  next
    case (Inr d)
    show ?thesis unfolding Inr sum.case by (rule ends_thn [OF stored rest])
  qed
  show "ends (reached_app s) (update_vm_restore_policy vm f) (\<lambda>_. reached_app s) (reached_app s)"
    unfolding update_vm_restore_policy_def by (rule ends_bnd [OF read body])
qed

lemma job_keeps:
  assumes "quiet_mail notify" and "resumable a" and "reached_app s a"
  shows "reached_app s (snd (run_slot rounds fuel (lifted wall t) resolve notify cfg a))"
proof (cases "app_slot a")
  case Nil
  then show ?thesis using assms(3) by (simp add: run_slot_def bnd_def act_simps)
next
  case (Cons j js)
  let ?m = "quiet (run_job rounds fuel (lifted wall t) resolve notify cfg j)"
  let ?P = "case j of QueuePass \<Rightarrow> reached_world s | ResumeAll oc rs \<Rightarrow> stuck_world s rs"
  have p: "?P (app_world a)" using assms(2,3) Cons by (cases j) (simp_all add: resumable_def)
  have "ends ?P (run_job rounds fuel (lifted wall t) resolve notify cfg j) (\<lambda>_. reached_world s) (reached_world s)"
  proof (cases j)
    case QueuePass
    have "keeps (reached_world s) (run_restore_queue rounds fuel (lifted wall t) resolve notify cfg)"
      unfolding run_restore_queue_def drain_def
      by (intro keeps_intro recover_refines enqueue_due_refines drain_rounds_refines assms(1))
    then show ?thesis unfolding QueuePass run_job_def by (simp add: ends_keeps)
  next
    case (ResumeAll oc rs)
    then have "distinct (map run_id rs)" using assms(2) Cons by (simp add: resumable_def)
    then show ?thesis unfolding ResumeAll run_job_def slot_job.case by (rule resume_all_refines)
  qed
  then have "ends ?P ?m (\<lambda>_. reached_world s) (reached_world s)"
    unfolding quiet_def by (intro ends_catch [where R = "reached_world s"] ends_ret)
  from endsD [OF this p] have "reached_world s (snd (?m (app_world a)))"
    by (cases "?m (app_world a)"; cases "fst (?m (app_world a))") auto
  then show ?thesis
    using Cons by (cases "?m (app_world a)"; cases "fst (?m (app_world a))")
      (auto simp: run_slot_def thn_def bnd_def on_world_def on_part_def act_simps)
qed

lemma keeps_snd: "keeps P m \<Longrightarrow> P w \<Longrightarrow> P (snd (m w))"
  unfolding keeps_def by blast

lemma app_step_reached: "app_step a b \<Longrightarrow> reached_app s a \<Longrightarrow> reached_app s b"
proof (induction rule: app_step.induct)
  case (job notify a rounds fuel wall t resolve cfg)
  then show ?case by (rule job_keeps)
next
  case (elsewhere b a)
  then show ?case using reached_cong by metis
next
  case (held a fuel wall t cfg i action)
  show ?case by (rule keeps_snd [OF on_world_keeps [OF held_action_refines] held])
next
  case (delete a i)
  then show ?case by (simp add: on_world_def on_part_def on_db_def act_simps delete_reached)
next
  case (cancel a i)
  then show ?case by (simp add: on_world_def on_part_def on_db_def act_simps cancel_reached)
next
  case (reorder a ids)
  then show ?case by (simp add: on_world_def on_part_def on_db_def act_simps reorder_reached)
next
  case (pause a p)
  moreover have "reached s (set_queue_paused p d) = reached s d" for d by (rule reached_cong) (simp_all add: set_queue_paused_def)
  ultimately show ?case by (simp add: on_world_def on_part_def on_db_def act_simps)
next
  case (watchdog a wall t cfg)
  show ?case by (rule keeps_snd [OF watchdog_keeps watchdog])
next
  case (tick a wall t cfg)
  show ?case by (rule keeps_snd [OF tick_keeps tick])
next
  case (startup a cfg)
  show ?case by (rule keeps_snd [OF startup_keeps startup])
next
  case (test_now a wall t resolve cfg vm)
  show ?case by (rule keeps_snd [OF manual_test_keeps test_now])
next
  case (policy a vm f)
  show ?case by (rule keeps_snd [OF policy_keeps policy])
qed

lemma app_steps_reached: "app_step\<^sup>*\<^sup>* a b \<Longrightarrow> reached_app s a \<Longrightarrow> reached_app s b"
  by (induction rule: rtranclp_induct) (auto intro: app_step_reached)

text \<open>The machine's invariants, read on the table.\<close>

lemma apart_of_disjoint:
  assumes "ids_ok d" and "disjoint_envs (abs_db d)"
  shows "environments_apart d"
  unfolding environments_apart_def
proof (intro ballI impI)
  fix r q assume rq: "r \<in> owners d" "q \<in> owners d" "run_id r \<noteq> run_id q"
  then have "get_run (run_id r) d = Some r" "get_run (run_id q) d = Some q"
    using get_run_iff [OF assms(1)] by (auto simp: owners_def)
  then have "env_apart (env_of r) (env_of q)"
    using assms(2) rq(3) unfolding disjoint_envs_def abs_db_def by (metis (no_types, lifting) abs_run_def arun.select_convs(3) option.simps(9))
  then show "apart r q" using rq(1,2) by (auto simp: owners_def env_of_def env_apart_def apart_def)
qed

lemma slot_of_active:
  assumes "ids_ok d" and "one_active (abs_db d)"
  shows "one_slot d"
  unfolding one_slot_def
proof (intro ballI impI)
  fix r q assume rq: "r \<in> set (runs d)" "q \<in> set (runs d)" "status r = ''running''" "status q = ''running''"
  then have "get_run (run_id r) d = Some r" "get_run (run_id q) d = Some q" using get_run_iff [OF assms(1)] by auto
  then show "run_id r = run_id q"
    using assms(2) rq(3,4) unfolding one_active_def abs_db_def by (simp add: abs_run_def)
qed

section \<open>Properties\<close>




section \<open>Witnesses\<close>

definition demo_app :: "demo app" where
  "demo_app = \<lparr>app_world = demo_world demo_start, app_slot = [QueuePass]\<rparr>"

definition demo_job :: "demo app \<Rightarrow> demo app" where
  "demo_job a = snd (run_slot 4 9 (lifted (\<lambda>h. 0) demo_host) (\<lambda>h. []) (\<lambda>vm res. ret ()) (Some demo_orch) a)"

lemma demo_job_step: "app_step demo_app (demo_job demo_app)"
  unfolding demo_job_def by (rule app_step.job) (simp_all add: quiet_mail_def keeps_ret resumable_def demo_app_def)

lemma demo_ids: "ids_ok (app_db demo_app)"
  by (simp add: demo_app_def ids_ok_def demo_world_def demo_db_def demo_held_run_def fresh_run_def)



definition empty_app :: "demo app" where
  "empty_app = \<lparr>app_world = (demo_world demo_start)\<lparr>wdb := (demo_db)\<lparr>runs := []\<rparr>\<rparr>, app_slot = []\<rparr>"


end
