(* ===== verification/PyTime.thy ===== *)
theory PyTime imports PyFloat begin

text \<open>
  Python's \<open>timedelta\<close> as a number of microseconds, and the floating-point numbers that the
  program computes from one. The lemmas say that comparing such a number with a whole number
  of seconds, minutes or hours is comparing microseconds, in spite of the rounding.
\<close>

text \<open>\<open>delta.total_seconds()\<close>, \<open>delta.total_seconds() / 60\<close>, \<open>delta.total_seconds() / 3600\<close> and \<open>delta.days\<close>.\<close>

definition total_seconds :: "int \<Rightarrow> rat" where
  "total_seconds us = fl64 (of_int us / 1000000)"

definition total_minutes :: "int \<Rightarrow> rat" where
  "total_minutes us = fl64 (total_seconds us / 60)"

definition total_hours :: "int \<Rightarrow> rat" where
  "total_hours us = fl64 (total_seconds us / 3600)"

definition whole_days :: "int \<Rightarrow> int" where
  "whole_days us = us div (86400 * 1000000)"

section \<open>Numbers with few binary digits are exact\<close>

lemma pow2_less_cancel: "pow2 a < pow2 b \<Longrightarrow> a < b"
  using pow2_mono [of b a] by linarith

lemma ilog2_unique:
  assumes "pow2 e \<le> x" and "x < pow2 (e + 1)"
  shows "ilog2 x = e"
proof -
  have x: "0 < x" using assms(1) pow2_pos [of e] by linarith
  have "pow2 e < pow2 (ilog2 x + 1)" "pow2 (ilog2 x) < pow2 (e + 1)" using ilog2_bounds [OF x] assms by linarith+
  then have "e < ilog2 x + 1" "ilog2 x < e + 1" by (blast intro: pow2_less_cancel)+
  then show ?thesis by simp
qed

lemma fl64_scale:
  assumes "0 < x"
  shows "fl64 (x * pow2 k) = fl64 x * pow2 k"
proof -
  have x': "0 < x * pow2 k" using assms by simp
  have "pow2 (ilog2 x) * pow2 k \<le> x * pow2 k" "x * pow2 k < pow2 (ilog2 x + 1) * pow2 k"
    using ilog2_bounds [OF assms] by simp_all
  then have "ilog2 (x * pow2 k) = ilog2 x + k"
    by (intro ilog2_unique) (simp_all add: pow2_add algebra_simps)
  then have u: "pow2 (ilog2 (x * pow2 k) - 52) = pow2 (ilog2 x - 52) * pow2 k"
    by (metis pow2_add add_diff_eq add.commute)
  show ?thesis unfolding fl64_pos [OF x'] fl64_pos [OF assms] u by simp
qed

lemma fl64_dyadic:
  assumes "0 < n" and "n < 2 ^ 53"
  shows "fl64 (of_int n / 2 ^ k) = of_int n / 2 ^ k"
  using fl64_scale [of "of_int n" "- int k"] fl64_exact [of n] assms by simp

text \<open>A number that stays away from \<open>c\<close> by a dyadic amount stays below it after rounding.\<close>

lemma fl64_below:
  assumes "x \<le> of_int c - 1 / 2 ^ k" and "0 < c" and "c * 2 ^ k \<le> 2 ^ 53"
  shows "fl64 x \<le> of_int c - 1 / 2 ^ k"
proof -
  have eq: "of_int c - 1 / 2 ^ k = (of_int (c * 2 ^ k - 1) :: rat) / 2 ^ k" by (simp add: field_simps)
  have c: "1 \<le> c * 2 ^ k" using assms(2) by (simp add: int_one_le_iff_zero_less)
  have "fl64 (of_int c - 1 / 2 ^ k) = of_int c - 1 / 2 ^ k"
  proof (cases "c * 2 ^ k = 1")
    case True
    then show ?thesis unfolding eq by simp
  next
    case False
    then show ?thesis unfolding eq using c assms(3) by (intro fl64_dyadic) linarith+
  qed
  then show ?thesis using fl64_mono [OF assms(1)] by simp
qed

lemma fl64_above:
  assumes "of_int c + 1 / 2 ^ k \<le> x" and "0 < c" and "c * 2 ^ k + 1 < 2 ^ 53"
  shows "of_int c + 1 / 2 ^ k \<le> fl64 x"
proof -
  have eq: "of_int c + 1 / 2 ^ k = (of_int (c * 2 ^ k + 1) :: rat) / 2 ^ k" by (simp add: field_simps)
  have "0 < c * 2 ^ k" using assms(2) by simp
  then have "fl64 (of_int c + 1 / 2 ^ k) = of_int c + 1 / 2 ^ k"
    unfolding eq using assms(3) by (intro fl64_dyadic) linarith+
  then show ?thesis using fl64_mono [OF assms(1)] by simp
qed

section \<open>Comparing durations\<close>

lemma total_seconds_ge:
  assumes "0 < n" and "n \<le> 2 ^ 33"
  shows "of_int n \<le> total_seconds us \<longleftrightarrow> n * 1000000 \<le> us"
proof
  assume "n * 1000000 \<le> us"
  then have "(of_int (n * 1000000) :: rat) \<le> of_int us" by (rule of_int_le_iff [THEN iffD2])
  then have "of_int n \<le> (of_int us / 1000000 :: rat)" by simp
  then show "of_int n \<le> total_seconds us"
    unfolding total_seconds_def using fl64_mono [of "of_int n"] fl64_exact [of n] assms by force
next
  show "of_int n \<le> total_seconds us \<Longrightarrow> n * 1000000 \<le> us"
  proof (rule ccontr)
    assume le: "of_int n \<le> total_seconds us" and "\<not> n * 1000000 \<le> us"
    then have "(of_int us :: rat) \<le> of_int (n * 1000000 - 1)" by (intro of_int_le_iff [THEN iffD2]) linarith
    then have "(of_int us / 1000000 :: rat) \<le> of_int n - 1 / 2 ^ 20" by simp
    then have "total_seconds us \<le> of_int n - 1 / 2 ^ 20"
      unfolding total_seconds_def by (rule fl64_below) (use assms in simp_all)
    then show False using le by simp
  qed
qed

lemma total_seconds_below:
  assumes "0 < n" and "n \<le> 2 ^ 33" and "us < n * 1000000"
  shows "total_seconds us \<le> of_int n - 1 / 2 ^ 20"
proof -
  have "(of_int us :: rat) \<le> of_int (n * 1000000 - 1)" using assms(3) by (intro of_int_le_iff [THEN iffD2]) linarith
  then have "(of_int us / 1000000 :: rat) \<le> of_int n - 1 / 2 ^ 20" by simp
  then show ?thesis unfolding total_seconds_def by (rule fl64_below) (use assms in simp_all)
qed

lemma total_over:
  assumes "0 < n" and "0 < m" and "m \<le> 4000" and "n * m \<le> 2 ^ 33" and "n \<le> 2 ^ 21"
  shows "of_int n \<le> fl64 (total_seconds us / of_int m) \<longleftrightarrow> n * m * 1000000 \<le> us"
proof
  assume "n * m * 1000000 \<le> us"
  then have "of_int (n * m) \<le> total_seconds us" using assms by (subst total_seconds_ge) simp_all
  then have "of_int n \<le> total_seconds us / of_int m" using assms(2) by (simp add: field_simps)
  then show "of_int n \<le> fl64 (total_seconds us / of_int m)"
    using fl64_mono [of "of_int n"] fl64_exact [of n] assms by force
next
  show "of_int n \<le> fl64 (total_seconds us / of_int m) \<Longrightarrow> n * m * 1000000 \<le> us"
  proof (rule ccontr)
    assume le: "of_int n \<le> fl64 (total_seconds us / of_int m)" and "\<not> n * m * 1000000 \<le> us"
    then have "total_seconds us \<le> of_int (n * m) - 1 / 2 ^ 20" using assms by (intro total_seconds_below) simp_all
    then have "total_seconds us / of_int m \<le> (of_int (n * m) - 1 / 2 ^ 20) / of_int m"
      using assms(2) by (intro divide_right_mono) simp_all
    also have "\<dots> = of_int n - 1 / 2 ^ 20 / of_int m" using assms(2) by (simp add: diff_divide_distrib)
    also have "\<dots> \<le> of_int n - 1 / 2 ^ 32"
    proof -
      have "(of_int m :: rat) \<le> of_int 4000" using assms(3) by (rule of_int_le_iff [THEN iffD2])
      then have "(1 :: rat) / 2 ^ 32 \<le> 1 / 2 ^ 20 / of_int m" using assms(2) by (simp add: field_simps)
      then show ?thesis by simp
    qed
    finally have "fl64 (total_seconds us / of_int m) \<le> of_int n - 1 / 2 ^ 32"
      by (rule fl64_below) (use assms in simp_all)
    then show False using le by simp
  qed
qed

lemma total_hours_ge: "0 < n \<Longrightarrow> n \<le> 2 ^ 20 \<Longrightarrow> of_int n \<le> total_hours us \<longleftrightarrow> n * 3600000000 \<le> us"
  using total_over [of n 3600 us] by (simp add: total_hours_def mult.assoc)

lemma total_minutes_ge: "0 < n \<Longrightarrow> n \<le> 2 ^ 20 \<Longrightarrow> of_int n \<le> total_minutes us \<longleftrightarrow> n * 60000000 \<le> us"
  using total_over [of n 60 us] by (simp add: total_minutes_def mult.assoc)

text \<open>The strict comparisons.\<close>

lemma total_seconds_gt_half:
  assumes "0 < n" and "n \<le> 2 ^ 32"
  shows "of_int n / 2 < total_seconds us \<longleftrightarrow> n * 500000 < us"
proof
  assume "n * 500000 < us"
  then have "(of_int (n * 500000 + 1) :: rat) \<le> of_int us" by (intro of_int_le_iff [THEN iffD2]) linarith
  then have x: "(of_int (n * 2 ^ 19 + 1) :: rat) / 2 ^ 20 \<le> of_int us / 1000000" by (simp add: field_simps)
  have "0 < n * 2 ^ 19" using assms(1) by simp
  then have "fl64 (of_int (n * 2 ^ 19 + 1) / 2 ^ 20) = of_int (n * 2 ^ 19 + 1) / 2 ^ 20"
    using assms(2) by (intro fl64_dyadic) simp_all
  then have "of_int (n * 2 ^ 19 + 1) / 2 ^ 20 \<le> total_seconds us" unfolding total_seconds_def using fl64_mono [OF x] by simp
  moreover have "of_int n / 2 < (of_int (n * 2 ^ 19 + 1) :: rat) / 2 ^ 20" by (simp add: field_simps)
  ultimately show "of_int n / 2 < total_seconds us" by linarith
next
  show "of_int n / 2 < total_seconds us \<Longrightarrow> n * 500000 < us"
  proof (rule ccontr)
    assume lt: "of_int n / 2 < total_seconds us" and "\<not> n * 500000 < us"
    then have "(of_int us :: rat) \<le> of_int (n * 500000)" by (intro of_int_le_iff [THEN iffD2]) linarith
    then have "(of_int us / 1000000 :: rat) \<le> of_int n / 2 ^ 1" by simp
    then have "total_seconds us \<le> fl64 (of_int n / 2 ^ 1)" unfolding total_seconds_def by (rule fl64_mono)
    moreover have "fl64 (of_int n / 2 ^ 1) = of_int n / 2 ^ 1" by (rule fl64_dyadic) (use assms in simp_all)
    ultimately show False using lt by simp
  qed
qed

lemma total_seconds_gt: "0 < n \<Longrightarrow> n \<le> 2 ^ 31 \<Longrightarrow> of_int n < total_seconds us \<longleftrightarrow> n * 1000000 < us"
  using total_seconds_gt_half [of "2 * n" us] by (simp add: mult.commute)

lemma total_minutes_gt:
  assumes "0 < n" and "n \<le> 2 ^ 20"
  shows "of_int n < total_minutes us \<longleftrightarrow> n * 60000000 < us"
proof
  assume "n * 60000000 < us"
  then have "n * 60 * 1000000 + 1 \<le> us" by simp
  then have "(of_int (n * 60 * 1000000 + 1) :: rat) \<le> of_int us" by (rule of_int_le_iff [THEN iffD2])
  then have "of_int (n * 60) + 1 / 2 ^ 20 \<le> (of_int us / 1000000 :: rat)" by (simp add: field_simps)
  then have "of_int (n * 60) + 1 / 2 ^ 20 \<le> total_seconds us"
    unfolding total_seconds_def by (rule fl64_above) (use assms in simp_all)
  then have "of_int n + 1 / 2 ^ 26 \<le> total_seconds us / 60" by (simp add: field_simps)
  then have "of_int n + 1 / 2 ^ 26 \<le> total_minutes us"
    unfolding total_minutes_def by (rule fl64_above) (use assms in simp_all)
  moreover have "(0 :: rat) < 1 / 2 ^ 26" by simp
  ultimately show "of_int n < total_minutes us" by linarith
next
  show "of_int n < total_minutes us \<Longrightarrow> n * 60000000 < us"
  proof (rule ccontr)
    assume lt: "of_int n < total_minutes us" and "\<not> n * 60000000 < us"
    then have le: "us \<le> n * 60 * 1000000" by simp
    then have "\<not> of_int (n * 60) < total_seconds us" using assms by (subst total_seconds_gt) simp_all
    then have "total_seconds us / 60 \<le> of_int n" by (simp add: field_simps)
    then have "total_minutes us \<le> of_int n"
      unfolding total_minutes_def using fl64_mono [of _ "of_int n"] fl64_exact [of n] assms by force
    then show False using lt by simp
  qed
qed

end
