(* ===== verification/BackupStatus.thy ===== *)
theory BackupStatus imports PyTime Prelude begin

text \<open>
  How the monitoring judges what it collected (\<open>app/services/backup_status.py\<close>): the age of
  the last backup, a backup that runs unusually long, the dot of a VM, restore tests that are
  due, and how fresh a cluster's data is. Times are microseconds; the ages are the floating
  point numbers the code computes, and the theorems say that its thresholds are nevertheless
  exact to the microsecond.
\<close>

section \<open>The code\<close>

definition assess_backup_status :: "string \<Rightarrow> int option \<Rightarrow> int \<Rightarrow> string \<times> int option" where
  "assess_backup_status backup_kind last_backup_at now =
     (if backup_kind = ''none'' then (''ok'', None)
      else let kind = (if backup_kind = ''unconfigured'' then ''daily'' else backup_kind)
      in case last_backup_at of
           None \<Rightarrow> (''critical'', None)
         | Some last_at \<Rightarrow>
             let delta = now - last_at; age_hours = total_hours delta; age_days = max (whole_days delta) 0
             in if kind = ''daily'' then
                  (if age_hours \<ge> 48 then ''critical'' else if age_hours \<ge> 36 then ''warning'' else ''ok'', Some age_days)
                else if kind = ''weekly'' then
                  (if age_hours \<ge> 14 * 24 + 12 then ''critical''
                   else if age_hours \<ge> 7 * 24 + 12 then ''warning'' else ''ok'', Some age_days)
                else (''unknown'', Some age_days))"

text \<open>\<open>round(seconds / d)\<close> of two ints.\<close>

definition round_div :: "int \<Rightarrow> int \<Rightarrow> int" where
  "round_div n d = round_half_even (fl64 (of_int n / of_int d))"

definition pad2 :: "int \<Rightarrow> string" where
  "pad2 n = (if 0 \<le> n \<and> n < 10 then ''0'' @ string_of_int n else string_of_int n)"

definition format_duration :: "int \<Rightarrow> string" where
  "format_duration secs =
     (if secs < 3600 then string_of_int (max 1 (round_div secs 60)) @ '' min''
      else if secs \<ge> 10 * 3600 - 30 then string_of_int (round_div secs 3600) @ '' h''
      else let minutes = round_div secs 60
           in string_of_int (minutes div 60) @ '' h '' @ pad2 (minutes mod 60) @ '' min'')"

definition SLOW_FACTOR :: rat where "SLOW_FACTOR = 3 / 2"
definition SLOW_MIN_EXTRA_SECONDS :: int where "SLOW_MIN_EXTRA_SECONDS = 15 * 60"

definition assess_slow_backup :: "int option \<Rightarrow> int option \<Rightarrow> int option \<Rightarrow> int \<Rightarrow> (int \<times> int) option" where
  "assess_slow_backup started_at eta typical_seconds now =
     (if \<not> truthy_int typical_seconds then None
      else case started_at of
        None \<Rightarrow> None
      | Some st \<Rightarrow>
          let typical = opt_or typical_seconds 0;
              elapsed = total_seconds (now - st);
              projected = max elapsed (case eta of Some e \<Rightarrow> total_seconds (e - st) | None \<Rightarrow> 0);
              threshold = max (fl64 (of_int typical * SLOW_FACTOR)) (of_int (typical + SLOW_MIN_EXTRA_SECONDS))
          in if projected > threshold then Some (typical, py_trunc projected) else None)"

definition severity_rank :: "string \<Rightarrow> nat option" where
  "severity_rank s = (if s = ''ok'' then Some 0 else if s = ''warning'' then Some 1 else if s = ''critical'' then Some 2 else None)"

definition overall_status :: "string \<Rightarrow> string option \<Rightarrow> string option \<Rightarrow> bool \<Rightarrow> string" where
  "overall_status backup_severity copy_status verify_status vm_gone =
     (if vm_gone then ''gone''
      else let statuses = concat (map (\<lambda>so. case so of None \<Rightarrow> [] | Some s \<Rightarrow> if severity_rank s \<noteq> None then [s] else [])
                            [Some backup_severity, copy_status, verify_status]);
               worst = opt_or (py_max (\<lambda>s. opt_or (severity_rank s) 0) statuses) ''ok''
           in if worst = ''ok'' \<and> copy_status = Some ''single'' then ''info'' else worst)"

definition restore_summary :: "string \<Rightarrow> int option \<Rightarrow> int option \<Rightarrow> bool \<Rightarrow> string \<times> int option" where
  "restore_summary due_status age_days interval_days required =
     (if \<not> required then (''none'', None)
      else case (age_days, interval_days) of
        (Some age, Some interval) \<Rightarrow>
          if due_status = ''open'' then (''open'', None)
          else if due_status = ''critical'' then (''critical'', Some (age - interval))
          else (due_status, Some (interval - age))
      | _ \<Rightarrow> (''open'', None))"

definition SYNC_STALE_HOURS :: int where "SYNC_STALE_HOURS = 24"

definition sync_freshness :: "int option \<Rightarrow> bool option \<Rightarrow> int \<Rightarrow> int \<Rightarrow> string" where
  "sync_freshness last_success last_ok now interval_minutes = (case last_success of
       None \<Rightarrow> ''critical''
     | Some l \<Rightarrow>
         let age_minutes = total_minutes (now - l)
         in if age_minutes > of_int (SYNC_STALE_HOURS * 60) then ''critical''
            else if last_ok = Some False \<or> age_minutes > of_int (2 * interval_minutes + 10) then ''warning''
            else ''ok'')"

definition pve_sync_state :: "int option \<Rightarrow> bool option \<Rightarrow> int \<Rightarrow> int \<Rightarrow> string" where
  "pve_sync_state last_pve_sync_success_at last_pve_sync_ok now interval_minutes =
     sync_freshness last_pve_sync_success_at last_pve_sync_ok now interval_minutes"

definition pbs_sync_state :: "int option \<Rightarrow> bool option \<Rightarrow> int \<Rightarrow> int \<Rightarrow> string" where
  "pbs_sync_state last_sync_at last_sync_ok now interval_minutes = (case last_sync_ok of
       None \<Rightarrow> ''unknown''
     | Some b \<Rightarrow> if \<not> b then ''critical'' else sync_freshness last_sync_at (Some True) now interval_minutes)"

section \<open>What the age of a backup means\<close>

definition hours :: int where "hours = 3600000000"

text \<open>The thresholds in microseconds, without rounding.\<close>

definition severity_of_age :: "int \<Rightarrow> int \<Rightarrow> int \<Rightarrow> string" where
  "severity_of_age warn crit us = (if us \<ge> crit then ''critical'' else if us \<ge> warn then ''warning'' else ''ok'')"

lemma age_thresholds:
  "(48 \<le> total_hours us) = (48 * hours \<le> us)" "(36 \<le> total_hours us) = (36 * hours \<le> us)"
  "(14 * 24 + 12 \<le> total_hours us) = ((14 * 24 + 12) * hours \<le> us)"
  "(7 * 24 + 12 \<le> total_hours us) = ((7 * 24 + 12) * hours \<le> us)"
  using total_hours_ge [of 48 us] total_hours_ge [of 36 us] total_hours_ge [of 348 us] total_hours_ge [of 180 us]
  by (simp_all add: hours_def)

text \<open>C30: the age of a backup is judged exactly, to the microsecond, although the code compares
  floating point hours: a daily backup is a warning from 36 hours and critical from 48 hours
  on, a weekly one from seven and fourteen and a half days on, an unconfigured VM counts as
  daily; without a backup the status is critical, and \<open>none\<close> is always ok.\<close>

theorem assess_backup_status_exact:
  "assess_backup_status kind last_at now =
     (if kind = ''none'' then (''ok'', None)
      else case last_at of
        None \<Rightarrow> (''critical'', None)
      | Some l \<Rightarrow>
          (if kind \<in> {''daily'', ''unconfigured''} then severity_of_age (36 * hours) (48 * hours) (now - l)
           else if kind = ''weekly'' then severity_of_age (7 * 24 * hours + 12 * hours) (14 * 24 * hours + 12 * hours) (now - l)
           else ''unknown'', Some (max ((now - l) div (24 * hours)) 0)))"
proof (cases last_at)
  case None
  then show ?thesis by (simp add: assess_backup_status_def)
next
  case (Some l)
  have d: "whole_days us = us div (24 * hours)" for us by (simp add: whole_days_def hours_def)
  have h: "(14 * 24 + 12) * hours = 14 * 24 * hours + 12 * hours" "(7 * 24 + 12) * hours = 7 * 24 * hours + 12 * hours"
    by (simp_all add: hours_def)
  show ?thesis
    unfolding assess_backup_status_def Let_def Some option.case age_thresholds severity_of_age_def d h
    by auto
qed

text \<open>a running backup is reported as slow exactly when it has run, or is expected to run, for
  more than one and a half times its typical time and for more than fifteen minutes longer;
  the report is the typical time and the whole seconds of the projection.\<close>

theorem assess_slow_backup_exact:
  assumes "0 < typical" and "typical \<le> 2 ^ 30"
  shows "assess_slow_backup (Some st) eta (Some typical) now =
     (let projected = max (now - st) (case eta of Some e \<Rightarrow> e - st | None \<Rightarrow> 0)
      in if projected > 1500000 * typical \<and> projected > (typical + 900) * 1000000
         then Some (typical, py_trunc (total_seconds projected)) else None)"
proof -
  let ?p = "max (now - st) (case eta of Some e \<Rightarrow> e - st | None \<Rightarrow> 0)"
  have mono: "total_seconds a \<le> total_seconds b" if "a \<le> b" for a b
    unfolding total_seconds_def using that by (intro fl64_mono divide_right_mono) simp_all
  have zero: "total_seconds 0 = 0" by (simp add: total_seconds_def)
  have "max (total_seconds a) (total_seconds b) = total_seconds (max a b)" for a b
    using mono [of a b] mono [of b a] by (auto simp: max_def)
  then have p: "max (total_seconds (now - st)) (case eta of Some e \<Rightarrow> total_seconds (e - st) | None \<Rightarrow> 0) = total_seconds ?p"
    using zero by (cases eta) (simp_all, metis)
  have half: "fl64 (of_int typical * SLOW_FACTOR) = of_int (3 * typical) / 2"
    using fl64_dyadic [of "3 * typical" 1] assms by (simp add: SLOW_FACTOR_def mult.commute)
  have "(of_int (3 * typical) / 2 < total_seconds ?p) = (1500000 * typical < ?p)"
    using assms by (subst total_seconds_gt_half) (simp_all add: mult.commute)
  moreover have "(of_int (typical + 900) < total_seconds ?p) = ((typical + 900) * 1000000 < ?p)"
    by (rule total_seconds_gt) (use assms in simp_all)
  ultimately have over: "(max (of_int (3 * typical) / 2) (of_int (typical + 900)) < total_seconds ?p)
      = (1500000 * typical < ?p \<and> (typical + 900) * 1000000 < ?p)"
    by (simp only: max_less_iff_conj)
  have t: "truthy_int (Some typical)" using assms(1) by (simp add: truthy_int_def)
  have e: "typical + SLOW_MIN_EXTRA_SECONDS = typical + 900" by (simp add: SLOW_MIN_EXTRA_SECONDS_def)
  show ?thesis
    unfolding assess_slow_backup_def Let_def option.case p
    by (simp only: t opt_or_simps half e over not_True_eq_False if_False)
qed

lemma assess_slow_backup_exact_witness:
  "assess_slow_backup (Some 0) (Some 4600000000) (Some 3600) 60000000 =
     (let projected = max (60000000 - 0) (case Some 4600000000 of Some e \<Rightarrow> e - 0 | None \<Rightarrow> 0)
      in if projected > 1500000 * 3600 \<and> projected > (3600 + 900) * 1000000
         then Some (3600, py_trunc (total_seconds projected)) else None)"
  by (rule assess_slow_backup_exact) simp_all

section \<open>The dot of a VM\<close>

text \<open>the dot of a VM is the worst of the three judgements: critical if one of them is,
  otherwise a warning if one of them is, otherwise ok, and info instead of ok for a backup
  without a second copy; words that are no severity do not count, and a VM that is gone is
  gone.\<close>

theorem overall_status_worst:
  "overall_status b c v gone =
     (if gone then ''gone''
      else if ''critical'' \<in> {b} \<union> set_option c \<union> set_option v then ''critical''
      else if ''warning'' \<in> {b} \<union> set_option c \<union> set_option v then ''warning''
      else if c = Some ''single'' then ''info'' else ''ok'')"
proof -
  have rank: "severity_rank s = None \<or> s \<in> {''ok'', ''warning'', ''critical''}" for s by (simp add: severity_rank_def)
  have eval: "severity_rank ''ok'' = Some 0" "severity_rank ''warning'' = Some 1" "severity_rank ''critical'' = Some 2"
    "severity_rank ''single'' = None"
    by (simp_all add: severity_rank_def)
  have other: "severity_rank s = None" if "s \<noteq> ''ok''" "s \<noteq> ''warning''" "s \<noteq> ''critical''" for s
    using rank that by auto
  have cases3: "s = ''ok'' \<or> s = ''warning'' \<or> s = ''critical'' \<or> severity_rank s = None \<and> s \<noteq> ''ok'' \<and> s \<noteq> ''warning'' \<and> s \<noteq> ''critical''" for s
    using other eval by auto
  have oc: "c = None \<or> (\<exists>s. c = Some s \<and> (s = ''ok'' \<or> s = ''warning'' \<or> s = ''critical'' \<or> severity_rank s = None \<and> s \<noteq> ''ok'' \<and> s \<noteq> ''warning'' \<and> s \<noteq> ''critical''))"
    using cases3 by (cases c) simp_all
  have ov: "v = None \<or> (\<exists>s. v = Some s \<and> (s = ''ok'' \<or> s = ''warning'' \<or> s = ''critical'' \<or> severity_rank s = None \<and> s \<noteq> ''ok'' \<and> s \<noteq> ''warning'' \<and> s \<noteq> ''critical''))"
    using cases3 by (cases v) simp_all
  show ?thesis
    using cases3 [of b] oc ov unfolding overall_status_def
    by (elim disjE exE conjE; simp add: eval)
qed

section \<open>How fresh the data of a cluster is\<close>

text \<open>a cluster is critical when it never synced or its last success is more than a day old,
  otherwise a warning when the last attempt failed or the success is older than two intervals
  and ten minutes, otherwise ok; exactly, to the microsecond.\<close>

theorem sync_freshness_exact:
  assumes "0 < interval" and "interval \<le> 2 ^ 18"
  shows "sync_freshness last_at last_ok now interval =
     (case last_at of None \<Rightarrow> ''critical''
      | Some l \<Rightarrow> if now - l > 24 * hours then ''critical''
          else if last_ok = Some False \<or> now - l > (2 * interval + 10) * 60000000 then ''warning'' else ''ok'')"
proof (cases last_at)
  case None
  then show ?thesis by (simp add: sync_freshness_def)
next
  case (Some l)
  have "(of_int (SYNC_STALE_HOURS * 60) < total_minutes us) = (24 * hours < us)" for us
    using total_minutes_gt [of 1440 us] by (simp add: SYNC_STALE_HOURS_def hours_def)
  moreover have "(of_int (2 * interval + 10) < total_minutes us) = ((2 * interval + 10) * 60000000 < us)" for us
    by (rule total_minutes_gt) (use assms in simp_all)
  ultimately show ?thesis unfolding sync_freshness_def Let_def Some option.case by (simp only:)
qed

lemma sync_freshness_exact_witness:
  "sync_freshness (Some 0) (Some True) 7000000000 60 =
     (case Some 0 of None \<Rightarrow> ''critical''
      | Some l \<Rightarrow> if 7000000000 - l > 24 * hours then ''critical''
          else if Some True = Some False \<or> 7000000000 - l > (2 * 60 + 10) * 60000000 then ''warning'' else ''ok'')"
  by (rule sync_freshness_exact) simp_all

end
