(* ===== verification/PyDate.thy ===== *)
theory PyDate imports PyTime PyJson Prelude begin

text \<open>
  Python's \<open>datetime\<close> as microseconds since the epoch: the proleptic Gregorian calendar as
  \<open>datetime\<close> computes it, and \<open>fromisoformat\<close> for the texts that the log patterns let through
  (\<open>YYYY-MM-DD\<close>, a separator, \<open>HH:MM:SS\<close>). A zone is the map from local to UTC microseconds.
\<close>

definition is_leap :: "int \<Rightarrow> bool" where
  "is_leap y = (y mod 4 = 0 \<and> (y mod 100 \<noteq> 0 \<or> y mod 400 = 0))"

definition days_in_month :: "int \<Rightarrow> int \<Rightarrow> int" where
  "days_in_month y m = (if m = 2 then (if is_leap y then 29 else 28) else if m \<in> {4, 6, 9, 11} then 30 else 31)"

definition days_before_year :: "int \<Rightarrow> int" where
  "days_before_year y = (let p = y - 1 in p * 365 + p div 4 - p div 100 + p div 400)"

definition days_before_month :: "int \<Rightarrow> int \<Rightarrow> int" where
  "days_before_month y m = sum_list (map (days_in_month y) [1 .. m - 1])"

text \<open>\<open>date.toordinal()\<close>; 1970-01-01 is day 719163.\<close>

definition toordinal :: "int \<Rightarrow> int \<Rightarrow> int \<Rightarrow> int" where
  "toordinal y m d = days_before_year y + days_before_month y m + d"

definition epoch_us :: "int \<Rightarrow> int \<Rightarrow> int \<Rightarrow> int \<Rightarrow> int \<Rightarrow> int \<Rightarrow> int" where
  "epoch_us y mo d h mi s = (((toordinal y mo d - 719163) * 24 + h) * 60 + mi) * 60 * 1000000 + s * 1000000"

definition fromisoformat :: "string \<Rightarrow> exn + int" where
  "fromisoformat ts =
     (let num = (\<lambda>i n. int (nat_of_digits (take n (drop i ts))));
          y = num 0 4; mo = num 5 2; d = num 8 2; h = num 11 2; mi = num 14 2; s = num 17 2
      in if 1 \<le> y \<and> 1 \<le> mo \<and> mo \<le> 12 \<and> 1 \<le> d \<and> d \<le> days_in_month y mo \<and> h \<le> 23 \<and> mi \<le> 59 \<and> s \<le> 59
         then Inr (epoch_us y mo d h mi s)
         else Inl (value_error (''Invalid isoformat string: '' @ ts)))"

text \<open>A year has 365 or 366 days, and the days of its months add up to it.\<close>

lemma days_before_month_sum: "days_before_month y 13 = (if is_leap y then 366 else 365)"
proof -
  have m: "[1 .. 13 - 1] = [1, 2, 3, 4, 5, 6, 7, 8, 9, 10, 11, 12 :: int]" by code_simp
  show ?thesis unfolding days_before_month_def m by (simp add: days_in_month_def)
qed

lemma div_before:
  fixes y n :: int
  assumes "0 < n"
  shows "y div n = (y - 1) div n + (if y mod n = 0 then 1 else 0)"
proof (cases "y mod n = 0")
  case True
  have "y - 1 = n * (y div n - 1) + (n - 1)" using True mult_div_mod_eq [of n y] by (simp add: algebra_simps)
  then have "(y - 1) div n = y div n - 1" by (rule int_div_pos_eq) (use assms in simp_all)
  then show ?thesis using True by simp
next
  case False
  have "y - 1 = n * (y div n) + (y mod n - 1)" by simp
  moreover have "0 \<le> y mod n - 1" "y mod n - 1 < n"
    using False pos_mod_sign [OF assms, of y] pos_mod_bound [OF assms, of y] by linarith+
  ultimately have "(y - 1) div n = y div n" by (rule int_div_pos_eq)
  then show ?thesis using False by simp
qed

lemma leap_sum:
  fixes y a b c a' b' c' :: int
  assumes "a = a' + (if p4 then 1 else 0)" and "b = b' + (if p100 then 1 else 0)" and "c = c' + (if p400 then 1 else 0)"
    and "p400 \<Longrightarrow> p100" and "p100 \<Longrightarrow> p4"
  shows "y * 365 + a - b + c = (y - 1) * 365 + a' - b' + c' + (if p4 \<and> (\<not> p100 \<or> p400) then 366 else 365)"
  using assms by (cases p4; cases p100; cases p400) simp_all

lemma days_before_next_year: "days_before_year (y + 1) = days_before_year y + (if is_leap y then 366 else 365)"
proof -
  have "y mod 400 = 0 \<Longrightarrow> y mod 100 = 0" using dvd_mult_left [of 100 4 y] by (simp add: mod_eq_0_iff_dvd)
  moreover have "y mod 100 = 0 \<Longrightarrow> y mod 4 = 0" using dvd_mult_left [of 4 25 y] by (simp add: mod_eq_0_iff_dvd)
  ultimately show ?thesis
    unfolding days_before_year_def is_leap_def Let_def add_diff_cancel_right'
    by (intro leap_sum div_before) simp_all
qed

text \<open>The first of January follows the last of December, and every month the one before it.\<close>

lemma next_year_ordinal: "toordinal (y + 1) 1 1 = toordinal y 12 31 + 1"
proof -
  have "days_before_month y 13 = days_before_month y 12 + 31"
  proof -
    have "[1 .. 12 :: int] = [1 .. 11] @ [12]" by code_simp
    then show ?thesis by (simp add: days_before_month_def days_in_month_def)
  qed
  moreover have "days_before_month (y + 1) 1 = 0" by (simp add: days_before_month_def)
  ultimately show ?thesis using days_before_next_year [of y] days_before_month_sum [of y] by (simp add: toordinal_def)
qed

lemma epoch_zero: "epoch_us 1970 1 1 0 0 0 = 0"
  by (simp add: epoch_us_def toordinal_def days_before_year_def days_before_month_def)

end
