(* ===== verification/VzdumpLog.thy ===== *)
theory VzdumpLog imports PyDate RestoreServer begin

text \<open>
  The log of a vzdump task (\<open>app/services/vzdump_log.py\<close>): one section per backed-up guest,
  with its start, runtime, transferred bytes, throughput, reused share and whether it was a
  full run; and the first line of a backup's notes.
\<close>

section \<open>The patterns\<close>

definition vm_or_ct :: rx where "vm_or_ct = alts [lit_ci ''VM'', lit_ci ''CT'']"

definition START_RE :: rx where
  "START_RE = seqs [lit_ci ''Starting Backup of '', vm_or_ct, plus space, Grp 1 digits]"

definition PBS_ARCHIVE_RE :: rx where
  "PBS_ARCHIVE_RE = seqs [lit (''archive '' @ [CHR 0x27]), alts [lit ''vm'', lit ''ct''], lit ''/'', digits, lit ''/'',
     Grp 1 (seqs [rep 4 digit, lit ''-'', rep 2 digit, lit ''-'', rep 2 digit, lit ''T'', rep 2 digit, lit '':'', rep 2 digit, lit '':'', rep 2 digit]),
     lit (''Z'' @ [CHR 0x27])]"

definition STARTED_AT_RE :: rx where
  "STARTED_AT_RE = seqs [lit ''Backup started at '',
     Grp 1 (seqs [rep 4 digit, lit ''-'', rep 2 digit, lit ''-'', rep 2 digit, lit '' '', rep 2 digit, lit '':'', rep 2 digit, lit '':'', rep 2 digit])]"

definition unit_rx :: rx where
  "unit_rx = seqs [opt (one_of_ci ''KMGTPE''), opt (lit_ci ''i''), lit_ci ''B'']"

definition number_rx :: rx where
  "number_rx = plus (Cls (\<lambda>c. is_digit c \<or> c = CHR ''.''))"

definition TRANSFERRED_RE :: rx where
  "TRANSFERRED_RE = seqs [lit_ci ''transferred '', Grp 1 (seqs [number_rx, lit '' '', unit_rx]), lit_ci '' in '', Grp 2 digits,
     lit_ci '' seconds'', opt (seqs [lit '' ('', Grp 3 (seqs [number_rx, lit '' '', unit_rx, lit_ci ''/s'']), lit '')''])]"

definition REUSED_RE :: rx where
  "REUSED_RE = seqs [lit_ci ''backup was done incrementally, reused '', number_rx, lit '' '', unit_rx, lit '' ('', Grp 1 digits, lit ''%)'']"

definition FULL_RE :: rx where
  "FULL_RE = seqs [Grp 1 (plus (Cls (\<lambda>c. is_word c \<or> c = CHR ''-''))), lit_ci '': dirty-bitmap status: '',
     alts [lit_ci ''existing bitmap was invalid'', lit_ci ''created new'']]"

definition FINISHED_RE :: rx where
  "FINISHED_RE = seqs [lit_ci ''Finished Backup of '', vm_or_ct, lit '' '', digits, lit '' ('', Grp 1 digits, lit '':'',
     Grp 2 (rep 2 digit), lit '':'', Grp 3 (rep 2 digit), lit '')'']"

definition FAILED_RE :: rx where
  "FAILED_RE = seqs [lit_ci ''ERROR: Backup of '', vm_or_ct, lit '' '', digits, lit_ci '' failed'']"

definition LOG_SIZE_RE :: rx where
  "LOG_SIZE_RE = seqs [Grp 1 (alts [decimal, Seq (lit ''.'') digits]), Star space, Grp 2 unit_rx]"

definition py_upper :: "string \<Rightarrow> string" where
  "py_upper s = map (\<lambda>c. if is_lower c then char_of (of_char c - (32 :: nat)) else c) s"

definition LOG_UNITS :: "(string \<times> int) list" where
  "LOG_UNITS = [(''B'', 1), (''KIB'', 1024), (''MIB'', 1024 ^ 2), (''GIB'', 1024 ^ 3), (''TIB'', 1024 ^ 4), (''PIB'', 1024 ^ 5),
     (''EIB'', 1024 ^ 6), (''KB'', 1000), (''MB'', 1000 ^ 2), (''GB'', 1000 ^ 3), (''TB'', 1000 ^ 4), (''PB'', 1000 ^ 5), (''EB'', 1000 ^ 6)]"

section \<open>Sizes and notes\<close>

definition parse_size :: "string option \<Rightarrow> int option" where
  "parse_size text =
     (case rx_search LOG_SIZE_RE (opt_or text []) of
        None \<Rightarrow> None
      | Some m \<Rightarrow> map_option (scaled (float_of (group_text m 1))) (map_of LOG_UNITS (py_upper (group_text m 2))))"

definition guest_name_from_notes :: "json \<Rightarrow> string option" where
  "guest_name_from_notes notes =
     (case splitlines (py_strip (py_str (py_or notes (JStr [])))) of
        [] \<Rightarrow> None
      | l # ls \<Rightarrow> if py_strip l = [] then None else Some (take 200 (py_strip l)))"

section \<open>The sections of a log\<close>

record backup_run =
  br_vmid :: int
  br_started_at :: "int option"
  br_duration :: "int option"
  br_transferred :: "int option"
  br_throughput :: "int option"
  br_reused_pct :: "int option"
  br_full :: "bool option"
  br_failed :: bool

definition fresh_backup_run :: "int \<Rightarrow> backup_run" where
  "fresh_backup_run vid = \<lparr>br_vmid = vid, br_started_at = None, br_duration = None, br_transferred = None,
     br_throughput = None, br_reused_pct = None, br_full = None, br_failed = False\<rparr>"

text \<open>The variables of the loop: the open section, if any, and what was seen in it.\<close>

record vz_section =
  vz_run :: backup_run
  vz_incremental :: bool
  vz_full :: bool

definition close_section :: "vz_section \<Rightarrow> backup_run" where
  "close_section s = (if vz_full s then (vz_run s)\<lparr>br_full := Some True\<rparr>
     else if vz_incremental s then (vz_run s)\<lparr>br_full := Some False\<rparr> else vz_run s)"

definition group_int :: "groups \<Rightarrow> nat \<Rightarrow> int" where
  "group_int m n = int (nat_of_digits (group_text m n))"

text \<open>What \<open>transferred ... in ... seconds\<close> says.\<close>

definition transferred_run :: "groups \<Rightarrow> backup_run \<Rightarrow> backup_run" where
  "transferred_run m r =
     (let moved = parse_size (group m 1); r1 = r\<lparr>br_transferred := moved\<rparr>
      in if truthy_str (group m 3) then r1\<lparr>br_throughput := parse_size (group m 3)\<rparr>
         else if truthy_int moved \<and> group_int m 2 \<noteq> 0 then r1\<lparr>br_throughput := Some (opt_or moved 0 div group_int m 2)\<rparr>
         else r1)"

definition SMALL_DRIVES :: "string list" where "SMALL_DRIVES = [''tpmstate'', ''efidisk'']"

text \<open>A line inside a section; \<open>node_tz\<close> is the node's zone. The first pattern that fits decides.\<close>

definition section_line :: "(int \<Rightarrow> int) \<Rightarrow> string \<Rightarrow> vz_section \<Rightarrow> exn + vz_section" where
  "section_line node_tz line s =
     (let r = vz_run s in
      case rx_search PBS_ARCHIVE_RE line of
        Some m \<Rightarrow> rmap (\<lambda>t. s\<lparr>vz_run := r\<lparr>br_started_at := Some t\<rparr>\<rparr>) (fromisoformat (group_text m 1))
      | None \<Rightarrow>
     (case (if br_started_at r = None then rx_search STARTED_AT_RE line else None) of
        Some m \<Rightarrow> rmap (\<lambda>t. s\<lparr>vz_run := r\<lparr>br_started_at := Some (node_tz t)\<rparr>\<rparr>) (fromisoformat (group_text m 1))
      | None \<Rightarrow>
     (case rx_search TRANSFERRED_RE line of
        Some m \<Rightarrow> Inr (s\<lparr>vz_run := transferred_run m r\<rparr>)
      | None \<Rightarrow>
     (case rx_search REUSED_RE line of
        Some m \<Rightarrow> Inr (s\<lparr>vz_run := r\<lparr>br_reused_pct := Some (group_int m 1)\<rparr>, vz_incremental := True\<rparr>)
      | None \<Rightarrow>
     (case rx_search FULL_RE line of
        Some m \<Rightarrow> Inr (if list_ex (\<lambda>d. starts_with d (py_lower (group_text m 1))) SMALL_DRIVES then s else s\<lparr>vz_full := True\<rparr>)
      | None \<Rightarrow>
     (case rx_search FINISHED_RE line of
        Some m \<Rightarrow> Inr (s\<lparr>vz_run := r\<lparr>br_duration := Some (group_int m 1 * 3600 + group_int m 2 * 60 + group_int m 3)\<rparr>\<rparr>)
      | None \<Rightarrow> if rx_search FAILED_RE line \<noteq> None then Inr (s\<lparr>vz_run := r\<lparr>br_failed := True\<rparr>\<rparr>) else Inr s))))))"

fun vzdump_lines :: "(int \<Rightarrow> int) \<Rightarrow> string list \<Rightarrow> vz_section option \<Rightarrow> exn + backup_run list" where
  "vzdump_lines node_tz [] cur = Inr (case cur of None \<Rightarrow> [] | Some s \<Rightarrow> [close_section s])"
| "vzdump_lines node_tz (line # lines) cur =
     (case rx_search START_RE line of
        Some m \<Rightarrow>
          rmap (\<lambda>rs. (case cur of None \<Rightarrow> [] | Some s \<Rightarrow> [close_section s]) @ rs)
            (vzdump_lines node_tz lines (Some \<lparr>vz_run = fresh_backup_run (group_int m 1), vz_incremental = False, vz_full = False\<rparr>))
      | None \<Rightarrow> (case cur of
          None \<Rightarrow> vzdump_lines node_tz lines None
        | Some s \<Rightarrow> rbind (section_line node_tz line s) (\<lambda>s'. vzdump_lines node_tz lines (Some s'))))"

definition parse_vzdump_log :: "string list \<Rightarrow> (int \<Rightarrow> int) \<Rightarrow> exn + backup_run list" where
  "parse_vzdump_log lines node_tz = vzdump_lines node_tz lines None"

section \<open>Properties\<close>

lemma vzdump_lines_vmids:
  "vzdump_lines tz lines cur = Inr rs \<Longrightarrow>
     map br_vmid rs = (case cur of None \<Rightarrow> [] | Some s \<Rightarrow> [br_vmid (vz_run s)])
       @ concat (map (\<lambda>l. case rx_search START_RE l of Some m \<Rightarrow> [group_int m 1] | None \<Rightarrow> []) lines)"
proof (induction lines arbitrary: cur rs)
  case Nil
  then show ?case by (auto simp: close_section_def split: option.splits)
next
  case (Cons line lines)
  have keep: "br_vmid (vz_run s') = br_vmid (vz_run s)" if "section_line tz line s = Inr s'" for s s'
    using that by (auto simp: section_line_def transferred_run_def Let_def rmap_def split: option.splits sum.splits if_splits)
  show ?case
  proof (cases "rx_search START_RE line")
    case None
    show ?thesis
    proof (cases cur)
      case None
      then show ?thesis using Cons.IH [of None rs] Cons.prems \<open>rx_search START_RE line = None\<close> by simp
    next
      case (Some s)
      then obtain s' where s': "section_line tz line s = Inr s'" "vzdump_lines tz lines (Some s') = Inr rs"
        using Cons.prems None by (auto simp: rbind_def split: sum.splits)
      then show ?thesis using Cons.IH [OF s'(2)] keep [OF s'(1)] Some None by simp
    qed
  next
    case (Some m)
    then obtain qs where qs: "vzdump_lines tz lines (Some \<lparr>vz_run = fresh_backup_run (group_int m 1), vz_incremental = False, vz_full = False\<rparr>) = Inr qs"
      "rs = (case cur of None \<Rightarrow> [] | Some s \<Rightarrow> [close_section s]) @ qs"
      using Cons.prems by (auto simp: rmap_def split: sum.splits)
    then show ?thesis
      using Cons.IH [OF qs(1)] Some by (auto simp: fresh_backup_run_def close_section_def split: option.splits)
  qed
qed

text \<open>a log is read into one result per line that starts a backup, in the order of these lines
  and with their guests: no section is lost, split or attributed to another guest.\<close>

theorem parse_vzdump_log_sections:
  "case parse_vzdump_log lines tz of
     Inr rs \<Rightarrow> map br_vmid rs = concat (map (\<lambda>l. case rx_search START_RE l of Some m \<Rightarrow> [group_int m 1] | None \<Rightarrow> []) lines)
   | Inl e \<Rightarrow> True"
  using vzdump_lines_vmids [of tz lines None] by (auto simp: parse_vzdump_log_def split: sum.split)

text \<open>What is read for a guest depends on the lines of its own section only.\<close>

lemma vzdump_lines_append:
  assumes "rx_search START_RE line \<noteq> None"
  shows "vzdump_lines tz (xs @ line # ys) cur =
    rbind (vzdump_lines tz xs cur) (\<lambda>a. rmap (\<lambda>b. a @ b) (vzdump_lines tz (line # ys) None))"
proof (induction xs arbitrary: cur)
  case Nil
  obtain m where "rx_search START_RE line = Some m" using assms by blast
  then show ?case by (cases cur) (simp_all add: rbind_def rmap_def split: sum.split)
next
  case (Cons x xs)
  show ?case
    using Cons.IH by (auto simp: rbind_def rmap_def split: option.split sum.split sum.splits)
qed

text \<open>C31: what is read for a guest depends on the lines of its own section only: a log that goes
  on with another guest's section is read as its parts are.\<close>

theorem parse_vzdump_log_compositional:
  assumes "rx_search START_RE line \<noteq> None"
  shows "parse_vzdump_log (xs @ line # ys) tz =
    rbind (parse_vzdump_log xs tz) (\<lambda>a. rmap (\<lambda>b. a @ b) (parse_vzdump_log (line # ys) tz))"
  unfolding parse_vzdump_log_def by (rule vzdump_lines_append [OF assms])

lemma parse_vzdump_log_compositional_witness:
  "parse_vzdump_log ([''Starting Backup of VM 100 (qemu)''] @ ''Starting Backup of CT 7'' # []) (\<lambda>t. t) =
    rbind (parse_vzdump_log [''Starting Backup of VM 100 (qemu)''] (\<lambda>t. t))
      (\<lambda>a. rmap (\<lambda>b. a @ b) (parse_vzdump_log [''Starting Backup of CT 7''] (\<lambda>t. t)))"
proof (rule parse_vzdump_log_compositional)
  have "\<not> Option.is_none (rx_search START_RE ''Starting Backup of CT 7'')" by code_simp
  then show "rx_search START_RE ''Starting Backup of CT 7'' \<noteq> None" by (simp add: Option.is_none_def)
qed

end
