(* ===== verification/PveConfig.thy ===== *)
theory PveConfig imports RestoreServer begin

text \<open>
  The data disks of a guest's configuration (\<open>app/services/pve_config.py\<close>): which keys carry a
  disk, its storage and size, and the order in which the disks are shown.
\<close>

definition DISK_KEY_RE :: rx where
  "DISK_KEY_RE = alts
     [seqs [AtStart, alts [lit ''ide'', lit ''sata'', lit ''scsi'', lit ''virtio''], digits, AtEnd],
      seqs [AtStart, lit ''efidisk'', digits, AtEnd], seqs [AtStart, lit ''tpmstate'', digits, AtEnd],
      seqs [AtStart, lit ''rootfs'', AtEnd], seqs [AtStart, lit ''mp'', digits, AtEnd]]"

definition DISK_SIZE_RE :: rx where
  "DISK_SIZE_RE = seqs [alts [AtStart, lit '',''], lit_ci ''size='', Grp 1 decimal, Star space, Grp 2 (opt (one_of_ci ''KMGTP''))]"

definition DISK_UNIT :: "(string \<times> int) list" where
  "DISK_UNIT = [([], 1), (''k'', 1024), (''m'', 1024 ^ 2), (''g'', 1024 ^ 3), (''t'', 1024 ^ 4), (''p'', 1024 ^ 5)]"

definition BUS_ORDER :: "string list" where
  "BUS_ORDER = [''virtio'', ''scsi'', ''sata'', ''ide'', ''rootfs'', ''mp'', ''efidisk'', ''tpmstate'']"

fun ordinal_from :: "nat \<Rightarrow> string list \<Rightarrow> string \<Rightarrow> nat \<times> nat" where
  "ordinal_from i [] dev = (length BUS_ORDER, 0)"
| "ordinal_from i (p # ps) dev =
     (if starts_with p dev
      then (i, let num = drop (length p) dev in if all_digits num then nat_of_digits num else 0)
      else ordinal_from (i + 1) ps dev)"

definition ordinal :: "string \<Rightarrow> nat \<times> nat" where
  "ordinal dev = ordinal_from 0 BUS_ORDER dev"

record data_disk =
  dd_dev :: string
  dd_storage :: string
  dd_size :: int

text \<open>One entry of the configuration; the unit is looked up without regard to case.\<close>

definition disk_of :: "string \<times> json \<Rightarrow> data_disk list" where
  "disk_of kv = (case kv of (key, raw) \<Rightarrow>
     if rx_match DISK_KEY_RE key = None then []
     else let value = py_str raw; first = hd (split_on (CHR '','') value) in
       if py_in ''media=cdrom'' value then []
       else if \<not> py_in '':'' first then []
       else let storage = py_strip (hd (split_on (CHR '':'') first)) in
         if storage = [] \<or> storage = ''none'' then []
         else case rx_search DISK_SIZE_RE value of
           None \<Rightarrow> []
         | Some m \<Rightarrow>
             let bytes = scaled (float_of (group_text m 1)) (opt_or (map_of DISK_UNIT (py_lower (group_text m 2))) 1)
             in if bytes \<le> 0 then [] else [\<lparr>dd_dev = key, dd_storage = storage, dd_size = bytes\<rparr>])"

definition parse_disks :: "(string \<times> json) list option \<Rightarrow> data_disk list" where
  "parse_disks config = sort_key (ordinal \<circ> dd_dev) (concat (map disk_of (opt_or config [])))"

definition total_disk_bytes :: "data_disk list \<Rightarrow> int" where
  "total_disk_bytes disks = sum_list (map dd_size disks)"

section \<open>Properties\<close>

lemma disk_of_sound:
  "d \<in> set (disk_of (k, v)) \<Longrightarrow> dd_dev d = k \<and> rx_match DISK_KEY_RE k \<noteq> None \<and> \<not> py_in ''media=cdrom'' (py_str v)
     \<and> dd_storage d \<noteq> [] \<and> dd_storage d \<noteq> ''none'' \<and> 0 < dd_size d"
  by (auto simp: disk_of_def Let_def split: if_splits option.splits)

text \<open>C32: the disks of a configuration are listed in bus order, each under a key of the
  configuration that carries a disk and at most once, none of them a CD-ROM drive, each on a
  named storage and with a positive size; so the total is zero only without any disk.\<close>

theorem parse_disks_rows:
  "sorted (map (ordinal \<circ> dd_dev) (parse_disks config))
   \<and> list_all (\<lambda>d. dd_dev d \<in> fst ` set (opt_or config []) \<and> rx_match DISK_KEY_RE (dd_dev d) \<noteq> None
        \<and> dd_storage d \<noteq> [] \<and> 0 < dd_size d) (parse_disks config)
   \<and> list_all (\<lambda>d. list_ex (\<lambda>(k, v). k = dd_dev d \<and> \<not> py_in ''media=cdrom'' (py_str v)) (opt_or config [])) (parse_disks config)
   \<and> length (parse_disks config) \<le> length (opt_or config [])
   \<and> (total_disk_bytes (parse_disks config) = 0 \<longleftrightarrow> parse_disks config = [])"
proof -
  have rows: "\<exists>v. (dd_dev d, v) \<in> set (opt_or config []) \<and> \<not> py_in ''media=cdrom'' (py_str v)
      \<and> rx_match DISK_KEY_RE (dd_dev d) \<noteq> None \<and> dd_storage d \<noteq> [] \<and> 0 < dd_size d"
    if "d \<in> set (parse_disks config)" for d
    using that disk_of_sound by (fastforce simp: parse_disks_def)
  have len: "length (concat (map disk_of xs)) \<le> length xs" for xs
  proof (induction xs)
    case (Cons x xs)
    have "length (disk_of x) \<le> 1" by (cases x) (simp add: disk_of_def Let_def split: option.split)
    with Cons show ?case by simp
  qed simp
  have pos: "0 < sum_list (map dd_size ds)" if "ds \<noteq> []" "\<forall>d\<in>set ds. 0 < dd_size d" for ds
    using that by (induction ds) (simp, case_tac "ds = []", auto intro: add_pos_pos)
  have tot: "total_disk_bytes (parse_disks config) = 0 \<longleftrightarrow> parse_disks config = []"
    using pos [of "parse_disks config"] rows unfolding total_disk_bytes_def by (cases "parse_disks config = []") force+
  have "list_ex (\<lambda>(k, v). k = dd_dev d \<and> \<not> py_in ''media=cdrom'' (py_str v)) (opt_or config [])"
    if "d \<in> set (parse_disks config)" for d
    using rows [OF that] by (force simp: list_ex_iff)
  moreover have "dd_dev d \<in> fst ` set (opt_or config [])" if "d \<in> set (parse_disks config)" for d
    using rows [OF that] by force
  moreover have "length (parse_disks config) \<le> length (opt_or config [])" using len by (simp add: parse_disks_def)
  moreover have "sorted (map (ordinal \<circ> dd_dev) (parse_disks config))" by (simp add: parse_disks_def)
  ultimately show ?thesis unfolding list_all_iff using rows tot by blast
qed

end
