(* ===== verification/RunningProgress.thy ===== *)
theory RunningProgress imports VzdumpLog begin

text \<open>
  Backups that are running (\<open>app/services/proxmox_progress.py\<close>): the progress of the guest
  that a vzdump task is backing up right now, and the incremental reading of the task's lg,
  which grows to thousands of lines. A page of the log is what PVE answers for a start and a
  limit, with its count of all lines or without.
\<close>

section \<open>Lines of a log\<close>

definition extract_log_lines :: "json \<Rightarrow> string list" where
  "extract_log_lines data = (case data of
       JArr rows \<Rightarrow> concat (map (\<lambda>row. case row of
           JObj kvs \<Rightarrow>
             let text = py_or (py_or (dict_get kvs ''t'' JNull) (dict_get kvs ''msg'' JNull)) (dict_get kvs ''text'' JNull)
             in if py_truth text then [py_str text] else []
         | JStr s \<Rightarrow> [s]
         | _ \<Rightarrow> []) rows)
     | _ \<Rightarrow> [])"

definition starts_section :: "string \<Rightarrow> bool" where
  "starts_section line = (rx_search START_RE line \<noteq> None)"

text \<open>The lines from the last one that starts a section, if there is one: the loop goes down the
  indices.\<close>

primrec last_section :: "nat \<Rightarrow> string list \<Rightarrow> string list option" where
  "last_section 0 ls = None"
| "last_section (Suc i) ls = (if starts_section (ls ! i) then Some (drop i ls) else last_section i ls)"

definition current_vm_log :: "string list \<Rightarrow> string list" where
  "current_vm_log ls = opt_or (last_section (length ls) ls) ls"

definition VMID_RE :: rx where
  "VMID_RE = alts
     [seqs [WordB, vm_or_ct, plus space, Grp 1 digits, WordB],
      seqs [WordB, alts [lit_ci ''qemu'', lit_ci ''lxc''], one_of ''/-'', Grp 2 digits, WordB]]"

fun vmid_of_fields :: "(string \<times> json) list \<Rightarrow> string list \<Rightarrow> int option" where
  "vmid_of_fields task [] = None"
| "vmid_of_fields task (k # ks) =
     (case rx_search VMID_RE (py_str (py_or (dict_get task k JNull) (JStr []))) of
        Some m \<Rightarrow> Some (if truthy_str (group m 1) then group_int m 1 else group_int m 2)
      | None \<Rightarrow> vmid_of_fields task ks)"

definition extract_vmid_from_task :: "(string \<times> json) list \<Rightarrow> string list \<Rightarrow> int option" where
  "extract_vmid_from_task task ls =
     (case List.find starts_section (rev ls) of
        Some line \<Rightarrow> map_option (\<lambda>m. group_int m 1) (rx_search START_RE line)
      | None \<Rightarrow> vmid_of_fields task [''id'', ''upid'', ''worker_id''])"

section \<open>Reading the log page by page\<close>

record task_log =
  tl_read :: nat
  tl_section :: "string list"

definition no_log :: task_log where
  "no_log = \<lparr>tl_read = 0, tl_section = []\<rparr>"

definition LOG_PAGE :: nat where "LOG_PAGE = 1000"

definition with_lines :: "task_log \<Rightarrow> string list \<Rightarrow> nat \<Rightarrow> task_log" where
  "with_lines state ls n = (case last_section (length ls) ls of
       Some s \<Rightarrow> \<lparr>tl_read = n, tl_section = s\<rparr>
     | None \<Rightarrow> \<lparr>tl_read = n, tl_section = tl_section state @ ls\<rparr>)"

type_synonym pager = "nat \<Rightarrow> nat \<Rightarrow> string list \<times> nat option"

text \<open>Reading on while pages are full. \<open>fuel\<close> bounds the pages: a lg that never ends is \<open>None\<close>.\<close>

primrec read_on :: "nat \<Rightarrow> pager \<Rightarrow> nat \<Rightarrow> string list \<Rightarrow> string list \<Rightarrow> string list option" where
  "read_on 0 get_page got ls page = None"
| "read_on (Suc fuel) get_page got ls page =
     (if length page = LOG_PAGE
      then let p = fst (get_page (got + length ls) LOG_PAGE) in read_on fuel get_page got (ls @ p) p
      else Some ls)"

text \<open>Reading back from \<open>stop\<close> to \<open>low\<close>: the lines read, and whether a section starts in the
  last page.\<close>

function read_back :: "pager \<Rightarrow> nat \<Rightarrow> nat \<Rightarrow> string list \<Rightarrow> string list \<times> bool" where
  "read_back get_page low stop tail =
     (if stop \<le> low then (tail, False)
      else let first = max low (stop - LOG_PAGE); page = fst (get_page first (stop - first))
           in if list_ex starts_section page then (page @ tail, True) else read_back get_page low first (page @ tail))"
  by pat_completeness auto
termination
  by (relation "measure (\<lambda>(g, low, stop, tail). stop - low)") (auto simp: LOG_PAGE_def)

declare read_back.simps [simp del]

definition read_task_log :: "nat \<Rightarrow> pager \<Rightarrow> task_log \<Rightarrow> task_log option" where
  "read_task_log fuel get_page state0 =
     (let first = get_page (tl_read state0) LOG_PAGE;
          again = (case snd first of Some n \<Rightarrow> n < tl_read state0 | None \<Rightarrow> False);
          state = (if again then no_log else state0);
          answer = (if again then get_page 0 LOG_PAGE else first);
          ls = fst answer
      in case snd answer of
           None \<Rightarrow> map_option (\<lambda>ls'. with_lines state ls' (tl_read state + length ls')) (read_on fuel get_page (tl_read state) ls ls)
         | Some all_lines \<Rightarrow>
             if all_lines = 1 \<and> ls = [''no content''] then Some state
             else let low = tl_read state + length ls
                  in if all_lines \<le> low then Some (with_lines state ls low)
                     else case read_back get_page low all_lines [] of
                            (tail, found) \<Rightarrow> Some (with_lines state (if found then tail else ls @ tail) all_lines))"

section \<open>What is kept is the section of the running guest\<close>

lemma last_section_spec:
  "n \<le> length ls \<Longrightarrow> (last_section n ls = None \<longleftrightarrow> \<not> list_ex starts_section (take n ls))"
  by (induction n) (auto simp: take_Suc_conv_app_nth)

lemma last_section_append:
  "list_ex starts_section ys \<Longrightarrow> last_section (length (xs @ ys)) (xs @ ys) = last_section (length ys) ys"
proof -
  assume ex: "list_ex starts_section ys"
  have "list_ex starts_section (take n ys) \<Longrightarrow> n \<le> length ys \<Longrightarrow>
      last_section (length xs + n) (xs @ ys) = last_section n ys" for n
  proof (induction n)
    case (Suc n)
    then show ?case by (auto simp: take_Suc_conv_app_nth nth_append)
  qed simp
  from this [of "length ys"] ex show ?thesis by simp
qed

lemma last_section_prefix:
  "n \<le> length xs \<Longrightarrow> last_section n (xs @ ys) = map_option (\<lambda>s. s @ ys) (last_section n xs)"
  by (induction n) (auto simp: nth_append)

lemma current_vm_log_append:
  "current_vm_log (xs @ ys) = (if list_ex starts_section ys then current_vm_log ys else current_vm_log xs @ ys)"
proof (cases "list_ex starts_section ys")
  case True
  then have "last_section (length ys) ys \<noteq> None" using last_section_spec [of "length ys" ys] by simp
  then show ?thesis using last_section_append [OF True, of xs] True by (auto simp: current_vm_log_def)
next
  case False
  have "last_section (length xs + n) (xs @ ys) = last_section (length xs) (xs @ ys)" if "n \<le> length ys" for n
    using that False by (induction n) (auto simp: nth_append list_ex_iff)
  from this [of "length ys"] show ?thesis
    using False last_section_prefix [of "length xs" xs ys]
    by (cases "last_section (length xs) xs") (simp_all add: current_vm_log_def)
qed

text \<open>The state after the first \<open>n\<close> lines of a log.\<close>

definition read_state :: "string list \<Rightarrow> nat \<Rightarrow> task_log" where
  "read_state lg n = \<lparr>tl_read = n, tl_section = current_vm_log (take n lg)\<rparr>"

lemma with_lines_section:
  assumes "tl_section state = current_vm_log xs"
  shows "with_lines state ls n = \<lparr>tl_read = n, tl_section = current_vm_log (xs @ ls)\<rparr>"
proof (cases "last_section (length ls) ls")
  case None
  then show ?thesis
    using assms last_section_spec [of "length ls" ls] by (simp add: with_lines_def current_vm_log_append)
next
  case (Some y)
  then have "current_vm_log ls = y" by (simp add: current_vm_log_def)
  then show ?thesis using Some last_section_spec [of "length ls" ls] by (simp add: with_lines_def current_vm_log_append)
qed

text \<open>PVE's pages of a log, with the count of lines or without.\<close>

definition pages :: "string list \<Rightarrow> bool \<Rightarrow> pager" where
  "pages lg counted s n = (take n (drop s lg), if counted then Some (length lg) else None)"

lemma pages_simps [simp]:
  "fst (pages lg c s n) = take n (drop s lg)" "snd (pages lg c s n) = (if c then Some (length lg) else None)"
  by (simp_all add: pages_def)

lemma read_on_pages:
  assumes "got + length ls \<le> length lg" and "ls = take (length ls) (drop got lg)" and "length page \<le> LOG_PAGE"
    and "length page < LOG_PAGE \<Longrightarrow> got + length ls = length lg"
    and "0 < fuel" and "length page = LOG_PAGE \<Longrightarrow> length lg + LOG_PAGE < got + length ls + fuel * LOG_PAGE"
  shows "read_on fuel (pages lg c) got ls page = Some (drop got lg)"
  using assms
proof (induction fuel arbitrary: ls page)
  case 0
  then show ?case by simp
next
  case (Suc fuel)
  show ?case
  proof (cases "length page = LOG_PAGE")
    case False
    then have "got + length ls = length lg" using Suc.prems(3,4) by simp
    then have "ls = drop got lg" using Suc.prems(2) by simp
    then show ?thesis using False by simp
  next
    case True
    let ?p = "take LOG_PAGE (drop (got + length ls) lg)"
    have "ls @ ?p = take (length ls + LOG_PAGE) (drop got lg)"
      using Suc.prems(2) by (metis add.commute drop_drop take_add)
    then have "ls @ ?p = take (length (ls @ ?p)) (drop got lg)"
      by (metis length_take min_def take_all_iff nat_le_linear)
    then have "read_on fuel (pages lg c) got (ls @ ?p) ?p = Some (drop got lg)"
      by (rule Suc.IH [rotated]) (use Suc.prems True in \<open>auto simp: LOG_PAGE_def\<close>)
    then show ?thesis using True by (simp add: Let_def)
  qed
qed

lemma read_back_pages:
  assumes "low \<le> stop" and "stop \<le> length lg" and "tail = drop stop lg" and "\<not> list_ex starts_section tail"
  shows "\<exists>k. low \<le> k \<and> read_back (pages lg c) low stop tail = (drop k lg, list_ex starts_section (drop k lg))
    \<and> (\<not> list_ex starts_section (drop k lg) \<longrightarrow> k = low)"
  using assms
proof (induction "stop - low" arbitrary: stop tail rule: less_induct)
  case less
  show ?case
  proof (cases "stop \<le> low")
    case True
    then show ?thesis using less.prems by (intro exI [of _ low]) (simp add: read_back.simps)
  next
    case False
    let ?k = "max low (stop - LOG_PAGE)"
    let ?page = "take (stop - ?k) (drop ?k lg)"
    have k: "low \<le> ?k" "?k < stop" using False by (auto simp: LOG_PAGE_def)
    then have tail: "?page @ tail = drop ?k lg"
      unfolding less.prems(3) by (metis append_take_drop_id drop_drop le_add_diff_inverse2 less_imp_le)
    show ?thesis
    proof (cases "list_ex starts_section ?page")
      case True
      then have "list_ex starts_section (drop ?k lg)" using arg_cong [OF tail, of "list_ex starts_section"] by (metis list_ex_append)
      then show ?thesis
        using True False k(1) tail by (intro exI [of _ ?k]) (simp add: read_back.simps [of _ _ stop] Let_def)
    next
      case no: False
      have "\<exists>j. low \<le> j \<and> read_back (pages lg c) low ?k (drop ?k lg) = (drop j lg, list_ex starts_section (drop j lg))
          \<and> (\<not> list_ex starts_section (drop j lg) \<longrightarrow> j = low)"
      proof (rule less.hyps)
        show "?k - low < stop - low" by (rule diff_less_mono [OF k(2,1)])
        show "\<not> list_ex starts_section (drop ?k lg)"
          using arg_cong [OF tail, of "list_ex starts_section"] no less.prems(4) by (metis list_ex_append)
      qed (use k less.prems in simp_all)
      then show ?thesis
        using no False tail by (simp add: read_back.simps [of _ _ stop] Let_def)
    qed
  qed
qed

text \<open>A long backlog is read from its end back to the last section that starts in it.\<close>

lemma backlog_state:
  assumes low: "low \<le> length lg" "n \<le> low" and n: "n \<le> length lg"
  shows "\<exists>k. read_back (pages lg True) low (length lg) [] = (drop k lg, list_ex starts_section (drop k lg))
     \<and> with_lines (read_state lg n)
         (if list_ex starts_section (drop k lg) then drop k lg else take (low - n) (drop n lg) @ drop k lg) (length lg)
       = read_state lg (length lg)"
proof -
  have sec: "tl_section (read_state lg n) = current_vm_log (take n lg)" by (simp add: read_state_def)
  have all: "read_state lg (length lg) = \<lparr>tl_read = length lg, tl_section = current_vm_log lg\<rparr>" by (simp add: read_state_def)
  obtain k where k: "read_back (pages lg True) low (length lg) [] = (drop k lg, list_ex starts_section (drop k lg))"
    "\<not> list_ex starts_section (drop k lg) \<Longrightarrow> k = low"
    using read_back_pages [of low "length lg" lg "[]" True] low by auto
  have "with_lines (read_state lg n)
      (if list_ex starts_section (drop k lg) then drop k lg else take (low - n) (drop n lg) @ drop k lg) (length lg)
    = read_state lg (length lg)"
  proof (cases "list_ex starts_section (drop k lg)")
    case ex: True
    then have "current_vm_log (take n lg @ drop k lg) = current_vm_log (take k lg @ drop k lg)"
      unfolding current_vm_log_append by simp
    then show ?thesis using with_lines_section [OF sec, of "drop k lg" "length lg"] ex by (simp add: all)
  next
    case no: False
    then have "take (low - n) (drop n lg) @ drop k lg = drop n lg"
      using k(2) low by (metis append_take_drop_id drop_drop add.commute le_add_diff_inverse)
    then show ?thesis using with_lines_section [OF sec, of "drop n lg" "length lg"] no n by (simp add: all)
  qed
  with k(1) show ?thesis by blast
qed

text \<open>C29: reading a log further gives what reading it from the start would give: for the state
  after any of its first lines, the lines of the guest that is being backed up now and the
  count of all lines, whether PVE counts the lines or not, and although the reader skips the
  lines in the middle of a long log. Enough pages always suffice.\<close>

theorem read_task_log_correct:
  assumes "n \<le> length lg" and "lg \<noteq> [''no content'']" and "length lg + LOG_PAGE < n + fuel * LOG_PAGE"
  shows "read_task_log fuel (pages lg counted) (read_state lg n) = Some (read_state lg (length lg))"
proof -
  let ?ls = "take LOG_PAGE (drop n lg)"
  have sec: "tl_section (read_state lg n) = current_vm_log (take n lg)" by (simp add: read_state_def)
  have all: "read_state lg (length lg) = \<lparr>tl_read = length lg, tl_section = current_vm_log lg\<rparr>" by (simp add: read_state_def)
  show ?thesis
  proof (cases counted)
    case False
    have "read_on fuel (pages lg False) n ?ls ?ls = Some (drop n lg)"
      by (rule read_on_pages) (use assms(1,3) in \<open>auto simp: LOG_PAGE_def min_def\<close>)
    moreover have "with_lines (read_state lg n) (drop n lg) (n + length (drop n lg)) = read_state lg (length lg)"
      using with_lines_section [OF sec, of "drop n lg" "length lg"] assms(1) by (simp add: all)
    ultimately show ?thesis using False by (simp add: read_task_log_def Let_def read_state_def)
  next
    case True
    have content: "\<not> (length lg = 1 \<and> ?ls = [''no content''])"
    proof
      assume a: "length lg = 1 \<and> ?ls = [''no content'']"
      then obtain x where "lg = [x]" by (auto simp: length_Suc_conv)
      then show False using a assms(2) by (cases n) (auto simp: LOG_PAGE_def)
    qed
    show ?thesis
    proof (cases "length lg \<le> n + length ?ls")
      case short: True
      then have ls: "?ls = drop n lg" by (cases "length lg - n \<le> LOG_PAGE") (auto simp: min_def)
      have "with_lines (read_state lg n) ?ls (n + length ?ls) = read_state lg (length lg)"
        using with_lines_section [OF sec, of "drop n lg" "length lg"] assms(1) by (simp add: all ls)
      then show ?thesis
        using True short content assms(1) by (auto simp: read_task_log_def Let_def read_state_def)
    next
      case False
      define low where "low = n + length ?ls"
      have low: "low \<le> length lg" and ls: "?ls = take (low - n) (drop n lg)" and nlow: "n \<le> low"
        using False unfolding low_def by (auto simp: min_def)
      obtain k where "read_back (pages lg True) low (length lg) [] = (drop k lg, list_ex starts_section (drop k lg))"
        "with_lines (read_state lg n) (if list_ex starts_section (drop k lg) then drop k lg else ?ls @ drop k lg) (length lg)
         = read_state lg (length lg)"
        using backlog_state [OF low nlow assms(1), folded ls] by blast
      then show ?thesis
        using True False content assms(1)
        by (auto simp: read_task_log_def Let_def read_state_def low_def split: if_splits)
    qed
  qed
qed

lemma read_task_log_correct_witness:
  "read_task_log 2 (pages [''Starting Backup of VM 100 (qemu)'', ''5%''] True) (read_state [''Starting Backup of VM 100 (qemu)'', ''5%''] 1)
     = Some (read_state [''Starting Backup of VM 100 (qemu)'', ''5%''] (length [''Starting Backup of VM 100 (qemu)'', ''5%'']))"
  by (rule read_task_log_correct) (simp_all add: LOG_PAGE_def)

section \<open>The progress of the running guest\<close>

text \<open>\<open>re.findall\<close> of a pattern that never matches the empty text.\<close>

definition run_rest :: "rx \<Rightarrow> char option \<Rightarrow> string \<Rightarrow> rx_state option" where
  "run_rest r prev s = (case mt (Grp 0 r) (prev, s, []) of [] \<Rightarrow> None | st # _ \<Rightarrow> Some st)"

function findall_from :: "rx \<Rightarrow> char option \<Rightarrow> string \<Rightarrow> groups list" where
  "findall_from r prev [] = []"
| "findall_from r prev (c # s) = (case run_rest r prev (c # s) of
       None \<Rightarrow> findall_from r (Some c) s
     | Some (p, rest, g) \<Rightarrow> if length rest < length (c # s) then g # findall_from r p rest else findall_from r (Some c) s)"
  by pat_completeness auto
termination
  by (relation "measure (\<lambda>(r, p, s). length s)") auto

definition ELAPSED_RE :: rx where
  "ELAPSED_RE = seqs [Grp 1 digits, Star space, Grp 2 (one_of ''dhms'')]"

definition unit_seconds :: "string \<Rightarrow> int" where
  "unit_seconds u = (if u = ''d'' then 86400 else if u = ''h'' then 3600 else if u = ''m'' then 60 else 1)"

definition parse_elapsed_to_seconds :: "string option \<Rightarrow> int option" where
  "parse_elapsed_to_seconds value =
     (if \<not> truthy_str value then None
      else let secs = sum_list (map (\<lambda>m. group_int m 1 * unit_seconds (group_text m 2)) (findall_from ELAPSED_RE None (py_lower (opt_or value []))))
           in if secs = 0 then None else Some secs)"

definition lazy_plus :: "rx \<Rightarrow> rx" where "lazy_plus r = Seq r (LazyStar r)"

definition PROGRESS_RE :: rx where
  "PROGRESS_RE = seqs [Grp 1 digits, lit ''%'', plus space, lit ''('', Grp 2 (lazy_plus (none_of '')'')), plus space, lit_ci ''of'', plus space,
     Grp 3 (lazy_plus (none_of '')'')), lit '')'', plus space, lit_ci ''in'', plus space,
     Grp 4 (plus (Cls (\<lambda>c. is_digit c \<or> is_space c \<or> lower_char c \<in> set ''dhms''))), lit '','']"

definition DIRTY_RE :: rx where
  "DIRTY_RE = seqs [lit_ci ''using fast incremental mode '', LazyStar (none_of [CHR 0x0A]), lit '','', Star space,
     Grp 1 (seqs [number_rx, plus space, unit_rx]), plus space, lit_ci ''dirty'', plus space, lit_ci ''of'', plus space,
     Grp 2 (seqs [number_rx, plus space, unit_rx]), plus space, lit_ci ''total'']"

text \<open>The fields that are computed; the labels in the user's language and zone are left out.\<close>

record backup_progress =
  bp_started_at :: "int option"
  bp_delta_bytes :: "int option"
  bp_full_bytes :: "int option"
  bp_percent :: "int option"
  bp_written_bytes :: "int option"
  bp_target_bytes :: "int option"
  bp_eta :: "int option"

fun vm_started_at :: "(int \<Rightarrow> int) \<Rightarrow> string list \<Rightarrow> exn + int option" where
  "vm_started_at app_tz ls =
     (case List.find (\<lambda>l. rx_search PBS_ARCHIVE_RE l \<noteq> None) ls of
        Some l \<Rightarrow> rmap Some (fromisoformat (group_text (opt_or (rx_search PBS_ARCHIVE_RE l) []) 1))
      | None \<Rightarrow> (case List.find (\<lambda>l. rx_search STARTED_AT_RE l \<noteq> None) ls of
          Some l \<Rightarrow> rmap (\<lambda>t. Some (app_tz t)) (fromisoformat (group_text (opt_or (rx_search STARTED_AT_RE l) []) 1))
        | None \<Rightarrow> Inr None))"

text \<open>\<open>math.ceil(elapsed_seconds * 100 / percent)\<close>\<close>

definition projected_seconds :: "int \<Rightarrow> int \<Rightarrow> int" where
  "projected_seconds elapsed pct = \<lceil>fl64 (of_int (elapsed * 100) / of_int pct)\<rceil>"

definition dirty_of :: "string list \<Rightarrow> groups option" where
  "dirty_of ls = (case filter (\<lambda>l. rx_search DIRTY_RE l \<noteq> None) ls of [] \<Rightarrow> None | xs \<Rightarrow> rx_search DIRTY_RE (last xs))"

definition parse_progress_data :: "(int \<Rightarrow> int) \<Rightarrow> int option \<Rightarrow> string list \<Rightarrow> exn + backup_progress" where
  "parse_progress_data app_tz task_start ls =
     rmap (\<lambda>own. let started = (if own \<noteq> None then own else task_start); dirty = dirty_of ls in
         case List.find (\<lambda>l. rx_search PROGRESS_RE l \<noteq> None) (rev ls) of
           None \<Rightarrow> \<lparr>bp_started_at = started, bp_delta_bytes = Option.bind dirty (\<lambda>m. parse_size (group m 1)),
             bp_full_bytes = Option.bind dirty (\<lambda>m. parse_size (group m 2)), bp_percent = None, bp_written_bytes = None,
             bp_target_bytes = None, bp_eta = None\<rparr>
         | Some line \<Rightarrow>
             let m = opt_or (rx_search PROGRESS_RE line) []; pct = group_int m 1; elapsed = parse_elapsed_to_seconds (group m 4)
             in \<lparr>bp_started_at = started, bp_delta_bytes = Option.bind dirty (\<lambda>m. parse_size (group m 1)),
               bp_full_bytes = Option.bind dirty (\<lambda>m. parse_size (group m 2)), bp_percent = Some pct,
               bp_written_bytes = parse_size (group m 2), bp_target_bytes = parse_size (group m 3),
               bp_eta = (if 0 < pct then (case (elapsed, started) of
                   (Some el, Some st) \<Rightarrow> Some (st + projected_seconds el pct * 1000000)
                 | _ \<Rightarrow> None) else None)\<rparr>)
       (vm_started_at app_tz ls)"

text \<open>The end that is expected is never before the time that has passed: a percentage is at most 100.\<close>

lemma projected_not_past:
  assumes "0 < pct" and "pct \<le> 100" and "0 \<le> elapsed" and "elapsed < 2 ^ 53"
  shows "elapsed \<le> projected_seconds elapsed pct"
proof -
  have "(of_int (elapsed * pct) :: rat) \<le> of_int (elapsed * 100)"
    using assms by (intro of_int_le_iff [THEN iffD2] mult_left_mono)
  then have "of_int elapsed \<le> (of_int (elapsed * 100) / of_int pct :: rat)" using assms(1) by (simp add: field_simps)
  then have "of_int elapsed \<le> fl64 (of_int (elapsed * 100) / of_int pct)"
    using fl64_mono [of "of_int elapsed"] fl64_exact [of elapsed] assms(3,4) by fastforce
  then show ?thesis unfolding projected_seconds_def by linarith
qed

end
