(* ===== verification/PveJobs.thy ===== *)
theory PveJobs imports RestoreServer begin

text \<open>
  Which guests the backup jobs of a PVE cluster cover, how often and to which storages
  (\<open>app/services/proxmox.py\<close>, the classification part). A job is a JSON object as PVE answers
  it; the entries of the list that are no objects are skipped.
\<close>

type_synonym job = "(string \<times> json) list"

record pve_vm =
  pv_vmid :: int
  pv_node :: string
  pv_name :: string
  pv_type :: string
  pv_pool :: json
  pv_template :: bool
  pv_memory :: "int option"
  pv_disk :: "int option"

text \<open>The text of a value, or of nothing: \<open>str(job.get(k) or "")\<close>.\<close>

definition text_or_empty :: "(string \<times> json) list \<Rightarrow> string \<Rightarrow> string" where
  "text_or_empty kvs k = py_str (py_or (dict_get kvs k JNull) (JStr []))"

section \<open>VMID specifications\<close>

text \<open>\<open>item.split("-", 1)\<close> of an item with a minus.\<close>

definition vmid_range :: "string \<Rightarrow> int set" where
  "vmid_range item = (case py_partition (CHR ''-'') item of (a, _, b) \<Rightarrow>
     if all_digits a \<and> all_digits b then {int (nat_of_digits a) .. int (nat_of_digits b)} else {})"

definition vmid_item :: "string \<Rightarrow> int set" where
  "vmid_item part =
     (let item = py_strip part
      in if item = [] then {}
         else if py_in ''-'' item then vmid_range item
         else if all_digits item then {int (nat_of_digits item)} else {})"

definition parse_vmid_set :: "string \<Rightarrow> int set" where
  "parse_vmid_set spec = \<Union> (set (map vmid_item (split_on (CHR '','') (py_lower (py_strip spec)))))"

definition expand_job_vmids :: "string \<Rightarrow> int set \<Rightarrow> int set" where
  "expand_job_vmids spec all_vmids =
     (let cleaned = py_lower (py_strip spec)
      in if cleaned = [] \<or> cleaned = ''all'' then all_vmids
         else \<Union> (set (map vmid_item (split_on (CHR '','') cleaned))))"

section \<open>Schedules\<close>

definition WEEKDAYS :: "string list" where
  "WEEKDAYS = [''mon'', ''tue'', ''wed'', ''thu'', ''fri'', ''sat'', ''sun'']"

definition EVERY_DAY_RE :: rx where "EVERY_DAY_RE = lit ''*-*-*''"
definition YEAR_EVERY_DAY_RE :: rx where "YEAR_EVERY_DAY_RE = Seq (rep 4 digit) (lit ''-*-*'')"
definition CLOCK_RE :: rx where
  "CLOCK_RE = seqs [AtStart, digit, opt digit, lit '':'', digit, digit, opt (seqs [lit '':'', digit, digit]), AtEnd]"

definition classify_schedule :: "string \<Rightarrow> string" where
  "classify_schedule schedule =
     (let lowered = py_strip (py_lower schedule); has = (\<lambda>w. py_in w lowered);
          day_hits = length (filter has WEEKDAYS)
      in if lowered = [] then ''weekly''
         else if has ''daily'' then ''daily''
         else if has ''hourly'' \<or> has ''*/'' then ''daily''
         else if has ''weekly'' \<or> has ''monthly'' \<or> has ''yearly'' \<or> has ''annually'' then ''weekly''
         else if day_hits \<ge> 2 then ''daily''
         else if day_hits = 1 then ''weekly''
         else if rx_search EVERY_DAY_RE lowered \<noteq> None \<or> rx_search YEAR_EVERY_DAY_RE lowered \<noteq> None then ''daily''
         else if rx_match CLOCK_RE lowered \<noteq> None then ''daily''
         else ''weekly'')"

section \<open>How often a guest is backed up\<close>

definition job_enabled :: "job \<Rightarrow> bool" where
  "job_enabled j = (py_str (dict_get j ''enabled'' (JInt 1)) \<notin> {''0'', ''false'', ''False''})"

text \<open>A schedule that is no text has no \<open>lower\<close>.\<close>

definition job_kind :: "job \<Rightarrow> exn + string" where
  "job_kind j = rmap classify_schedule (jtext (dict_get j ''schedule'' (JStr [])))"

definition job_spec :: "job \<Rightarrow> string" where
  "job_spec j = py_lower (py_strip (text_or_empty j ''vmid''))"

definition job_specific :: "job \<Rightarrow> bool" where
  "job_specific j = (job_spec j \<noteq> [] \<and> job_spec j \<noteq> ''all'')"

definition job_covers :: "job \<Rightarrow> int set \<Rightarrow> int set" where
  "job_covers j all_vmids = expand_job_vmids (job_spec j) all_vmids
     - (let e = py_strip (text_or_empty j ''exclude'') in if e = [] then {} else parse_vmid_set e)"

text \<open>The dict of results and the set \<open>specific\<close>; the guests of a job do not affect each other.\<close>

definition apply_job :: "bool \<Rightarrow> string \<Rightarrow> int set \<Rightarrow> (int \<rightharpoonup> string) \<times> int set \<Rightarrow> (int \<rightharpoonup> string) \<times> int set" where
  "apply_job is_specific kind vmids rs = (case rs of (result, specific) \<Rightarrow>
     (\<lambda>v. if v \<notin> vmids then result v
          else if is_specific then
            (if v \<in> specific then (if kind = ''daily'' then Some ''daily'' else result v) else Some kind)
          else if v \<in> specific then result v
          else if kind = ''daily'' \<or> result v = None then Some kind else result v,
      if is_specific then specific \<union> vmids else specific))"

fun infer_jobs :: "int set \<Rightarrow> json list \<Rightarrow> (int \<rightharpoonup> string) \<times> int set \<Rightarrow> exn + (int \<rightharpoonup> string)" where
  "infer_jobs all_vmids [] rs = Inr (fst rs)"
| "infer_jobs all_vmids (j # js) rs = (case j of
     JObj kvs \<Rightarrow>
       if \<not> job_enabled kvs then infer_jobs all_vmids js rs
       else rbind (job_kind kvs) (\<lambda>kind. infer_jobs all_vmids js (apply_job (job_specific kvs) kind (job_covers kvs all_vmids) rs))
   | _ \<Rightarrow> infer_jobs all_vmids js rs)"

definition infer_backup_kind_by_vmid :: "pve_vm list \<Rightarrow> json list \<Rightarrow> exn + (int \<rightharpoonup> string)" where
  "infer_backup_kind_by_vmid guests jobs = infer_jobs (pv_vmid ` set guests) jobs (Map.empty, {})"

section \<open>Where a guest is backed up to\<close>

definition job_storage :: "job \<Rightarrow> pve_vm list \<Rightarrow> (int set \<times> string) list" where
  "job_storage j guests =
     (let all_vmids = pv_vmid ` set guests; pool = dict_get j ''pool'' JNull; nd = dict_get j ''node'' JNull;
          base = (if py_truth pool then pv_vmid ` set (filter (\<lambda>v. pv_pool v = pool) guests)
                  else expand_job_vmids (text_or_empty j ''vmid'') all_vmids);
          kept = base - (if py_truth (dict_get j ''exclude'' JNull) then parse_vmid_set (py_str (dict_get j ''exclude'' JNull)) else {});
          here = (if py_truth nd then kept \<inter> pv_vmid ` set (filter (\<lambda>v. JStr (pv_node v) = nd) guests) else kept)
      in if \<not> py_truth (dict_get j ''storage'' JNull) \<or> \<not> job_enabled j then []
         else [(here \<inter> all_vmids, py_str (dict_get j ''storage'' JNull))])"

definition job_storages_by_vmid :: "pve_vm list \<Rightarrow> json list \<Rightarrow> int \<Rightarrow> string list" where
  "job_storages_by_vmid guests jobs vid =
     sort (remdups (concat (map (\<lambda>j. case j of
       JObj kvs \<Rightarrow> concat (map (\<lambda>(covered, s). if vid \<in> covered then [s] else []) (job_storage kvs guests))
     | _ \<Rightarrow> []) jobs)))"

section \<open>The rule of the documentation\<close>

text \<open>A guest that a job names follows the jobs that name it, any other guest the jobs that cover
  everything; daily beats weekly.\<close>

abbreviation enabled_jobs :: "json list \<Rightarrow> job list" where
  "enabled_jobs jobs \<equiv> concat (map (\<lambda>j. case j of JObj kvs \<Rightarrow> if job_enabled kvs then [kvs] else [] | _ \<Rightarrow> []) jobs)"

definition kind_of_jobs :: "job list \<Rightarrow> string option" where
  "kind_of_jobs js = (if js = [] then None else if list_ex (\<lambda>j. job_kind j = Inr ''daily'') js then Some ''daily'' else Some ''weekly'')"

definition kind_rule :: "int set \<Rightarrow> job list \<Rightarrow> int \<Rightarrow> string option" where
  "kind_rule all_vmids js v =
     (let covering = filter (\<lambda>j. v \<in> job_covers j all_vmids) js; named = filter job_specific covering
      in kind_of_jobs (if named \<noteq> [] then named else covering))"

lemma schedule_words: "classify_schedule s = ''daily'' \<or> classify_schedule s = ''weekly''"
  by (simp add: classify_schedule_def Let_def)

lemma job_kinds: "job_kind j = Inr k \<Longrightarrow> k = ''daily'' \<or> k = ''weekly''"
  using schedule_words by (auto simp: job_kind_def rmap_Inr_iff)

lemma kind_of_jobs_snoc:
  "job_kind j = Inr k \<Longrightarrow> kind_of_jobs (js @ [j]) =
     (if js = [] then Some k else if k = ''daily'' then Some ''daily'' else kind_of_jobs js)"
  using job_kinds [of j k] by (auto simp: kind_of_jobs_def)

lemma infer_step:
  assumes "job_kind j = Inr k" and "result = kind_rule A js" and "specific = {v. list_ex (\<lambda>q. job_specific q \<and> v \<in> job_covers q A) js}"
  shows "fst (apply_job (job_specific j) k (job_covers j A) (result, specific)) = kind_rule A (js @ [j])"
    and "snd (apply_job (job_specific j) k (job_covers j A) (result, specific))
      = {v. list_ex (\<lambda>q. job_specific q \<and> v \<in> job_covers q A) (js @ [j])}"
proof -
  show "snd (apply_job (job_specific j) k (job_covers j A) (result, specific))
      = {v. list_ex (\<lambda>q. job_specific q \<and> v \<in> job_covers q A) (js @ [j])}"
    using assms(3) by (auto simp: apply_job_def)
  show "fst (apply_job (job_specific j) k (job_covers j A) (result, specific)) = kind_rule A (js @ [j])"
  proof
    fix v
    let ?cov = "filter (\<lambda>q. v \<in> job_covers q A) js"
    let ?named = "filter job_specific ?cov"
    have sp: "v \<in> specific \<longleftrightarrow> ?named \<noteq> []" using assms(3) by (auto simp: filter_empty_conv list_ex_iff)
    have kd: "k = ''daily'' \<or> k = ''weekly''" using job_kinds [OF assms(1)] .
    have none: "kind_of_jobs xs = None \<longleftrightarrow> xs = []" for xs by (simp add: kind_of_jobs_def)
    show "fst (apply_job (job_specific j) k (job_covers j A) (result, specific)) v = kind_rule A (js @ [j]) v"
    proof (cases "v \<in> job_covers j A")
      case False
      then show ?thesis using assms(2) by (simp add: apply_job_def kind_rule_def)
    next
      case True
      show ?thesis
      proof (cases "job_specific j")
        case spec: True
        then show ?thesis
          using True sp assms(2) kind_of_jobs_snoc [OF assms(1), of ?named]
          by (auto simp: apply_job_def kind_rule_def Let_def)
      next
        case False
        then show ?thesis
          using True sp assms(2) kind_of_jobs_snoc [OF assms(1), of ?cov] none [of ?cov]
          by (auto simp: apply_job_def kind_rule_def Let_def)
      qed
    qed
  qed
qed

lemma infer_jobs_rule:
  assumes "infer_jobs A jobs (kind_rule A js, {v. list_ex (\<lambda>q. job_specific q \<and> v \<in> job_covers q A) js}) = Inr result"
  shows "result = kind_rule A (js @ enabled_jobs jobs)"
  using assms
proof (induction jobs arbitrary: js)
  case (Cons j jobs)
  show ?case
  proof (cases j)
    case (JObj kvs)
    show ?thesis
    proof (cases "job_enabled kvs")
      case True
      then obtain k where k: "job_kind kvs = Inr k"
        and rest: "infer_jobs A jobs (apply_job (job_specific kvs) k (job_covers kvs A)
            (kind_rule A js, {v. list_ex (\<lambda>q. job_specific q \<and> v \<in> job_covers q A) js})) = Inr result"
        using Cons.prems JObj by (auto simp: rbind_Inr_iff)
      have "apply_job (job_specific kvs) k (job_covers kvs A) (kind_rule A js, {v. list_ex (\<lambda>q. job_specific q \<and> v \<in> job_covers q A) js})
          = (kind_rule A (js @ [kvs]), {v. list_ex (\<lambda>q. job_specific q \<and> v \<in> job_covers q A) (js @ [kvs])})"
        using infer_step [OF k refl refl, of A js] by (intro prod_eqI) (simp_all only: fst_conv snd_conv)
      then have "infer_jobs A jobs (kind_rule A (js @ [kvs]), {v. list_ex (\<lambda>q. job_specific q \<and> v \<in> job_covers q A) (js @ [kvs])}) = Inr result"
        using rest by (simp only:)
      from Cons.IH [OF this] show ?thesis using JObj True by simp
    next
      case False
      then show ?thesis using Cons.IH [of js] Cons.prems JObj by simp
    qed
  qed (use Cons in simp_all)
qed simp

text \<open>C22: how often a guest is backed up does not depend on the order of the jobs: the jobs that
  name it decide, if there are any, otherwise the jobs that cover everything, and among those
  daily beats weekly; a guest that no enabled job covers has no entry. A schedule that is no
  text is the only error.\<close>

theorem infer_backup_kind_rule:
  "case infer_backup_kind_by_vmid guests jobs of
     Inr result \<Rightarrow> result = kind_rule (pv_vmid ` set guests) (enabled_jobs jobs)
   | Inl e \<Rightarrow> e = attribute_error"
proof (cases "infer_backup_kind_by_vmid guests jobs")
  case (Inl e)
  have "e = attribute_error" if "infer_jobs A js rs = Inl e" for A js rs
    using that
  proof (induction A js rs rule: infer_jobs.induct)
    case (2 A j js rs)
    have "jtext x = Inl a \<Longrightarrow> a = attribute_error" for x a by (cases x) simp_all
    then show ?case
      using 2 by (auto simp: rbind_def rmap_def job_kind_def split: json.splits if_splits sum.splits)
  qed simp
  then show ?thesis using Inl by (simp add: infer_backup_kind_by_vmid_def)
next
  case (Inr result)
  have "kind_rule A [] = Map.empty" for A by (rule ext) (simp add: kind_rule_def kind_of_jobs_def)
  then have "infer_jobs (pv_vmid ` set guests) jobs (kind_rule (pv_vmid ` set guests) [], {v. list_ex (\<lambda>q. job_specific q \<and> v \<in> job_covers q (pv_vmid ` set guests)) []}) = Inr result"
    using Inr by (simp add: infer_backup_kind_by_vmid_def)
  from infer_jobs_rule [OF this] show ?thesis using Inr by simp
qed

section \<open>What the classification gets wrong\<close>

text \<open>A job on a pool covers every guest here, although it only writes the guests of the pool; and a
  schedule with two times of day is weekly.\<close>

definition demo_guest :: "int \<Rightarrow> string \<Rightarrow> pve_vm" where
  "demo_guest v pool = \<lparr>pv_vmid = v, pv_node = ''pve'', pv_name = ''g'', pv_type = ''qemu'', pv_pool = JStr pool,
     pv_template = False, pv_memory = None, pv_disk = None\<rparr>"

definition pool_job :: job where
  "pool_job = [(''pool'', JStr ''a''), (''schedule'', JStr ''daily''), (''storage'', JStr ''s'')]"

text \<open>a guest outside the pool of a daily pool job counts as backed up daily, although no job
  writes it anywhere.\<close>

theorem pool_job_counts_for_all:
  "(case infer_backup_kind_by_vmid [demo_guest 1 ''a'', demo_guest 2 ''b''] [JObj pool_job] of
      Inr result \<Rightarrow> result 2 = Some ''daily'' | Inl e \<Rightarrow> False)
   \<and> job_storages_by_vmid [demo_guest 1 ''a'', demo_guest 2 ''b''] [JObj pool_job] 2 = []"
proof -
  have d: "classify_schedule ''daily'' = ''daily''" by code_simp
  have e: "job_enabled pool_job" by code_simp
  have s: "job_spec pool_job = []" by code_simp
  have x: "text_or_empty pool_job ''exclude'' = []" by code_simp
  have k: "job_kind pool_job = Inr ''daily''" using d by (simp add: job_kind_def pool_job_def dict_get_def)
  have c: "job_covers pool_job A = A" for A
    by (simp add: job_covers_def s x expand_job_vmids_def py_lower_def py_strip_def py_lstrip_def py_rstrip_def)
  have "infer_backup_kind_by_vmid [demo_guest 1 ''a'', demo_guest 2 ''b''] [JObj pool_job]
      = Inr (fst (apply_job False ''daily'' {1, 2} (Map.empty, {})))"
    by (simp add: infer_backup_kind_by_vmid_def e k c job_specific_def s demo_guest_def)
  moreover have "job_storage pool_job [demo_guest 1 ''a'', demo_guest 2 ''b''] = [({1}, ''s'')]"
    using e [unfolded pool_job_def] by (simp add: job_storage_def Let_def pool_job_def dict_get_def demo_guest_def)
  ultimately show ?thesis by (simp add: apply_job_def job_storages_by_vmid_def)
qed

lemma two_times_a_day_are_weekly: "classify_schedule ''02:00,14:00'' = ''weekly''"
  by code_simp

end
