(* ===== verification/HumanFormat.thy ===== *)
theory HumanFormat imports PyTime Prelude begin

text \<open>
  Sizes, rates and counts for people (\<open>app/services/human_format.py\<close>). A float is the rational
  it stands for; \<open>None\<close> is a value that is no finite number. The language is an argument. The
  coarse sizes, which rest on the C library's \<open>log10\<close>, are not modelled.
\<close>

section \<open>The code\<close>

definition SIZE_UNITS :: "string list" where
  "SIZE_UNITS = [''B'', ''KiB'', ''MiB'', ''GiB'', ''TiB'', ''PiB'', ''EiB'']"

definition swap_separators :: "char \<Rightarrow> char" where
  "swap_separators c = (if c = CHR '','' then CHR ''.'' else if c = CHR ''.'' then CHR '','' else c)"

definition localized :: "string \<Rightarrow> string \<Rightarrow> string" where
  "localized lang s = (if py_lower lang = ''en'' then s else map swap_separators s)"

text \<open>\<open>f"{v:.1f}"\<close> and \<open>f"{n:,}"\<close>.\<close>

definition tenths :: "int \<Rightarrow> string" where
  "tenths m = string_of_int (m div 10) @ ''.'' @ string_of_int (m mod 10)"

definition fixed1 :: "rat \<Rightarrow> string" where
  "fixed1 v = (if v < 0 then ''-'' @ tenths (round_half_even (- v * 10)) else tenths (round_half_even (v * 10)))"

fun grouped_nat :: "nat \<Rightarrow> string" where
  "grouped_nat n = (if n < 1000 then string_of_nat n
     else grouped_nat (n div 1000) @ '','' @ (let r = string_of_nat (n mod 1000) in replicate (3 - length r) (CHR ''0'') @ r))"

declare grouped_nat.simps [simp del]

definition grouped :: "int \<Rightarrow> string" where
  "grouped n = (if n < 0 then ''-'' @ grouped_nat (nat (- n)) else grouped_nat (nat n))"

text \<open>\<open>text[:-2] if text.endswith(".0") else text\<close>\<close>

definition drop_zero :: "string \<Rightarrow> string" where
  "drop_zero s = (if ends_with ''.0'' s then take (length s - 2) s else s)"

definition short_number :: "rat \<Rightarrow> bool \<Rightarrow> string" where
  "short_number v grouping =
     (if v < fl64 (995 / 100) then drop_zero (fixed1 v)
      else let rounded = py_trunc (fl64 (v + 1 / 2))
           in if grouping then grouped rounded else string_of_int rounded)"

text \<open>The loop over the units; the first argument is how many units are left.\<close>

fun scale_size :: "nat \<Rightarrow> rat \<Rightarrow> nat \<Rightarrow> rat \<times> nat" where
  "scale_size 0 v unit = (v, unit)"
| "scale_size (Suc left) v unit = (if v \<ge> 1999 / 2 then scale_size left (v / 1024) (unit + 1) else (v, unit))"

definition format_size :: "rat option \<Rightarrow> string \<Rightarrow> string" where
  "format_size value lang = (case value of
     None \<Rightarrow> [CHR 0xE2, CHR 0x80, CHR 0x93]
   | Some x \<Rightarrow>
      (case scale_size (length SIZE_UNITS - 1) (if x < 0 then - x else x) 0 of (v, unit) \<Rightarrow>
        let number = (if unit = 0 then grouped (py_trunc (fl64 (v + 1 / 2))) else short_number v True)
        in (if x < 0 then ''-'' else []) @ localized lang number @ '' '' @ SIZE_UNITS ! unit))"

definition format_rate :: "rat option \<Rightarrow> string \<Rightarrow> string" where
  "format_rate bytes_per_second lang =
     (let s = format_size bytes_per_second lang in if s = [CHR 0xE2, CHR 0x80, CHR 0x93] then s else s @ ''/s'')"

definition format_bitrate :: "rat option \<Rightarrow> string \<Rightarrow> string" where
  "format_bitrate bytes_per_second lang = (case bytes_per_second of
     None \<Rightarrow> [CHR 0xE2, CHR 0x80, CHR 0x93]
   | Some x \<Rightarrow>
      let bits = fl64 (x * 8)
      in if bits < 0 then [CHR 0xE2, CHR 0x80, CHR 0x93]
         else if bits \<ge> 1000000000 then localized lang (drop_zero (fixed1 (fl64 (bits / 1000000000)))) @ '' Gb/s''
         else localized lang (string_of_int \<lfloor>bits / 1000000\<rfloor>) @ '' Mb/s'')"

definition format_count :: "int \<Rightarrow> string \<Rightarrow> string" where
  "format_count n lang = localized lang (grouped n)"

section \<open>What a size says\<close>

text \<open>How a number between 0 and 999 is written: a whole number, or tenths below ten without a
  superfluous zero.\<close>

definition whole_text :: "int \<Rightarrow> string" where "whole_text m = string_of_nat (nat m)"

definition tenth_text :: "int \<Rightarrow> string" where
  "tenth_text m = (if m mod 10 = 0 then whole_text (m div 10) else tenths m)"

lemma grouped_small: "0 \<le> m \<Longrightarrow> m < 1000 \<Longrightarrow> grouped m = whole_text m"
  by (simp add: grouped_def whole_text_def grouped_nat.simps nat_less_iff)

lemma digit_text: "0 \<le> r \<Longrightarrow> r < 10 \<Longrightarrow> string_of_int r = [digit_char (nat r)]"
  by (simp add: string_of_int_def nat_less_iff string_of_nat.simps)

lemma zero_digit_char: "digit_char 0 = CHR ''0''"
  by code_simp

lemma drop_zero_tenths: "0 \<le> m \<Longrightarrow> drop_zero (tenths m) = tenth_text m"
proof -
  assume m: "0 \<le> m"
  have d: "string_of_int (m mod 10) = [digit_char (nat (m mod 10))]" by (rule digit_text) simp_all
  have z: "digit_char (nat (m mod 10)) = CHR ''0'' \<longleftrightarrow> m mod 10 = 0"
  proof
    assume "digit_char (nat (m mod 10)) = CHR ''0''"
    then have "digit_val (digit_char (nat (m mod 10))) = digit_val (CHR ''0'')" by simp
    then show "m mod 10 = 0" using digit_char_inverse [of "nat (m mod 10)"] by (simp add: digit_val_def nat_less_iff)
  qed (simp add: zero_digit_char)
  have e: "ends_with ''.0'' (tenths m) \<longleftrightarrow> m mod 10 = 0"
    by (simp add: ends_with_def starts_with_def tenths_def d z)
  have w: "string_of_int (m div 10) = whole_text (m div 10)" using m by (simp add: string_of_int_def whole_text_def)
  have z0: "string_of_int 0 = ''0''" by code_simp
  show ?thesis unfolding drop_zero_def e tenth_text_def using w by (simp add: tenths_def z0)
qed

lemma scale_size_spec:
  "scale_size left v unit = (v', u) \<Longrightarrow> v = v' * 1024 ^ (u - unit) \<and> unit \<le> u \<and> u \<le> unit + left
    \<and> (u < unit + left \<longrightarrow> v' < 1999 / 2) \<and> (unit < u \<longrightarrow> v' * 1024 \<ge> 1999 / 2)"
proof (induction left v unit rule: scale_size.induct)
  case (2 left v unit)
  show ?case
  proof (cases "v \<ge> 1999 / 2")
    case True
    then have ih: "v / 1024 = v' * 1024 ^ (u - Suc unit)" "Suc unit \<le> u" "u \<le> Suc unit + left"
        "u < Suc unit + left \<longrightarrow> v' < 1999 / 2" "Suc unit < u \<longrightarrow> v' * 1024 \<ge> 1999 / 2"
      using 2 by simp_all
    have "u - unit = Suc (u - Suc unit)" using ih(2) by simp
    then have v: "v = v' * 1024 ^ (u - unit)" using ih(1) by simp
    have "v' * 1024 \<ge> 1999 / 2" if "Suc unit = u" using that ih(1) True by simp
    then have "unit < u \<longrightarrow> v' * 1024 \<ge> 1999 / 2" using ih(2,5) by (cases "Suc unit = u") simp_all
    then show ?thesis using ih(2-4) v by simp
  next
    case False
    then show ?thesis using 2 by auto
  qed
qed auto

text \<open>A dyadic number is rounded half up.\<close>

lemma half_up:
  assumes "v = of_int n / 1024 ^ k" and "0 \<le> n" and "k \<le> 4" and "v < 1999 / 2"
  shows "py_trunc (fl64 (v + 1 / 2)) = \<lfloor>v + 1 / 2\<rfloor>"
proof -
  let ?f = "\<lfloor>v + 1 / 2\<rfloor>"
  have v: "0 \<le> v" unfolding assms(1) using assms(2) by simp
  then have f: "0 \<le> ?f" "?f < 1000" using assms(4) by (simp_all add: floor_less_iff)
  have lo: "of_int ?f \<le> fl64 (v + 1 / 2)"
    using fl64_mono [of "of_int ?f" "v + 1 / 2"] fl64_exact [of ?f] f by simp
  have den: "(1024 :: rat) ^ k * 2 = 2 ^ (10 * k + 1)" by (simp add: power_mult)
  have num: "v + 1 / 2 = of_int (2 * n + 1024 ^ k) / 2 ^ (10 * k + 1)"
    unfolding assms(1) den [symmetric] by (simp add: field_simps)
  have "of_int (2 * n + 1024 ^ k) < (of_int ((?f + 1) * 2 ^ (10 * k + 1)) :: rat)"
    using floor_correct [of "v + 1 / 2"] unfolding num by (simp add: field_simps)
  then have "2 * n + 1024 ^ k \<le> (?f + 1) * 2 ^ (10 * k + 1) - 1" unfolding of_int_less_iff by linarith
  then have "(of_int (2 * n + 1024 ^ k) :: rat) \<le> of_int ((?f + 1) * 2 ^ (10 * k + 1) - 1)" unfolding of_int_le_iff .
  moreover have "a / D \<le> c - 1 / D" if "a \<le> c * D - 1" "0 < D" for a c D :: rat
    using that by (simp add: field_simps)
  ultimately have "v + 1 / 2 \<le> of_int (?f + 1) - 1 / 2 ^ (10 * k + 1)"
    by (simp only: num of_int_diff of_int_mult of_int_power of_int_1 of_int_numeral) simp
  moreover have "(?f + 1) * 2 ^ (10 * k + 1) \<le> 2 ^ 53"
  proof -
    have "(2 :: int) ^ (10 * k + 1) \<le> 2 ^ 41" using assms(3) by (intro power_increasing) simp_all
    then have "(?f + 1) * 2 ^ (10 * k + 1) \<le> 1000 * 2 ^ 41" using f by (intro mult_mono) simp_all
    then show ?thesis by simp
  qed
  ultimately have "fl64 (v + 1 / 2) \<le> of_int (?f + 1) - 1 / 2 ^ (10 * k + 1)" using f by (intro fl64_below) simp_all
  moreover have "(0 :: rat) < 1 / 2 ^ (10 * k + 1)" by simp
  ultimately have "fl64 (v + 1 / 2) < of_int (?f + 1)" by linarith
  moreover have "0 \<le> fl64 (v + 1 / 2)" using v by (simp add: fl64_nonneg)
  ultimately show ?thesis using lo by (simp add: py_trunc_def floor_unique)
qed

lemma round_half_even_close: "\<bar>of_int (round_half_even q) - q\<bar> \<le> 1 / 2"
proof -
  have "of_int \<lfloor>q\<rfloor> \<le> q" "q < of_int \<lfloor>q\<rfloor> + 1" using floor_correct [of q] by simp_all
  then show ?thesis by (auto simp: round_half_even_def Let_def)
qed

lemma floor_half_close: "\<bar>of_int \<lfloor>v + 1 / 2\<rfloor> - v\<bar> \<le> (1 / 2 :: rat)"
  using floor_correct [of "v + 1 / 2"] by linarith

lemma below_ten: "fl64 (995 / 100) < 995 / 100" and above_nine: "9 \<le> fl64 (995 / 100)"
  by code_simp+

lemma short_number_reads:
  assumes "v = of_int n / 1024 ^ k" and "0 \<le> n" and "k \<le> 4 \<or> v < 9" and "v < 1999 / 2"
  shows "\<exists>m. (short_number v True = whole_text m \<and> 0 \<le> m \<and> m < 1000 \<and> \<bar>of_int m - v\<bar> \<le> 1 / 2)
    \<or> (short_number v True = tenth_text m \<and> 0 \<le> m \<and> m < 100 \<and> \<bar>of_int m / 10 - v\<bar> \<le> 1 / 20)"
proof (cases "v < fl64 (995 / 100)")
  case True
  let ?m = "round_half_even (v * 10)"
  have v: "0 \<le> v" unfolding assms(1) using assms(2) by simp
  have "v * 10 \<le> 99 + 1 / 2" using True below_ten by linarith
  moreover have m0: "0 \<le> ?m" using round_half_even_ge [of 0 "v * 10"] v by simp
  moreover have c: "\<bar>of_int ?m - v * 10\<bar> \<le> 1 / 2" by (rule round_half_even_close)
  moreover have "v * 10 < 99 + 1 / 2" using True below_ten by linarith
  ultimately have "(of_int ?m :: rat) < of_int 100" by linarith
  then have "?m < 100" unfolding of_int_less_iff .
  moreover have "short_number v True = tenth_text ?m"
    using True v m0 by (simp add: short_number_def fixed1_def drop_zero_tenths)
  moreover have "\<bar>of_int ?m / 10 - v\<bar> \<le> 1 / 20" using c by linarith
  ultimately show ?thesis using m0 by blast
next
  case False
  let ?m = "\<lfloor>v + 1 / 2\<rfloor>"
  have v: "0 \<le> v" unfolding assms(1) using assms(2) by simp
  then have m: "0 \<le> ?m" "?m < 1000" using assms(4) by (simp_all add: floor_less_iff)
  have "k \<le> 4" using False above_nine assms(3) by linarith
  then have "short_number v True = grouped ?m" using False by (simp add: short_number_def half_up [OF assms(1,2) _ assms(4)])
  then have "short_number v True = whole_text ?m" using grouped_small [OF m] by simp
  then show ?thesis using m floor_half_close [of v] by blast
qed

text \<open>C23: a size below 8 PiB is written with a number below 1000, in the smallest unit that allows
  it, as a whole number that is off by at most a half, or in tenths below ten that are off by at
  most a twentieth; German only swaps the separators.\<close>

theorem format_size_reads:
  assumes "0 \<le> n" and "n < 2 ^ 53"
  shows "\<exists>k number m. k \<le> 5 \<and> format_size (Some (of_int n)) lang = localized lang number @ '' '' @ SIZE_UNITS ! k
     \<and> (k = 0 \<or> of_int n / 1024 ^ (k - 1) \<ge> (1999 / 2 :: rat))
     \<and> (number = whole_text m \<and> 0 \<le> m \<and> m < 1000 \<and> \<bar>of_int m - of_int n / 1024 ^ k\<bar> \<le> (1 / 2 :: rat)
        \<or> number = tenth_text m \<and> 0 \<le> m \<and> m < 100 \<and> \<bar>of_int m / 10 - of_int n / 1024 ^ k\<bar> \<le> (1 / 20 :: rat))"
proof -
  obtain v k where s: "scale_size 6 (of_int n) 0 = (v, k)" by fastforce
  have sp: "of_int n = v * 1024 ^ k" "k \<le> 6" "k < 6 \<longrightarrow> v < 1999 / 2" "0 < k \<longrightarrow> v * 1024 \<ge> 1999 / 2"
    using scale_size_spec [OF s] by simp_all
  have v: "v = of_int n / 1024 ^ k" using sp(1) by simp
  have n: "(of_int n :: rat) < 2 ^ 53" using assms(2) of_int_less_iff [of n "2 ^ 53", where ?'a = rat] by simp
  have k: "k \<le> 5"
  proof (rule ccontr)
    assume "\<not> k \<le> 5"
    then have "k = 6" using sp(2) by simp
    then show False using sp(1,4) n by simp
  qed
  then have lt: "v < 1999 / 2" using sp(3) by simp
  have small: "k \<le> 4 \<or> v < 9" using k sp(1) n by (cases "k = 5") simp_all
  have unit: "k = 0 \<or> of_int n / 1024 ^ (k - 1) \<ge> (1999 / 2 :: rat)"
    using sp(1,4) by (cases k) simp_all
  have len: "length SIZE_UNITS - Suc 0 = 6" by (simp add: SIZE_UNITS_def)
  let ?number = "if k = 0 then grouped (py_trunc (fl64 (v + 1 / 2))) else short_number v True"
  have eq: "format_size (Some (of_int n)) lang = localized lang ?number @ '' '' @ SIZE_UNITS ! k"
    using assms(1) s by (simp add: format_size_def len del: fl64_zero)
  have "\<exists>m. (?number = whole_text m \<and> 0 \<le> m \<and> m < 1000 \<and> \<bar>of_int m - v\<bar> \<le> 1 / 2)
    \<or> (?number = tenth_text m \<and> 0 \<le> m \<and> m < 100 \<and> \<bar>of_int m / 10 - v\<bar> \<le> 1 / 20)"
  proof (cases "k = 0")
    case True
    have "0 \<le> n" "n < 1000" using lt v True assms(1) by simp_all
    moreover have "v = of_int n" using v True by simp
    moreover have "py_trunc (fl64 (v + 1 / 2)) = \<lfloor>v + 1 / 2\<rfloor>" using half_up [OF v assms(1) _ lt] True by simp
    moreover have "\<lfloor>of_int n + 1 / 2 :: rat\<rfloor> = n" by (rule floor_unique) simp_all
    ultimately have "?number = whole_text n" using True grouped_small [of n] by (simp only: if_True simp_thms)
    then show ?thesis using \<open>0 \<le> n\<close> \<open>n < 1000\<close> \<open>v = of_int n\<close> by (intro exI [of _ n] disjI1) simp
  next
    case False
    then show ?thesis using short_number_reads [OF v assms(1) small lt] by simp
  qed
  then show ?thesis using eq k unit unfolding v by blast
qed

theorem format_size_reads_witness:
  "\<exists>k number m. k \<le> 5 \<and> format_size (Some (of_int 5832000000)) ''de'' = localized ''de'' number @ '' '' @ SIZE_UNITS ! k
     \<and> (k = 0 \<or> of_int 5832000000 / 1024 ^ (k - 1) \<ge> (1999 / 2 :: rat))
     \<and> (number = whole_text m \<and> 0 \<le> m \<and> m < 1000 \<and> \<bar>of_int m - of_int 5832000000 / 1024 ^ k\<bar> \<le> (1 / 2 :: rat)
        \<or> number = tenth_text m \<and> 0 \<le> m \<and> m < 100 \<and> \<bar>of_int m / 10 - of_int 5832000000 / 1024 ^ k\<bar> \<le> (1 / 20 :: rat))"
  by (rule format_size_reads) simp_all

lemma format_size_example: "format_size (Some 5832000000) ''de'' = ''5,4 GiB''" "format_size (Some 1073000000000) ''en'' = ''999 GiB''"
  by code_simp+

end
