(* ===== verification/PyText.thy ===== *)
theory PyText imports PyDate PyRegex begin

text \<open>
  The texts of the standard library and of \<open>app/i18n\<close> that notifications and reports use:
  \<open>str.replace\<close>, slices that count characters, \<open>strftime\<close> and \<open>strptime\<close> of the formats in use,
  translations with placeholders. A string holds the UTF-8 bytes of its text.
\<close>

section \<open>Strings\<close>

text \<open>\<open>s.replace(old, new)\<close> of a non-empty text.\<close>

function py_replace :: "string \<Rightarrow> string \<Rightarrow> string \<Rightarrow> string" where
  "py_replace old new [] = []"
| "py_replace old new (c # cs) =
     (if old \<noteq> [] \<and> starts_with old (c # cs) then new @ py_replace old new (drop (length old) (c # cs))
      else c # py_replace old new cs)"
  by pat_completeness auto
termination
  by (relation "measure (\<lambda>(_, _, s). length s)") (auto simp: starts_with_iff)

text \<open>\<open>s[:n]\<close>: a character is a byte that is no continuation byte, and those that follow it.\<close>

fun py_first :: "nat \<Rightarrow> string \<Rightarrow> string" where
  "py_first n [] = []"
| "py_first n (c # cs) =
     (if 0x80 \<le> (of_char c :: nat) \<and> (of_char c :: nat) < 0xC0 then c # py_first n cs
      else case n of 0 \<Rightarrow> [] | Suc m \<Rightarrow> c # py_first m cs)"

text \<open>\<open>str(n)\<close> padded with zeros to a width.\<close>

definition zero_pad :: "nat \<Rightarrow> int \<Rightarrow> string" where
  "zero_pad width n = (let s = string_of_int n in replicate (width - length s) (CHR ''0'') @ s)"

section \<open>Dates\<close>

text \<open>\<open>date.fromordinal\<close>, as the library computes it.\<close>

definition fromordinal :: "int \<Rightarrow> int \<times> int \<times> int" where
  "fromordinal ord =
     (let n = ord - 1; n400 = n div 146097; n = n mod 146097; n100 = n div 36524; n = n mod 36524;
          n4 = n div 1461; n = n mod 1461; n1 = n div 365; n = n mod 365;
          y = n400 * 400 + 1 + n100 * 100 + n4 * 4 + n1
      in if n1 = 4 \<or> n100 = 4 then (y - 1, 12, 31)
         else let m = (n + 50) div 32; m = (if days_before_month y m > n then m - 1 else m)
              in (y, m, n - days_before_month y m + 1))"

text \<open>Year, month, day, hour and minute of a wall clock.\<close>

definition day_us :: int where "day_us = 86400 * 1000000"
definition date_at :: "int \<Rightarrow> int \<times> int \<times> int" where "date_at us = fromordinal (us div day_us + 719163)"
definition hour_at :: "int \<Rightarrow> int" where "hour_at us = us mod day_us div (3600 * 1000000)"
definition minute_at :: "int \<Rightarrow> int" where "minute_at us = us mod day_us div (60 * 1000000) mod 60"

definition directive :: "char \<Rightarrow> int \<Rightarrow> string" where
  "directive c us = (case date_at us of (y, m, d) \<Rightarrow>
     if c = CHR ''Y'' then zero_pad 4 y else if c = CHR ''m'' then zero_pad 2 m else if c = CHR ''d'' then zero_pad 2 d
     else if c = CHR ''H'' then zero_pad 2 (hour_at us) else zero_pad 2 (minute_at us))"

text \<open>\<open>strftime\<close> with the directives \<open>Y m d H M\<close>.\<close>

fun strftime :: "string \<Rightarrow> int \<Rightarrow> string" where
  "strftime [] us = []"
| "strftime [c] us = [c]"
| "strftime (c # d # cs) us = (if c = CHR ''%'' then directive d us @ strftime cs us else c # strftime (d # cs) us)"

text \<open>\<open>datetime.strptime(s, "%H:%M").time()\<close> in microseconds after midnight.\<close>

definition HOUR_MINUTE_RE :: rx where
  "HOUR_MINUTE_RE = seqs [Grp 1 (alts [Seq (lit ''2'') (one_of ''0123''), Seq (one_of ''01'') digit, digit]), lit '':'',
     Grp 2 (alts [Seq (one_of ''012345'') digit, digit])]"

definition strptime_hm :: "string \<Rightarrow> int option" where
  "strptime_hm s = (case rx_match (Grp 0 HOUR_MINUTE_RE) s of
     None \<Rightarrow> None
   | Some g \<Rightarrow> if group_text g 0 \<noteq> s then None
               else Some ((int (nat_of_digits (group_text g 1)) * 60 + int (nat_of_digits (group_text g 2))) * 60 * 1000000))"

section \<open>Translations\<close>

text \<open>\<open>tl(lang, key, **kwargs)\<close> of \<open>app/i18n/__init__.py\<close>; \<open>strings\<close> are the loaded language files.\<close>

type_synonym lang_files = "string \<Rightarrow> string \<Rightarrow> string option"

definition tl_text :: "lang_files \<Rightarrow> string \<Rightarrow> string \<Rightarrow> (string \<times> string) list \<Rightarrow> string" where
  "tl_text strings lang key kwargs =
     foldl (\<lambda>t kv. py_replace (''{'' @ fst kv @ ''}'') (snd kv) t)
       (case strings lang key of Some t \<Rightarrow> t
        | None \<Rightarrow> if lang \<noteq> ''en'' then opt_or (strings ''en'' key) key else key)
       kwargs"

lemma strptime_examples:
  "strptime_hm ''22:00'' = Some (22 * 3600 * 1000000)" "strptime_hm ''7:5'' = Some (425 * 60 * 1000000)"
  "strptime_hm ''24:00'' = None" "strptime_hm ''7:00x'' = None"
  by code_simp+

lemma strftime_examples:
  "strftime ''%Y-%m-%d %H:%M'' 0 = ''1970-01-01 00:00''" "strftime ''%d.%m.%Y'' (day_us * 20513) = ''01.03.2026''"
  by code_simp+

end
