(* ===== verification/Notifications.thy ===== *)
theory Notifications imports PyText HumanFormat BackupStatus PyEffects begin

text \<open>
  Push notifications (\<open>app/services/notifications.py\<close>, \<open>app/db_notifications.py\<close>): the tables
  \<open>notification_dedup\<close> and \<open>notification_log\<close>, the queue of messages with its timers, quiet
  hours, and the alerts with their keys. The queue is emptied by a timer thread that takes the
  messages under the lock and sends them after releasing it; a step relation has the
  interleavings of the threads. Sending over HTTP is an answer of the environment.
\<close>

section \<open>State\<close>

record push =
  note_title :: string
  note_body :: string
  note_priority :: int
  note_type :: string
  note_cluster :: "string option"

record log_row =
  lg_type :: string
  lg_title :: string
  lg_message :: string
  lg_cluster :: "string option"
  lg_channel :: string
  lg_created :: int

text \<open>\<open>q_current\<close> is \<open>_gotify_timer\<close>; \<open>q_timers\<close> are the timer threads that still wait, with the time at
  which each wakes up; \<open>q_sending\<close> are the messages that flushes have taken and not yet sent.\<close>

record notifier =
  q_settings :: "(string \<times> string) list"
  q_dedup :: "(string \<times> int) list"
  q_log :: "log_row list"
  q_queue :: "push list"
  q_current :: "nat option"
  q_timers :: "(nat \<times> int) list"
  q_next_timer :: nat
  q_sending :: "push list list"
  q_clock :: int

record note_env =
  report_language :: string
  language_files :: lang_files
  wall_clock :: "int \<Rightarrow> int"

definition seconds :: "int \<Rightarrow> int" where "seconds n = n * 1000000"

section \<open>The tables\<close>

definition try_claim_dedup :: "string \<Rightarrow> int \<Rightarrow> notifier \<Rightarrow> bool \<times> notifier" where
  "try_claim_dedup key ttl s =
     (let now = q_clock s;
          claimed = (case map_of (q_dedup s) key of None \<Rightarrow> True | Some sent_at \<Rightarrow> sent_at < now - seconds ttl)
      in if claimed
         then (True, s\<lparr>q_dedup := filter (\<lambda>r. \<not> snd r < now - seconds (ttl * 7)) (dict_set key now (q_dedup s))\<rparr>)
         else (False, s))"

definition insert_notification_log :: "string \<Rightarrow> string \<Rightarrow> string \<Rightarrow> string \<Rightarrow> string option \<Rightarrow> notifier \<Rightarrow> notifier" where
  "insert_notification_log notification_type title message channel cluster s =
     s\<lparr>q_log := filter (\<lambda>r. \<not> lg_created r < q_clock s - seconds (90 * 86400))
        (q_log s @ [\<lparr>lg_type = notification_type, lg_title = title, lg_message = message, lg_cluster = cluster,
                     lg_channel = channel, lg_created = q_clock s\<rparr>])\<rparr>"

definition log_matches :: "int \<Rightarrow> int \<Rightarrow> string option \<Rightarrow> string option \<Rightarrow> string option \<Rightarrow> log_row \<Rightarrow> bool" where
  "log_matches now days ty cluster channel r =
     (lg_created r \<ge> now - seconds (days * 86400) \<and> (truthy_str ty \<longrightarrow> Some (lg_type r) = ty)
      \<and> (truthy_str cluster \<longrightarrow> lg_cluster r = cluster) \<and> (truthy_str channel \<longrightarrow> Some (lg_channel r) = channel))"

definition list_notification_logs ::
    "int \<Rightarrow> nat \<Rightarrow> nat \<Rightarrow> string option \<Rightarrow> string option \<Rightarrow> string option \<Rightarrow> notifier \<Rightarrow> log_row list \<times> nat" where
  "list_notification_logs days limit offset ty cluster channel s =
     (let rows = filter (log_matches (q_clock s) days ty cluster channel) (q_log s)
      in (take limit (drop offset (sorted_desc lg_created rows)), length rows))"

definition list_notification_logs_for_period :: "int \<Rightarrow> int \<Rightarrow> notifier \<Rightarrow> log_row list" where
  "list_notification_logs_for_period period_start period_end s =
     sorted_desc lg_created (filter (\<lambda>r. lg_created r \<ge> period_start \<and> lg_created r < period_end) (q_log s))"

section \<open>Settings and quiet hours\<close>

definition DEDUP_SECONDS :: int where "DEDUP_SECONDS = 86400"

definition should_send :: "string \<Rightarrow> notifier \<Rightarrow> bool \<times> notifier" where
  "should_send key = try_claim_dedup key DEDUP_SECONDS"

definition setting :: "string \<Rightarrow> string \<Rightarrow> notifier \<Rightarrow> string" where
  "setting key dflt s = opt_or (map_of (q_settings s) key) dflt"

definition switched_on :: "string \<Rightarrow> bool" where
  "switched_on v = (py_lower v \<in> {''1'', ''true'', ''on'', ''yes''})"

definition is_enabled :: "string \<Rightarrow> notifier \<Rightarrow> bool" where
  "is_enabled channel s = switched_on (setting (''notify_'' @ channel @ ''_enabled'') ''false'' s)"

definition quiet_hours :: "notifier \<Rightarrow> string \<times> string" where
  "quiet_hours s = (setting ''notify_quiet_start'' [] s, setting ''notify_quiet_end'' [] s)"

definition in_quiet_hours :: "note_env \<Rightarrow> notifier \<Rightarrow> bool" where
  "in_quiet_hours env s =
     (if \<not> switched_on (setting ''notify_quiet_enabled'' ''false'' s) then False
      else case quiet_hours s of (start_s, end_s) \<Rightarrow>
        if start_s = [] \<or> end_s = [] then False
        else (case (strptime_hm start_s, strptime_hm end_s) of
            (Some from_t, Some to_t) \<Rightarrow>
              (let now = wall_clock env (q_clock s) mod day_us
               in if from_t \<le> to_t then from_t \<le> now \<and> now \<le> to_t else now \<ge> from_t \<or> now \<le> to_t)
          | _ \<Rightarrow> False))"

definition restore_alerts_enabled :: "notifier \<Rightarrow> bool" where
  "restore_alerts_enabled s = switched_on (setting ''notify_restore_overdue'' ''false'' s)"

section \<open>The queue\<close>

definition BATCH_COOLDOWN :: int where "BATCH_COOLDOWN = 300"

text \<open>\<open>timer.cancel()\<close> stops a thread that still waits; one that is due has left its wait.\<close>

definition cancel_timer :: "nat option \<Rightarrow> notifier \<Rightarrow> notifier" where
  "cancel_timer t s = s\<lparr>q_timers := filter (\<lambda>p. Some (fst p) \<noteq> t \<or> snd p \<le> q_clock s) (q_timers s)\<rparr>"

definition start_timer :: "int \<Rightarrow> notifier \<Rightarrow> notifier" where
  "start_timer secs s =
     s\<lparr>q_current := Some (q_next_timer s), q_timers := q_timers s @ [(q_next_timer s, q_clock s + seconds secs)],
       q_next_timer := q_next_timer s + 1\<rparr>"

definition schedule_gotify_flush :: "notifier \<Rightarrow> notifier" where
  "schedule_gotify_flush s = start_timer BATCH_COOLDOWN (cancel_timer (q_current s) s)"

definition send_gotify :: "push \<Rightarrow> notifier \<Rightarrow> bool \<times> notifier" where
  "send_gotify n s =
     (if \<not> is_enabled ''gotify'' s then (False, s)
      else (True, schedule_gotify_flush (s\<lparr>q_queue := q_queue s @ [n]\<rparr>)))"

text \<open>\<open>_flush_gotify_queue\<close>: the part under the lock, run by the timer thread \<open>i\<close> \<dots>\<close>

definition flush_take :: "note_env \<Rightarrow> nat \<Rightarrow> notifier \<Rightarrow> notifier" where
  "flush_take env i s0 =
     (let s = s0\<lparr>q_timers := filter (\<lambda>p. fst p \<noteq> i) (q_timers s0), q_current := None\<rparr>
      in if q_queue s = [] then s
         else if in_quiet_hours env s then start_timer 600 s
         else s\<lparr>q_queue := [], q_sending := q_sending s @ [q_queue s]\<rparr>)"

text \<open>\<dots> and the one request that it builds, with what is logged once it was accepted.\<close>

definition batch_request :: "note_env \<Rightarrow> push list \<Rightarrow> string \<times> string \<times> int" where
  "batch_request env msgs = (case msgs of
     [m] \<Rightarrow> (note_title m, note_body m, note_priority m)
   | _ \<Rightarrow> (tl_text (language_files env) (report_language env) ''notify.batch_title'' [(''count'', string_of_int (int (length msgs)))],
           py_join (nl @ nl) (map (\<lambda>m. [CHR 0xE2, CHR 0x94, CHR 0x80, CHR 0xE2, CHR 0x94, CHR 0x80] @ '' '' @ note_title m @ '' ''
             @ [CHR 0xE2, CHR 0x94, CHR 0x80, CHR 0xE2, CHR 0x94, CHR 0x80] @ nl @ note_body m) msgs),
           Max (set (map note_priority msgs))))"

definition log_sent :: "push list \<Rightarrow> notifier \<Rightarrow> notifier" where
  "log_sent msgs s = foldl (\<lambda>t m. if note_type m = [] then t
     else insert_notification_log (note_type m) (note_title m) (note_body m) ''gotify'' (note_cluster m) t) s msgs"

text \<open>\<open>_send_gotify_raw\<close>: without an address or token nothing is sent. \<open>decrypt\<close> and the answer of
  the server are arguments.\<close>

definition gotify_url :: "(string \<Rightarrow> string) \<Rightarrow> notifier \<Rightarrow> string option" where
  "gotify_url decrypt s =
     (let url = rev (dropWhile (\<lambda>c. c = CHR ''/'') (rev (setting ''gotify_url'' [] s))); token = decrypt (setting ''gotify_token'' [] s)
      in if url = [] \<or> token = [] then None else Some (url @ ''/message?token='' @ token))"

definition send_gotify_raw :: "(string \<Rightarrow> string) \<Rightarrow> (string \<Rightarrow> string \<times> string \<times> int \<Rightarrow> bool) \<Rightarrow> string \<times> string \<times> int \<Rightarrow> notifier \<Rightarrow> bool" where
  "send_gotify_raw decrypt post req s = (case gotify_url decrypt s of None \<Rightarrow> False | Some url \<Rightarrow> post url req)"

definition flush_send :: "note_env \<Rightarrow> (string \<Rightarrow> string) \<Rightarrow> (string \<Rightarrow> string \<times> string \<times> int \<Rightarrow> bool) \<Rightarrow> push list \<Rightarrow> notifier \<Rightarrow> bool \<times> notifier" where
  "flush_send env decrypt post msgs s =
     (let ok = send_gotify_raw decrypt post (batch_request env msgs) s; t = s\<lparr>q_sending := remove1 msgs (q_sending s)\<rparr>
      in (ok, if ok then log_sent msgs t else t))"

section \<open>The alerts\<close>

text \<open>\<open>if not _should_send(key): return\<close>, then \<open>send_gotify\<close>.\<close>

definition alert_once :: "string \<Rightarrow> push \<Rightarrow> notifier \<Rightarrow> notifier" where
  "alert_once key m s = (case should_send key s of (go, s') \<Rightarrow> if go then snd (send_gotify m s') else s')"

definition ts :: "note_env \<Rightarrow> string \<Rightarrow> (string \<times> string) list \<Rightarrow> string" where
  "ts env key kwargs = tl_text (language_files env) (report_language env) key kwargs"

definition push_of :: "string \<Rightarrow> string \<Rightarrow> int \<Rightarrow> string \<Rightarrow> string \<Rightarrow> push" where
  "push_of title message priority ty cluster =
     \<lparr>note_title = title, note_body = message, note_priority = priority, note_type = ty, note_cluster = Some cluster\<rparr>"

definition vm_lines :: "string \<Rightarrow> string \<Rightarrow> int \<Rightarrow> string" where
  "vm_lines cluster vm vid = ''Cluster: '' @ cluster @ nl @ ''VM: '' @ vm @ '' (VMID '' @ string_of_int vid @ '')''"

definition vm_key :: "string \<Rightarrow> string \<Rightarrow> int \<Rightarrow> string" where
  "vm_key kind cluster vid = kind @ '':'' @ cluster @ '':'' @ string_of_int vid"

definition local_date :: "note_env \<Rightarrow> string \<Rightarrow> string \<Rightarrow> int \<Rightarrow> string" where
  "local_date env en de t = strftime (if report_language env = ''en'' then en else de) (wall_clock env t)"

definition notify_backup_critical :: "note_env \<Rightarrow> string \<Rightarrow> string \<Rightarrow> int \<Rightarrow> int option \<Rightarrow> notifier \<Rightarrow> notifier" where
  "notify_backup_critical env cluster vm vid age_days =
     (let age = (case age_days of None \<Rightarrow> ts env ''notify.never'' []
           | Some n \<Rightarrow> ts env (if n = 1 then ''notify.days_ago_one'' else ''notify.days_ago_other'') [(''count'', string_of_int n)])
      in alert_once (vm_key ''backup-critical'' cluster vid)
        (push_of (ts env ''notify.backup_critical_title'' [(''vm'', vm)])
           (vm_lines cluster vm vid @ nl @ ts env ''notify.last_backup'' [(''age'', age)]) 8 ''backup_critical'' cluster))"

text \<open>The average and the deviation are decimals of the database, so the arithmetic on them is exact.\<close>

definition notify_size_anomaly :: "note_env \<Rightarrow> string \<Rightarrow> string \<Rightarrow> int \<Rightarrow> int \<Rightarrow> rat \<Rightarrow> rat \<Rightarrow> notifier \<Rightarrow> notifier" where
  "notify_size_anomaly env cluster vm vid latest_size avg_size deviation =
     (let direction_key = (if of_int latest_size > avg_size then ''notify.size_larger'' else ''notify.size_smaller'')
      in alert_once (vm_key ''size-anomaly'' cluster vid)
        (push_of (ts env ''notify.size_anomaly_title'' [(''vm'', vm)])
           (vm_lines cluster vm vid @ nl
            @ ts env ''notify.size_current'' [(''size'', format_size (Some (fl64 (of_int latest_size))) (report_language env))] @ nl
            @ ts env ''notify.size_average'' [(''size'', format_size (Some (fl64 avg_size)) (report_language env))] @ nl
            @ ts env direction_key [(''pct'', string_of_int (round_half_even (deviation * 100)))]) 5 ''size_anomaly'' cluster))"

definition notify_sync_failed :: "note_env \<Rightarrow> string \<Rightarrow> string \<Rightarrow> notifier \<Rightarrow> notifier" where
  "notify_sync_failed env cluster detail =
     alert_once (''sync-failed:'' @ cluster)
       (push_of (ts env ''notify.sync_failed_title'' [(''cluster'', cluster)])
          (''Cluster: '' @ cluster @ nl @ py_first 500 detail) 7 ''sync_failed'' cluster)"

text \<open>The outage of a cluster also goes out by mail; \<open>mail\<close> says whether the mail server took it.\<close>

definition notify_sync_overdue :: "note_env \<Rightarrow> bool \<Rightarrow> string \<Rightarrow> int option \<Rightarrow> notifier \<Rightarrow> notifier" where
  "notify_sync_overdue env mail cluster failure_started_at s =
     (let started = (case failure_started_at of None \<Rightarrow> ts env ''notify.unknown'' []
            | Some t \<Rightarrow> local_date env ''%Y-%m-%d %H:%M'' ''%d.%m.%Y %H:%M'' t);
          title = ts env ''notify.sync_overdue_title'' [(''cluster'', cluster)];
          message = ''Cluster: '' @ cluster @ nl @ ts env ''notify.error_since'' [(''since'', started)] @ nl
            @ ts env ''notify.sync_overdue_message'' [];
          s' = snd (send_gotify (push_of title message 9 ''sync_overdue'' cluster) s)
      in if is_enabled ''email'' s' \<and> mail
         then insert_notification_log ''sync_overdue'' title message ''email'' (Some cluster) s' else s')"

definition notify_restore_overdue :: "note_env \<Rightarrow> string \<Rightarrow> string \<Rightarrow> int \<Rightarrow> int \<Rightarrow> notifier \<Rightarrow> notifier" where
  "notify_restore_overdue env cluster vm vid days_overdue s =
     (if \<not> restore_alerts_enabled s then s
      else alert_once (vm_key ''restore-overdue'' cluster vid)
        (push_of (ts env ''notify.restore_overdue_title'' [(''vm'', vm)])
           (vm_lines cluster vm vid @ nl
            @ ts env (if days_overdue = 1 then ''notify.days_overdue_one'' else ''notify.days_overdue_other'')
                [(''count'', string_of_int days_overdue)]) 6 ''restore_overdue'' cluster) s)"

definition notify_restore_failed :: "string \<Rightarrow> string \<Rightarrow> int \<Rightarrow> string \<Rightarrow> string \<Rightarrow> notifier \<Rightarrow> notifier" where
  "notify_restore_failed cluster vm vid res detail s =
     (if \<not> restore_alerts_enabled s then s
      else alert_once (vm_key ''restore-failed'' cluster vid @ '':'' @ py_first 40 detail)
        (push_of (''Restore-Test fehlgeschlagen: '' @ vm)
           (py_strip (vm_lines cluster vm vid @ nl @ ''Ergebnis: '' @ res @ nl @ detail)) 7 ''restore_failed'' cluster) s)"

definition notify_restore_held :: "string \<Rightarrow> string \<Rightarrow> int \<Rightarrow> notifier \<Rightarrow> notifier" where
  "notify_restore_held cluster vm vid s =
     (if \<not> restore_alerts_enabled s then s
      else alert_once (vm_key ''restore-held'' cluster vid)
        (push_of (''Restore-Umgebung angehalten: '' @ vm)
           (vm_lines cluster vm vid @ nl @ ''Die Umgebung bleibt zum manuellen Testen bestehen und muss abger''
            @ [CHR 0xC3, CHR 0xA4] @ ''umt werden.'') 6 ''restore_held'' cluster) s)"

definition notify_backup_slow :: "note_env \<Rightarrow> string \<Rightarrow> string \<Rightarrow> int \<Rightarrow> int \<Rightarrow> int \<Rightarrow> int \<Rightarrow> notifier \<Rightarrow> notifier" where
  "notify_backup_slow env cluster vm vid typical_seconds projected_seconds started =
     alert_once (vm_key ''backup-slow'' cluster vid @ '':'' @ strftime ''%Y%m%d%H%M'' started)
       (push_of (ts env ''notify.backup_slow_title'' [(''vm'', vm)])
          (vm_lines cluster vm vid @ nl @ ts env ''notify.backup_slow_message''
             [(''projected'', format_duration projected_seconds), (''typical'', format_duration typical_seconds)])
          5 ''backup_slow'' cluster)"

definition notify_datastore_full :: "note_env \<Rightarrow> string \<Rightarrow> string \<Rightarrow> string \<Rightarrow> int \<Rightarrow> int option \<Rightarrow> notifier \<Rightarrow> notifier" where
  "notify_datastore_full env cluster pbs_name store used_pct estimated_full_at =
     alert_once (''datastore-full:'' @ pbs_name @ '':'' @ store)
       (push_of (ts env ''notify.datastore_full_title'' [(''store'', store)])
          (py_join nl ([''PBS: '' @ pbs_name, ts env ''notify.datastore_used'' [(''store'', store), (''pct'', string_of_int used_pct)]]
            @ (case estimated_full_at of None \<Rightarrow> []
               | Some t \<Rightarrow> [ts env ''notify.datastore_full_at'' [(''date'', local_date env ''%Y-%m-%d'' ''%d.%m.%Y'' t)]])))
          8 ''datastore_full'' cluster)"

definition notify_verify_failed :: "note_env \<Rightarrow> string \<Rightarrow> string \<Rightarrow> int \<Rightarrow> int \<Rightarrow> notifier \<Rightarrow> notifier" where
  "notify_verify_failed env cluster vm vid started =
     alert_once (vm_key ''verify-failed'' cluster vid @ '':'' @ strftime ''%Y%m%d%H%M'' started)
       (push_of (ts env ''notify.verify_failed_title'' [(''vm'', vm)])
          (vm_lines cluster vm vid @ nl @ ts env ''notify.verify_failed_message''
             [(''date'', local_date env ''%Y-%m-%d %H:%M'' ''%d.%m.%Y %H:%M'' started)]) 8 ''verify_failed'' cluster)"

definition notify_unencrypted_backups :: "note_env \<Rightarrow> string \<Rightarrow> int \<Rightarrow> string list \<Rightarrow> notifier \<Rightarrow> notifier" where
  "notify_unencrypted_backups env cluster unencrypted_count vm_names =
     (let vm_list = py_join '', '' (take 10 vm_names) @ (if length vm_names > 10
           then '' ('' @ ts env ''notify.more'' [(''count'', string_of_int (int (length vm_names) - 10))] @ '')'' else [])
      in alert_once (''unencrypted:'' @ cluster)
        (push_of (ts env ''notify.unencrypted_title'' [(''cluster'', cluster)])
           (''Cluster: '' @ cluster @ nl @ ts env ''notify.unencrypted_message'' [(''count'', string_of_int unencrypted_count)]
            @ nl @ vm_list) 6 ''unencrypted_backups'' cluster))"

end
