(* ===== verification/NotifyProps.thy ===== *)
theory NotifyProps imports Notifications "HOL-Library.Multiset" begin

text \<open>
  What the notifications guarantee, over every interleaving of the threads that raise alerts,
  the timers, the requests in progress, changes of the settings and restarts: an alert goes out
  at most once a day, the messages leave the queue in the order in which they came and none
  twice, and a queue that holds something always has a timer that will empty it.
\<close>

section \<open>The steps\<close>

datatype note_event =
    Claimed string int
  | Queued push
  | Taken "push list" int
  | Sent "push list"
  | Lost "push list"
  | Restarted "push list" "push list list"

definition queue_events :: "push \<Rightarrow> notifier \<Rightarrow> note_event list" where
  "queue_events m s = (if fst (send_gotify m s) then [Queued m] else [])"

definition alert_events :: "string \<Rightarrow> push \<Rightarrow> notifier \<Rightarrow> note_event list" where
  "alert_events key m s = (case should_send key s of (go, s') \<Rightarrow> if go then Claimed key (q_clock s) # queue_events m s' else [])"

definition take_events :: "note_env \<Rightarrow> notifier \<Rightarrow> note_event list" where
  "take_events env s = (if q_queue s = [] \<or> in_quiet_hours env s then [] else [Taken (q_queue s) (q_clock s)])"

definition restarted :: "notifier \<Rightarrow> notifier" where
  "restarted s = s\<lparr>q_queue := [], q_current := None, q_timers := [], q_next_timer := 0, q_sending := []\<rparr>"

inductive nstep :: "note_env \<Rightarrow> notifier \<Rightarrow> note_event list \<Rightarrow> notifier \<Rightarrow> bool" for env where
  alert: "nstep env s (alert_events key m s) (alert_once key m s)"
| push_only: "nstep env s (queue_events m s) (snd (send_gotify m s))"
| logged: "nstep env s [] (insert_notification_log ty title message channel cluster s)"
| wake: "(i, t) \<in> set (q_timers s) \<Longrightarrow> t \<le> q_clock s \<Longrightarrow> nstep env s (take_events env s) (flush_take env i s)"
| send: "msgs \<in> set (q_sending s) \<Longrightarrow>
    nstep env s [if fst (flush_send env decrypt post msgs s) then Sent msgs else Lost msgs] (snd (flush_send env decrypt post msgs s))"
| time: "q_clock s \<le> t \<Longrightarrow> nstep env s [] (s\<lparr>q_clock := t\<rparr>)"
| save: "nstep env s [] (s\<lparr>q_settings := settings\<rparr>)"
| restart: "nstep env s [Restarted (q_queue s) (q_sending s)] (restarted s)"

inductive nrun :: "note_env \<Rightarrow> notifier \<Rightarrow> note_event list \<Rightarrow> notifier \<Rightarrow> bool" for env where
  start_run: "nrun env s [] s"
| then_step: "nrun env s evs t \<Longrightarrow> nstep env t new u \<Longrightarrow> nrun env s (evs @ new) u"

text \<open>Every alert is such a step, or none when restore alerts are switched off.\<close>

lemma restore_alert_step:
  assumes "restore_alerts_enabled s"
  shows "\<exists>key m. notify_restore_failed cluster vm vid res detail s = alert_once key m s"
    and "\<exists>key m. notify_restore_held cluster vm vid s = alert_once key m s"
  using assms unfolding notify_restore_failed_def notify_restore_held_def by auto

section \<open>What the operations change\<close>

lemma send_gotify_simps [simp]:
  "q_dedup (snd (send_gotify m s)) = q_dedup s" "q_clock (snd (send_gotify m s)) = q_clock s"
  "q_log (snd (send_gotify m s)) = q_log s" "q_settings (snd (send_gotify m s)) = q_settings s"
  "q_sending (snd (send_gotify m s)) = q_sending s"
  "q_queue (snd (send_gotify m s)) = (if is_enabled ''gotify'' s then q_queue s @ [m] else q_queue s)"
  "fst (send_gotify m s) = is_enabled ''gotify'' s"
  by (simp_all add: send_gotify_def schedule_gotify_flush_def start_timer_def cancel_timer_def)

lemma should_send_simps [simp]:
  "q_clock (snd (should_send key s)) = q_clock s" "q_queue (snd (should_send key s)) = q_queue s"
  "q_sending (snd (should_send key s)) = q_sending s" "q_timers (snd (should_send key s)) = q_timers s"
  "q_next_timer (snd (should_send key s)) = q_next_timer s" "q_settings (snd (should_send key s)) = q_settings s"
  "q_current (snd (should_send key s)) = q_current s"
  by (simp_all add: should_send_def try_claim_dedup_def Let_def)

lemma log_sent_simps [simp]:
  "q_clock (log_sent ms s) = q_clock s" "q_queue (log_sent ms s) = q_queue s" "q_sending (log_sent ms s) = q_sending s"
  "q_timers (log_sent ms s) = q_timers s" "q_next_timer (log_sent ms s) = q_next_timer s" "q_dedup (log_sent ms s) = q_dedup s"
  "q_current (log_sent ms s) = q_current s"
  unfolding log_sent_def by (induction ms arbitrary: s) (simp_all add: insert_notification_log_def)

lemma flush_send_simps [simp]:
  "q_clock (snd (flush_send env d p ms s)) = q_clock s" "q_queue (snd (flush_send env d p ms s)) = q_queue s"
  "q_sending (snd (flush_send env d p ms s)) = remove1 ms (q_sending s)" "q_timers (snd (flush_send env d p ms s)) = q_timers s"
  "q_next_timer (snd (flush_send env d p ms s)) = q_next_timer s" "q_dedup (snd (flush_send env d p ms s)) = q_dedup s"
  by (simp_all add: flush_send_def Let_def)

lemma flush_take_simps [simp]:
  "q_dedup (flush_take env i s) = q_dedup s" "q_clock (flush_take env i s) = q_clock s"
  by (simp_all add: flush_take_def start_timer_def Let_def)

lemma quiet_hours_only_settings [simp]:
  "in_quiet_hours env (s\<lparr>q_timers := a, q_current := b\<rparr>) = in_quiet_hours env s"
  by (simp add: in_quiet_hours_def quiet_hours_def setting_def cong: option.case_cong)

lemma flush_take_queue:
  "q_queue (flush_take env i s) = (if q_queue s = [] \<or> \<not> in_quiet_hours env s then [] else q_queue s)"
  "q_sending (flush_take env i s) = (if q_queue s = [] \<or> in_quiet_hours env s then q_sending s else q_sending s @ [q_queue s])"
  by (simp_all add: flush_take_def start_timer_def Let_def)

lemma alert_once_cases:
  "alert_once key m s = (if fst (should_send key s) then snd (send_gotify m (snd (should_send key s))) else snd (should_send key s))"
  "alert_events key m s = (if fst (should_send key s) then Claimed key (q_clock s) # queue_events m (snd (should_send key s)) else [])"
  by (simp_all add: alert_once_def alert_events_def split: prod.splits)

section \<open>An alert goes out at most once a day\<close>

definition well_apart :: "note_event list \<Rightarrow> bool" where
  "well_apart evs = sorted_wrt (\<lambda>e e'. \<forall>k t t'. e = Claimed k t \<and> e' = Claimed k t' \<longrightarrow> t + seconds DEDUP_SECONDS < t') evs"

text \<open>What the table remembers of the claims so far: the row is there, or it was old enough to be deleted.\<close>

definition remembered :: "note_event list \<Rightarrow> notifier \<Rightarrow> bool" where
  "remembered evs s = (distinct (map fst (q_dedup s)) \<and>
     (\<forall>k t. Claimed k t \<in> set evs \<longrightarrow> t \<le> q_clock s \<and>
        (t + seconds DEDUP_SECONDS < q_clock s \<or> (\<exists>t'. map_of (q_dedup s) k = Some t' \<and> t \<le> t'))))"

lemma remembered_quietly:
  "remembered evs s \<Longrightarrow> q_dedup s' = q_dedup s \<Longrightarrow> q_clock s \<le> q_clock s' \<Longrightarrow> remembered evs s'"
  unfolding remembered_def by force

lemma map_of_filter_some:
  assumes "distinct (map fst xs)" and "map_of xs k = Some v" and "P (k, v)"
  shows "map_of (filter P xs) k = Some v"
  using assms by (induction xs) (auto simp: image_iff)

lemma claim_remembers:
  assumes "remembered evs s" and "should_send key s = (True, s')"
  shows "remembered (evs @ [Claimed key (q_clock s)]) s'"
    and "Claimed key t \<in> set evs \<Longrightarrow> t + seconds DEDUP_SECONDS < q_clock s"
proof -
  let ?now = "q_clock s"
  have claimed: "case map_of (q_dedup s) key of None \<Rightarrow> True | Some sent_at \<Rightarrow> sent_at < ?now - seconds DEDUP_SECONDS"
    and s': "s' = s\<lparr>q_dedup := filter (\<lambda>r. \<not> snd r < ?now - seconds (DEDUP_SECONDS * 7)) (dict_set key ?now (q_dedup s))\<rparr>"
    using assms(2) by (auto simp: should_send_def try_claim_dedup_def Let_def split: if_splits)
  have d: "distinct (map fst (q_dedup s))" using assms(1) by (simp add: remembered_def)
  then have d': "distinct (map fst (dict_set key ?now (q_dedup s)))" by (simp add: distinct_update)
  have pos: "0 < seconds DEDUP_SECONDS" "seconds (DEDUP_SECONDS * 7) = 7 * seconds DEDUP_SECONDS"
    by (simp_all add: seconds_def DEDUP_SECONDS_def)
  show "t + seconds DEDUP_SECONDS < ?now" if e: "Claimed key t \<in> set evs" for t
  proof -
    consider "t + seconds DEDUP_SECONDS < ?now" | t' where "map_of (q_dedup s) key = Some t'" "t \<le> t'"
      using assms(1) e unfolding remembered_def by blast
    then show ?thesis using claimed by cases simp_all
  qed
  have new: "map_of (q_dedup s') key = Some ?now"
    unfolding s' using pos by (simp add: map_of_filter_some [OF d'] update_conv)
  have old: "t + seconds DEDUP_SECONDS < ?now \<or> (\<exists>t'. map_of (q_dedup s') k = Some t' \<and> t \<le> t')" and "t \<le> ?now"
    if e: "Claimed k t \<in> set evs" for k t
  proof -
    show "t \<le> ?now" using assms(1) e by (simp add: remembered_def)
    show "t + seconds DEDUP_SECONDS < ?now \<or> (\<exists>t'. map_of (q_dedup s') k = Some t' \<and> t \<le> t')"
    proof (cases "k = key")
      case True
      then show ?thesis using new \<open>t \<le> ?now\<close> by auto
    next
      case False
      consider "t + seconds DEDUP_SECONDS < ?now" | t' where "map_of (q_dedup s) k = Some t'" "t \<le> t'"
        using assms(1) e unfolding remembered_def by blast
      then show ?thesis
      proof cases
        case 2
        show ?thesis
        proof (cases "t' < ?now - seconds (DEDUP_SECONDS * 7)")
          case True
          then show ?thesis using 2 pos by linarith
        next
          case keep: False
          have "map_of (dict_set key ?now (q_dedup s)) k = Some t'" using False 2 by (simp add: update_conv)
          then have "map_of (q_dedup s') k = Some t'"
            unfolding s' using keep by (simp add: map_of_filter_some [OF d'])
          then show ?thesis using 2 by blast
        qed
      qed simp
    qed
  qed
  have ds: "distinct (map fst (q_dedup s'))" unfolding s' using d' by (simp add: distinct_map_filter)
  have "q_clock s' = ?now" unfolding s' by simp
  then show "remembered (evs @ [Claimed key ?now]) s'"
    using ds old new \<open>\<And>t k. Claimed k t \<in> set evs \<Longrightarrow> t \<le> ?now\<close> unfolding remembered_def by auto
qed

lemma no_claim_remembers:
  "remembered evs s \<Longrightarrow> should_send key s = (False, s') \<Longrightarrow> s' = s"
  by (auto simp: should_send_def try_claim_dedup_def Let_def split: if_splits)

lemma remembered_no_claims:
  "remembered evs s \<Longrightarrow> (\<And>k t. Claimed k t \<notin> set new) \<Longrightarrow> remembered (evs @ new) s"
  unfolding remembered_def set_append Un_iff by blast

lemma well_apart_no_claims:
  "well_apart evs \<Longrightarrow> (\<And>k t. Claimed k t \<notin> set new) \<Longrightarrow> well_apart (evs @ new)"
  unfolding well_apart_def by (auto simp: sorted_wrt_append intro: sorted_wrt_mono_rel [of _ "\<lambda>_ _. True"])

lemma claims_of_step:
  assumes "nstep env s new s'"
  shows "(\<forall>k t. Claimed k t \<notin> set new) \<and> q_dedup s' = q_dedup s \<and> q_clock s \<le> q_clock s'
    \<or> (\<exists>key m. new = alert_events key m s \<and> s' = alert_once key m s)"
  using assms by cases (auto simp: queue_events_def take_events_def restarted_def insert_notification_log_def)

lemma run_remembers:
  assumes "nrun env s evs s'" and "distinct (map fst (q_dedup s))"
  shows "remembered evs s' \<and> well_apart evs"
  using assms
proof (induction rule: nrun.induct)
  case (start_run s)
  then show ?case by (simp add: remembered_def well_apart_def)
next
  case (then_step s evs t new u)
  then have r: "remembered evs t" and w: "well_apart evs" by blast+
  from claims_of_step [OF then_step.hyps(2)] show ?case
  proof (elim disjE exE conjE)
    assume "\<forall>k t. Claimed k t \<notin> set new" "q_dedup u = q_dedup t" "q_clock t \<le> q_clock u"
    then show ?thesis using remembered_quietly [OF remembered_no_claims [OF r]] well_apart_no_claims [OF w] by blast
  next
    fix key m
    assume new: "new = alert_events key m t" and u: "u = alert_once key m t"
    obtain go s1 where s1: "should_send key t = (go, s1)" by fastforce
    show ?thesis
    proof (cases go)
      case False
      then have "s1 = t" using s1 no_claim_remembers [OF r] by simp
      then show ?thesis using r w False s1 by (simp add: new u alert_once_cases)
    next
      case True
      have "should_send key t = (True, s1)" using s1 True by simp
      note c = claim_remembers [OF r this]
      have w1: "well_apart (evs @ [Claimed key (q_clock t)])"
        using w c(2) unfolding well_apart_def by (auto simp: sorted_wrt_append)
      have q: "Claimed k v \<notin> set (queue_events m s1)" for k v by (simp add: queue_events_def)
      have n: "evs @ new = (evs @ [Claimed key (q_clock t)]) @ queue_events m s1"
        using True s1 by (simp add: new alert_once_cases)
      have "u = snd (send_gotify m s1)" using True s1 by (simp add: u alert_once_cases)
      then have "remembered (evs @ new) u"
        unfolding n using remembered_no_claims [OF c(1) q] remembered_quietly by simp
      moreover have "well_apart (evs @ new)" unfolding n using well_apart_no_claims [OF w1 q] .
      ultimately show ?thesis by blast
    qed
  qed
qed

text \<open>C14: however the threads interleave, the program restarts and the settings change, two
  claims of the same alert are more than 24 hours apart.\<close>

theorem alert_once_a_day:
  assumes "nrun env s evs s'" and "distinct (map fst (q_dedup s))"
    and "evs = before @ Claimed key t # between @ Claimed key t' # after"
  shows "t + seconds DEDUP_SECONDS < t'"
  using run_remembers [OF assms(1,2)] unfolding assms(3) well_apart_def by (simp add: sorted_wrt_append)

section \<open>Messages leave the queue in order, and once\<close>

fun queued :: "note_event \<Rightarrow> push list" where
  "queued (Queued m) = [m]"
| "queued _ = []"

fun left_queue :: "note_event \<Rightarrow> push list" where
  "left_queue (Taken ms _) = ms"
| "left_queue (Restarted q _) = q"
| "left_queue _ = []"

fun finished :: "note_event \<Rightarrow> push list" where
  "finished (Sent ms) = ms"
| "finished (Lost ms) = ms"
| "finished (Restarted q fl) = q @ concat fl"
| "finished _ = []"

abbreviation all_of :: "(note_event \<Rightarrow> push list) \<Rightarrow> note_event list \<Rightarrow> push list" where
  "all_of f evs \<equiv> concat (map f evs)"

lemma mset_concat_remove1: "x \<in> set xs \<Longrightarrow> mset (concat xs) = mset x + mset (concat (remove1 x xs))"
  by (induction xs) auto

lemma queue_step:
  assumes "nstep env s new s'"
  shows "q_queue s @ all_of queued new = all_of left_queue new @ q_queue s'"
    and "mset (q_queue s) + mset (concat (q_sending s)) + mset (all_of queued new)
      = mset (all_of finished new) + mset (q_queue s') + mset (concat (q_sending s'))"
  using assms by (cases; simp add: alert_once_cases queue_events_def take_events_def flush_take_queue restarted_def
      insert_notification_log_def mset_concat_remove1 union_ac)+

lemma queue_run:
  assumes "nrun env s evs s'" and "q_queue s = []" and "q_sending s = []"
  shows "all_of queued evs = all_of left_queue evs @ q_queue s'
    \<and> mset (all_of queued evs) = mset (all_of finished evs) + mset (q_queue s') + mset (concat (q_sending s'))"
  using assms
proof (induction rule: nrun.induct)
  case (then_step s evs t new u)
  then have ih: "all_of queued evs = all_of left_queue evs @ q_queue t"
    "mset (all_of queued evs) = mset (all_of finished evs) + mset (q_queue t) + mset (concat (q_sending t))" by blast+
  note st = queue_step [OF then_step.hyps(2)]
  have "all_of queued (evs @ new) = all_of left_queue evs @ (q_queue t @ all_of queued new)" using ih(1) by simp
  then have "all_of queued (evs @ new) = all_of left_queue (evs @ new) @ q_queue u" unfolding st(1) by simp
  moreover have "mset (all_of queued (evs @ new))
      = mset (all_of finished evs) + (mset (q_queue t) + mset (concat (q_sending t)) + mset (all_of queued new))"
    by (simp only: map_append concat_append mset_append ih(2) union_ac)
  then have "mset (all_of queued (evs @ new)) = mset (all_of finished (evs @ new)) + mset (q_queue u) + mset (concat (q_sending u))"
    unfolding st(2) by (simp only: map_append concat_append mset_append union_ac)
  ultimately show ?case by blast
qed simp

text \<open>C15: the messages leave the queue in exactly the order in which they entered it, and every
  message is sent once, lost with a failed request or a restart, still queued, or in a request in
  progress: none is duplicated and none disappears otherwise.\<close>

theorem messages_in_order:
  assumes "nrun env s evs s'" and "q_queue s = []" and "q_sending s = []"
  shows "all_of queued evs = all_of left_queue evs @ q_queue s'
    \<and> mset (all_of queued evs) = mset (all_of finished evs) + mset (q_queue s') + mset (concat (q_sending s'))"
  using assms by (rule queue_run)

section \<open>A queue that holds something is emptied\<close>

definition timers_ok :: "notifier \<Rightarrow> bool" where
  "timers_ok s = ((q_queue s \<noteq> [] \<longrightarrow> q_timers s \<noteq> []) \<and> (\<forall>p\<in>set (q_timers s). snd p \<le> q_clock s + seconds 600))"

lemma timers_ok_cong:
  "timers_ok s \<Longrightarrow> q_queue s' = q_queue s \<Longrightarrow> q_timers s' = q_timers s \<Longrightarrow> q_clock s \<le> q_clock s' \<Longrightarrow> timers_ok s'"
  unfolding timers_ok_def by force

lemma send_gotify_timers: "timers_ok s \<Longrightarrow> timers_ok (snd (send_gotify m s))"
  by (auto simp: timers_ok_def send_gotify_def schedule_gotify_flush_def start_timer_def cancel_timer_def seconds_def BATCH_COOLDOWN_def)

lemma nstep_timers:
  assumes "nstep env s new s'" and "timers_ok s"
  shows "timers_ok s'"
  using assms(1)
proof cases
  case (alert key m)
  have "timers_ok (snd (should_send key s))" using assms(2) by (rule timers_ok_cong) simp_all
  then show ?thesis using alert send_gotify_timers by (simp add: alert_once_cases)
next
  case (wake i t)
  then show ?thesis using assms(2)
    by (auto simp: timers_ok_def flush_take_def start_timer_def Let_def seconds_def)
next
  case (time t)
  then show ?thesis using assms(2) by (auto intro: timers_ok_cong)
next
  case (push_only m)
  then show ?thesis using assms(2) by (simp add: send_gotify_timers)
next
  case (logged ty title message channel cluster)
  then show ?thesis using assms(2) by (simp add: insert_notification_log_def timers_ok_def)
next
  case (send msgs decrypt post)
  then show ?thesis using assms(2) by (simp add: timers_ok_def)
next
  case (save settings)
  then show ?thesis using assms(2) by (simp add: timers_ok_def)
next
  case restart
  then show ?thesis by (simp add: restarted_def timers_ok_def)
qed

lemma nrun_timers: "nrun env s evs s' \<Longrightarrow> timers_ok s \<Longrightarrow> timers_ok s'"
  by (induction rule: nrun.induct) (blast intro: nstep_timers)+

lemma nrun_one: "nstep env s new s' \<Longrightarrow> nrun env s new s'"
  using nrun.then_step [OF nrun.start_run] by simp

text \<open>C16: whenever messages are queued, a timer is due within ten minutes; and when it wakes up
  outside the quiet hours, all that is queued by then leaves in one batch.\<close>

theorem queue_drains:
  assumes "nrun env s evs s'" and "q_queue s = []" and "q_timers s = []" and "q_queue s' \<noteq> []"
  shows "\<exists>i t. (i, t) \<in> set (q_timers s') \<and> t \<le> q_clock s' + seconds 600
    \<and> (let later = s'\<lparr>q_clock := max t (q_clock s')\<rparr>; after = flush_take env i later
       in \<not> in_quiet_hours env later \<longrightarrow>
            nrun env s' [Taken (q_queue s') (q_clock later)] after \<and> q_queue after = [] \<and> q_sending after = q_sending s' @ [q_queue s'])"
proof -
  have "timers_ok s" using assms(2,3) by (simp add: timers_ok_def)
  then have ok: "timers_ok s'" using nrun_timers assms(1) by blast
  then have "q_timers s' \<noteq> []" using assms(4) by (simp add: timers_ok_def)
  then have p: "hd (q_timers s') \<in> set (q_timers s')" by simp
  obtain i t where it: "hd (q_timers s') = (i, t)" by fastforce
  let ?later = "s'\<lparr>q_clock := max t (q_clock s')\<rparr>"
  have "nrun env s' [Taken (q_queue s') (q_clock ?later)] (flush_take env i ?later)" if "\<not> in_quiet_hours env ?later"
  proof -
    have "nrun env s' [] ?later" by (intro nrun_one nstep.time) simp
    moreover have "nstep env ?later (take_events env ?later) (flush_take env i ?later)"
      using p it by (intro nstep.wake [where t = t]) simp_all
    ultimately have "nrun env s' ([] @ take_events env ?later) (flush_take env i ?later)" by (rule nrun.then_step)
    moreover have "take_events env ?later = [Taken (q_queue s') (q_clock ?later)]" using that assms(4) by (simp add: take_events_def)
    ultimately show ?thesis by simp
  qed
  then show ?thesis using ok p it assms(4) by (intro exI [of _ i] exI [of _ t]) (auto simp: Let_def flush_take_queue timers_ok_def)
qed

section \<open>What the order of the checks loses\<close>

text \<open>The alert is claimed before it is known whether the channel is switched on.\<close>

text \<open>C17: an alert that is raised while Gotify is switched off is not only dropped: within the next
  24 hours it stays silent even after Gotify has been switched on.\<close>

theorem alert_of_disabled_channel_is_lost:
  assumes "\<not> is_enabled ''gotify'' s" and "fst (should_send key s)"
    and "t \<le> q_clock s + seconds DEDUP_SECONDS"
  shows "let s' = (alert_once key m s)\<lparr>q_settings := settings, q_clock := t\<rparr>
    in q_queue s' = q_queue s \<and> alert_once key m' s' = s'"
proof -
  let ?s1 = "snd (should_send key s)"
  let ?s' = "(alert_once key m s)\<lparr>q_settings := settings, q_clock := t\<rparr>"
  have d: "q_dedup ?s1 = filter (\<lambda>r. \<not> snd r < q_clock s - seconds (DEDUP_SECONDS * 7)) (dict_set key (q_clock s) (q_dedup s))"
    using assms(2) by (auto simp: should_send_def try_claim_dedup_def Let_def)
  have f: "map_of (filter P (dict_set k v xs)) k = Some v" if "P (k, v)" for P k v and xs :: "(string \<times> int) list"
    using that by (induction xs) auto
  have m: "map_of (q_dedup ?s1) key = Some (q_clock s)"
    unfolding d by (rule f) (simp add: seconds_def DEDUP_SECONDS_def)
  have off: "\<not> is_enabled ''gotify'' ?s1" using assms(1) by (simp add: is_enabled_def setting_def)
  have eq: "alert_once key m s = ?s1" using assms(2) off by (simp add: alert_once_cases send_gotify_def)
  have "should_send key ?s' = (False, ?s')"
    using m assms(3) by (simp add: eq should_send_def try_claim_dedup_def Let_def)
  then have "alert_once key m' ?s' = ?s'" by (simp add: alert_once_cases(1))
  moreover have "q_queue ?s' = q_queue s" by (simp add: eq)
  ultimately show ?thesis by (simp add: Let_def)
qed

section \<open>A concrete run\<close>

definition demo_env :: note_env where
  "demo_env = \<lparr>report_language = ''en'', language_files = (\<lambda>_ _. None), wall_clock = (\<lambda>t. t)\<rparr>"

definition quiet_start :: notifier where
  "quiet_start = \<lparr>q_settings = [(''notify_gotify_enabled'', ''true'')], q_dedup = [], q_log = [], q_queue = [], q_current = None,
     q_timers = [], q_next_timer = 0, q_sending = [], q_clock = 0\<rparr>"

definition demo_push :: push where "demo_push = push_of ''t'' ''m'' 5 ''x'' ''c''"
definition demo_events :: "note_event list" where
  "demo_events = [Claimed ''k'' 0, Queued demo_push, Claimed ''k'' (seconds 86401), Queued demo_push]"

definition raised_twice :: notifier where
  "raised_twice = alert_once ''k'' demo_push ((alert_once ''k'' demo_push quiet_start)\<lparr>q_clock := seconds 86401\<rparr>)"

lemma demo_run: "nrun demo_env quiet_start demo_events raised_twice"
proof -
  let ?a = "alert_once ''k'' demo_push quiet_start"
  have e1: "alert_events ''k'' demo_push quiet_start = [Claimed ''k'' 0, Queued demo_push]" by code_simp
  have e2: "alert_events ''k'' demo_push (?a\<lparr>q_clock := seconds 86401\<rparr>) = [Claimed ''k'' (seconds 86401), Queued demo_push]"
    by code_simp
  have c: "q_clock ?a \<le> seconds 86401" by code_simp
  have "nrun demo_env quiet_start ([] @ alert_events ''k'' demo_push quiet_start) ?a"
    using nrun.start_run nstep.alert by (rule nrun.then_step)
  then have "nrun demo_env quiet_start (([] @ alert_events ''k'' demo_push quiet_start) @ []) (?a\<lparr>q_clock := seconds 86401\<rparr>)"
    using nstep.time [OF c] by (rule nrun.then_step)
  then have "nrun demo_env quiet_start ((([] @ alert_events ''k'' demo_push quiet_start) @ [])
      @ alert_events ''k'' demo_push (?a\<lparr>q_clock := seconds 86401\<rparr>)) raised_twice"
    unfolding raised_twice_def using nstep.alert by (rule nrun.then_step)
  then show ?thesis by (simp add: e1 e2 demo_events_def)
qed

lemma demo_start: "q_queue quiet_start = []" "q_sending quiet_start = []" "q_timers quiet_start = []" "q_dedup quiet_start = []"
  by (simp_all add: quiet_start_def)

theorem alert_once_a_day_witness: "0 + seconds DEDUP_SECONDS < seconds 86401"
  by (rule alert_once_a_day [OF demo_run, where before = "[]" and between = "[Queued demo_push]" and after = "[Queued demo_push]"])
    (simp_all add: demo_start demo_events_def)

theorem messages_in_order_witness:
  "all_of queued demo_events = all_of left_queue demo_events @ q_queue raised_twice
    \<and> mset (all_of queued demo_events) = mset (all_of finished demo_events) + mset (q_queue raised_twice) + mset (concat (q_sending raised_twice))"
  by (rule messages_in_order [OF demo_run demo_start(1,2)])

lemma raised_twice_queue: "q_queue raised_twice = [demo_push, demo_push]"
  by code_simp

theorem queue_drains_witness:
  "\<exists>i t. (i, t) \<in> set (q_timers raised_twice) \<and> t \<le> q_clock raised_twice + seconds 600
    \<and> (let later = raised_twice\<lparr>q_clock := max t (q_clock raised_twice)\<rparr>; after = flush_take demo_env i later
       in \<not> in_quiet_hours demo_env later \<longrightarrow>
            nrun demo_env raised_twice [Taken (q_queue raised_twice) (q_clock later)] after \<and> q_queue after = []
            \<and> q_sending after = q_sending raised_twice @ [q_queue raised_twice])"
  by (rule queue_drains [OF demo_run demo_start(1,3)]) (simp add: raised_twice_queue)

theorem alert_of_disabled_channel_is_lost_witness:
  "let s = quiet_start\<lparr>q_settings := []\<rparr>;
       s' = (alert_once ''k'' demo_push s)\<lparr>q_settings := [(''notify_gotify_enabled'', ''true'')], q_clock := seconds 3600\<rparr>
   in q_queue s' = q_queue s \<and> alert_once ''k'' demo_push s' = s'"
proof -
  have d: "\<not> is_enabled ''gotify'' (quiet_start\<lparr>q_settings := []\<rparr>)" "fst (should_send ''k'' (quiet_start\<lparr>q_settings := []\<rparr>))"
    "seconds 3600 \<le> q_clock (quiet_start\<lparr>q_settings := []\<rparr>) + seconds DEDUP_SECONDS" by code_simp+
  show ?thesis unfolding Let_def [of "quiet_start\<lparr>q_settings := []\<rparr>"] by (rule alert_of_disabled_channel_is_lost [OF d])
qed

end
