(* ===== verification/Monitor.thy ===== *)
theory Monitor imports RestoreDb PveConfig VzdumpLog begin

text \<open>
  The tables of the monitoring and the functions that the synchronisation of a cluster runs on
  them (\<open>app/db_clusters.py\<close>, \<open>app/db_reports.py\<close>): guests, nodes, disks, backup events and the
  task logs already read. A backup event is identified by guest and start minute, as the table's
  unique key has it. The tables of restore testing refer to guests with \<open>ON DELETE CASCADE\<close>, and
  restore testing reads guests, disks and events: \<open>refresh\<close> shows it what it reads of them.
\<close>

section \<open>Tables\<close>

record guest_row =
  gu_id :: int
  gu_cluster :: int
  gu_node :: string
  gu_vmid :: int
  gu_name :: string
  gu_type :: string
  gu_template :: bool
  gu_storages :: "string list"
  gu_kind :: string
  gu_last_backup :: "int option"
  gu_memory :: "int option"
  gu_disk :: "int option"
  gu_missing :: "int option"

record event_row =
  ev_guest :: int
  ev_started :: int
  ev_finished :: "int option"
  ev_duration :: "int option"
  ev_bytes :: "int option"
  ev_encrypted :: "bool option"
  ev_verify :: "string option"
  ev_state :: string
  ev_upid :: string
  ev_source :: string
  ev_guest_name :: "string option"
  ev_origin :: "string option"
  ev_removed_at :: "int option"
  ev_storages :: "string list option"
  ev_places :: "string list option"
  ev_transferred :: "int option"
  ev_throughput :: "int option"
  ev_reused :: "int option"
  ev_full :: "bool option"

record monitor =
  m_guests :: "guest_row list"
  m_next_guest :: int
  m_nodes :: "(int \<times> string \<times> string) list"
  m_disks :: "(int \<times> data_disk) list"
  m_events :: "event_row list"
  m_processed :: "(string \<times> int \<times> int) list"
  m_clusters :: "(int \<times> string) list"
  m_restore :: db

definition now_of :: "monitor \<Rightarrow> int" where "now_of m = clock (m_restore m)"

definition minutes :: "int \<Rightarrow> int" where "minutes n = n * 60 * 1000000"
definition hours_us :: "int \<Rightarrow> int" where "hours_us n = n * 3600 * 1000000"

text \<open>\<open>status = 'ok' AND removed_at IS NULL AND COALESCE(size_bytes, 0) > 1\<close>\<close>

definition real_size :: "int option \<Rightarrow> bool" where "real_size b = (opt_or b 0 > 1)"
definition real_backup :: "event_row \<Rightarrow> bool" where
  "real_backup e = (ev_state e = ''ok'' \<and> ev_removed_at e = None \<and> real_size (ev_bytes e))"

text \<open>What restore testing reads of these tables.\<close>

definition policy_of :: "db \<Rightarrow> int \<Rightarrow> policy_row option" where
  "policy_of d i = (case List.find (\<lambda>p. vm_id (fst p) = i) (vms d) of None \<Rightarrow> None | Some p \<Rightarrow> snd p)"

definition vm_view :: "monitor \<Rightarrow> guest_row \<Rightarrow> vm_row" where
  "vm_view m g = \<lparr>vm_id = gu_id g, vm_cluster = gu_cluster g, vm_node = Some (gu_node g), vmid = gu_vmid g, vm_name = gu_name g,
     guest_type = Some (gu_type g), cluster_name = map_of (m_clusters m) (gu_cluster g), memory_bytes = gu_memory g\<rparr>"

definition event_view :: "event_row \<Rightarrow> backup_event" where
  "event_view e = \<lparr>ev_vm = ev_guest e, ev_status = ev_state e, ev_removed = (ev_removed_at e \<noteq> None), ev_size = ev_bytes e,
     ev_locations = opt_or (ev_places e) []\<rparr>"

definition refresh :: "monitor \<Rightarrow> monitor" where
  "refresh m = m\<lparr>m_restore := (m_restore m)
     \<lparr>vms := map (\<lambda>g. (vm_view m g, policy_of (m_restore m) (gu_id g))) (m_guests m),
      db_events := map event_view (m_events m),
      db_disks := map (\<lambda>d. \<lparr>dk_vm = fst d, dk_dev = dd_dev (snd d), dk_size = Some (dd_size (snd d))\<rparr>) (m_disks m)\<rparr>\<rparr>"

section \<open>Guests\<close>

text \<open>A guest as \<open>fetch_cluster_inventory\<close> reports it.\<close>

record seen_guest =
  sg_node :: string
  sg_vmid :: int
  sg_name :: string
  sg_type :: string
  sg_template :: bool
  sg_storages :: "string list"
  sg_kind :: string
  sg_last_backup :: "int option"
  sg_memory :: "int option"
  sg_disk :: "int option"
  sg_disks :: "data_disk list"

definition coalesce :: "'a option \<Rightarrow> 'a option \<Rightarrow> 'a option" where
  "coalesce x y = (case x of None \<Rightarrow> y | Some v \<Rightarrow> Some v)"

definition guest_at :: "int \<Rightarrow> int \<Rightarrow> guest_row \<Rightarrow> bool" where
  "guest_at cl v g = (gu_cluster g = cl \<and> gu_vmid g = v)"

definition new_guest :: "int \<Rightarrow> int \<Rightarrow> seen_guest \<Rightarrow> guest_row" where
  "new_guest i cl s = \<lparr>gu_id = i, gu_cluster = cl, gu_node = sg_node s, gu_vmid = sg_vmid s, gu_name = sg_name s, gu_type = sg_type s,
     gu_template = sg_template s, gu_storages = sg_storages s, gu_kind = sg_kind s, gu_last_backup = sg_last_backup s,
     gu_memory = sg_memory s, gu_disk = sg_disk s, gu_missing = None\<rparr>"

definition merge_guest :: "seen_guest \<Rightarrow> guest_row \<Rightarrow> guest_row" where
  "merge_guest s g = g\<lparr>gu_node := sg_node s, gu_name := sg_name s, gu_type := sg_type s, gu_template := sg_template s,
     gu_storages := sg_storages s, gu_kind := sg_kind s, gu_last_backup := coalesce (sg_last_backup s) (gu_last_backup g),
     gu_memory := coalesce (sg_memory s) (gu_memory g), gu_disk := coalesce (sg_disk s) (gu_disk g), gu_missing := None\<rparr>"

text \<open>The upsert of one guest and the replacement of its disks. A device that a guest lists twice
  violates the key of \<open>vm_disks\<close>; the exception discards the transaction.\<close>

definition unique_violation :: exn where
  "unique_violation = PyError ''UniqueViolation'' ''duplicate key value violates unique constraint''"

definition upsert_guest :: "int \<Rightarrow> seen_guest \<Rightarrow> monitor \<Rightarrow> int \<times> monitor" where
  "upsert_guest cl s m = (case List.find (guest_at cl (sg_vmid s)) (m_guests m) of
     Some g \<Rightarrow> (gu_id g, m\<lparr>m_guests := map (\<lambda>q. if guest_at cl (sg_vmid s) q then merge_guest s q else q) (m_guests m)\<rparr>)
   | None \<Rightarrow> (m_next_guest m, m\<lparr>m_guests := m_guests m @ [new_guest (m_next_guest m) cl s], m_next_guest := m_next_guest m + 1\<rparr>))"

definition sync_guest :: "int \<Rightarrow> seen_guest \<Rightarrow> monitor \<Rightarrow> exn + monitor" where
  "sync_guest cl s m = (case upsert_guest cl s m of (i, m') \<Rightarrow>
     if sg_disks s = [] then Inr m'
     else if \<not> distinct (map dd_dev (sg_disks s)) then Inl unique_violation
     else Inr (m'\<lparr>m_disks := filter (\<lambda>d. fst d \<noteq> i) (m_disks m') @ map (\<lambda>d. (i, d)) (sg_disks s)\<rparr>))"

fun sync_guests :: "int \<Rightarrow> seen_guest list \<Rightarrow> monitor \<Rightarrow> exn + monitor" where
  "sync_guests cl [] m = Inr m"
| "sync_guests cl (s # ss) m = rbind (sync_guest cl s m) (sync_guests cl ss)"

definition flag_missing :: "int \<Rightarrow> int set \<Rightarrow> monitor \<Rightarrow> monitor" where
  "flag_missing cl reported m = m\<lparr>m_guests := map (\<lambda>g. if gu_cluster g = cl \<and> gu_vmid g \<notin> reported
     then g\<lparr>gu_missing := coalesce (gu_missing g) (Some (now_of m))\<rparr> else g) (m_guests m)\<rparr>"

fun insert_nodes :: "int \<Rightarrow> (string \<times> string) list \<Rightarrow> (int \<times> string \<times> string) list \<Rightarrow> (int \<times> string \<times> string) list" where
  "insert_nodes cl [] rows = rows"
| "insert_nodes cl ((name, st) # ns) rows =
     insert_nodes cl ns (if list_ex (\<lambda>r. fst r = cl \<and> fst (snd r) = name) rows then rows else rows @ [(cl, name, st)])"

definition sync_cluster_inventory :: "int \<Rightarrow> (string \<times> string) list \<Rightarrow> seen_guest list \<Rightarrow> monitor \<Rightarrow> exn + monitor" where
  "sync_cluster_inventory cl nodes guests m =
     rmap (\<lambda>m'. refresh (flag_missing cl (set (map sg_vmid guests)) m'))
       (sync_guests cl guests (m\<lparr>m_nodes := insert_nodes cl nodes (filter (\<lambda>r. fst r \<noteq> cl) (m_nodes m))\<rparr>))"

text \<open>Deleting rows of \<open>vms\<close> takes everything with it that refers to them.\<close>

definition delete_guests :: "(guest_row \<Rightarrow> bool) \<Rightarrow> monitor \<Rightarrow> nat \<times> monitor" where
  "delete_guests P m =
     (let gone = set (map gu_id (filter P (m_guests m))); d = m_restore m
      in (length (filter P (m_guests m)),
          refresh (m\<lparr>m_guests := filter (\<lambda>g. \<not> P g) (m_guests m),
             m_disks := filter (\<lambda>k. fst k \<notin> gone) (m_disks m),
             m_events := filter (\<lambda>e. ev_guest e \<notin> gone) (m_events m),
             m_restore := d\<lparr>runs := filter (\<lambda>r. run_vm r \<notin> gone) (runs d), tests := filter (\<lambda>t. test_vm t \<notin> gone) (tests d),
                            nics := filter (\<lambda>n. nic_vm n \<notin> gone) (nics d)\<rparr>\<rparr>)))"

definition without_backups :: "monitor \<Rightarrow> int \<Rightarrow> guest_row \<Rightarrow> bool" where
  "without_backups m cl g = (gu_cluster g = cl \<and> gu_missing g \<noteq> None
     \<and> \<not> list_ex (\<lambda>e. ev_guest e = gu_id g \<and> real_backup e) (m_events m))"

definition prune_gone_vms_without_backups :: "int \<Rightarrow> monitor \<Rightarrow> nat \<times> monitor" where
  "prune_gone_vms_without_backups cl m = delete_guests (without_backups m cl) m"

definition list_known_vmids :: "int \<Rightarrow> monitor \<Rightarrow> int set" where
  "list_known_vmids cl m = set (map gu_vmid (filter (\<lambda>g. gu_cluster g = cl) (m_guests m)))"

definition known_job_storages :: "int \<Rightarrow> monitor \<Rightarrow> (int \<times> string list) list" where
  "known_job_storages cl m = map (\<lambda>g. (gu_vmid g, gu_storages g))
     (filter (\<lambda>g. gu_cluster g = cl \<and> gu_missing g = None \<and> gu_storages g \<noteq> []) (m_guests m))"

definition latest_real :: "event_row list \<Rightarrow> int \<Rightarrow> int option" where
  "latest_real events i = map_option ev_started (py_max ev_started (filter (\<lambda>e. ev_guest e = i \<and> real_backup e) events))"

definition update_vm_last_backup_from_events :: "int \<Rightarrow> monitor \<Rightarrow> monitor" where
  "update_vm_last_backup_from_events cl m = m\<lparr>m_guests := map (\<lambda>g. if gu_cluster g = cl
     then g\<lparr>gu_last_backup := latest_real (m_events m) (gu_id g)\<rparr> else g) (m_guests m)\<rparr>"

section \<open>Backup events\<close>

record seen_event =
  se_vmid :: int
  se_started :: int
  se_finished :: "int option"
  se_duration :: "int option"
  se_size :: "int option"
  se_encrypted :: "bool option"
  se_verify :: "string option"
  se_state :: string
  se_upid :: string
  se_guest_name :: "string option"
  se_origin :: "string option"
  se_storage :: "string option"
  se_location :: "string option"

definition to_minute :: "int \<Rightarrow> int" where "to_minute t = t - t mod minutes 1"

text \<open>\<open>vmid_to_id.get(vmid)\<close>\<close>

definition guest_id :: "monitor \<Rightarrow> int \<Rightarrow> int \<Rightarrow> int option" where
  "guest_id m cl v = map_option gu_id (List.find (guest_at cl v) (m_guests m))"

definition event_key :: "event_row \<Rightarrow> int \<times> int" where
  "event_key e = (ev_guest e, ev_started e)"

definition event_row_of :: "string \<Rightarrow> int \<Rightarrow> seen_event \<Rightarrow> event_row" where
  "event_row_of src i s = \<lparr>ev_guest = i, ev_started = to_minute (se_started s), ev_finished = se_finished s,
     ev_duration = se_duration s, ev_bytes = se_size s, ev_encrypted = se_encrypted s, ev_verify = se_verify s, ev_state = se_state s,
     ev_upid = se_upid s, ev_source = src, ev_guest_name = se_guest_name s, ev_origin = se_origin s, ev_removed_at = None,
     ev_storages = None, ev_places = None, ev_transferred = None, ev_throughput = None, ev_reused = None, ev_full = None\<rparr>"

text \<open>\<open>ON CONFLICT (vm_id, started_at) DO UPDATE\<close> of the new row \<open>n\<close> against the old row \<open>e\<close>\<close>

definition merge_event :: "event_row \<Rightarrow> event_row \<Rightarrow> event_row" where
  "merge_event n e = e\<lparr>
     ev_bytes := coalesce (ev_bytes n) (ev_bytes e),
     ev_encrypted := coalesce (ev_encrypted n) (ev_encrypted e),
     ev_verify := coalesce (ev_verify n) (ev_verify e),
     ev_guest_name := coalesce (ev_guest_name n) (ev_guest_name e),
     ev_source := (if ev_source e = ''pbs'' \<and> ev_source n = ''pve'' then ''pbs'' else ev_source n),
     ev_origin := (if ev_origin n = Some ''pbs'' then Some ''pbs'' else coalesce (ev_origin e) (ev_origin n)),
     ev_state := (if real_size (ev_bytes n) then ev_state n else if ev_state e = ''failed'' then ev_state e else ev_state n),
     ev_finished := (if real_size (ev_bytes n) then coalesce (ev_finished n) (ev_finished e) else ev_finished e),
     ev_removed_at := None\<rparr>"

definition upsert_event :: "event_row \<Rightarrow> event_row list \<Rightarrow> event_row list" where
  "upsert_event n es = (if list_ex (\<lambda>e. event_key e = event_key n) es
     then map (\<lambda>e. if event_key e = event_key n then merge_event n e else e) es else es @ [n])"

definition new_rows :: "monitor \<Rightarrow> int \<Rightarrow> string \<Rightarrow> seen_event list \<Rightarrow> event_row list" where
  "new_rows m cl src seen = concat (map (\<lambda>s. case guest_id m cl (se_vmid s) of None \<Rightarrow> [] | Some i \<Rightarrow> [event_row_of src i s]) seen)"

definition cluster_guest_ids :: "monitor \<Rightarrow> int \<Rightarrow> int set" where
  "cluster_guest_ids m cl = set (map gu_id (filter (\<lambda>g. gu_cluster g = cl) (m_guests m)))"

definition sync_backup_events_for_source :: "int \<Rightarrow> string \<Rightarrow> seen_event list \<Rightarrow> bool \<Rightarrow> monitor \<Rightarrow> monitor" where
  "sync_backup_events_for_source cl src seen mark_removed m =
     (let rows = new_rows m cl src seen; seen_keys = set (map event_key rows); ids = cluster_guest_ids m cl;
          es = fold upsert_event rows (m_events m); today = date_of (now_of m)
      in refresh (m\<lparr>m_events := (if ids = {} \<or> \<not> mark_removed then es
           else map (\<lambda>e. if ev_guest e \<in> ids \<and> ev_source e = src \<and> ev_removed_at e = None \<and> (ev_guest e, to_minute (ev_started e)) \<notin> seen_keys
                         then e\<lparr>ev_removed_at := Some today\<rparr> else e) es)\<rparr>))"

text \<open>On which storages a backup lies: the sets of everything that was seen for its start minute.\<close>

definition seen_places :: "(seen_event \<Rightarrow> string option) \<Rightarrow> seen_event list \<Rightarrow> int \<times> int \<Rightarrow> string list" where
  "seen_places f seen key = sort (remdups (concat (map (\<lambda>s. if truthy_str (se_storage s) \<and> (se_vmid s, to_minute (se_started s)) = key \<and> truthy_str (f s)
     then [opt_or (f s) []] else []) seen)))"

definition update_backup_event_storages :: "int \<Rightarrow> seen_event list \<Rightarrow> monitor \<Rightarrow> monitor" where
  "update_backup_event_storages cl seen m = refresh (m\<lparr>m_events := map (\<lambda>e.
     case List.find (\<lambda>g. gu_cluster g = cl \<and> gu_id g = ev_guest e) (m_guests m) of
       None \<Rightarrow> e
     | Some g \<Rightarrow> (let key = (gu_vmid g, ev_started e) in
         if seen_places se_storage seen key = [] then e\<lparr>ev_storages := None, ev_places := None\<rparr>
         else e\<lparr>ev_storages := Some (seen_places se_storage seen key), ev_places := Some (seen_places se_location seen key)\<rparr>)) (m_events m)\<rparr>)"

section \<open>Stubs of running backups\<close>

definition stub :: "event_row \<Rightarrow> bool" where
  "stub e = (ev_removed_at e = None \<and> \<not> real_size (ev_bytes e))"

definition superseded :: "event_row list \<Rightarrow> event_row \<Rightarrow> bool" where
  "superseded es e = list_ex (\<lambda>q. ev_guest q = ev_guest e \<and> ev_started q > ev_started e \<and> ev_started q < ev_started e + hours_us 36
     \<and> real_backup q) es"

definition orphaned :: "monitor \<Rightarrow> int set \<Rightarrow> int \<Rightarrow> event_row \<Rightarrow> bool" where
  "orphaned m ids max_age_hours e = (ev_guest e \<in> ids \<and> ev_finished e = None \<and> stub e \<and> ev_state e \<noteq> ''failed''
     \<and> ev_started e < now_of m - hours_us max_age_hours)"

definition cleanup_stale_inprogress_backups :: "int \<Rightarrow> int \<Rightarrow> monitor \<Rightarrow> nat \<times> monitor" where
  "cleanup_stale_inprogress_backups cl max_age_hours m =
     (let ids = cluster_guest_ids m cl; es = m_events m;
          dropped = filter (\<lambda>e. ev_guest e \<in> ids \<and> stub e \<and> superseded es e) es;
          kept = filter (\<lambda>e. \<not> (ev_guest e \<in> ids \<and> stub e \<and> superseded es e)) es;
          aborted = filter (orphaned m ids max_age_hours) kept
      in (length dropped + length aborted,
          refresh (m\<lparr>m_events := map (\<lambda>e. if orphaned m ids max_age_hours e
             then e\<lparr>ev_finished := Some (now_of m), ev_state := ''failed''\<rparr> else e) kept\<rparr>)))"

section \<open>Task logs\<close>

text \<open>The event of a guest whose start is closest to a run's, within ten minutes; of equally close
  ones the first (the query leaves the choice open).\<close>

definition closest_event :: "(event_row \<Rightarrow> bool) \<Rightarrow> int \<Rightarrow> int \<Rightarrow> event_row list \<Rightarrow> event_row option" where
  "closest_event P i at_time es = py_max (\<lambda>e. - \<bar>ev_started e - at_time\<bar>)
     (filter (\<lambda>e. ev_guest e = i \<and> P e \<and> at_time - minutes 10 \<le> ev_started e \<and> ev_started e \<le> at_time + minutes 10) es)"

definition attach_run :: "int \<Rightarrow> backup_run \<Rightarrow> nat \<times> monitor \<Rightarrow> nat \<times> monitor" where
  "attach_run cl run um = (case um of (unmatched, m) \<Rightarrow>
     (case (br_started_at run, guest_id m cl (br_vmid run)) of
        (Some at_time, Some i) \<Rightarrow>
          if br_failed run then
            (case closest_event (\<lambda>e. ev_finished e = None \<and> ev_state e \<noteq> ''failed'' \<and> \<not> real_size (ev_bytes e)) i at_time (m_events m) of
               None \<Rightarrow> (unmatched, m)
             | Some c \<Rightarrow> (unmatched, m\<lparr>m_events := map (\<lambda>e. if event_key e = event_key c
                   then e\<lparr>ev_state := ''failed'', ev_finished := Some (now_of m)\<rparr> else e) (m_events m)\<rparr>))
          else
            (case closest_event (\<lambda>e. True) i at_time (m_events m) of
               None \<Rightarrow> (unmatched + 1, m)
             | Some c \<Rightarrow> (unmatched, m\<lparr>m_events := map (\<lambda>e. if event_key e = event_key c
                   then e\<lparr>ev_duration := coalesce (br_duration run) (ev_duration e), ev_transferred := coalesce (br_transferred run) (ev_transferred e),
                          ev_throughput := coalesce (br_throughput run) (ev_throughput e), ev_reused := coalesce (br_reused_pct run) (ev_reused e),
                          ev_full := coalesce (br_full run) (ev_full e)\<rparr> else e) (m_events m)\<rparr>))
      | _ \<Rightarrow> (unmatched, m)))"

definition update_backup_event_details :: "int \<Rightarrow> backup_run list \<Rightarrow> monitor \<Rightarrow> nat \<times> monitor" where
  "update_backup_event_details cl runs_read m = (case fold (attach_run cl) runs_read (0, m) of (n, m') \<Rightarrow> (n, refresh m'))"

definition processed_backup_task_upids :: "int \<Rightarrow> monitor \<Rightarrow> string set" where
  "processed_backup_task_upids cl m = set (map fst (filter (\<lambda>p. fst (snd p) = cl) (m_processed m)))"

definition mark_backup_tasks_processed :: "int \<Rightarrow> string list \<Rightarrow> monitor \<Rightarrow> monitor" where
  "mark_backup_tasks_processed cl upids m = m\<lparr>m_processed :=
     filter (\<lambda>p. \<not> (fst (snd p) = cl \<and> snd (snd p) < now_of m - 35 * day))
       (foldl (\<lambda>ps u. if list_ex (\<lambda>p. fst p = u) ps then ps else ps @ [(u, cl, now_of m)]) (m_processed m) upids)\<rparr>"

section \<open>Reading\<close>

text \<open>\<open>PERCENTILE_CONT(0.5)\<close> interpolates between the two middle values.\<close>

definition median :: "int list \<Rightarrow> rat" where
  "median xs = (let s = sort xs; n = length s in (of_int (s ! ((n - 1) div 2)) + of_int (s ! (n div 2))) / 2)"

definition typical_backup_durations :: "int \<Rightarrow> monitor \<Rightarrow> (int \<times> int) list" where
  "typical_backup_durations cl m = concat (map (\<lambda>g.
     (let recent = take 10 (map (\<lambda>e. opt_or (ev_duration e) 0) (sorted_desc ev_started
            (filter (\<lambda>e. ev_guest e = gu_id g \<and> ev_state e = ''ok'' \<and> ev_duration e \<noteq> None) (m_events m))))
      in if length recent \<ge> 3 then [(gu_vmid g, py_trunc (median recent))] else []))
     (filter (\<lambda>g. gu_cluster g = cl) (m_guests m)))"

definition list_nodes :: "int \<Rightarrow> monitor \<Rightarrow> (string \<times> string) list" where
  "list_nodes cl m = sort_key fst (map snd (filter (\<lambda>r. fst r = cl) (m_nodes m)))"

section \<open>One synchronisation\<close>

text \<open>What a sync reads: nodes, guests and backups through PVE with the errors of the sources that
  could not be read, and for every registered PBS its backups and whether the read was complete.
  \<open>se_origin\<close> says through what an event was read; an event of a PBS storage that came through PVE
  is the one that the sync tags \<open>_from_pve\<close>.\<close>

record fetched =
  fe_nodes :: "(string \<times> string) list"
  fe_guests :: "seen_guest list"
  fe_events :: "(bool \<times> seen_event) list"
  fe_errors :: "string list"
  fe_pbs :: "(seen_event list \<times> bool) list"
  fe_runs :: "backup_run list"

definition hour_of :: "int \<Rightarrow> int" where "hour_of t = t div hours_us 1"

definition from_pve :: "seen_event \<Rightarrow> bool" where "from_pve s = (se_origin s = Some ''pve'')"

definition dedup_pbs_events :: "seen_event list \<Rightarrow> seen_event list" where
  "dedup_pbs_events events =
     (let direct = set (map (\<lambda>s. (se_vmid s, hour_of (se_started s))) (filter (\<lambda>s. \<not> from_pve s) events))
      in filter (\<lambda>s. \<not> from_pve s \<or> \<not> ((se_vmid s, hour_of (se_started s)) \<in> direct
           \<or> (se_vmid s, hour_of (se_started s) - 1) \<in> direct \<or> (se_vmid s, hour_of (se_started s) + 1) \<in> direct)) events)"

definition prune_blocked :: "fetched \<Rightarrow> bool" where
  "prune_blocked f = (fe_guests f = [] \<or> fe_errors f \<noteq> [] \<or> \<not> list_all snd (fe_pbs f))"

definition pve_file_events :: "fetched \<Rightarrow> seen_event list" where
  "pve_file_events f = map snd (filter (\<lambda>p. \<not> fst p) (fe_events f))"

definition pbs_events :: "fetched \<Rightarrow> seen_event list" where
  "pbs_events f = dedup_pbs_events (map (\<lambda>p. snd p\<lparr>se_origin := Some ''pve''\<rparr>) (filter fst (fe_events f))
     @ map (\<lambda>s. s\<lparr>se_origin := Some ''pbs''\<rparr>) (concat (map fst (fe_pbs f))))"

definition sync_events :: "int \<Rightarrow> fetched \<Rightarrow> monitor \<Rightarrow> monitor" where
  "sync_events cl f m =
     (let m = sync_backup_events_for_source cl ''pve'' (pve_file_events f) True m;
          m = sync_backup_events_for_source cl ''pbs'' (pbs_events f) (list_all snd (fe_pbs f)) m;
          m = update_backup_event_storages cl (pve_file_events f @ pbs_events f) m;
          m = snd (cleanup_stale_inprogress_backups cl 6 m);
          m = update_vm_last_backup_from_events cl m
      in snd (update_backup_event_details cl (fe_runs f) m))"

definition sync_cluster_backups :: "int \<Rightarrow> fetched \<Rightarrow> monitor \<Rightarrow> exn + monitor" where
  "sync_cluster_backups cl f m =
     rmap (\<lambda>m. let m = sync_events cl f m in if prune_blocked f then m else snd (prune_gone_vms_without_backups cl m))
       (sync_cluster_inventory cl (fe_nodes f) (fe_guests f) m)"

end
