(* ===== verification/MonitorProps.thy ===== *)
theory MonitorProps imports Monitor BackupStatus RestoreWorker begin

text \<open>
  What a synchronisation does to the tables: reading the same backups twice changes nothing, the
  rows that are shown as present are exactly those that were read, a guest is deleted only after a
  complete read \<dots> and what an incomplete read and the deletion of a guest nevertheless destroy.
\<close>

section \<open>The view of restore testing\<close>

lemma refresh_simps [simp]:
  "m_guests (refresh m) = m_guests m" "m_events (refresh m) = m_events m" "m_disks (refresh m) = m_disks m"
  "m_nodes (refresh m) = m_nodes m" "m_next_guest (refresh m) = m_next_guest m" "m_processed (refresh m) = m_processed m"
  "m_clusters (refresh m) = m_clusters m" "now_of (refresh m) = now_of m"
  "runs (m_restore (refresh m)) = runs (m_restore m)" "tests (m_restore (refresh m)) = tests (m_restore m)"
  "nics (m_restore (refresh m)) = nics (m_restore m)"
  by (simp_all add: refresh_def now_of_def)

lemma find_map: "List.find P (map f xs) = map_option f (List.find (\<lambda>x. P (f x)) xs)"
  by (induction xs) simp_all

lemma find_Some_in: "List.find P xs = Some x \<Longrightarrow> x \<in> set xs \<and> P x"
  by (induction xs) (auto split: if_splits)

lemma policy_of_refresh:
  "g \<in> set (m_guests m) \<Longrightarrow> policy_of (m_restore (refresh m)) (gu_id g) = policy_of (m_restore m) (gu_id g)"
proof -
  assume g: "g \<in> set (m_guests m)"
  have "List.find (\<lambda>h. gu_id h = gu_id g) (m_guests m) \<noteq> None"
    using g by (auto simp: find_None_iff)
  then obtain h where h: "List.find (\<lambda>h. gu_id h = gu_id g) (m_guests m) = Some h" by blast
  then have "gu_id h = gu_id g" by (auto simp: find_Some_iff)
  moreover have "List.find (\<lambda>p. vm_id (fst p) = gu_id g) (vms (m_restore (refresh m)))
      = Some (vm_view m h, policy_of (m_restore m) (gu_id h))"
    using h by (simp add: refresh_def find_map vm_view_def)
  ultimately show ?thesis by (simp add: policy_of_def [of "m_restore (refresh m)"])
qed

lemma refresh_again: "m_guests m' = m_guests m \<Longrightarrow> m_events m' = es \<Longrightarrow> m_disks m' = m_disks m \<Longrightarrow> m_clusters m' = m_clusters m
  \<Longrightarrow> m_restore m' = m_restore (refresh (m\<lparr>m_events := es\<rparr>)) \<Longrightarrow> m_nodes m' = m_nodes m \<Longrightarrow> m_next_guest m' = m_next_guest m
  \<Longrightarrow> m_processed m' = m_processed m \<Longrightarrow> refresh m' = refresh (m\<lparr>m_events := es\<rparr>)"
proof -
  assume a: "m_guests m' = m_guests m" "m_events m' = es" "m_disks m' = m_disks m" "m_clusters m' = m_clusters m"
    "m_restore m' = m_restore (refresh (m\<lparr>m_events := es\<rparr>))" "m_nodes m' = m_nodes m" "m_next_guest m' = m_next_guest m"
    "m_processed m' = m_processed m"
  let ?n = "m\<lparr>m_events := es\<rparr>"
  have p: "map (\<lambda>g. (vm_view m' g, policy_of (m_restore m') (gu_id g))) (m_guests m')
      = map (\<lambda>g. (vm_view ?n g, policy_of (m_restore ?n) (gu_id g))) (m_guests ?n)"
    using policy_of_refresh [of _ ?n] a(1,4,5) by (simp add: vm_view_def)
  have "m_restore (refresh m') = m_restore (refresh ?n)"
    unfolding refresh_def using p a by (simp add: refresh_def)
  then show ?thesis using a by (intro monitor.equality) simp_all
qed

section \<open>Reading the same backups again changes nothing\<close>

text \<open>What the new rows with the key of an event do to it, one after the other.\<close>

definition merge_all :: "event_row list \<Rightarrow> event_row \<Rightarrow> event_row" where
  "merge_all ns e = fold merge_event (filter (\<lambda>n. event_key n = event_key e) ns) e"

lemma merge_event_key [simp]: "event_key (merge_event n e) = event_key e"
  by (simp add: merge_event_def event_key_def)

lemma merge_all_key [simp]: "event_key (fold merge_event ns e) = event_key e" "event_key (merge_all ns e) = event_key e"
proof -
  show "event_key (fold merge_event ns e) = event_key e" for ns by (induction ns arbitrary: e) simp_all
  then show "event_key (merge_all ns e) = event_key e" by (simp add: merge_all_def)
qed

lemma coalesce_simps [simp]: "coalesce None y = y" "coalesce (Some v) y = Some v" "coalesce x None = x" "coalesce x x = x"
  by (simp_all add: coalesce_def split: option.splits)

lemma coalesce_assoc: "coalesce (coalesce x y) z = coalesce x (coalesce y z)"
  by (cases x) simp_all

definition last_some :: "'a option list \<Rightarrow> 'a option" where "last_some xs = fold coalesce xs None"

lemma fold_coalesce: "fold coalesce xs y = coalesce (last_some xs) y"
proof (induction xs rule: rev_induct)
  case (snoc x xs)
  then show ?case by (simp add: last_some_def coalesce_assoc)
qed (simp add: last_some_def)

lemma twice: "(\<forall>s. f s = s) \<or> (\<exists>c. \<forall>s. f s = c) \<or> (\<exists>c. c \<noteq> b \<and> (\<forall>s. f s = (if s = b then b else c))) \<Longrightarrow> f (f s) = f s"
  by auto

definition state_step :: "event_row \<Rightarrow> string \<Rightarrow> string" where
  "state_step n s = (if real_size (ev_bytes n) then ev_state n else if s = ''failed'' then s else ev_state n)"

lemma state_steps: "(\<forall>s. fold state_step ns s = s) \<or> (\<exists>c. \<forall>s. fold state_step ns s = c)
    \<or> (\<exists>c. c \<noteq> ''failed'' \<and> (\<forall>s. fold state_step ns s = (if s = ''failed'' then ''failed'' else c)))"
proof (induction ns rule: rev_induct)
  case (snoc n ns)
  have s: "fold state_step (ns @ [n]) s = state_step n (fold state_step ns s)" for s by simp
  show ?case
  proof (cases "real_size (ev_bytes n) \<or> ev_state n = ''failed''")
    case True
    then have "fold state_step (ns @ [n]) s = ev_state n" for s by (auto simp: state_step_def)
    then show ?thesis by blast
  next
    case False
    then have n: "state_step n v = (if v = ''failed'' then ''failed'' else ev_state n)" "ev_state n \<noteq> ''failed''" for v
      by (simp_all add: state_step_def)
    from snoc.IH show ?thesis
    proof (elim disjE exE conjE)
      fix c assume "\<forall>s. fold state_step ns s = c"
      then have "\<forall>s. fold state_step (ns @ [n]) s = state_step n c" by simp
      then show ?thesis by blast
    next
      fix c assume c: "c \<noteq> ''failed''" "\<forall>s. fold state_step ns s = (if s = ''failed'' then ''failed'' else c)"
      then have "\<forall>s. fold state_step (ns @ [n]) s = (if s = ''failed'' then ''failed'' else ev_state n)" by (simp add: n)
      then show ?thesis using n(2) by blast
    next
      assume "\<forall>s. fold state_step ns s = s"
      then have "\<forall>s. fold state_step (ns @ [n]) s = (if s = ''failed'' then ''failed'' else ev_state n)" by (simp add: n)
      then show ?thesis using n(2) by blast
    qed
  qed
qed simp

definition origin_step :: "event_row \<Rightarrow> string option \<Rightarrow> string option" where
  "origin_step n s = (if ev_origin n = Some ''pbs'' then Some ''pbs'' else coalesce s (ev_origin n))"

lemma origin_steps: "fold origin_step ns s =
    (if list_ex (\<lambda>n. ev_origin n = Some ''pbs'') ns then Some ''pbs'' else coalesce s (last_some (rev (map ev_origin ns))))"
proof (induction ns rule: rev_induct)
  case (snoc n ns)
  have l: "last_some (x # xs) = coalesce (last_some xs) x" for x :: "string option" and xs
    using fold_coalesce [of xs x] by (simp add: last_some_def)
  show ?case using snoc by (auto simp: origin_step_def l coalesce_assoc)
qed (simp add: last_some_def)

lemma fold_merge_fields:
  "ev_bytes (fold merge_event ns e) = coalesce (last_some (map ev_bytes ns)) (ev_bytes e)"
  "ev_encrypted (fold merge_event ns e) = coalesce (last_some (map ev_encrypted ns)) (ev_encrypted e)"
  "ev_verify (fold merge_event ns e) = coalesce (last_some (map ev_verify ns)) (ev_verify e)"
  "ev_guest_name (fold merge_event ns e) = coalesce (last_some (map ev_guest_name ns)) (ev_guest_name e)"
  "ev_finished (fold merge_event ns e)
     = coalesce (last_some (map (\<lambda>n. if real_size (ev_bytes n) then ev_finished n else None) ns)) (ev_finished e)"
  "ev_state (fold merge_event ns e) = fold state_step ns (ev_state e)"
  "ev_origin (fold merge_event ns e) = fold origin_step ns (ev_origin e)"
  "ev_removed_at (fold merge_event ns e) = (if ns = [] then ev_removed_at e else None)"
  "ev_guest (fold merge_event ns e) = ev_guest e" "ev_started (fold merge_event ns e) = ev_started e"
  "ev_duration (fold merge_event ns e) = ev_duration e" "ev_upid (fold merge_event ns e) = ev_upid e"
  "ev_storages (fold merge_event ns e) = ev_storages e" "ev_places (fold merge_event ns e) = ev_places e"
  "ev_transferred (fold merge_event ns e) = ev_transferred e" "ev_throughput (fold merge_event ns e) = ev_throughput e"
  "ev_reused (fold merge_event ns e) = ev_reused e" "ev_full (fold merge_event ns e) = ev_full e"
  by (induction ns rule: rev_induct; simp add: merge_event_def last_some_def state_step_def origin_step_def coalesce_assoc)+

lemma fold_merge_source:
  "(\<And>n. n \<in> set ns \<Longrightarrow> ev_source n = src) \<Longrightarrow>
    ev_source (fold merge_event ns e) = (if ns = [] then ev_source e else if ev_source e = ''pbs'' \<and> src = ''pve'' then ''pbs'' else src)"
  by (induction ns rule: rev_induct) (auto simp: merge_event_def)

lemma fold_merge_twice:
  assumes "\<And>n. n \<in> set ns \<Longrightarrow> ev_source n = src"
  shows "fold merge_event ns (fold merge_event ns e) = fold merge_event ns e"
proof -
  have st: "fold state_step ns (fold state_step ns s) = fold state_step ns s" for s
    using twice [OF state_steps [of ns]] .
  have or: "fold origin_step ns (fold origin_step ns s) = fold origin_step ns s" for s
    by (simp add: origin_steps coalesce_assoc)
  show ?thesis
    by (rule event_row.equality)
      (simp_all add: fold_merge_fields fold_merge_source [OF assms] st or coalesce_assoc [symmetric])
qed

lemma merge_event_self: "ev_removed_at n = None \<Longrightarrow> merge_event n n = n"
  by (rule event_row.equality) (auto simp: merge_event_def)

lemma merge_all_snoc: "merge_all (ns @ [n]) e = (if event_key n = event_key e then merge_event n (merge_all ns e) else merge_all ns e)"
  by (simp add: merge_all_def)

lemma upsert_in:
  assumes "e \<in> set (upsert_event n xs)"
  obtains (merged) e1 where "e1 \<in> set xs" "e = (if event_key e1 = event_key n then merge_event n e1 else e1)"
    | (inserted) "e = n" "event_key n \<notin> event_key ` set xs"
proof (cases "list_ex (\<lambda>q. event_key q = event_key n) xs")
  case True
  then show ?thesis using assms merged by (auto simp: upsert_event_def)
next
  case False
  then have "event_key n \<notin> event_key ` set xs" by (auto simp: list_ex_iff)
  moreover have "e = n \<or> e \<in> set xs" using assms False by (auto simp: upsert_event_def)
  ultimately show ?thesis using inserted merged [of e] by (metis image_eqI)
qed

lemma upsert_keys: "event_key ` set (upsert_event n xs) = insert (event_key n) (event_key ` set xs)"
proof (cases "list_ex (\<lambda>e. event_key e = event_key n) xs")
  case True
  have "event_key (if event_key e = event_key n then merge_event n e else e) = event_key e" for e by simp
  then have "event_key ` set (upsert_event n xs) = event_key ` set xs"
    unfolding upsert_event_def if_P [OF True] set_map image_image by (simp only:)
  moreover obtain e where "e \<in> set xs" "event_key e = event_key n" using True unfolding list_ex_iff by blast
  then have "event_key n \<in> event_key ` set xs" using imageI [of e "set xs" event_key] by simp
  ultimately show ?thesis by (simp add: insert_absorb)
qed (simp add: upsert_event_def)

lemma upserted_keys:
  "event_key ` set (fold upsert_event ns es) = event_key ` set es \<union> event_key ` set ns"
  by (induction ns rule: rev_induct) (simp_all add: upsert_keys)

text \<open>Every row of the table after the upserts is what they made of some row.\<close>

lemma upserted_rows:
  assumes "\<And>n. n \<in> set ns \<Longrightarrow> ev_removed_at n = None" and "e \<in> set (fold upsert_event ns es)"
  shows "\<exists>e0. e = merge_all ns e0 \<and> (e0 \<in> set es \<or> e0 \<in> set ns)"
  using assms
proof (induction ns arbitrary: e rule: rev_induct)
  case Nil
  then show ?case by (simp add: merge_all_def)
next
  case (snoc n ns)
  let ?old = "fold upsert_event ns es"
  have "e \<in> set (upsert_event n ?old)" using snoc.prems(2) by simp
  then show ?case
  proof (cases rule: upsert_in)
    case (merged e1)
    obtain e0 where "e1 = merge_all ns e0" "e0 \<in> set es \<or> e0 \<in> set ns"
      using snoc.IH [OF _ merged(1)] snoc.prems(1) by auto
    then show ?thesis using merged(2) by (intro exI [of _ e0]) (auto simp: merge_all_snoc)
  next
    case inserted
    have "event_key q \<noteq> event_key n" if "q \<in> set ns" for q
    proof -
      have "event_key q \<in> event_key ` set ?old" using that by (simp add: upserted_keys)
      then show ?thesis using inserted(2) by metis
    qed
    then have "filter (\<lambda>q. event_key q = event_key n) ns = []" by (simp add: filter_empty_conv)
    then have "merge_all (ns @ [n]) n = merge_event n n" by (simp add: merge_all_def)
    also have "\<dots> = n" using snoc.prems(1) by (intro merge_event_self) simp
    finally show ?thesis using inserted(1) by (intro exI [of _ n]) simp
  qed
qed

lemma upsert_present: "event_key n \<in> event_key ` set es \<Longrightarrow> upsert_event n es = map (\<lambda>e. if event_key e = event_key n then merge_event n e else e) es"
  by (auto simp: upsert_event_def list_ex_iff image_iff)

lemma upserts_present:
  "event_key ` set ns \<subseteq> event_key ` set es \<Longrightarrow> fold upsert_event ns es = map (merge_all ns) es"
proof (induction ns rule: rev_induct)
  case Nil
  then show ?case by (simp add: merge_all_def cong: map_cong)
next
  case (snoc n ns)
  then have ih: "fold upsert_event ns es = map (merge_all ns) es" by simp
  have "event_key n \<in> event_key ` set (map (merge_all ns) es)" using snoc.prems by (force simp: image_image)
  then show ?case using ih by (auto simp: upsert_present merge_all_snoc)
qed

lemma upsert_twice:
  assumes "\<And>n. n \<in> set ns \<Longrightarrow> ev_removed_at n = None" and "\<And>n. n \<in> set ns \<Longrightarrow> ev_source n = src"
  shows "fold upsert_event ns (fold upsert_event ns es) = fold upsert_event ns es"
proof -
  let ?t = "fold upsert_event ns es"
  have "merge_all ns e = e" if e: "e \<in> set ?t" for e
  proof -
    obtain e0 where e0: "e = merge_all ns e0" using upserted_rows [OF assms(1) e] by blast
    have "merge_all ns (merge_all ns e0) = fold merge_event (filter (\<lambda>n. event_key n = event_key e0) ns)
        (fold merge_event (filter (\<lambda>n. event_key n = event_key e0) ns) e0)"
      by (simp add: merge_all_def)
    also have "\<dots> = merge_all ns e0"
      unfolding merge_all_def by (rule fold_merge_twice) (use assms(2) in auto)
    finally show ?thesis using e0 by simp
  qed
  then have "map (merge_all ns) ?t = ?t" by (simp add: map_idI)
  then show ?thesis using upserts_present [of ns ?t] upserted_keys [of ns es] by simp
qed

lemma new_rows_facts: "n \<in> set (new_rows m cl src seen) \<Longrightarrow>
    ev_removed_at n = None \<and> ev_source n = src \<and> to_minute (ev_started n) = ev_started n \<and> ev_guest n \<in> cluster_guest_ids m cl"
proof -
  have t: "to_minute (to_minute x) = to_minute x" for x by (simp add: to_minute_def mod_diff_left_eq [symmetric])
  assume "n \<in> set (new_rows m cl src seen)"
  then obtain s i where n: "n = event_row_of src i s" "guest_id m cl (se_vmid s) = Some i"
    by (auto simp: new_rows_def split: option.splits)
  from n(2) obtain g where "List.find (guest_at cl (se_vmid s)) (m_guests m) = Some g" "gu_id g = i"
    by (auto simp: guest_id_def)
  then have "g \<in> set (m_guests m)" "gu_cluster g = cl" "gu_id g = i"
    using find_Some_in [of "guest_at cl (se_vmid s)" "m_guests m" g] by (simp_all add: guest_at_def)
  then show ?thesis using n(1) t by (auto simp: event_row_of_def cluster_guest_ids_def)
qed

text \<open>Marking rows as removed leaves what the upserts read of them alone.\<close>

definition mark_unseen :: "(event_row \<Rightarrow> bool) \<Rightarrow> int \<Rightarrow> event_row \<Rightarrow> event_row" where
  "mark_unseen P today e = (if P e \<and> ev_removed_at e = None then e\<lparr>ev_removed_at := Some today\<rparr> else e)"

lemma upserts_marked:
  assumes "\<And>n. n \<in> set ns \<Longrightarrow> ev_removed_at n = None" and "\<And>n. n \<in> set ns \<Longrightarrow> ev_source n = src"
    and "\<And>e. P e \<Longrightarrow> event_key e \<notin> event_key ` set ns" and "\<And>e t. P (e\<lparr>ev_removed_at := t\<rparr>) = P e"
  shows "map (mark_unseen P today) (fold upsert_event ns (map (mark_unseen P today) (fold upsert_event ns es)))
    = map (mark_unseen P today) (fold upsert_event ns es)"
proof -
  let ?t = "fold upsert_event ns es" and ?f = "mark_unseen P today"
  have key: "event_key (?f e) = event_key e" for e by (simp add: mark_unseen_def event_key_def)
  have "event_key ` set ns \<subseteq> event_key ` set (map ?f ?t)" using upserted_keys [of ns es] key by (auto simp: image_image)
  then have "fold upsert_event ns (map ?f ?t) = map (merge_all ns) (map ?f ?t)" by (rule upserts_present)
  moreover have "event_key ` set ns \<subseteq> event_key ` set ?t" using upserted_keys [of ns es] by auto
  then have fixed: "map (merge_all ns) ?t = ?t" using upserts_present [of ns ?t] upsert_twice [OF assms(1,2)] by simp
  moreover have "?f (merge_all ns (?f e)) = ?f e" if "e \<in> set ?t" for e
  proof (cases "P e")
    case True
    then have "filter (\<lambda>n. event_key n = event_key (?f e)) ns = []" unfolding filter_empty_conv using assms(3) [OF True] key by (metis image_eqI)
    then have "merge_all ns (?f e) = ?f e" by (simp add: merge_all_def)
    then show ?thesis by (simp add: mark_unseen_def assms(4))
  next
    case False
    have "merge_all ns e = e" using fixed that by (metis map_eq_conv map_ident)
    then show ?thesis using False by (simp add: mark_unseen_def)
  qed
  ultimately show ?thesis by (simp add: cong: map_cong)
qed

text \<open>C18: reading the same backups a second time at the same moment leaves every table as the
  first read left it.\<close>

theorem sync_backup_events_idempotent:
  "sync_backup_events_for_source cl src seen mark_removed (sync_backup_events_for_source cl src seen mark_removed m)
   = sync_backup_events_for_source cl src seen mark_removed m"
proof -
  let ?rows = "new_rows m cl src seen" and ?ids = "cluster_guest_ids m cl" and ?today = "date_of (now_of m)"
  let ?P = "\<lambda>e. ev_guest e \<in> ?ids \<and> ev_source e = src \<and> (ev_guest e, to_minute (ev_started e)) \<notin> event_key ` set ?rows"
  define after where "after = (\<lambda>es. let t = fold upsert_event ?rows es
    in if ?ids = {} \<or> \<not> mark_removed then t else map (mark_unseen ?P ?today) t)"
  have sync: "sync_backup_events_for_source cl src seen mark_removed m' = refresh (m'\<lparr>m_events := after (m_events m')\<rparr>)"
    if "m_guests m' = m_guests m" "now_of m' = now_of m" for m'
  proof -
    have "new_rows m' cl src seen = ?rows" "cluster_guest_ids m' cl = ?ids"
      using that(1) by (simp_all add: new_rows_def guest_id_def cluster_guest_ids_def)
    then show ?thesis using that(2)
      unfolding sync_backup_events_for_source_def after_def mark_unseen_def Let_def by (simp add: conj_commute conj_left_commute cong: if_cong)
  qed
  have np: "event_key e \<notin> event_key ` set ?rows" if "?P e" for e
  proof
    assume "event_key e \<in> event_key ` set ?rows"
    then obtain n where n: "n \<in> set ?rows" "event_key e = event_key n" by blast
    then have "to_minute (ev_started e) = ev_started e" using new_rows_facts [OF n(1)] by (simp add: event_key_def)
    then show False using that n by (force simp: event_key_def)
  qed
  have "after (after es) = after es" for es
  proof (cases "?ids = {} \<or> \<not> mark_removed")
    case True
    then show ?thesis using upsert_twice [of ?rows src es] new_rows_facts unfolding after_def by (simp add: Let_def)
  next
    case False
    have "map (mark_unseen ?P ?today) (fold upsert_event ?rows (map (mark_unseen ?P ?today) (fold upsert_event ?rows es)))
        = map (mark_unseen ?P ?today) (fold upsert_event ?rows es)"
      by (rule upserts_marked [where src = src]) (use new_rows_facts np in auto)
    then show ?thesis using False unfolding after_def by (simp add: Let_def)
  qed
  note again = this
  let ?s = "sync_backup_events_for_source cl src seen mark_removed"
  have once: "?s m = refresh (m\<lparr>m_events := after (m_events m)\<rparr>)" by (rule sync) simp_all
  have "m_guests (?s m) = m_guests m" "now_of (?s m) = now_of m" unfolding once by (simp_all add: now_of_def refresh_def)
  then have "?s (?s m) = refresh ((?s m)\<lparr>m_events := after (m_events (?s m))\<rparr>)" by (rule sync)
  also have "\<dots> = refresh (m\<lparr>m_events := after (m_events m)\<rparr>)"
    unfolding once by (rule refresh_again) (simp_all add: again)
  finally show ?thesis unfolding once .
qed

section \<open>What is shown as present\<close>

text \<open>Start times are whole minutes in the table.\<close>

definition on_minutes :: "monitor \<Rightarrow> bool" where
  "on_minutes m = (\<forall>e\<in>set (m_events m). to_minute (ev_started e) = ev_started e)"

lemma merge_all_minute [simp]: "ev_started (merge_all ns e) = ev_started e" "ev_guest (merge_all ns e) = ev_guest e"
  by (simp_all add: merge_all_def fold_merge_fields)

lemma upserted_origin:
  assumes "\<And>n. n \<in> set ns \<Longrightarrow> ev_removed_at n = None" and "e \<in> set (fold upsert_event ns es)"
  shows "\<exists>e0. e0 \<in> set es \<union> set ns \<and> event_key e = event_key e0"
  using upserted_rows [OF assms] merge_all_key(2) by (metis UnI1 UnI2)

lemma upserts_seen_present:
  assumes "\<And>n. n \<in> set ns \<Longrightarrow> ev_removed_at n = None" and "e \<in> set (fold upsert_event ns es)"
    and "event_key e \<in> event_key ` set ns"
  shows "ev_removed_at e = None"
proof -
  obtain e0 where e0: "e = merge_all ns e0" using upserted_rows [OF assms(1,2)] by blast
  have "event_key e = event_key e0" using e0 by simp
  then have "\<exists>n\<in>set ns. event_key n = event_key e0" using assms(3) by force
  then have "filter (\<lambda>n. event_key n = event_key e0) ns \<noteq> []" by (auto simp: filter_empty_conv)
  then show ?thesis unfolding e0 merge_all_def by (simp add: fold_merge_fields)
qed

definition vanished :: "int \<Rightarrow> string \<Rightarrow> seen_event list \<Rightarrow> bool \<Rightarrow> monitor \<Rightarrow> event_row \<Rightarrow> bool" where
  "vanished cl src seen mark_removed m e = (mark_removed \<and> ev_guest e \<in> cluster_guest_ids m cl \<and> ev_source e = src
     \<and> (ev_guest e, to_minute (ev_started e)) \<notin> event_key ` set (new_rows m cl src seen))"

lemma synced_events: "m_events (sync_backup_events_for_source cl src seen mark_removed m)
    = map (mark_unseen (vanished cl src seen mark_removed m) (date_of (now_of m))) (fold upsert_event (new_rows m cl src seen) (m_events m))"
proof -
  have "mark_unseen P today = id" if "\<And>e. \<not> P e" for P today by (rule ext) (simp add: mark_unseen_def that)
  then have "mark_unseen (vanished cl src seen mark_removed m) today = id" if "cluster_guest_ids m cl = {} \<or> \<not> mark_removed" for today
    using that by (auto simp: vanished_def)
  then show ?thesis
    by (auto simp: sync_backup_events_for_source_def Let_def vanished_def mark_unseen_def event_key_def)
qed

lemma mark_unseen_simps [simp]:
  "event_key (mark_unseen P d t) = event_key t" "ev_source (mark_unseen P d t) = ev_source t" "ev_guest (mark_unseen P d t) = ev_guest t"
  "ev_started (mark_unseen P d t) = ev_started t" "ev_state (mark_unseen P d t) = ev_state t" "ev_bytes (mark_unseen P d t) = ev_bytes t"
  by (simp_all add: mark_unseen_def event_key_def)


section \<open>When a guest is deleted\<close>

lemma sync_guest_keeps:
  assumes "sync_guest cl s m = Inr m'"
  shows "m_events m' = m_events m" "m_restore m' = m_restore m"
    "m_guests m' = map (\<lambda>q. if guest_at cl (sg_vmid s) q then merge_guest s q else q) (m_guests m)
       @ (if list_ex (guest_at cl (sg_vmid s)) (m_guests m) then [] else [new_guest (m_next_guest m) cl s])"
    "m_next_guest m' = (if list_ex (guest_at cl (sg_vmid s)) (m_guests m) then m_next_guest m else m_next_guest m + 1)"
proof -
  have f: "List.find P xs = None \<longleftrightarrow> \<not> list_ex P xs" for P and xs :: "guest_row list"
    by (auto simp: find_None_iff list_ex_iff)
  obtain i u where u: "upsert_guest cl s m = (i, u)" by fastforce
  have "m_events u = m_events m \<and> m_restore u = m_restore m
    \<and> m_guests u = map (\<lambda>q. if guest_at cl (sg_vmid s) q then merge_guest s q else q) (m_guests m)
       @ (if list_ex (guest_at cl (sg_vmid s)) (m_guests m) then [] else [new_guest (m_next_guest m) cl s])
    \<and> m_next_guest u = (if list_ex (guest_at cl (sg_vmid s)) (m_guests m) then m_next_guest m else m_next_guest m + 1)"
  proof (cases "List.find (guest_at cl (sg_vmid s)) (m_guests m)")
    case None
    then have "map (\<lambda>q. if guest_at cl (sg_vmid s) q then merge_guest s q else q) (m_guests m) = m_guests m"
      by (intro map_idI) (auto simp: find_None_iff)
    then show ?thesis using None u f [of "guest_at cl (sg_vmid s)" "m_guests m"] by (auto simp: upsert_guest_def)
  next
    case (Some g)
    then have "list_ex (guest_at cl (sg_vmid s)) (m_guests m)" using f [of "guest_at cl (sg_vmid s)" "m_guests m"] by simp
    then show ?thesis using Some u by (auto simp: upsert_guest_def)
  qed
  then show "m_events m' = m_events m" "m_restore m' = m_restore m"
    "m_guests m' = map (\<lambda>q. if guest_at cl (sg_vmid s) q then merge_guest s q else q) (m_guests m)
       @ (if list_ex (guest_at cl (sg_vmid s)) (m_guests m) then [] else [new_guest (m_next_guest m) cl s])"
    "m_next_guest m' = (if list_ex (guest_at cl (sg_vmid s)) (m_guests m) then m_next_guest m else m_next_guest m + 1)"
    using assms u unfolding sync_guest_def by (simp_all split: if_splits) auto
qed

text \<open>Identity of a guest: its id, cluster and VMID.\<close>

definition same_guest :: "guest_row \<Rightarrow> guest_row \<Rightarrow> bool" where
  "same_guest g h = (gu_id g = gu_id h \<and> gu_cluster g = gu_cluster h \<and> gu_vmid g = gu_vmid h)"

definition keyed :: "monitor \<Rightarrow> bool" where
  "keyed m = (distinct (map gu_id (m_guests m)) \<and> (\<forall>g\<in>set (m_guests m). gu_id g < m_next_guest m))"

definition present_in :: "int \<Rightarrow> int set \<Rightarrow> monitor \<Rightarrow> bool" where
  "present_in cl A m = (\<forall>g\<in>set (m_guests m). gu_cluster g = cl \<and> gu_vmid g \<in> A \<longrightarrow> gu_missing g = None)"

lemma merge_guest_simps [simp]:
  "gu_id (merge_guest s q) = gu_id q" "gu_cluster (merge_guest s q) = gu_cluster q" "gu_vmid (merge_guest s q) = gu_vmid q"
  "gu_missing (merge_guest s q) = None"
  by (simp_all add: merge_guest_def)

definition kept_guests :: "monitor \<Rightarrow> monitor \<Rightarrow> bool" where
  "kept_guests m m' = (\<forall>g\<in>set (m_guests m). \<exists>h\<in>set (m_guests m'). same_guest g h)"

lemma kept_trans: "kept_guests a b \<Longrightarrow> kept_guests b c \<Longrightarrow> kept_guests a c"
  unfolding kept_guests_def same_guest_def by metis

lemma kept_map:
  assumes "m_guests m' = map f (m_guests m) @ xs" and "\<And>g. g \<in> set (m_guests m) \<Longrightarrow> same_guest g (f g)"
  shows "kept_guests m m'"
  unfolding kept_guests_def
proof
  fix g assume "g \<in> set (m_guests m)"
  then show "\<exists>h\<in>set (m_guests m'). same_guest g h" unfolding assms(1) using assms(2) by (intro bexI [of _ "f g"]) simp_all
qed

lemma keyed_map:
  assumes "m_guests m' = map f (m_guests m)" and "\<And>g. gu_id (f g) = gu_id g" and "m_next_guest m' = m_next_guest m"
  shows "keyed m' = keyed m"
  using assms by (simp add: keyed_def comp_def)

lemma keyed_snoc:
  assumes "m_guests m' = map f (m_guests m) @ [g]" and "\<And>g. gu_id (f g) = gu_id g" and "m_next_guest m' = m_next_guest m + 1"
    and "gu_id g = m_next_guest m" and "keyed m"
  shows "keyed m'"
  using assms by (force simp: keyed_def comp_def)

lemma present_map:
  assumes "m_guests m' = map f (m_guests m) @ xs" and "\<And>g. g \<in> set (m_guests m) \<Longrightarrow> gu_cluster (f g) = cl \<Longrightarrow> gu_vmid (f g) \<in> A \<Longrightarrow> gu_missing (f g) = None"
    and "\<And>g. g \<in> set xs \<Longrightarrow> gu_missing g = None"
  shows "present_in cl A m'"
  unfolding present_in_def assms(1) using assms(2,3) by auto

lemma sync_guest_step:
  assumes "sync_guest cl s m = Inr m'" and "keyed m" and "present_in cl A m"
  shows "keyed m'" "present_in cl (insert (sg_vmid s) A) m'" "m_events m' = m_events m" "kept_guests m m'"
proof -
  note k = sync_guest_keeps [OF assms(1)]
  let ?f = "\<lambda>q. if guest_at cl (sg_vmid s) q then merge_guest s q else q"
  have f: "gu_id (?f q) = gu_id q" "same_guest q (?f q)" for q by (simp_all add: same_guest_def)
  show "keyed m'"
  proof (cases "list_ex (guest_at cl (sg_vmid s)) (m_guests m)")
    case True
    then have "m_guests m' = map ?f (m_guests m)" "m_next_guest m' = m_next_guest m" using k(3,4) by simp_all
    then show ?thesis using keyed_map [where f = ?f] f(1) assms(2) by blast
  next
    case False
    then have g: "m_guests m' = map ?f (m_guests m) @ [new_guest (m_next_guest m) cl s]" and n: "m_next_guest m' = m_next_guest m + 1"
      using k(3,4) by simp_all
    show ?thesis by (rule keyed_snoc [OF g f(1) n _ assms(2)]) (simp add: new_guest_def)
  qed
  show "present_in cl (insert (sg_vmid s) A) m'"
  proof (rule present_map [OF k(3)])
    fix g assume "g \<in> set (m_guests m)" "gu_cluster (?f g) = cl" "gu_vmid (?f g) \<in> insert (sg_vmid s) A"
    then show "gu_missing (?f g) = None"
      using assms(3) unfolding present_in_def guest_at_def by (cases "gu_cluster g = cl \<and> gu_vmid g = sg_vmid s") auto
  next
    fix g assume "g \<in> set (if list_ex (guest_at cl (sg_vmid s)) (m_guests m) then [] else [new_guest (m_next_guest m) cl s])"
    then show "gu_missing g = None" by (simp add: new_guest_def split: if_splits)
  qed
  show "kept_guests m m'" by (rule kept_map [OF k(3) f(2)])
  show "m_events m' = m_events m" by (rule k(1))
qed

lemma sync_guests_step:
  assumes "sync_guests cl ss m = Inr m'" and "keyed m" and "present_in cl A m"
  shows "keyed m' \<and> present_in cl (A \<union> sg_vmid ` set ss) m' \<and> m_events m' = m_events m \<and> kept_guests m m'"
  using assms
proof (induction ss arbitrary: m A)
  case Nil
  then show ?case by (auto simp: kept_guests_def same_guest_def)
next
  case (Cons s ss)
  then obtain u where u: "sync_guest cl s m = Inr u" and rest: "sync_guests cl ss u = Inr m'" by (auto simp: rbind_Inr_iff)
  note st = sync_guest_step [OF u Cons.prems(2,3)]
  have "insert (sg_vmid s) A \<union> sg_vmid ` set ss = A \<union> sg_vmid ` set (s # ss)" by auto
  then show ?case using Cons.IH [OF rest st(1,2)] st(3) kept_trans [OF st(4)] by simp
qed

lemma sync_inventory_step:
  assumes "sync_cluster_inventory cl nodes guests m = Inr m'" and "keyed m"
  shows "keyed m'" "present_in cl (sg_vmid ` set guests) m'" "m_events m' = m_events m" "kept_guests m m'"
proof -
  let ?m = "m\<lparr>m_nodes := insert_nodes cl nodes (filter (\<lambda>r. fst r \<noteq> cl) (m_nodes m))\<rparr>"
  obtain u where u: "sync_guests cl guests ?m = Inr u" and m': "m' = refresh (flag_missing cl (set (map sg_vmid guests)) u)"
    using assms(1) by (auto simp: sync_cluster_inventory_def rmap_Inr_iff)
  have k: "keyed ?m" using assms(2) by (simp add: keyed_def)
  have p: "present_in cl {} ?m" by (simp add: present_in_def)
  have st: "keyed u" "present_in cl (sg_vmid ` set guests) u" "m_events u = m_events m" "kept_guests ?m u"
    using sync_guests_step [OF u k p] by simp_all
  let ?f = "\<lambda>g. if gu_cluster g = cl \<and> gu_vmid g \<notin> sg_vmid ` set guests
     then g\<lparr>gu_missing := coalesce (gu_missing g) (Some (now_of u))\<rparr> else g"
  have g: "m_guests m' = map ?f (m_guests u)" by (simp add: m' flag_missing_def)
  have f: "gu_id (?f q) = gu_id q" "same_guest q (?f q)" for q by (simp_all add: same_guest_def)
  have n: "m_next_guest m' = m_next_guest u" by (simp add: m' flag_missing_def)
  show "keyed m'" unfolding keyed_map [OF g f(1) n] by (rule st(1))
  show "present_in cl (sg_vmid ` set guests) m'"
    by (rule present_map [where f = ?f and xs = "[]"]) (use st(2) in \<open>auto simp: g present_in_def split: if_splits\<close>)
  show "m_events m' = m_events m" using st(3) by (simp add: m' flag_missing_def)
  have "kept_guests u m'" by (rule kept_map [where f = ?f and xs = "[]"]) (use g f(2) in simp_all)
  moreover have "kept_guests m u" using st(4) by (simp add: kept_guests_def)
  ultimately show "kept_guests m m'" using kept_trans by blast
qed

text \<open>The steps on the events change of the guests at most when they were last backed up.\<close>

lemma event_steps_guests [simp]:
  "m_guests (sync_backup_events_for_source cl src seen mr m) = m_guests m"
  "m_guests (update_backup_event_storages cl seen m) = m_guests m"
  "m_guests (snd (cleanup_stale_inprogress_backups cl h m)) = m_guests m"
  "m_guests (snd (update_backup_event_details cl rs m)) = m_guests m"
proof -
  have a: "m_guests (snd (attach_run cl r um)) = m_guests (snd um)" for r um
    by (simp add: attach_run_def split: prod.splits option.splits)
  have "m_guests (snd (fold (attach_run cl) rs um)) = m_guests (snd um)" for um
    by (induction rs arbitrary: um) (simp_all add: a)
  then show "m_guests (snd (update_backup_event_details cl rs m)) = m_guests m"
    by (simp add: update_backup_event_details_def split: prod.splits) (metis snd_conv)
qed (simp_all add: sync_backup_events_for_source_def update_backup_event_storages_def cleanup_stale_inprogress_backups_def Let_def)

lemma sync_events_guests:
  "\<exists>latest. m_guests (sync_events cl f m) = map (\<lambda>g. if gu_cluster g = cl then g\<lparr>gu_last_backup := latest g\<rparr> else g) (m_guests m)"
  by (rule exI [of _ "\<lambda>g. latest_real (m_events (snd (cleanup_stale_inprogress_backups cl 6
        (update_backup_event_storages cl (pve_file_events f @ pbs_events f) (sync_backup_events_for_source cl ''pbs'' (pbs_events f)
          (list_all snd (fe_pbs f)) (sync_backup_events_for_source cl ''pve'' (pve_file_events f) True m)))))) (gu_id g)"])
    (simp add: sync_events_def Let_def update_vm_last_backup_from_events_def)

lemma sync_events_keeps:
  assumes "g \<in> set (m_guests m)"
  shows "\<exists>h\<in>set (m_guests (sync_events cl f m)). same_guest g h \<and> gu_missing h = gu_missing g"
proof -
  obtain latest where l: "m_guests (sync_events cl f m) = map (\<lambda>g. if gu_cluster g = cl then g\<lparr>gu_last_backup := latest g\<rparr> else g) (m_guests m)"
    using sync_events_guests by blast
  show ?thesis using assms unfolding l
    by (intro bexI [of _ "if gu_cluster g = cl then g\<lparr>gu_last_backup := latest g\<rparr> else g"]) (auto simp: same_guest_def)
qed

text \<open>C13: a sync deletes a guest only if every source could be read completely, PVE reported guests
  but not this one, and after what was read no backup of it is left.\<close>

theorem sync_deletes_only_safely:
  assumes "sync_cluster_backups cl f m = Inr m'" and "keyed m" and "g \<in> set (m_guests m)" and "gu_id g \<notin> gu_id ` set (m_guests m')"
  shows "fe_errors f = [] \<and> list_all snd (fe_pbs f) \<and> fe_guests f \<noteq> [] \<and> gu_cluster g = cl \<and> gu_vmid g \<notin> sg_vmid ` set (fe_guests f)
    \<and> (\<forall>m1. sync_cluster_inventory cl (fe_nodes f) (fe_guests f) m = Inr m1 \<longrightarrow>
         (\<forall>e\<in>set (m_events (sync_events cl f m1)). ev_guest e = gu_id g \<longrightarrow> \<not> real_backup e))"
proof -
  obtain m1 where m1: "sync_cluster_inventory cl (fe_nodes f) (fe_guests f) m = Inr m1"
    and m': "m' = (let u = sync_events cl f m1 in if prune_blocked f then u else snd (prune_gone_vms_without_backups cl u))"
    using assms(1) by (auto simp: sync_cluster_backups_def rmap_Inr_iff)
  note inv = sync_inventory_step [OF m1 assms(2)]
  let ?u = "sync_events cl f m1"
  obtain g1 where g1: "g1 \<in> set (m_guests m1)" "same_guest g g1" using inv(4) assms(3) unfolding kept_guests_def by blast
  obtain h where h: "h \<in> set (m_guests ?u)" "same_guest g1 h" "gu_missing h = gu_missing g1"
    using sync_events_keeps [OF g1(1)] by blast
  have id: "gu_id h = gu_id g" "gu_cluster h = gu_cluster g" "gu_vmid h = gu_vmid g" using g1(2) h(2) by (simp_all add: same_guest_def)
  have free: "\<not> prune_blocked f"
  proof
    assume "prune_blocked f"
    then have "m' = ?u" using m' by simp
    then show False using assms(4) h(1) id(1) by (metis image_eqI)
  qed
  then have "m' = snd (prune_gone_vms_without_backups cl ?u)" using m' by simp
  then have "m_guests m' = filter (\<lambda>g. \<not> without_backups ?u cl g) (m_guests ?u)"
    by (simp add: prune_gone_vms_without_backups_def delete_guests_def Let_def)
  then have "without_backups ?u cl h" using assms(4) h(1) id(1) by (force simp: image_iff)
  then have w: "gu_cluster h = cl" "gu_missing h \<noteq> None" "\<forall>e\<in>set (m_events ?u). ev_guest e = gu_id h \<longrightarrow> \<not> real_backup e"
    by (auto simp: without_backups_def list_ex_iff)
  have "gu_vmid g \<notin> sg_vmid ` set (fe_guests f)"
  proof
    assume "gu_vmid g \<in> sg_vmid ` set (fe_guests f)"
    then have "gu_missing g1 = None" using inv(2) g1 w(1) id by (auto simp: present_in_def same_guest_def)
    then show False using h(3) w(2) by simp
  qed
  then show ?thesis using free w id m1 unfolding prune_blocked_def by simp
qed

section \<open>What the deletion of a guest destroys\<close>

text \<open>C21: deleting a guest deletes its restore runs, also the one that is being executed or held: the
  guests on the restore host lose their owner, and restore testing sees no active run.\<close>

theorem prune_forgets_live_runs:
  assumes "g \<in> set (m_guests m)" and "without_backups m cl g"
    and "\<And>r. r \<in> set (runs (m_restore m)) \<Longrightarrow> status r = ''running'' \<or> status r = ''held'' \<Longrightarrow> run_vm r = gu_id g"
  shows "let d = m_restore (snd (prune_gone_vms_without_backups cl m))
    in (\<forall>r\<in>set (runs d). run_vm r \<noteq> gu_id g) \<and> \<not> has_active_run d \<and> owned_vmids d = []"
proof -
  let ?d = "m_restore (snd (prune_gone_vms_without_backups cl m))"
  have runs: "runs ?d = filter (\<lambda>r. run_vm r \<notin> set (map gu_id (filter (without_backups m cl) (m_guests m)))) (runs (m_restore m))"
    by (simp add: prune_gone_vms_without_backups_def delete_guests_def Let_def)
  have gone: "gu_id g \<in> set (map gu_id (filter (without_backups m cl) (m_guests m)))" using assms(1,2) by simp
  then have no: "run_vm r \<noteq> gu_id g" if "r \<in> set (runs ?d)" for r using that unfolding runs by auto
  have idle: "status r \<noteq> ''running'' \<and> status r \<noteq> ''held''" if "r \<in> set (runs ?d)" for r
    using no [OF that] assms(3) that unfolding runs by auto
  have "active_and_held_runs ?d = []" using idle by (auto simp: active_and_held_runs_def filter_empty_conv)
  then have "owned_vmids ?d = []" by (simp add: owned_vmids_def)
  moreover have "\<not> has_active_run ?d" using idle by (auto simp: has_active_run_def list_ex_iff)
  ultimately show ?thesis using no by (simp add: Let_def)
qed

section \<open>What an incomplete read hides\<close>

definition hidden :: "int \<Rightarrow> monitor \<Rightarrow> bool" where
  "hidden i m = (\<forall>e\<in>set (m_events m). ev_guest e = i \<longrightarrow> ev_removed_at e \<noteq> None)"

lemma upserts_of_others:
  assumes "\<And>n. n \<in> set ns \<Longrightarrow> ev_removed_at n = None \<and> ev_guest n \<noteq> i" and "e \<in> set (fold upsert_event ns es)" and "ev_guest e = i"
  shows "e \<in> set es"
proof -
  obtain e0 where e0: "e = merge_all ns e0" "e0 \<in> set es \<or> e0 \<in> set ns" using upserted_rows [OF _ assms(2)] assms(1) by blast
  then have i: "ev_guest e0 = i" using assms(3) by simp
  then have "filter (\<lambda>n. event_key n = event_key e0) ns = []" using assms(1) by (auto simp: filter_empty_conv event_key_def)
  then have "e = e0" using e0(1) by (simp add: merge_all_def)
  then show ?thesis using e0(2) i assms(1) by blast
qed

lemma sync_hides:
  assumes "\<And>n. n \<in> set (new_rows m cl src seen) \<Longrightarrow> ev_guest n \<noteq> i"
    and "hidden i m \<or> mark_removed \<and> i \<in> cluster_guest_ids m cl \<and> (\<forall>e\<in>set (m_events m). ev_guest e = i \<longrightarrow> ev_source e = src)"
  shows "hidden i (sync_backup_events_for_source cl src seen mark_removed m)"
  unfolding hidden_def
proof (intro ballI impI)
  fix e assume "e \<in> set (m_events (sync_backup_events_for_source cl src seen mark_removed m))" and i: "ev_guest e = i"
  then obtain t where t: "t \<in> set (fold upsert_event (new_rows m cl src seen) (m_events m))"
    and e: "e = mark_unseen (vanished cl src seen mark_removed m) (date_of (now_of m)) t"
    by (auto simp: synced_events)
  have ti: "ev_guest t = i" using i by (simp add: e)
  have "t \<in> set (m_events m)" using upserts_of_others [OF _ t ti] assms(1) new_rows_facts by blast
  moreover have "(i, x) \<notin> event_key ` set (new_rows m cl src seen)" for x using assms(1) by (force simp: event_key_def)
  ultimately have "ev_removed_at t \<noteq> None \<or> vanished cl src seen mark_removed m t"
    using assms(2) ti unfolding hidden_def vanished_def by blast
  then show "ev_removed_at e \<noteq> None" by (auto simp: e mark_unseen_def)
qed

lemma hidden_cleanup: "hidden i m \<Longrightarrow> hidden i (snd (cleanup_stale_inprogress_backups cl h m))"
  by (auto simp: hidden_def cleanup_stale_inprogress_backups_def Let_def)

lemma hidden_storages: "hidden i m \<Longrightarrow> hidden i (update_backup_event_storages cl seen m)"
  by (auto simp: hidden_def update_backup_event_storages_def Let_def split: option.splits)

lemma no_rows_of:
  assumes "keyed m" and "g \<in> set (m_guests m)" and "gu_vmid g \<notin> se_vmid ` set seen" and "n \<in> set (new_rows m cl src seen)"
  shows "ev_guest n \<noteq> gu_id g"
proof
  assume n: "ev_guest n = gu_id g"
  obtain s i where s: "s \<in> set seen" "guest_id m cl (se_vmid s) = Some i" "n = event_row_of src i s"
  proof -
    from assms(4) obtain s where s: "s \<in> set seen"
      "n \<in> set (case guest_id m cl (se_vmid s) of None \<Rightarrow> [] | Some i \<Rightarrow> [event_row_of src i s])" by (auto simp: new_rows_def)
    then show ?thesis using that by (cases "guest_id m cl (se_vmid s)") simp_all
  qed
  then have i: "i = gu_id g" using n by (simp add: event_row_of_def)
  obtain h where h: "List.find (guest_at cl (se_vmid s)) (m_guests m) = Some h" "gu_id h = i"
    using s(2) by (auto simp: guest_id_def)
  then have "h \<in> set (m_guests m)" "gu_vmid h = se_vmid s"
    using find_Some_in [of "guest_at cl (se_vmid s)" "m_guests m" h] by (simp_all add: guest_at_def)
  moreover have "h = g" using assms(1,2) calculation(1) h(2) i by (auto simp: keyed_def distinct_map inj_on_def)
  ultimately show False using assms(3) s(1) by auto
qed

lemma latest_real_hidden: "hidden i m \<Longrightarrow> latest_real (m_events m) i = None"
proof -
  assume "hidden i m"
  then have "filter (\<lambda>e. ev_guest e = i \<and> real_backup e) (m_events m) = []"
    by (auto simp: filter_empty_conv hidden_def real_backup_def)
  then show ?thesis by (simp add: latest_real_def)
qed

lemma sync_events_hides:
  assumes "keyed m" and "g \<in> set (m_guests m)" and "gu_cluster g = cl"
    and "\<And>e. e \<in> set (m_events m) \<Longrightarrow> ev_guest e = gu_id g \<Longrightarrow> ev_source e = ''pve''"
    and "gu_vmid g \<notin> se_vmid ` set (pve_file_events f)" and "gu_vmid g \<notin> se_vmid ` set (pbs_events f)"
    and "h \<in> set (m_guests (sync_events cl f m))" and "gu_id h = gu_id g"
  shows "gu_last_backup h = None"
proof -
  let ?m1 = "sync_backup_events_for_source cl ''pve'' (pve_file_events f) True m"
  let ?m2 = "sync_backup_events_for_source cl ''pbs'' (pbs_events f) (list_all snd (fe_pbs f)) ?m1"
  let ?m4 = "snd (cleanup_stale_inprogress_backups cl 6 (update_backup_event_storages cl (pve_file_events f @ pbs_events f) ?m2))"
  have "gu_id g \<in> cluster_guest_ids m cl" using assms(2,3) by (auto simp: cluster_guest_ids_def)
  then have "hidden (gu_id g) ?m1" using assms(4) no_rows_of [OF assms(1,2,5)] by (intro sync_hides) blast+
  moreover have "keyed ?m1" using assms(1) by (simp add: keyed_def sync_backup_events_for_source_def Let_def)
  ultimately have "hidden (gu_id g) ?m2"
    using no_rows_of [of ?m1 g "pbs_events f"] assms(2,6) by (intro sync_hides) auto
  then have hid: "hidden (gu_id g) ?m4" by (intro hidden_cleanup hidden_storages)
  have "m_guests (sync_events cl f m) = map (\<lambda>q. if gu_cluster q = cl then q\<lparr>gu_last_backup := latest_real (m_events ?m4) (gu_id q)\<rparr> else q) (m_guests m)"
    by (simp add: sync_events_def Let_def update_vm_last_backup_from_events_def)
  then obtain q where q: "q \<in> set (m_guests m)" "h = (if gu_cluster q = cl then q\<lparr>gu_last_backup := latest_real (m_events ?m4) (gu_id q)\<rparr> else q)"
    using assms(7) by auto
  have "gu_id q = gu_id g" using q(2) assms(8) by (simp split: if_splits)
  then have "q = g" using assms(1,2) q(1) by (auto simp: keyed_def distinct_map inj_on_def)
  then show ?thesis using q(2) assms(3) latest_real_hidden [OF hid] by simp
qed

text \<open>C20: when the storage with the backups of a guest cannot be read through PVE, which the sync
  knows and for which it spares the guest, the backups are nevertheless marked as removed, and a
  guest that is to be backed up daily is reported as critical, as if it had never been backed up.\<close>

theorem unreadable_storage_hides_backups:
  assumes "sync_cluster_backups cl f m = Inr m'" and "keyed m" and "g \<in> set (m_guests m)" and "gu_cluster g = cl"
    and "\<And>e. e \<in> set (m_events m) \<Longrightarrow> ev_guest e = gu_id g \<Longrightarrow> ev_source e = ''pve''"
    and "gu_vmid g \<notin> se_vmid ` set (pve_file_events f)" and "gu_vmid g \<notin> se_vmid ` set (pbs_events f)" and "fe_errors f \<noteq> []"
  shows "\<exists>h\<in>set (m_guests m'). gu_id h = gu_id g \<and> assess_backup_status ''daily'' (gu_last_backup h) (now_of m') = (''critical'', None)"
proof -
  obtain m1 where m1: "sync_cluster_inventory cl (fe_nodes f) (fe_guests f) m = Inr m1"
    and m': "m' = sync_events cl f m1"
    using assms(1,8) by (auto simp: sync_cluster_backups_def rmap_Inr_iff prune_blocked_def Let_def)
  note inv = sync_inventory_step [OF m1 assms(2)]
  obtain g1 where g1: "g1 \<in> set (m_guests m1)" "same_guest g g1" using inv(4) assms(3) unfolding kept_guests_def by blast
  obtain h where h: "h \<in> set (m_guests m')" "same_guest g1 h" using sync_events_keeps [OF g1(1)] m' by blast
  have ids: "gu_id g1 = gu_id g" "gu_cluster g1 = cl" "gu_vmid g1 = gu_vmid g" "gu_id h = gu_id g1"
    using g1(2) h(2) assms(4) by (simp_all add: same_guest_def)
  have "gu_last_backup h = None"
    by (rule sync_events_hides [OF inv(1) g1(1) ids(2) _ _ _ h(1) [unfolded m'] ids(4)])
      (use assms(5-7) inv(3) ids in simp_all)
  then show ?thesis using h(1) ids by (auto simp: assess_backup_status_def)
qed

section \<open>Concrete instances\<close>

definition demo_row :: "int \<Rightarrow> int \<Rightarrow> guest_row" where
  "demo_row i v = \<lparr>gu_id = i, gu_cluster = 1, gu_node = ''pve1'', gu_vmid = v, gu_name = ''g'', gu_type = ''qemu'', gu_template = False,
     gu_storages = [''nfs''], gu_kind = ''daily'', gu_last_backup = Some 0, gu_memory = None, gu_disk = None, gu_missing = None\<rparr>"

definition demo_event :: seen_event where
  "demo_event = \<lparr>se_vmid = 100, se_started = 0, se_finished = None, se_duration = None, se_size = Some 5000, se_encrypted = None,
     se_verify = None, se_state = ''ok'', se_upid = [], se_guest_name = None, se_origin = None, se_storage = Some ''nfs'', se_location = Some ''pve:nfs''\<rparr>"

definition demo_monitor :: monitor where
  "demo_monitor = \<lparr>m_guests = [demo_row 1 100, demo_row 2 101], m_next_guest = 3, m_nodes = [], m_disks = [],
     m_events = [event_row_of ''pve'' 1 demo_event], m_processed = [], m_clusters = [(1, ''c'')],
     m_restore = \<lparr>runs = [(fresh_run 7 1 ''manual'' 0)\<lparr>status := ''held'', restore_vmid := Some 9000\<rparr>], next_run_id = 8, tests = [],
       next_test_id = 1, nics = [], vms = [], clock = hours_us 24, db_cluster_urls = [], db_pbs_conns = [], db_events = [], db_disks = [],
       db_settings = []\<rparr>\<rparr>"

text \<open>PVE reports guest 101 only, and no backup; the second fetch could not read the storage.\<close>

definition demo_fetched :: "string list \<Rightarrow> fetched" where
  "demo_fetched errors = \<lparr>fe_nodes = [(''pve1'', ''online'')],
     fe_guests = [\<lparr>sg_node = ''pve1'', sg_vmid = 101, sg_name = ''g'', sg_type = ''qemu'', sg_template = False, sg_storages = [],
       sg_kind = ''daily'', sg_last_backup = None, sg_memory = None, sg_disk = None, sg_disks = []\<rparr>],
     fe_events = [], fe_errors = errors, fe_pbs = [], fe_runs = []\<rparr>"

definition demo_synced :: "string list \<Rightarrow> monitor" where
  "demo_synced errors = (case sync_cluster_backups 1 (demo_fetched errors) demo_monitor of Inr m \<Rightarrow> m | Inl e \<Rightarrow> demo_monitor)"

lemma demo_sync: "sync_cluster_backups 1 (demo_fetched errors) demo_monitor = Inr (demo_synced errors)"
proof -
  have "\<not> isl (sync_cluster_inventory 1 (fe_nodes (demo_fetched [])) (fe_guests (demo_fetched [])) demo_monitor)" by code_simp
  then have "\<not> isl (sync_cluster_inventory 1 (fe_nodes (demo_fetched errors)) (fe_guests (demo_fetched errors)) demo_monitor)"
    by (simp add: demo_fetched_def)
  then have "\<not> isl (sync_cluster_backups 1 (demo_fetched errors) demo_monitor)"
    unfolding sync_cluster_backups_def rmap_def by (auto split: sum.splits)
  then show ?thesis unfolding demo_synced_def by (auto split: sum.splits)
qed

lemma demo_keyed: "keyed demo_monitor" by code_simp

lemma demo_on_minutes: "on_minutes demo_monitor" by code_simp


lemma nothing_read:
  assumes "m_events m = []" and "fe_events f = []" and "fe_pbs f = []" and "fe_runs f = []"
  shows "m_events (sync_events cl f m) = []"
  using assms by (simp add: sync_events_def Let_def pve_file_events_def pbs_events_def dedup_pbs_events_def update_backup_event_details_def
      update_vm_last_backup_from_events_def cleanup_stale_inprogress_backups_def update_backup_event_storages_def synced_events new_rows_def)

definition bare_monitor :: monitor where "bare_monitor = demo_monitor\<lparr>m_events := []\<rparr>"

theorem sync_deletes_only_safely_witness:
  "\<exists>m'. sync_cluster_backups 1 (demo_fetched []) bare_monitor = Inr m' \<and> demo_row 1 100 \<in> set (m_guests bare_monitor)
     \<and> gu_id (demo_row 1 100) \<notin> gu_id ` set (m_guests m') \<and> gu_vmid (demo_row 1 100) \<notin> sg_vmid ` set (fe_guests (demo_fetched []))"
proof -
  let ?f = "demo_fetched []"
  have k: "keyed bare_monitor" using demo_keyed by (simp add: bare_monitor_def keyed_def)
  have g: "demo_row 1 100 \<in> set (m_guests bare_monitor)" by (simp add: bare_monitor_def demo_monitor_def)
  have "map_sum (\<lambda>_. ()) (\<lambda>m. map (\<lambda>g. (gu_id g, gu_cluster g, gu_missing g \<noteq> None)) (m_guests m))
      (sync_cluster_inventory 1 (fe_nodes ?f) (fe_guests ?f) bare_monitor) = Inr [(1, 1, True), (2, 1, False)]" by code_simp
  then obtain m1 where m1: "sync_cluster_inventory 1 (fe_nodes ?f) (fe_guests ?f) bare_monitor = Inr m1"
    and gs: "map (\<lambda>g. (gu_id g, gu_cluster g, gu_missing g \<noteq> None)) (m_guests m1) = [(1, 1, True), (2, 1, False)]"
    by (cases "sync_cluster_inventory 1 (fe_nodes ?f) (fe_guests ?f) bare_monitor") simp_all
  let ?u = "sync_events 1 ?f m1"
  have "m_events m1 = []" using sync_inventory_step(3) [OF m1 k] by (simp add: bare_monitor_def)
  then have e: "m_events ?u = []" by (rule nothing_read) (simp_all add: demo_fetched_def)
  obtain latest where l: "m_guests ?u = map (\<lambda>g. if gu_cluster g = 1 then g\<lparr>gu_last_backup := latest g\<rparr> else g) (m_guests m1)"
    using sync_events_guests by blast
  have m': "sync_cluster_backups 1 ?f bare_monitor = Inr (snd (prune_gone_vms_without_backups 1 ?u))"
    by (simp add: sync_cluster_backups_def m1 rmap_def prune_blocked_def Let_def) (simp add: demo_fetched_def)
  have gone: "gu_id (demo_row 1 100) \<notin> gu_id ` set (m_guests (snd (prune_gone_vms_without_backups 1 ?u)))"
    using gs by (auto simp: prune_gone_vms_without_backups_def delete_guests_def Let_def l without_backups_def e demo_row_def split: if_splits)
  show ?thesis using sync_deletes_only_safely [OF m' k g gone] m' g gone by blast
qed

theorem prune_forgets_live_runs_witness:
  "let m = demo_monitor\<lparr>m_guests := [(demo_row 1 100)\<lparr>gu_missing := Some 0\<rparr>], m_events := []\<rparr>;
       d = m_restore (snd (prune_gone_vms_without_backups 1 m))
    in (\<forall>r\<in>set (runs d). run_vm r \<noteq> gu_id ((demo_row 1 100)\<lparr>gu_missing := Some 0\<rparr>)) \<and> \<not> has_active_run d \<and> owned_vmids d = []"
proof -
  let ?m = "demo_monitor\<lparr>m_guests := [(demo_row 1 100)\<lparr>gu_missing := Some 0\<rparr>], m_events := []\<rparr>"
  have g: "(demo_row 1 100)\<lparr>gu_missing := Some 0\<rparr> \<in> set (m_guests ?m)"
    "without_backups ?m 1 ((demo_row 1 100)\<lparr>gu_missing := Some 0\<rparr>)" by code_simp+
  have "run_vm r = gu_id ((demo_row 1 100)\<lparr>gu_missing := Some 0\<rparr>)" if "r \<in> set (runs (m_restore ?m))" for r
    using that by (simp add: demo_monitor_def demo_row_def fresh_run_def)
  then show ?thesis unfolding Let_def [of ?m] by (intro prune_forgets_live_runs [OF g])
qed

theorem unreadable_storage_hides_backups_witness:
  "\<exists>h\<in>set (m_guests (demo_synced [''nfs''])). gu_id h = gu_id (demo_row 1 100)
     \<and> assess_backup_status ''daily'' (gu_last_backup h) (now_of (demo_synced [''nfs''])) = (''critical'', None)"
proof -
  have g: "demo_row 1 100 \<in> set (m_guests demo_monitor)" "gu_cluster (demo_row 1 100) = 1"
    "gu_vmid (demo_row 1 100) \<notin> se_vmid ` set (pve_file_events (demo_fetched [''nfs'']))"
    "gu_vmid (demo_row 1 100) \<notin> se_vmid ` set (pbs_events (demo_fetched [''nfs'']))" "fe_errors (demo_fetched [''nfs'']) \<noteq> []"
    by code_simp+
  have e: "ev_source e = ''pve''" if "e \<in> set (m_events demo_monitor)" for e
    using that by (simp add: demo_monitor_def event_row_of_def)
  show ?thesis by (rule unreadable_storage_hides_backups [OF demo_sync demo_keyed g(1,2) e g(3-5)])
qed

end
