(* ===== verification/PbsFetch.thy ===== *)
theory PbsFetch imports Monitor BackupLocation PyTime begin

text \<open>
  Reading a Proxmox Backup Server (\<open>app/services/pbs.py\<close>). The HTTP client is an argument: for a
  path and a query it answers with the rows of the listing, or with an exception; the requests of
  one pass have one answer each. A registered PBS is a row of \<open>pbs_connections\<close>.
\<close>

section \<open>Requests\<close>

type_synonym query = "(string \<times> string) list"

record pbs_api =
  pa_rows :: "string \<Rightarrow> query \<Rightarrow> exn + json list"
  pa_payload :: "string \<Rightarrow> query \<Rightarrow> exn + json"

definition pbs_sync_error :: "exn \<Rightarrow> bool" where
  "pbs_sync_error e = (case e of PyError k m \<Rightarrow> k = ''PBSSyncError'' | _ \<Rightarrow> False)"

record registered_pbs = pbs_conn +
  rp_id :: int
  rp_cluster :: int
  rp_namespace :: "string option"

text \<open>\<open>parse.quote(s, safe='')\<close> on the bytes of \<open>s\<close>\<close>

definition hex_digit :: "nat \<Rightarrow> char" where "hex_digit n = ''0123456789ABCDEF'' ! n"

definition url_quote :: "string \<Rightarrow> string" where
  "url_quote s = concat (map (\<lambda>c. if is_alpha c \<or> is_digit c \<or> c \<in> set ''_.-~'' then [c]
     else [CHR ''%'', hex_digit (of_char c div 16), hex_digit (of_char c mod 16)]) s)"

text \<open>\<open>conn["api_url"].rstrip("/")\<close>\<close>

definition base_url :: "registered_pbs \<Rightarrow> string" where
  "base_url c = rev (dropWhile (\<lambda>x. x = CHR ''/'') (rev (opt_or (conn_api_url c) [])))"

text \<open>\<open>str(row.get(key) or "")\<close>\<close>

definition text_or_empty :: "json \<Rightarrow> string \<Rightarrow> exn + string" where
  "text_or_empty row k = rmap (\<lambda>v. py_str (py_or v (JStr []))) (jget row k JNull)"

text \<open>\<open>datetime.fromtimestamp(n, UTC)\<close>: the years 1 to 9999; a number that is no C \<open>time_t\<close> overflows.\<close>

definition fromtimestamp :: "int \<Rightarrow> exn + int" where
  "fromtimestamp n =
     (if n < - (2 ^ 63) \<or> 2 ^ 63 \<le> n then Inl (PyError ''OverflowError'' ''timestamp out of range for platform time_t'')
      else if -62135596800 \<le> n \<and> n \<le> 253402300799 then Inr (n * 1000000)
      else Inl (value_error ''year is out of range''))"

text \<open>\<open>try: r except (TypeError, ValueError, OSError): d\<close>\<close>

definition not_a_value :: "exn \<Rightarrow> bool" where
  "not_a_value e = (case e of PyError k m \<Rightarrow> k \<in> {''TypeError'', ''ValueError'', ''OSError''} | _ \<Rightarrow> False)"

definition or_else :: "'a \<Rightarrow> exn + 'a \<Rightarrow> exn + 'a" where
  "or_else d r = rcatch r (\<lambda>e. if not_a_value e then Inr d else Inl e)"

section \<open>Encryption of a snapshot\<close>

definition meta_file :: "string \<Rightarrow> bool" where
  "meta_file name = (ends_with ''.log.blob'' name \<or> ends_with ''.catalog.pcat1.didx'' name)"

fun data_file_mode :: "json \<Rightarrow> string list" where
  "data_file_mode (JObj kvs) =
     (if meta_file (py_str (dict_get kvs ''filename'' (JStr []))) then []
      else [py_str (py_or (dict_get kvs ''crypt-mode'' JNull) (JStr []))])"
| "data_file_mode _ = []"

definition is_encrypted_files :: "json \<Rightarrow> exn + bool option" where
  "is_encrypted_files files =
     (if \<not> py_truth files then Inr None
      else rmap (\<lambda>fs. let modes = concat (map data_file_mode fs) in
             if modes = [] then None
             else if ''encrypt'' \<in> set modes then Some True
             else if set modes \<subseteq> {''none'', ''sign-only''} then Some False
             else None) (jiter files))"

section \<open>Datastores\<close>

definition DATASTORE_ENDPOINTS :: "(string \<times> string) list" where
  "DATASTORE_ENDPOINTS = [(''/api2/json/admin/datastore'', ''name''), (''/api2/json/config/datastore'', ''name''),
     (''/api2/json/status/datastore-usage'', ''store'')]"

definition entry_name :: "string \<Rightarrow> json \<Rightarrow> exn + string list" where
  "entry_name key entry =
     rbind (jget entry key JNull) (\<lambda>a. rbind (jget entry ''store'' JNull) (\<lambda>b. rmap (\<lambda>c.
       let n = py_or a (py_or b c) in if py_truth n then [py_str n] else []) (jget entry ''name'' JNull)))"

text \<open>The names and whether an endpoint failed on the way; the debug text is not modelled.\<close>

fun try_endpoints :: "pbs_api \<Rightarrow> (string \<times> string) list \<Rightarrow> bool \<Rightarrow> exn + string list \<times> bool" where
  "try_endpoints api [] had_error = Inr ([], \<not> had_error)"
| "try_endpoints api ((path, key) # rest) had_error =
     (case rbind (pa_rows api path []) (rcollect (entry_name key)) of
        Inr names \<Rightarrow> if names \<noteq> [] then Inr (names, True) else try_endpoints api rest had_error
      | Inl e \<Rightarrow> if pbs_sync_error e then try_endpoints api rest True else Inl e)"

definition fetch_pbs_datastores :: "pbs_api \<Rightarrow> exn + string list \<times> bool" where
  "fetch_pbs_datastores api = try_endpoints api DATASTORE_ENDPOINTS False"

section \<open>Namespaces\<close>

definition covered :: "string \<Rightarrow> string \<Rightarrow> bool" where
  "covered ns base = (ns = base \<or> starts_with (base @ ''/'') ns)"

definition datastore_path :: "string \<Rightarrow> string \<Rightarrow> string" where
  "datastore_path datastore what = ''/api2/json/admin/datastore/'' @ url_quote datastore @ ''/'' @ what"

definition wanted_namespaces :: "string \<Rightarrow> string list \<Rightarrow> string list \<Rightarrow> string list" where
  "wanted_namespaces scope extra available =
     filter (\<lambda>ns. scope \<noteq> [] \<and> covered ns scope \<or> list_ex (covered ns) extra) available @ (if scope = [] then [[]] else [])"

definition fetch_pbs_namespaces :: "pbs_api \<Rightarrow> registered_pbs \<Rightarrow> string \<Rightarrow> string list \<Rightarrow> exn + string list" where
  "fetch_pbs_namespaces api c datastore extra0 =
     (let scope = opt_or (rp_namespace c) []; extra = sort (remdups (filter (\<lambda>ns. ns \<noteq> []) extra0))
      in if scope = [] \<and> extra = [] then Inr [[]]
         else rbind (pa_rows api (datastore_path datastore ''namespace'') []) (\<lambda>rows.
              rmap (\<lambda>available. sort (remdups (wanted_namespaces scope extra available)))
                (rcollect (\<lambda>row. rmap (\<lambda>n. [n]) (text_or_empty row ''ns'')) rows)))"

section \<open>Snapshots\<close>

definition storage_label :: "registered_pbs \<Rightarrow> string \<Rightarrow> string \<Rightarrow> string" where
  "storage_label c datastore namespace =
     py_join ''/'' (filter (\<lambda>p. p \<noteq> []) [if truthy_str (conn_name c) then opt_or (conn_name c) [] else base_url c, datastore, namespace])"

text \<open>\<open>int(snap["size"])\<close>, if there is one that is a number\<close>

definition snapshot_size :: "json \<Rightarrow> exn + int option" where
  "snapshot_size snap = rbind (jget snap ''size'' JNull) (\<lambda>v. if v = JNull then Inr None else or_else None (rmap Some (jint v)))"

definition verify_state_of :: "json \<Rightarrow> string option" where
  "verify_state_of v = (case v of
     JObj kvs \<Rightarrow> (let vs = py_str (py_or (dict_get kvs ''state'' JNull) (JStr [])) in if vs = [] then None else Some vs)
   | _ \<Rightarrow> None)"

text \<open>\<open>int(snap["backup-id"])\<close>: a missing key, no number, or no value skips the snapshot.\<close>

definition snapshot_vmid :: "json \<Rightarrow> int option" where
  "snapshot_vmid snap = (case rbind (jindex snap ''backup-id'') jint of Inr i \<Rightarrow> Some i | Inl _ \<Rightarrow> None)"

definition snapshot_start :: "json \<Rightarrow> exn + int option" where
  "snapshot_start snap = rbind (jget snap ''backup-time'' JNull) (\<lambda>raw.
     if raw = JNull then Inr None else or_else None (rmap (\<lambda>t. Some (to_minute t)) (rbind (jint raw) fromtimestamp)))"

definition snapshot_event :: "registered_pbs \<Rightarrow> int list \<Rightarrow> int option \<Rightarrow> string \<Rightarrow> string \<Rightarrow> json \<Rightarrow> exn + seen_event list" where
  "snapshot_event c guests cutoff datastore namespace snap =
     rbind (text_or_empty snap ''backup-type'') (\<lambda>kind.
     if kind \<notin> {''vm'', ''ct''} then Inr []
     else case snapshot_vmid snap of None \<Rightarrow> Inr [] | Some v \<Rightarrow>
     if guests \<noteq> [] \<and> v \<notin> set guests then Inr []
     else rbind (snapshot_start snap) (\<lambda>began. case began of None \<Rightarrow> Inr [] | Some t \<Rightarrow>
     if (case cutoff of None \<Rightarrow> False | Some limit \<Rightarrow> t < limit) then Inr []
     else rbind (snapshot_size snap) (\<lambda>bytes. rbind (rbind (jget snap ''files'' JNull) is_encrypted_files) (\<lambda>enc.
          rbind (jget snap ''verification'' JNull) (\<lambda>ver. rbind (jget snap ''comment'' JNull) (\<lambda>comment.
          rmap (\<lambda>loc. [\<lparr>se_vmid = v, se_started = t, se_finished = None, se_duration = None, se_size = bytes, se_encrypted = enc,
              se_verify = verify_state_of ver, se_state = ''ok'', se_upid = [], se_guest_name = guest_name_from_notes comment,
              se_origin = None, se_storage = Some (storage_label c datastore namespace), se_location = Some loc\<rparr>])
            (connection_location c datastore namespace)))))))"

definition namespace_query :: "string \<Rightarrow> query" where
  "namespace_query ns = (if ns \<noteq> [] then [(''ns'', ns)] else [])"

definition fetch_pbs_backups ::
  "pbs_api \<Rightarrow> registered_pbs \<Rightarrow> int list \<Rightarrow> int option \<Rightarrow> string \<Rightarrow> string list \<Rightarrow> exn + seen_event list" where
  "fetch_pbs_backups api c guests cutoff datastore extra =
     rbind (rbind (fetch_pbs_namespaces api c datastore extra) (rcollect (\<lambda>ns.
         rmap (map (Pair ns)) (pa_rows api (datastore_path datastore ''snapshots'') (namespace_query ns))))) (\<lambda>snapshots.
     rcollect (\<lambda>(ns, snap). snapshot_event c guests cutoff datastore ns snap) snapshots)"

text \<open>All datastores of a server; the log lines are not modelled.\<close>

fun fetch_datastores ::
  "pbs_api \<Rightarrow> registered_pbs \<Rightarrow> int list \<Rightarrow> int option \<Rightarrow> (string \<Rightarrow> string list) \<Rightarrow> string list \<Rightarrow> exn + seen_event list \<times> bool" where
  "fetch_datastores api c guests cutoff extra [] = Inr ([], True)"
| "fetch_datastores api c guests cutoff extra (ds # rest) =
     (case fetch_pbs_backups api c guests cutoff ds (extra ds) of
        Inr events \<Rightarrow> rmap (\<lambda>(es, ok). (events @ es, ok)) (fetch_datastores api c guests cutoff extra rest)
      | Inl e \<Rightarrow> if pbs_sync_error e then rmap (\<lambda>(es, ok). (es, False)) (fetch_datastores api c guests cutoff extra rest) else Inl e)"

definition fetch_all_pbs_backups ::
  "pbs_api \<Rightarrow> registered_pbs \<Rightarrow> int list \<Rightarrow> int option \<Rightarrow> (string \<Rightarrow> string list) \<Rightarrow> exn + seen_event list \<times> bool" where
  "fetch_all_pbs_backups api c guests cutoff extra =
     rbind (fetch_pbs_datastores api) (\<lambda>(datastores, complete).
       rmap (\<lambda>(es, ok). (es, complete \<and> ok)) (fetch_datastores api c guests cutoff extra datastores))"


section \<open>Sync jobs and their tasks\<close>

text \<open>\<open>_timestamp\<close>\<close>

definition timestamp_of :: "json \<Rightarrow> exn + int option" where
  "timestamp_of v = (if py_truth v then or_else None (rmap Some (rbind (jint v) fromtimestamp)) else Inr None)"

text \<open>\<open>int(text, 16)\<close> of hexadecimal digits\<close>

definition hex_val :: "char \<Rightarrow> nat" where
  "hex_val c = (if is_digit c then digit_val c else of_char (lower_char c) - 87)"

definition is_hex :: "char \<Rightarrow> bool" where
  "is_hex c = (c \<in> set ''0123456789abcdefABCDEF'')"

fun hex_digits :: "string \<Rightarrow> string option" where
  "hex_digits [] = None"
| "hex_digits [c] = (if is_hex c then Some [c] else None)"
| "hex_digits (c # d # s) =
     (if \<not> is_hex c then None else map_option ((#) c) (hex_digits (if d = CHR ''_'' then s else d # s)))"

definition hex_int :: "string \<Rightarrow> exn + int" where
  "hex_int s0 =
     (let t = py_strip s0; neg = starts_with ''-'' t; u = (if neg \<or> starts_with ''+'' t then tl t else t);
          body = (if starts_with ''0x'' (py_lower u) then (if starts_with ''_'' (drop 2 u) then drop 3 u else drop 2 u) else u)
      in case hex_digits body of
           None \<Rightarrow> Inl (value_error s0)
         | Some ds \<Rightarrow> (let n = int (foldl (\<lambda>n c. 16 * n + hex_val c) 0 ds) in Inr (if neg then - n else n)))"

definition upid_start :: "json \<Rightarrow> exn + int option" where
  "upid_start upid =
     (let parts = split_on (CHR '':'') (py_str (py_or upid (JStr [])))
      in if 5 < length parts \<and> hd parts = ''UPID''
         then or_else None (rmap Some (rbind (hex_int (parts ! 5)) fromtimestamp)) else Inr None)"

definition SYNC_PERCENT_RE :: rx where
  "SYNC_PERCENT_RE = seqs [lit ''percentage done:'', Star space, Grp 1 (plus (Cls (\<lambda>c. is_digit c \<or> c = CHR ''.''))), Star space, lit ''%'']"

definition SYNC_LOG_TAIL :: int where "SYNC_LOG_TAIL = 200"

definition round2 :: "rat \<Rightarrow> rat" where "round2 x = fl64 (of_int (round_half_even (x * 100)) / 100)"

text \<open>The last line with a percentage; \<open>float\<close> raises where the text is no number.\<close>

fun last_percent :: "json list \<Rightarrow> exn + rat option" where
  "last_percent [] = Inr None"
| "last_percent (row # earlier) =
     rbind (text_or_empty row ''t'') (\<lambda>line. case rx_search SYNC_PERCENT_RE line of
        None \<Rightarrow> last_percent earlier
      | Some m \<Rightarrow> (case parse_decimal (group_text m 1) of
          Some x \<Rightarrow> Inr (Some (round2 x)) | None \<Rightarrow> Inl (value_error (group_text m 1))))"

definition task_log_path :: "string \<Rightarrow> string" where
  "task_log_path upid = ''/api2/json/nodes/localhost/tasks/'' @ url_quote upid @ ''/log''"

definition task_log_query :: "json \<Rightarrow> query" where
  "task_log_query total_lines = (case total_lines of
     JInt n \<Rightarrow> [(''start'', string_of_int (max 0 (n - SYNC_LOG_TAIL))), (''limit'', string_of_int SYNC_LOG_TAIL)]
   | JBool b \<Rightarrow> [(''start'', ''0''), (''limit'', string_of_int SYNC_LOG_TAIL)]
   | _ \<Rightarrow> [(''start'', ''0''), (''limit'', ''100000'')])"

definition task_finished :: "json \<Rightarrow> json list \<Rightarrow> exn + bool" where
  "task_finished active rows = (case active of
     JBool b \<Rightarrow> Inr (\<not> b)
   | _ \<Rightarrow> if rows = [] then Inr False else rmap (starts_with ''TASK '') (text_or_empty (last rows) ''t''))"

definition sync_task_state :: "pbs_api \<Rightarrow> string \<Rightarrow> exn + rat option \<times> bool" where
  "sync_task_state api upid =
     rbind (pa_payload api (task_log_path upid) [(''start'', ''0''), (''limit'', ''1''), (''test-status'', ''1'')]) (\<lambda>head.
     rbind (jget head ''total'' JNull) (\<lambda>total_lines.
     rbind (rbind (pa_payload api (task_log_path upid) (task_log_query total_lines)) (\<lambda>p. jget p ''data'' JNull)) (\<lambda>data.
     let rows = (case data of JArr xs \<Rightarrow> xs | _ \<Rightarrow> []) in
     rbind (jget head ''active'' JNull) (\<lambda>active.
     rbind (task_finished active rows) (\<lambda>fin. rmap (\<lambda>p. (p, fin)) (last_percent (rev rows)))))))"

record sync_job =
  sj_job_id :: string
  sj_push :: bool
  sj_store :: string
  sj_ns :: string
  sj_remote_name :: string
  sj_remote_host :: string
  sj_remote_fingerprint :: string
  sj_remote_store :: string
  sj_remote_ns :: string
  sj_schedule :: string
  sj_last_state :: string
  sj_last_at :: "int option"
  sj_running_since :: "int option"
  sj_running_upid :: "string option"
  sj_next_at :: "int option"

text \<open>A request whose first form an older server answers with \<open>HTTP 400\<close>\<close>

definition list_sync_jobs :: "pbs_api \<Rightarrow> exn + json list" where
  "list_sync_jobs api =
     rcatch (pa_rows api ''/api2/json/admin/sync'' [(''sync-direction'', ''all'')])
       (\<lambda>e. if pbs_sync_error e \<and> py_in ''HTTP 400'' (exn_text e) then pa_rows api ''/api2/json/admin/sync'' [] else Inl e)"

text \<open>\<open>{str(r.get("name")): r for r in ...}\<close>: the last remote of a name stays.\<close>

definition remotes_of :: "json list \<Rightarrow> exn + (string \<times> json) list" where
  "remotes_of rows = rcollect (\<lambda>r. rmap (\<lambda>n. [(py_str n, r)]) (jget r ''name'' JNull)) rows"

definition remote_named :: "(string \<times> json) list \<Rightarrow> string \<Rightarrow> json" where
  "remote_named remotes name = opt_or (map_of (rev remotes) name) (JObj [])"

definition sync_job_of :: "(string \<times> json) list \<Rightarrow> json \<Rightarrow> exn + sync_job list" where
  "sync_job_of remotes job =
     rbind (jget job ''id'' JNull) (\<lambda>jid. rbind (jget job ''store'' JNull) (\<lambda>store.
     if \<not> py_truth jid \<or> \<not> py_truth store then Inr []
     else rbind (jget job ''sync-direction'' JNull) (\<lambda>direction. rbind (text_or_empty job ''ns'') (\<lambda>ns.
     rbind (text_or_empty job ''remote'') (\<lambda>rname. let remote = remote_named remotes rname in
     rbind (text_or_empty remote ''host'') (\<lambda>rhost. rbind (text_or_empty remote ''fingerprint'') (\<lambda>rprint.
     rbind (text_or_empty job ''remote-store'') (\<lambda>rstore. rbind (text_or_empty job ''remote-ns'') (\<lambda>rns.
     rbind (text_or_empty job ''schedule'') (\<lambda>sched. rbind (text_or_empty job ''last-run-state'') (\<lambda>state.
     rbind (jget job ''last-run-endtime'' JNull) (\<lambda>ended. rbind (timestamp_of ended) (\<lambda>ended_at.
     rbind (jget job ''last-run-upid'' JNull) (\<lambda>upid. rbind (if py_truth ended then Inr None else upid_start upid) (\<lambda>since.
     rbind (jget job ''next-run'' JNull) (\<lambda>nxt. rmap (\<lambda>next_at.
       [\<lparr>sj_job_id = py_str jid, sj_push = (direction = JStr ''push''), sj_store = py_str store, sj_ns = ns,
         sj_remote_name = rname, sj_remote_host = rhost, sj_remote_fingerprint = rprint, sj_remote_store = rstore,
         sj_remote_ns = rns, sj_schedule = sched, sj_last_state = state, sj_last_at = ended_at, sj_running_since = since,
         sj_running_upid = (if since \<noteq> None then Some (py_str upid) else None), sj_next_at = next_at\<rparr>])
       (timestamp_of nxt)))))))))))))))))"

definition fetch_pbs_sync_jobs :: "pbs_api \<Rightarrow> exn + sync_job list" where
  "fetch_pbs_sync_jobs api =
     rbind (list_sync_jobs api) (\<lambda>jobs.
     rbind (rbind (pa_rows api ''/api2/json/config/remote'' []) remotes_of) (\<lambda>remotes. rcollect (sync_job_of remotes) jobs))"

section \<open>Capacity\<close>

record datastore_usage =
  du_store :: string
  du_total :: int
  du_used :: int
  du_avail :: int
  du_full_at :: "int option"

text \<open>\<open>int(estimate)\<close> of \<open>None\<close> or \<open>0\<close> is not asked; an estimate that is not in the future says nothing.\<close>

definition full_estimate :: "int \<Rightarrow> json \<Rightarrow> exn + int option" where
  "full_estimate now estimate =
     rmap (\<lambda>f. case f of Some t \<Rightarrow> if t \<le> now then None else Some t | None \<Rightarrow> None)
       (if \<not> py_truth estimate then Inr None
        else or_else None (rbind (jint estimate) (\<lambda>n. if 0 < n then rmap Some (fromtimestamp n) else Inr None)))"

definition byte_count :: "json \<Rightarrow> string \<Rightarrow> exn + int" where
  "byte_count row k = rbind (jget row k JNull) (\<lambda>v. jint (py_or v (JInt 0)))"

definition usage_row :: "int \<Rightarrow> json \<Rightarrow> exn + datastore_usage list" where
  "usage_row now row =
     rbind (jget row ''error'' JNull) (\<lambda>err. rbind (jget row ''store'' JNull) (\<lambda>store. rbind (jget row ''total'' JNull) (\<lambda>tot.
     if py_truth err \<or> \<not> py_truth store \<or> tot = JNull then Inr []
     else rbind (jget row ''estimated-full-date'' JNull) (\<lambda>est. rbind (full_estimate now est) (\<lambda>full_at.
          rbind (byte_count row ''total'') (\<lambda>t. rbind (byte_count row ''used'') (\<lambda>u. rmap (\<lambda>a.
            [\<lparr>du_store = py_str store, du_total = t, du_used = u, du_avail = a, du_full_at = full_at\<rparr>])
          (byte_count row ''avail''))))))))"

definition fetch_datastore_usage :: "pbs_api \<Rightarrow> int \<Rightarrow> exn + datastore_usage list" where
  "fetch_datastore_usage api now = rbind (pa_rows api ''/api2/json/status/datastore-usage'' []) (rcollect (usage_row now))"

definition days_left :: "int \<Rightarrow> int option \<Rightarrow> rat option" where
  "days_left now full_at = (case full_at of None \<Rightarrow> None | Some t \<Rightarrow>
     let d = fl64 (total_seconds (t - now) / 86400) in if d < 0 then None else Some d)"

definition used_percent :: "int \<Rightarrow> int \<Rightarrow> rat" where
  "used_percent used tot = fl64 (fl64 (of_int used / of_int tot) * 100)"

definition within_days :: "int \<Rightarrow> rat option \<Rightarrow> bool" where
  "within_days n left = (case left of None \<Rightarrow> False | Some d \<Rightarrow> d \<le> of_int n)"

definition assess_datastore_usage :: "int \<Rightarrow> int \<Rightarrow> int option \<Rightarrow> int \<Rightarrow> string" where
  "assess_datastore_usage used tot full_at now =
     (if tot \<le> 0 then ''ok''
      else let pct = used_percent used tot; left = days_left now full_at
           in if 90 \<le> pct \<or> within_days 14 left then ''critical''
              else if 80 \<le> pct \<or> within_days 60 left then ''warning''
              else ''ok'')"

end
