(* ===== verification/PbsFetchProps.thy ===== *)
theory PbsFetchProps imports PbsFetch begin

text \<open>
  What a read of a Proxmox Backup Server gives: every snapshot of the namespaces that the
  connection covers when the read is complete, the encryption of a snapshot, and the status of
  a datastore in whole numbers, rounding of the floating-point numbers included.
\<close>

section \<open>A complete read\<close>

text \<open>A snapshot that a namespace of the datastore lists, and the event it stands for\<close>

definition lists_snapshot :: "pbs_api \<Rightarrow> registered_pbs \<Rightarrow> int list \<Rightarrow> int option \<Rightarrow> string list \<Rightarrow> string \<Rightarrow> seen_event \<Rightarrow> bool" where
  "lists_snapshot api c guests cutoff extra ds e =
     (\<exists>nss ns rows snap es. fetch_pbs_namespaces api c ds extra = Inr nss \<and> ns \<in> set nss
        \<and> pa_rows api (datastore_path ds ''snapshots'') (namespace_query ns) = Inr rows \<and> snap \<in> set rows
        \<and> snapshot_event c guests cutoff ds ns snap = Inr es \<and> e \<in> set es)"

lemma fetch_pbs_backups_set:
  "fetch_pbs_backups api c guests cutoff ds extra = Inr es \<Longrightarrow> e \<in> set es \<longleftrightarrow> lists_snapshot api c guests cutoff extra ds e"
proof -
  assume "fetch_pbs_backups api c guests cutoff ds extra = Inr es"
  then obtain nss snaps where n: "fetch_pbs_namespaces api c ds extra = Inr nss"
    and s: "rcollect (\<lambda>ns. rmap (map (Pair ns)) (pa_rows api (datastore_path ds ''snapshots'') (namespace_query ns))) nss = Inr snaps"
    and e: "rcollect (\<lambda>(ns, snap). snapshot_event c guests cutoff ds ns snap) snaps = Inr es"
    by (auto simp: fetch_pbs_backups_def rbind_Inr_iff)
  have "(ns, snap) \<in> set snaps \<longleftrightarrow> ns \<in> set nss \<and> (\<exists>rows. pa_rows api (datastore_path ds ''snapshots'') (namespace_query ns) = Inr rows \<and> snap \<in> set rows)" for ns snap
    unfolding rcollect_set [OF s] rmap_Inr_iff by (auto intro!: bexI [of _ ns])
  then show ?thesis unfolding rcollect_set [OF e] lists_snapshot_def using n by (fastforce split: prod.splits)
qed

lemma fetch_datastores_complete:
  "fetch_datastores api c guests cutoff extra dss = Inr (es, True) \<Longrightarrow>
     e \<in> set es \<longleftrightarrow> (\<exists>ds\<in>set dss. lists_snapshot api c guests cutoff (extra ds) ds e)"
proof (induction dss arbitrary: es)
  case (Cons ds dss)
  then obtain es0 es1 where "fetch_pbs_backups api c guests cutoff ds (extra ds) = Inr es0"
    and "fetch_datastores api c guests cutoff extra dss = Inr (es1, True)" and "es = es0 @ es1"
    by (auto simp: rmap_Inr_iff split: sum.splits if_splits)
  then show ?case using Cons.IH [of es1] fetch_pbs_backups_set by auto
qed simp


text \<open>The namespaces of a datastore that count\<close>

lemma fetch_pbs_namespaces_exact:
  assumes "fetch_pbs_namespaces api c ds extra = Inr nss" and "rp_namespace c = None \<or> rp_namespace c = Some []"
    and "\<forall>x\<in>set extra. x = []"
  shows "nss = [[]]"
  using assms by (auto simp: fetch_pbs_namespaces_def Let_def filter_empty_conv split: if_splits)

section \<open>Encryption\<close>

definition data_file :: "json \<Rightarrow> string \<Rightarrow> bool" where
  "data_file x mode = (data_file_mode x = [mode])"

lemma data_file_modes: "set (concat (map data_file_mode fs)) = {mode. \<exists>x\<in>set fs. data_file x mode}"
proof -
  have "m \<in> set (data_file_mode x) \<longleftrightarrow> data_file_mode x = [m]" for m x by (cases x) auto
  then show ?thesis by (auto simp: data_file_def)
qed


section \<open>The status of a datastore\<close>

lemma fl64_neg_iff: "fl64 x < 0 \<longleftrightarrow> x < 0"
proof -
  have "0 < fl64 y" if "0 < y" for y using fl64_ge_pow2 [OF that] pow2_pos [of "ilog2 y"] by linarith
  from this [of "- x"] fl64_nonneg [of x] show ?thesis by (auto simp: fl64_minus not_le [symmetric])
qed

lemma total_seconds_neg: "fl64 (total_seconds us / 86400) < 0 \<longleftrightarrow> us < 0"
  by (simp add: fl64_neg_iff total_seconds_def divide_less_0_iff)

lemma total_days_le:
  assumes "0 < n" and "n \<le> 2 ^ 14"
  shows "fl64 (total_seconds us / 86400) \<le> of_int n \<longleftrightarrow> us \<le> n * 86400000000"
proof
  assume "us \<le> n * 86400000000"
  then have "us \<le> n * 86400 * 1000000" by simp
  then have "\<not> of_int (n * 86400) < total_seconds us" using assms by (subst total_seconds_gt) simp_all
  then have "total_seconds us / 86400 \<le> of_int n" by (simp add: field_simps)
  then show "fl64 (total_seconds us / 86400) \<le> of_int n" using fl64_mono [of _ "of_int n"] fl64_exact [of n] assms by force
next
  show "fl64 (total_seconds us / 86400) \<le> of_int n \<Longrightarrow> us \<le> n * 86400000000"
  proof (rule ccontr)
    assume le: "fl64 (total_seconds us / 86400) \<le> of_int n" and "\<not> us \<le> n * 86400000000"
    then have "n * 86400 * 1000000 + 1 \<le> us" by simp
    then have "(of_int (n * 86400 * 1000000 + 1) :: rat) \<le> of_int us" by (rule of_int_le_iff [THEN iffD2])
    then have "of_int (n * 86400) + 1 / 2 ^ 20 \<le> (of_int us / 1000000 :: rat)" by (simp add: field_simps)
    then have "of_int (n * 86400) + 1 / 2 ^ 20 \<le> total_seconds us"
      unfolding total_seconds_def by (rule fl64_above) (use assms in simp_all)
    then have "of_int n + 1 / 2 ^ 37 \<le> total_seconds us / 86400" by (simp add: field_simps)
    then have "of_int n + 1 / 2 ^ 37 \<le> fl64 (total_seconds us / 86400)"
      by (rule fl64_above) (use assms in simp_all)
    moreover have "(0 :: rat) < 1 / 2 ^ 37" by simp
    ultimately show False using le by linarith
  qed
qed

text \<open>The store is full within \<open>n\<close> days, by an estimate that is not past.\<close>

definition full_within :: "int \<Rightarrow> int \<Rightarrow> int option \<Rightarrow> bool" where
  "full_within n now full_at = (case full_at of None \<Rightarrow> False | Some t \<Rightarrow> now \<le> t \<and> t \<le> now + n * 86400000000)"

lemma within_days_iff:
  assumes "0 < n" and "n \<le> 2 ^ 14"
  shows "within_days n (days_left now full_at) \<longleftrightarrow> full_within n now full_at"
proof (cases full_at)
  case (Some t)
  have "fl64 (total_seconds (t - now) / 86400) \<le> of_int n \<longleftrightarrow> t \<le> now + n * 86400000000"
    unfolding total_days_le [OF assms] by linarith
  then show ?thesis using total_seconds_neg [of "t - now"]
    by (auto simp: Some within_days_def days_left_def full_within_def Let_def)
qed (simp add: within_days_def days_left_def full_within_def)

text \<open>A ratio below \<open>a / b\<close> stays below after rounding, up to 256 TiB.\<close>

lemma percent_below:
  assumes "0 < tot" and "tot \<le> 2 ^ 48" and "0 < b" and "b \<le> 10" and "b * used < a * tot"
    and m: "0 < m" "m < 2 ^ 53" "(of_int a :: rat) / of_int b - 2 / 2 ^ 53 \<le> of_int m / 2 ^ 53"
    and c: "100 * (of_int m / 2 ^ 53) \<le> (of_int c :: rat) - 1 / 2 ^ 46" "0 < c" "c < 128"
  shows "used_percent used tot < of_int c"
proof -
  have "(of_int tot :: rat) \<le> of_int (2 ^ 48)" using assms(2) by (rule of_int_le_iff [THEN iffD2])
  then have t: "(0 :: rat) < of_int tot" "(of_int tot :: rat) \<le> 2 ^ 48" using assms(1) by simp_all
  have "b * used + 1 \<le> a * tot" using assms(5) by simp
  then have "(of_int (b * used + 1) :: rat) \<le> of_int (a * tot)" by (rule of_int_le_iff [THEN iffD2])
  then have "(of_int used / of_int tot :: rat) \<le> of_int a / of_int b - 1 / (of_int b * of_int tot)"
    using assms(3) t(1) by (simp add: field_simps)
  also have "\<dots> \<le> of_int a / of_int b - 2 / 2 ^ 53"
  proof -
    have "(of_int b :: rat) \<le> of_int 10" using assms(4) by (rule of_int_le_iff [THEN iffD2])
    then have "(of_int b * of_int tot :: rat) \<le> 10 * 2 ^ 48" using t assms(3) by (intro mult_mono) simp_all
    moreover have "(0 :: rat) < of_int b * of_int tot" using t assms(3) by simp
    ultimately have "(1 :: rat) / (10 * 2 ^ 48) \<le> 1 / (of_int b * of_int tot)" by (intro divide_left_mono) simp_all
    moreover have "(2 :: rat) / 2 ^ 53 \<le> 1 / (10 * 2 ^ 48)" by simp
    ultimately show ?thesis by linarith
  qed
  also have "\<dots> \<le> of_int m / 2 ^ 53" by (rule m(3))
  finally have "fl64 (of_int used / of_int tot) \<le> fl64 (of_int m / 2 ^ 53)" by (rule fl64_mono)
  also have "\<dots> = of_int m / 2 ^ 53" by (rule fl64_dyadic [OF m(1,2)])
  finally have "fl64 (of_int used / of_int tot) * 100 \<le> of_int c - 1 / 2 ^ 46" using c(1) by linarith
  then have "used_percent used tot \<le> of_int c - 1 / 2 ^ 46"
    unfolding used_percent_def by (rule fl64_below) (use c in simp_all)
  also have "\<dots> < of_int c" by simp
  finally show ?thesis .
qed

lemma percent_at_least:
  assumes "0 < tot" and "0 < b" and "a * tot \<le> b * used" and "fl64 (fl64 (of_int a / of_int b) * 100) = c"
  shows "c \<le> used_percent used tot"
proof -
  have "(of_int (a * tot) :: rat) \<le> of_int (b * used)" using assms(3) by (rule of_int_le_iff [THEN iffD2])
  then have "(of_int a / of_int b :: rat) \<le> of_int used / of_int tot" using assms(1,2) by (simp add: field_simps)
  then have "fl64 (fl64 (of_int a / of_int b) * 100) \<le> used_percent used tot"
    unfolding used_percent_def by (intro fl64_mono mult_right_mono) simp_all
  then show ?thesis using assms(4) by simp
qed

lemma percent_90: "0 < tot \<Longrightarrow> tot \<le> 2 ^ 48 \<Longrightarrow> 90 \<le> used_percent used tot \<longleftrightarrow> 9 * tot \<le> 10 * used"
proof -
  assume t: "0 < tot" "tot \<le> 2 ^ 48"
  have "fl64 (fl64 (of_int 9 / of_int 10) * 100) = 90" by code_simp
  then show ?thesis
    using percent_below [OF t, of 10 used 9 8106479329266891 90] percent_at_least [OF t(1), of 10 9 used 90] by fastforce
qed

lemma percent_80: "0 < tot \<Longrightarrow> tot \<le> 2 ^ 48 \<Longrightarrow> 80 \<le> used_percent used tot \<longleftrightarrow> 4 * tot \<le> 5 * used"
proof -
  assume t: "0 < tot" "tot \<le> 2 ^ 48"
  have "fl64 (fl64 (of_int 4 / of_int 5) * 100) = 80" by code_simp
  then show ?thesis
    using percent_below [OF t, of 5 used 4 7205759403792792 80] percent_at_least [OF t(1), of 5 4 used 80] by fastforce
qed

text \<open>C10: A datastore is critical when 90 % are used or it will be full within 14 days, warns at 80 % or 60 days, and is ok otherwise; the floating-point computation decides this exactly.\<close>

theorem datastore_status_exact:
  assumes "tot \<le> 2 ^ 48"
  shows "assess_datastore_usage used tot full_at now =
     (if tot \<le> 0 then ''ok''
      else if 9 * tot \<le> 10 * used \<or> full_within 14 now full_at then ''critical''
      else if 4 * tot \<le> 5 * used \<or> full_within 60 now full_at then ''warning''
      else ''ok'')"
  using assms by (simp add: assess_datastore_usage_def Let_def within_days_iff percent_90 percent_80)

theorem datastore_status_exact_witness:
  "assess_datastore_usage 900 1000 None 0 = ''critical''"
  using datastore_status_exact [of 1000 900 None 0] by simp

section \<open>Instances\<close>


definition pdemo_api :: pbs_api where
  "pdemo_api = \<lparr>pa_rows = (\<lambda>path query.
      if path = ''/api2/json/admin/datastore'' then Inr [JObj [(''store'', JStr ''d'')]]
      else if path = datastore_path ''d'' ''snapshots''
      then Inr [JObj [(''backup-type'', JStr ''vm''), (''backup-id'', JStr ''100''), (''backup-time'', JInt 600)]]
      else Inl (PyError ''PBSSyncError'' ''HTTP 404'')), pa_payload = (\<lambda>path query. Inr JNull)\<rparr>"

definition pdemo_pbs :: registered_pbs where
  "pdemo_pbs = \<lparr>conn_name = Some ''n'', conn_api_url = None, conn_aliases = [], rp_id = 1, rp_cluster = 1, rp_namespace = None\<rparr>"

definition pdemo_event :: seen_event where
  "pdemo_event = \<lparr>se_vmid = 100, se_started = 600000000, se_finished = None, se_duration = None, se_size = None, se_encrypted = None,
     se_verify = None, se_state = ''ok'', se_upid = [], se_guest_name = None, se_origin = None, se_storage = Some ''n/d'', se_location = Some ''pbs:n/d''\<rparr>"

lemma pdemo_fetched: "fetch_all_pbs_backups pdemo_api pdemo_pbs [100] None (\<lambda>ds. []) = Inr ([pdemo_event], True)"
  by code_simp


end
