(* ===== verification/PbsTopology.thy ===== *)
theory PbsTopology imports PbsFetch begin

text \<open>
  Where the backups of a cluster go (\<open>app/services/pbs_topology.py\<close>): the PBS datastores that the
  cluster writes to, the sync jobs that copy them on, and the columns of the diagram. An edge is
  an object: \<open>te_id\<close> stands for its identity. The names that a lookup by server finds are there
  for every server of the diagram (lemma \<open>names_known\<close> in \<open>TopologyProps\<close>).
\<close>

type_synonym dsnode = "string \<times> string"

record job_row = sync_job +
  jr_pbs :: int
  jr_remote_pbs :: "int option"

record usage_at = datastore_usage +
  ua_pbs :: int

record pve_target =
  pt_server :: string
  pt_pbs :: "int option"
  pt_datastore :: string
  pt_namespace :: "string option"
  pt_storage :: string

section \<open>Namespaces and sort keys\<close>

definition MAX_NS_DEPTH :: nat where "MAX_NS_DEPTH = 7"

definition ns_parts :: "string \<Rightarrow> string list" where
  "ns_parts s = filter (\<lambda>p. p \<noteq> []) (split_on (CHR ''/'') s)"

definition join_ns :: "string list \<Rightarrow> string" where
  "join_ns ps = py_join ''/'' (concat (map ns_parts ps))"

definition map_ns :: "string \<Rightarrow> string \<Rightarrow> string \<Rightarrow> string option" where
  "map_ns data src dst =
     (if src = [] \<or> data = src \<or> starts_with (src @ ''/'') data
      then Some (join_ns [dst, drop (length src) data])
      else if starts_with (data @ ''/'') src \<or> data = [] then Some dst else None)"

text \<open>\<open>re.split(r"(\d+)", text)\<close> alternates texts and numbers and begins with a text.\<close>

definition non_digit :: "char \<Rightarrow> bool" where "non_digit c = (\<not> is_digit c)"

function natural_rest :: "string \<Rightarrow> (nat \<times> string) list" where
  "natural_rest s =
     (if s = [] then []
      else let r = dropWhile is_digit s
           in (nat_of_digits (takeWhile is_digit s), py_lower (takeWhile non_digit r)) # natural_rest (dropWhile non_digit r))"
  by pat_completeness auto
termination
proof (relation "measure length", goal_cases)
  case (2 s r)
  have "length (dropWhile non_digit (dropWhile is_digit s)) < length s"
  proof (cases s)
    case (Cons c cs)
    have "length (dropWhile non_digit xs) \<le> length xs" "length (dropWhile is_digit xs) \<le> length xs" for xs
      by (simp_all add: length_dropWhile_le)
    then show ?thesis using Cons by (auto simp: non_digit_def le_less_trans less_Suc_eq_le intro: order_trans)
  qed (use 2 in simp)
  then show ?case using 2 by simp
qed simp

declare natural_rest.simps [simp del]

definition natural :: "string \<Rightarrow> string \<times> (nat \<times> string) list" where
  "natural s = (py_lower (takeWhile non_digit s), natural_rest (dropWhile non_digit s))"

definition sync_job_state :: "job_row \<Rightarrow> string" where
  "sync_job_state j =
     (if sj_running_since j \<noteq> None then ''running''
      else if sj_last_state j = [] \<and> sj_last_at j = None then ''never''
      else if py_upper (sj_last_state j) = ''OK'' then ''ok''
      else if starts_with ''WARNINGS'' (py_upper (sj_last_state j)) then ''warning''
      else ''failed'')"

section \<open>Servers\<close>

record pbs_servers =
  sv_conns :: "registered_pbs list"
  sv_key :: "(int \<times> string) list"
  sv_name :: "(string \<times> string) list"

text \<open>\<open>d.setdefault(k, v)\<close>\<close>

definition set_default :: "'k \<Rightarrow> 'v \<Rightarrow> ('k \<times> 'v) list \<Rightarrow> ('k \<times> 'v) list" where
  "set_default k v al = (if k \<in> fst ` set al then al else al @ [(k, v)])"

definition usable_ident :: "string \<Rightarrow> bool" where
  "usable_ident i = (i \<noteq> [] \<and> last i \<noteq> CHR '':'')"

definition idents_of :: "registered_pbs \<Rightarrow> exn + string list" where
  "idents_of c = rmap (\<lambda>h. filter usable_ident ((''name:'' @ py_lower (opt_or (conn_name c) [])) # (''host:'' @ opt_or h [])
       # map (\<lambda>a. ''host:'' @ py_lower a) (conn_aliases c))) (url_hostname (opt_or (conn_api_url c) []))"

text \<open>The function \<open>root\<close>. No chain of parents is as long as the list of connections
  (lemma \<open>find_root_fixed\<close> in \<open>TopologyProps\<close>), which is the bound taken for \<open>n\<close>.\<close>

fun find_root :: "nat \<Rightarrow> (int \<Rightarrow> int) \<Rightarrow> int \<Rightarrow> int" where
  "find_root 0 parent i = i"
| "find_root (Suc n) parent i = (if parent i = i then i else find_root n parent (parent i))"

type_synonym forest = "(string \<times> int) list \<times> (int \<Rightarrow> int)"

definition claim_ident :: "nat \<Rightarrow> int \<times> string \<Rightarrow> forest \<Rightarrow> forest" where
  "claim_ident n p f = (case p of (cid, ident) \<Rightarrow> case f of (owner, parent) \<Rightarrow>
     (case map_of owner ident of
        Some other \<Rightarrow> (owner, parent(find_root n parent cid := find_root n parent other))
      | None \<Rightarrow> ((ident, cid) # owner, parent)))"

definition identities :: "registered_pbs list \<Rightarrow> exn + (int \<times> string) list" where
  "identities conns = rcollect (\<lambda>c. rmap (map (Pair (rp_id c))) (idents_of c)) conns"

definition unite :: "nat \<Rightarrow> (int \<times> string) list \<Rightarrow> forest" where
  "unite n pairs = fold (claim_ident n) pairs ([], \<lambda>i. i)"

definition server_key :: "registered_pbs list \<Rightarrow> (int \<times> string) list \<Rightarrow> int \<Rightarrow> string" where
  "server_key conns pairs i = ''pbs:'' @ string_of_int (find_root (length conns) (snd (unite (length conns) pairs)) i)"

definition servers_of :: "registered_pbs list \<Rightarrow> exn + pbs_servers" where
  "servers_of conns = rmap (\<lambda>pairs. \<lparr>sv_conns = conns,
       sv_key = map (\<lambda>c. (rp_id c, server_key conns pairs (rp_id c))) conns,
       sv_name = fold (\<lambda>c. set_default (server_key conns pairs (rp_id c)) (opt_or (conn_name c) [])) conns []\<rparr>)
     (identities conns)"

definition registered_key :: "pbs_servers \<Rightarrow> string \<Rightarrow> bool" where
  "registered_key s k = (k \<in> snd ` set (sv_key s))"

definition key_of :: "pbs_servers \<Rightarrow> int \<Rightarrow> exn + string" where
  "key_of s i = (case map_of (sv_key s) i of Some k \<Rightarrow> Inr k | None \<Rightarrow> Inl (key_error (string_of_int i)))"

definition no_dns :: "string \<Rightarrow> string list" where "no_dns h = []"

definition host_label :: "string \<Rightarrow> string \<Rightarrow> string" where
  "host_label host fallback = (if py_lower (py_strip host) \<noteq> [] then py_lower (py_strip host) else fallback)"

definition host_key :: "string \<Rightarrow> string \<Rightarrow> string" where "host_key host fallback = ''host:'' @ host_label host fallback"

definition resolve_server :: "string \<Rightarrow> string \<Rightarrow> int option \<Rightarrow> pbs_servers \<Rightarrow> exn + string \<times> pbs_servers" where
  "resolve_server host fallback pbs s =
     (case Option.bind pbs (map_of (sv_key s)) of
        Some k \<Rightarrow> Inr (k, s)
      | None \<Rightarrow>
          rbind (match_pbs_connection host (sv_conns s) no_dns) (\<lambda>m.
          rbind (if m = None \<and> fallback \<noteq> [] then match_pbs_connection fallback (sv_conns s) no_dns else Inr m) (\<lambda>found.
          case found of
            Some c \<Rightarrow> rmap (\<lambda>k. (k, s)) (key_of s (rp_id c))
          | None \<Rightarrow> Inr (host_key host fallback, s\<lparr>sv_name := set_default (host_key host fallback)
                (if fallback \<noteq> [] then fallback else server_name (''pbs:'' @ host_label host fallback)) (sv_name s)\<rparr>))))"

definition name_of_key :: "pbs_servers \<Rightarrow> string \<Rightarrow> string" where
  "name_of_key s k = opt_or (map_of (sv_name s) k) []"

section \<open>Replication edges\<close>

record topo_edge =
  te_id :: nat
  te_job :: job_row
  te_src :: dsnode
  te_src_ns :: string
  te_dst :: dsnode
  te_dst_ns :: string
  te_state :: string

definition topo_edge_of :: "nat \<Rightarrow> job_row \<Rightarrow> string \<Rightarrow> string \<Rightarrow> topo_edge" where
  "topo_edge_of n j here there =
     (let local = ((here, sj_store j), sj_ns j); remote = ((there, sj_remote_store j), sj_remote_ns j);
          (src, dst) = (if sj_push j then (local, remote) else (remote, local))
      in \<lparr>te_id = n, te_job = j, te_src = fst src, te_src_ns = snd src, te_dst = fst dst, te_dst_ns = snd dst,
          te_state = sync_job_state j\<rparr>)"

text \<open>Once per physical server and job.\<close>

fun replication_edges :: "pbs_servers \<Rightarrow> (string \<times> string) list \<Rightarrow> nat \<Rightarrow> job_row list \<Rightarrow> exn + topo_edge list \<times> pbs_servers" where
  "replication_edges s seen n [] = Inr ([], s)"
| "replication_edges s seen n (j # js) =
     (case map_of (sv_key s) (jr_pbs j) of
        None \<Rightarrow> replication_edges s seen n js
      | Some here \<Rightarrow>
          if (here, sj_job_id j) \<in> set seen then replication_edges s seen n js
          else rbind (if sj_remote_name j \<noteq> [] then resolve_server (sj_remote_host j) (sj_remote_name j) (jr_remote_pbs j) s
                      else Inr (here, s)) (\<lambda>(there, s').
               rmap (\<lambda>(es, s''). (topo_edge_of n j here there # es, s''))
                 (replication_edges s' ((here, sj_job_id j) # seen) (Suc n) js)))"

section \<open>Following the data\<close>

record walk =
  wk_depth :: "(dsnode \<times> int) list"
  wk_edges :: "topo_edge list"
  wk_used :: "nat list"
  wk_queue :: "(dsnode \<times> string) list"
  wk_visited :: "(dsnode \<times> string) list"

definition no_walk :: walk where
  "no_walk = \<lparr>wk_depth = [], wk_edges = [], wk_used = [], wk_queue = [], wk_visited = []\<rparr>"

definition slashes :: "string \<Rightarrow> nat" where "slashes s = count_list s (CHR ''/'')"

definition reach :: "dsnode \<Rightarrow> string \<Rightarrow> int \<Rightarrow> walk \<Rightarrow> walk" where
  "reach n ns level w =
     (let w1 = w\<lparr>wk_depth := dict_set n (min (opt_or (map_of (wk_depth w) n) level) level) (wk_depth w)\<rparr>
      in if (n, ns) \<notin> set (wk_visited w) \<and> slashes ns < MAX_NS_DEPTH
         then w1\<lparr>wk_visited := (n, ns) # wk_visited w, wk_queue := wk_queue w @ [(n, ns)]\<rparr> else w1)"

definition follow :: "dsnode \<Rightarrow> string \<Rightarrow> topo_edge \<Rightarrow> walk \<Rightarrow> walk" where
  "follow n ns e w =
     (case map_ns ns (te_src_ns e) (te_dst_ns e) of
        None \<Rightarrow> w
      | Some landed \<Rightarrow>
          let w1 = reach (te_dst e) landed (opt_or (map_of (wk_depth w) n) 0 + 1) w
          in if te_id e \<in> set (wk_used w1) then w1
             else w1\<lparr>wk_used := te_id e # wk_used w1, wk_edges := wk_edges w1 @ [e]\<rparr>)"

definition edges_from :: "topo_edge list \<Rightarrow> dsnode \<Rightarrow> topo_edge list" where
  "edges_from es n = filter (\<lambda>e. te_src e = n) es"

text \<open>What a walk can meet: the namespaces of the queue and the edges, and those made of at most
  seven of their parts. It is finite, and a step only leaves it smaller.\<close>

definition walk_parts :: "topo_edge list \<Rightarrow> walk \<Rightarrow> string set" where
  "walk_parts es w = (\<Union>e\<in>set es. set (ns_parts (te_dst_ns e))) \<union> (\<Union>x\<in>set (wk_queue w). set (ns_parts (snd x)))"

definition walk_names :: "topo_edge list \<Rightarrow> walk \<Rightarrow> string set" where
  "walk_names es w = te_dst_ns ` set es \<union> py_join ''/'' ` {ps. set ps \<subseteq> walk_parts es w \<and> length ps \<le> MAX_NS_DEPTH}"

definition walk_space :: "topo_edge list \<Rightarrow> walk \<Rightarrow> (dsnode \<times> string) set" where
  "walk_space es w = te_dst ` set es \<times> walk_names es w"

lemma finite_walk_space: "finite (walk_space es w)"
proof -
  have "finite (walk_parts es w)" by (simp add: walk_parts_def)
  then show ?thesis by (simp add: walk_space_def walk_names_def finite_lists_length_le)
qed

lemma slashes_append [simp]: "slashes (a @ b) = slashes a + slashes b"
  by (simp add: slashes_def)

lemma ns_parts_nonempty: "p \<in> set (ns_parts s) \<Longrightarrow> p \<noteq> [] \<and> CHR ''/'' \<notin> set p"
  by (auto simp: ns_parts_def dest: split_on_parts)

lemma slashes_join:
  assumes "ps \<noteq> []" and "\<And>p. p \<in> set ps \<Longrightarrow> CHR ''/'' \<notin> set p"
  shows "slashes (py_join ''/'' ps) = length ps - 1"
  using assms
proof (induction ps rule: induct_list012)
  case (2 p)
  then show ?case by (simp add: slashes_def)
next
  case (3 p q ps)
  from 3(4) [of p] have "slashes p = 0" by (simp add: slashes_def)
  with 3 show ?case by (simp add: slashes_def)
qed simp

lemma join_ns_parts:
  assumes "slashes (join_ns xs) < MAX_NS_DEPTH"
  shows "\<exists>ps. join_ns xs = py_join ''/'' ps \<and> set ps \<subseteq> (\<Union>x\<in>set xs. set (ns_parts x)) \<and> length ps \<le> MAX_NS_DEPTH"
proof (intro exI conjI)
  let ?ps = "concat (map ns_parts xs)"
  show "join_ns xs = py_join ''/'' ?ps" by (simp add: join_ns_def)
  show "set ?ps \<subseteq> (\<Union>x\<in>set xs. set (ns_parts x))" by auto
  show "length ?ps \<le> MAX_NS_DEPTH"
  proof (cases "?ps = []")
    case False
    then have "slashes (py_join ''/'' ?ps) = length ?ps - 1" by (rule slashes_join) (auto dest: ns_parts_nonempty)
    then show ?thesis using assms by (simp add: join_ns_def MAX_NS_DEPTH_def)
  next
    case True
    then show ?thesis by (simp only: list.size)
  qed
qed

lemma split_on_append: "split_on c (a @ c # b) = split_on c a @ split_on c b"
  by (induction a) (auto split: list.splits)

lemma ns_parts_append: "ns_parts (a @ CHR ''/'' # b) = ns_parts a @ ns_parts b"
  by (simp add: ns_parts_def split_on_append)

lemma ns_parts_drop: "starts_with (a @ ''/'') d \<Longrightarrow> set (ns_parts (drop (length a) d)) \<subseteq> set (ns_parts d)"
  by (auto simp: starts_with_iff ns_parts_def split_on_append)

lemma ns_parts_join:
  assumes "\<And>p. p \<in> set ps \<Longrightarrow> p \<noteq> [] \<and> CHR ''/'' \<notin> set p"
  shows "set (ns_parts (py_join ''/'' ps)) \<subseteq> set ps"
  using assms by (cases "ps = []") (auto simp: ns_parts_def split_on_join)

lemma map_ns_parts:
  assumes "map_ns d a t = Some l" and "slashes l < MAX_NS_DEPTH"
  shows "l = t \<or> (\<exists>ps. l = py_join ''/'' ps \<and> set ps \<subseteq> set (ns_parts t) \<union> set (ns_parts d) \<and> length ps \<le> MAX_NS_DEPTH)"
proof (cases "a = [] \<or> d = a \<or> starts_with (a @ ''/'') d")
  case True
  then have l: "l = join_ns [t, drop (length a) d]" using assms(1) by (auto simp: map_ns_def)
  have "set (ns_parts (drop (length a) d)) \<subseteq> set (ns_parts d)"
    using True ns_parts_drop by (auto simp: ns_parts_def)
  then show ?thesis using join_ns_parts [of "[t, drop (length a) d]"] assms(2) unfolding l by fastforce
next
  case False
  then show ?thesis using assms(1) by (auto simp: map_ns_def split: if_splits)
qed

lemma walk_names_parts: "ns \<in> walk_names es w \<Longrightarrow> set (ns_parts ns) \<subseteq> walk_parts es w"
proof -
  assume "ns \<in> walk_names es w"
  then consider e where "e \<in> set es" "ns = te_dst_ns e"
    | ps where "ns = py_join ''/'' ps" "set ps \<subseteq> walk_parts es w" by (auto simp: walk_names_def)
  then show ?thesis
  proof cases
    case 2
    moreover have "p \<noteq> [] \<and> CHR ''/'' \<notin> set p" if "p \<in> walk_parts es w" for p
      using that ns_parts_nonempty by (auto simp: walk_parts_def)
    ultimately show ?thesis using ns_parts_join [of ps] by blast
  qed (auto simp: walk_parts_def)
qed

lemma landed_in_space:
  assumes "e \<in> set es" and "(n, ns) \<in> set (wk_queue w)" and "map_ns ns (te_src_ns e) (te_dst_ns e) = Some l"
    and "slashes l < MAX_NS_DEPTH"
  shows "(te_dst e, l) \<in> walk_space es w"
proof -
  have "set (ns_parts (te_dst_ns e)) \<union> set (ns_parts ns) \<subseteq> walk_parts es w"
    using assms(1,2) by (force simp: walk_parts_def)
  then have "l \<in> walk_names es w" using map_ns_parts [OF assms(3,4)] assms(1) unfolding walk_names_def by blast
  then show ?thesis using assms(1) by (simp add: walk_space_def)
qed

text \<open>Following edges appends new places, each once, to the queue.\<close>

definition grown :: "(dsnode \<times> string) set \<Rightarrow> walk \<Rightarrow> walk \<Rightarrow> bool" where
  "grown U w w' = (\<exists>new. wk_queue w' = wk_queue w @ new \<and> wk_visited w' = rev new @ wk_visited w
     \<and> set new \<subseteq> U - set (wk_visited w) \<and> distinct new)"

lemma grown_refl: "grown U w w"
  by (simp add: grown_def)

lemma grown_reach:
  assumes "grown U w0 w" and "slashes ns < MAX_NS_DEPTH \<Longrightarrow> (n, ns) \<in> U"
  shows "grown U w0 (reach n ns lv w)"
proof -
  from assms(1) obtain new where new: "wk_queue w = wk_queue w0 @ new" "wk_visited w = rev new @ wk_visited w0"
    "set new \<subseteq> U - set (wk_visited w0)" "distinct new" by (auto simp: grown_def)
  show ?thesis
  proof (cases "(n, ns) \<notin> set (wk_visited w) \<and> slashes ns < MAX_NS_DEPTH")
    case True
    then show ?thesis using new assms(2) unfolding grown_def reach_def by (intro exI [of _ "new @ [(n, ns)]"]) (auto simp: Let_def)
  next
    case False
    then show ?thesis using new unfolding grown_def reach_def by (intro exI [of _ new]) (auto simp: Let_def)
  qed
qed

lemma grown_follow:
  assumes "grown U w0 w"
    and "\<And>l. map_ns ns (te_src_ns e) (te_dst_ns e) = Some l \<Longrightarrow> slashes l < MAX_NS_DEPTH \<Longrightarrow> (te_dst e, l) \<in> U"
  shows "grown U w0 (follow n ns e w)"
proof (cases "map_ns ns (te_src_ns e) (te_dst_ns e)")
  case (Some l)
  then have "grown U w0 (reach (te_dst e) l lv w)" for lv by (intro grown_reach assms)
  then show ?thesis using Some by (auto simp: follow_def Let_def grown_def)
qed (simp add: follow_def assms(1))

lemma grown_follows:
  assumes "\<And>e l. e \<in> set xs \<Longrightarrow> map_ns ns (te_src_ns e) (te_dst_ns e) = Some l \<Longrightarrow> slashes l < MAX_NS_DEPTH \<Longrightarrow> (te_dst e, l) \<in> U"
    and "grown U w0 w"
  shows "grown U w0 (fold (follow n ns) xs w)"
  using assms
proof (induction xs arbitrary: w)
  case (Cons e xs)
  then show ?case by (simp add: grown_follow)
qed simp

lemma walk_step_grown:
  assumes "wk_queue w = (n, ns) # q"
  shows "grown (walk_space es w) (w\<lparr>wk_queue := q\<rparr>) (fold (follow n ns) (edges_from es n) (w\<lparr>wk_queue := q\<rparr>))"
  by (intro grown_follows grown_refl landed_in_space [where n = n and ns = ns]) (auto simp: edges_from_def assms)

lemma walk_space_step:
  assumes "wk_queue w = (n, ns) # q" and "grown (walk_space es w) (w\<lparr>wk_queue := q\<rparr>) w'"
  shows "walk_space es w' \<subseteq> walk_space es w"
proof -
  have "set (ns_parts (snd x)) \<subseteq> walk_parts es w" if "x \<in> set (wk_queue w')" for x
  proof -
    have "x \<in> set (wk_queue w) \<or> x \<in> walk_space es w" using that assms by (auto simp: grown_def)
    then show ?thesis
    proof
      assume "x \<in> walk_space es w"
      then have "snd x \<in> walk_names es w" by (auto simp: walk_space_def)
      then show ?thesis by (rule walk_names_parts)
    qed (auto simp: walk_parts_def)
  qed
  moreover have "(\<Union>e\<in>set es. set (ns_parts (te_dst_ns e))) \<subseteq> walk_parts es w" by (auto simp: walk_parts_def)
  ultimately have "walk_parts es w' \<subseteq> walk_parts es w" unfolding walk_parts_def [of es w'] by blast
  then show ?thesis by (auto simp: walk_space_def walk_names_def)
qed

function walk_on :: "topo_edge list \<Rightarrow> walk \<Rightarrow> walk" where
  "walk_on es w = (case wk_queue w of
     [] \<Rightarrow> w
   | (n, ns) # q \<Rightarrow> walk_on es (fold (follow n ns) (edges_from es n) (w\<lparr>wk_queue := q\<rparr>)))"
  by pat_completeness auto
termination
proof (relation "measures [\<lambda>(es, w). card (walk_space es w - set (wk_visited w)), \<lambda>(es, w). length (wk_queue w)]", goal_cases)
  case (2 es w x q n ns)
  then have queue: "wk_queue w = (n, ns) # q" by simp
  let ?w' = "fold (follow n ns) (edges_from es n) (w\<lparr>wk_queue := q\<rparr>)"
  have g: "grown (walk_space es w) (w\<lparr>wk_queue := q\<rparr>) ?w'" by (rule walk_step_grown [OF queue])
  then obtain new where new: "wk_queue ?w' = q @ new" "wk_visited ?w' = rev new @ wk_visited w"
    "set new \<subseteq> walk_space es w - set (wk_visited w)" by (auto simp: grown_def)
  note sub = walk_space_step [OF queue g]
  have fin: "finite (walk_space es w - set (wk_visited w))" by (simp add: finite_walk_space)
  show ?case
  proof (cases new)
    case Nil
    then have "card (walk_space es ?w' - set (wk_visited ?w')) \<le> card (walk_space es w - set (wk_visited w))"
      using sub new by (intro card_mono [OF fin]) auto
    then show ?thesis using Nil new(1) queue by auto
  next
    case (Cons y ys)
    then have "walk_space es ?w' - set (wk_visited ?w') \<subset> walk_space es w - set (wk_visited w)"
      using sub new by auto
    then show ?thesis using psubset_card_mono [OF fin] by simp
  qed
qed simp

declare walk_on.simps [simp del]

section \<open>Roots of the walk\<close>

record primary_edge =
  pe_dst :: dsnode
  pe_ns :: string
  pe_storage :: string

text \<open>\<open>if vms_by_storage and not vms_by_storage.get(...)\<close>\<close>

definition used_by_jobs :: "(string \<times> int) list \<Rightarrow> string \<Rightarrow> bool" where
  "used_by_jobs counts storage = (counts = [] \<or> truthy_int (map_of counts storage))"

fun primary_edges :: "(string \<times> int) list \<Rightarrow> pbs_servers \<Rightarrow> pve_target list \<Rightarrow> exn + primary_edge list \<times> pbs_servers" where
  "primary_edges counts s [] = Inr ([], s)"
| "primary_edges counts s (t # ts) =
     (if \<not> used_by_jobs counts (pt_storage t) then primary_edges counts s ts
      else rbind (resolve_server (pt_server t) [] (pt_pbs t) s) (\<lambda>(k, s').
           rmap (\<lambda>(ps, s''). (\<lparr>pe_dst = (k, pt_datastore t), pe_ns = opt_or (pt_namespace t) [], pe_storage = pt_storage t\<rparr> # ps, s''))
             (primary_edges counts s' ts)))"

definition usage_by_node :: "pbs_servers \<Rightarrow> usage_at list \<Rightarrow> (dsnode \<times> usage_at) list" where
  "usage_by_node s us = fold (\<lambda>u. case map_of (sv_key s) (ua_pbs u) of
     None \<Rightarrow> id | Some k \<Rightarrow> set_default (k, du_store u) u) us []"

definition reach_primary :: "primary_edge list \<Rightarrow> walk \<Rightarrow> walk" where
  "reach_primary ps w = fold (\<lambda>p. reach (pe_dst p) (pe_ns p) 1) ps w"

text \<open>Datastores of the cluster's own PBS that take no part in the flow\<close>

definition reach_idle_of :: "dsnode list \<Rightarrow> string \<Rightarrow> walk \<Rightarrow> walk" where
  "reach_idle_of stores key w =
     fold (\<lambda>n w. if fst n = key \<and> n \<notin> fst ` set (wk_depth w) then reach n [] 1 w else w) (sort stores) w"

definition reach_idle :: "pbs_servers \<Rightarrow> registered_pbs list \<Rightarrow> dsnode list \<Rightarrow> walk \<Rightarrow> exn + walk" where
  "reach_idle s own stores w0 =
     (let involved = (fst \<circ> fst) ` set (wk_depth w0)
      in fold (\<lambda>c r. rbind r (\<lambda>w. rmap (\<lambda>key.
           if truthy_str (rp_namespace c) \<or> key \<in> involved then w else reach_idle_of stores key w) (key_of s (rp_id c)))) own (Inr w0))"

section \<open>Columns: the longest path from the cluster\<close>

record dfs =
  df_stack :: "(dsnode \<times> topo_edge list) list"
  df_path :: "dsnode list"
  df_done :: "dsnode list"
  df_back :: "nat list"

definition dfs_space :: "topo_edge list \<Rightarrow> dfs \<Rightarrow> dsnode set" where
  "dfs_space es d = te_dst ` (set es \<union> (\<Union>f\<in>set (df_stack d). set (snd f))) - set (df_path d) - set (df_done d)"

definition dfs_work :: "topo_edge list \<Rightarrow> dfs \<Rightarrow> nat" where
  "dfs_work es d = (\<Sum>n\<in>dfs_space es d. Suc (length (edges_from es n))) + sum_list (map (\<lambda>f. Suc (length (snd f))) (df_stack d))"

lemma dfs_work_less:
  assumes "dfs_space es d' \<subseteq> dfs_space es d"
    and "sum_list (map (\<lambda>f. Suc (length (snd f))) (df_stack d')) < sum_list (map (\<lambda>f. Suc (length (snd f))) (df_stack d))"
  shows "dfs_work es d' < dfs_work es d"
proof -
  have "finite (dfs_space es d)" by (simp add: dfs_space_def)
  then have "(\<Sum>n\<in>dfs_space es d'. Suc (length (edges_from es n))) \<le> (\<Sum>n\<in>dfs_space es d. Suc (length (edges_from es n)))"
    by (rule sum_mono2) (use assms(1) in auto)
  then show ?thesis using assms(2) by (simp add: dfs_work_def)
qed

lemma dfs_work_push:
  assumes "df_stack d = (n, e # ch) # rest" and "te_dst e \<notin> set (df_path d)" and "te_dst e \<notin> set (df_done d)"
  shows "dfs_work es (d\<lparr>df_stack := (te_dst e, edges_from es (te_dst e)) # (n, ch) # rest, df_path := te_dst e # df_path d\<rparr>) < dfs_work es d"
    (is "dfs_work es ?d < _")
proof -
  have fin: "finite (dfs_space es d)" by (simp add: dfs_space_def)
  have mem: "te_dst e \<in> dfs_space es d" using assms by (auto simp: dfs_space_def)
  have sub: "dfs_space es ?d \<subseteq> dfs_space es d - {te_dst e}" using assms(1) by (auto simp: dfs_space_def edges_from_def)
  have "(\<Sum>n\<in>dfs_space es ?d. Suc (length (edges_from es n))) \<le> (\<Sum>n\<in>dfs_space es d - {te_dst e}. Suc (length (edges_from es n)))"
    by (rule sum_mono2) (use sub fin in auto)
  then show ?thesis using sum.remove [OF fin mem, of "\<lambda>n. Suc (length (edges_from es n))"] assms(1) by (simp add: dfs_work_def)
qed

function search :: "topo_edge list \<Rightarrow> dfs \<Rightarrow> dfs" where
  "search es d = (case df_stack d of
     [] \<Rightarrow> d
   | (n, []) # rest \<Rightarrow> search es (d\<lparr>df_stack := rest, df_path := removeAll n (df_path d), df_done := n # df_done d\<rparr>)
   | (n, e # ch) # rest \<Rightarrow>
       if te_dst e \<in> set (df_path d) then search es (d\<lparr>df_stack := (n, ch) # rest, df_back := te_id e # df_back d\<rparr>)
       else if te_dst e \<in> set (df_done d) then search es (d\<lparr>df_stack := (n, ch) # rest\<rparr>)
       else search es (d\<lparr>df_stack := (te_dst e, edges_from es (te_dst e)) # (n, ch) # rest, df_path := te_dst e # df_path d\<rparr>))"
  by pat_completeness auto
termination
proof (relation "measure (\<lambda>(es, d). dfs_work es d)", goal_cases)
  case (2 es d f rest n ch)
  then show ?case by (auto intro!: dfs_work_less simp: dfs_space_def)
next
  case (3 es d f rest n ch e ch')
  then show ?case by (auto intro!: dfs_work_less simp: dfs_space_def)
next
  case (4 es d f rest n ch e ch')
  then show ?case by (auto intro!: dfs_work_less simp: dfs_space_def)
next
  case (5 es d f rest n ch e ch')
  then show ?case using dfs_work_push [of d n e ch' rest es] by simp
qed simp

declare search.simps [simp del]

definition search_from :: "topo_edge list \<Rightarrow> dsnode \<Rightarrow> dfs \<Rightarrow> dfs" where
  "search_from es r d = (if r \<in> set (df_done d) then d else search es (d\<lparr>df_stack := [(r, edges_from es r)], df_path := [r]\<rparr>))"

definition layer_roots :: "dsnode list \<Rightarrow> dsnode list \<Rightarrow> (dsnode \<Rightarrow> int) \<Rightarrow> dsnode list" where
  "layer_roots reached primaries counts =
     (let roots = sort_key (\<lambda>n. (- counts n, n)) (remdups primaries)
      in roots @ sort (filter (\<lambda>n. n \<notin> set roots) reached))"

definition relax_edge :: "topo_edge \<Rightarrow> (dsnode \<Rightarrow> int) \<times> bool \<Rightarrow> (dsnode \<Rightarrow> int) \<times> bool" where
  "relax_edge e lc = (case lc of (layer, changed) \<Rightarrow>
     if layer (te_dst e) < layer (te_src e) + 1 then (layer(te_dst e := layer (te_src e) + 1), True) else (layer, changed))"

fun relax_rounds :: "nat \<Rightarrow> topo_edge list \<Rightarrow> (dsnode \<Rightarrow> int) \<Rightarrow> dsnode \<Rightarrow> int" where
  "relax_rounds 0 es layer = layer"
| "relax_rounds (Suc n) es layer =
     (case fold relax_edge es (layer, False) of (layer', changed) \<Rightarrow> if changed then relax_rounds n es layer' else layer')"

definition no_search :: dfs where "no_search = \<lparr>df_stack = [], df_path = [], df_done = [], df_back = []\<rparr>"

text \<open>The layer of every reached datastore, and the edges that close a cycle\<close>

definition layers_of :: "dsnode list \<Rightarrow> primary_edge list \<Rightarrow> topo_edge list \<Rightarrow> (dsnode \<Rightarrow> int) \<Rightarrow> (dsnode \<Rightarrow> int) \<times> nat list" where
  "layers_of reached ps es counts =
     (let back = df_back (fold (search_from es) (layer_roots reached (map pe_dst ps) counts) no_search)
      in (relax_rounds (length reached) (filter (\<lambda>e. te_id e \<notin> set back) es) (\<lambda>n. 1), back))"

section \<open>Guests that arrive by sync jobs\<close>

record topo_query =
  tq_cluster :: int
  tq_now :: int
  tq_counts :: "(string \<times> int) list"
  tq_guests :: "(string \<times> int list) list option"
  tq_present :: "((string \<times> string) \<times> (int \<times> int) list) list option"
  tq_windows :: "(string \<times> int) list"
  tq_default_window :: int

text \<open>Guests with their newest backup, and whether one of their backups is within the window\<close>

type_synonym sightings = "(int \<times> bool \<times> int) list"

definition sight :: "int \<Rightarrow> int \<times> int \<Rightarrow> sightings \<Rightarrow> sightings" where
  "sight since g seen = (case g of (v, latest) \<Rightarrow> case opt_or (map_of seen v) (False, latest) of (current, newest) \<Rightarrow>
     dict_set v (current \<or> since \<le> latest, max newest latest) seen)"

definition window_start :: "topo_query \<Rightarrow> string \<Rightarrow> int" where
  "window_start q label = tq_now q - opt_or (map_of (tq_windows q) (''pbs:'' @ label)) (tq_default_window q) * (86400 * 1000000)"

fun present_at :: "topo_query \<Rightarrow> pbs_servers \<Rightarrow> (dsnode \<Rightarrow> sightings) \<Rightarrow> ((string \<times> string) \<times> (int \<times> int) list) list
     \<Rightarrow> exn + (dsnode \<Rightarrow> sightings) \<times> pbs_servers" where
  "present_at q s seen [] = Inr (seen, s)"
| "present_at q s seen (((label, store), guests) # rest) =
     rbind (resolve_server label label None s) (\<lambda>(k, s').
       present_at q s' (seen((k, store) := fold (sight (window_start q label)) guests (seen (k, store)))) rest)"

text \<open>Guests that the cluster's backup jobs write to the datastore directly\<close>

definition direct_guests :: "topo_query \<Rightarrow> primary_edge list \<Rightarrow> dsnode \<Rightarrow> int list" where
  "direct_guests q ps n =
     concat (map (\<lambda>p. opt_or (map_of (opt_or (tq_guests q) []) (pe_storage p)) []) (filter (\<lambda>p. pe_dst p = n) ps))"

definition arrived :: "topo_query \<Rightarrow> primary_edge list \<Rightarrow> topo_edge list \<Rightarrow> (dsnode \<Rightarrow> sightings) \<Rightarrow> dsnode \<Rightarrow> sightings" where
  "arrived q ps es seen n =
     (if n \<in> te_dst ` set es then filter (\<lambda>g. fst g \<notin> set (direct_guests q ps n)) (seen n) else [])"

text \<open>Current copies, and stale ones with their date\<close>

definition synced_at :: "topo_query \<Rightarrow> primary_edge list \<Rightarrow> topo_edge list \<Rightarrow> (dsnode \<Rightarrow> sightings) \<Rightarrow> dsnode \<Rightarrow> int list \<times> (int \<times> int) list" where
  "synced_at q ps es seen n =
     (let gs = arrived q ps es seen n
      in (map fst (filter (\<lambda>g. fst (snd g)) gs), map (\<lambda>g. (fst g, snd (snd g))) (filter (\<lambda>g. \<not> fst (snd g)) gs)))"

definition synced_guests :: "topo_query \<Rightarrow> pbs_servers \<Rightarrow> primary_edge list \<Rightarrow> topo_edge list
     \<Rightarrow> exn + (dsnode \<Rightarrow> int list \<times> (int \<times> int) list) option \<times> pbs_servers" where
  "synced_guests q s ps es = (case tq_present q of
     None \<Rightarrow> Inr (None, s)
   | Some present \<Rightarrow> rmap (\<lambda>(seen, s'). (Some (synced_at q ps es seen), s')) (present_at q s (\<lambda>n. []) present))"

section \<open>The diagram\<close>

record topo_line =
  tl_sync :: bool
  tl_from :: string
  tl_to :: string
  tl_from_ns :: string
  tl_to_ns :: string
  tl_to_conn :: "int option"
  tl_state :: string
  tl_storage :: "string option"
  tl_guests :: "int option"
  tl_job :: "job_row option"
  tl_source_server :: string
  tl_source_label :: string
  tl_minor :: bool
  tl_back :: bool
  tl_span :: int

record store_box =
  sb_id :: string
  sb_store :: string
  sb_pct :: "int option"
  sb_state :: string
  sb_used :: "int option"
  sb_total :: "int option"
  sb_full_at :: "int option"
  sb_synced :: "int option"
  sb_stale :: "(int \<times> int) list"
  sb_primary :: "topo_line list"
  sb_incoming :: "topo_line list"

record server_box =
  vb_server :: string
  vb_registered :: bool
  vb_conn :: "int option"
  vb_nodes :: "dsnode list"
  vb_stores :: "store_box list"

record diagram =
  dg_columns :: "server_box list list"
  dg_edges :: "topo_line list"

text \<open>\<open>sum(earlier) / len(earlier)\<close> of the positions of the predecessors that are placed\<close>

definition placed_before :: "topo_edge list \<Rightarrow> (dsnode \<times> nat) list \<Rightarrow> dsnode \<Rightarrow> nat list" where
  "placed_before es position n =
     concat (map (\<lambda>e. case map_of position (te_src e) of Some i \<Rightarrow> [i] | None \<Rightarrow> []) (filter (\<lambda>e. te_dst e = n) es))"

definition column_weight :: "topo_edge list \<Rightarrow> (dsnode \<Rightarrow> int) \<Rightarrow> (dsnode \<times> nat) list \<Rightarrow> bool \<Rightarrow> dsnode \<Rightarrow> rat" where
  "column_weight es counts position leftmost n =
     (let earlier = placed_before es position n
      in if earlier \<noteq> [] then fl64 (of_nat (sum_list earlier) / of_nat (length earlier))
         else if leftmost then - of_int (counts n) else 1000000000)"

text \<open>\<open>groups.setdefault(node[0], ...)["stores"].append(...)\<close>\<close>

fun add_to_group :: "dsnode \<Rightarrow> (string \<times> dsnode list) list \<Rightarrow> (string \<times> dsnode list) list" where
  "add_to_group n [] = [(fst n, [n])]"
| "add_to_group n ((k, ns) # gs) = (if k = fst n then (k, ns @ [n]) # gs else (k, ns) # add_to_group n gs)"

definition column_of :: "pbs_servers \<Rightarrow> (dsnode \<Rightarrow> rat) \<Rightarrow> dsnode list \<Rightarrow> (string \<times> dsnode list) list" where
  "column_of s weight level_nodes =
     (let groups = fold add_to_group (sort_key (\<lambda>n. (weight n, n)) level_nodes) [];
          ordered = sort_key (\<lambda>g. (weight (hd (snd g)), name_of_key s (fst g))) groups
      in map (\<lambda>(k, ns). (k, sort_key (\<lambda>n. natural (snd n)) ns)) ordered)"

fun columns_of :: "pbs_servers \<Rightarrow> topo_edge list \<Rightarrow> (dsnode \<Rightarrow> int) \<Rightarrow> dsnode list \<Rightarrow> (dsnode \<Rightarrow> int) \<Rightarrow> (dsnode \<times> nat) list \<Rightarrow> int list
     \<Rightarrow> (string \<times> dsnode list) list list" where
  "columns_of s es counts reached layer position [] = []"
| "columns_of s es counts reached layer position (level # levels) =
     (let col = column_of s (column_weight es counts position (level = 1)) (filter (\<lambda>n. layer n = level) reached);
          placed = concat (map snd col)
      in col # columns_of s es counts reached layer (fold (\<lambda>(n, i). dict_set n i) (zip placed [0 ..< length placed]) position) levels)"

text \<open>Everything but the counters of the datastores: the servers, the lines and the layers\<close>

record flow =
  fw_servers :: pbs_servers
  fw_primary :: "primary_edge list"
  fw_all :: "topo_edge list"
  fw_edges :: "topo_edge list"
  fw_reached :: "dsnode list"
  fw_usage :: "(dsnode \<times> usage_at) list"

definition own_conns :: "int \<Rightarrow> registered_pbs list \<Rightarrow> registered_pbs list" where
  "own_conns cl conns = filter (\<lambda>c. rp_cluster c = cl) conns"

definition flow_of :: "topo_query \<Rightarrow> pve_target list \<Rightarrow> registered_pbs list \<Rightarrow> job_row list \<Rightarrow> usage_at list \<Rightarrow> exn + flow" where
  "flow_of q targets conns jobs usage =
     rbind (servers_of conns) (\<lambda>s0.
     let used = usage_by_node s0 usage in
     rbind (replication_edges s0 [] 0 jobs) (\<lambda>(es, s1).
     rbind (primary_edges (tq_counts q) s1 targets) (\<lambda>(ps, s2).
     let w1 = walk_on es (reach_primary ps no_walk) in
     rmap (\<lambda>w. let w2 = walk_on es w in
       \<lparr>fw_servers = s2, fw_primary = ps, fw_all = es, fw_edges = wk_edges w2, fw_reached = map fst (wk_depth w2), fw_usage = used\<rparr>)
       (reach_idle s2 (own_conns (tq_cluster q) conns) (map fst used) w1))))"

definition guests_to :: "topo_query \<Rightarrow> primary_edge list \<Rightarrow> dsnode \<Rightarrow> int" where
  "guests_to q ps n = sum_list (map (\<lambda>p. opt_or (map_of (tq_counts q) (pe_storage p)) 0) (filter (\<lambda>p. pe_dst p = n) ps))"

definition flow_layers :: "topo_query \<Rightarrow> flow \<Rightarrow> (dsnode \<Rightarrow> int) \<times> nat list" where
  "flow_layers q f = layers_of (fw_reached f) (fw_primary f) (fw_edges f) (guests_to q (fw_primary f))"

definition own_conn_by_server :: "pbs_servers \<Rightarrow> registered_pbs list \<Rightarrow> string \<Rightarrow> int option" where
  "own_conn_by_server s own k = map_of (rev (concat (map (\<lambda>c. case map_of (sv_key s) (rp_id c) of Some k' \<Rightarrow> [(k', rp_id c)] | None \<Rightarrow> []) own))) k"

definition box_id :: "dsnode list \<Rightarrow> dsnode \<Rightarrow> string" where
  "box_id ordered n = ''ds-'' @ string_of_nat (length (takeWhile (\<lambda>m. m \<noteq> n) ordered))"

definition primary_line :: "topo_query \<Rightarrow> int \<Rightarrow> (dsnode \<Rightarrow> string) \<Rightarrow> (dsnode \<Rightarrow> int) \<Rightarrow> primary_edge \<Rightarrow> topo_line" where
  "primary_line q most ids layer p =
     (let n = map_of (tq_counts q) (pe_storage p)
      in \<lparr>tl_sync = False, tl_from = ''cluster'', tl_to = ids (pe_dst p), tl_from_ns = [], tl_to_ns = pe_ns p, tl_to_conn = None,
          tl_state = ''ok'', tl_storage = Some (pe_storage p), tl_guests = n, tl_job = None, tl_source_server = [], tl_source_label = [],
          tl_minor = (case n of None \<Rightarrow> False | Some v \<Rightarrow> 0 < most \<and> 4 * v \<le> most), tl_back = False, tl_span = layer (pe_dst p)\<rparr>)"

definition sync_line :: "pbs_servers \<Rightarrow> (string \<Rightarrow> int option) \<Rightarrow> (dsnode \<Rightarrow> string) \<Rightarrow> (dsnode \<Rightarrow> int) \<Rightarrow> nat list \<Rightarrow> topo_edge \<Rightarrow> topo_line" where
  "sync_line s own ids layer back e =
     \<lparr>tl_sync = True, tl_from = ids (te_src e), tl_to = ids (te_dst e), tl_from_ns = te_src_ns e, tl_to_ns = te_dst_ns e,
      tl_to_conn = own (fst (te_dst e)), tl_state = te_state e, tl_storage = None, tl_guests = None, tl_job = Some (te_job e),
      tl_source_server = name_of_key s (fst (te_src e)), tl_source_label = name_of_key s (fst (te_src e)) @ ''/'' @ snd (te_src e),
      tl_minor = False, tl_back = (te_id e \<in> set back), tl_span = layer (te_dst e) - layer (te_src e)\<rparr>"

definition sync_key :: "topo_line \<Rightarrow> string option" where
  "sync_key l = map_option (\<lambda>j. string_of_int (jr_pbs j) @ '':'' @ sj_job_id j) (tl_job l)"

definition store_box_of ::
  "topo_query \<Rightarrow> (dsnode \<times> usage_at) list \<Rightarrow> (dsnode \<Rightarrow> int list \<times> (int \<times> int) list) option \<Rightarrow> (dsnode \<Rightarrow> string)
     \<Rightarrow> topo_line list \<Rightarrow> dsnode \<Rightarrow> store_box" where
  "store_box_of q usage synced ids lines n =
     (let row = map_of usage n; tot = (case row of Some u \<Rightarrow> du_total u | None \<Rightarrow> 0)
      in \<lparr>sb_id = ids n, sb_store = snd n,
          sb_pct = (case row of Some u \<Rightarrow> if tot \<noteq> 0 then Some (round_half_even (used_percent (du_used u) tot)) else None | None \<Rightarrow> None),
          sb_state = (case row of Some u \<Rightarrow> assess_datastore_usage (du_used u) tot (du_full_at u) (tq_now q) | None \<Rightarrow> ''unknown''),
          sb_used = map_option du_used row, sb_total = (if tot \<noteq> 0 then Some tot else None),
          sb_full_at = Option.bind row du_full_at,
          sb_synced = map_option (\<lambda>f. int (length (fst (f n)))) synced,
          sb_stale = (case synced of Some f \<Rightarrow> sort (snd (f n)) | None \<Rightarrow> []),
          sb_primary = filter (\<lambda>l. \<not> tl_sync l \<and> tl_to l = ids n) lines,
          sb_incoming = sort_key (\<lambda>l. natural (tl_source_label l)) (filter (\<lambda>l. tl_sync l \<and> tl_to l = ids n) lines)\<rparr>)"

definition diagram_ids :: "flow \<Rightarrow> (dsnode \<Rightarrow> int) \<Rightarrow> dsnode \<Rightarrow> string" where
  "diagram_ids f layer = box_id (sort_key (\<lambda>n. (layer n, n)) (fw_reached f))"

definition most_guests :: "topo_query \<Rightarrow> primary_edge list \<Rightarrow> int" where
  "most_guests q ps = foldr max (map (\<lambda>p. opt_or (map_of (tq_counts q) (pe_storage p)) 0) ps) 0"

definition diagram_lines :: "topo_query \<Rightarrow> registered_pbs list \<Rightarrow> pbs_servers \<Rightarrow> flow \<Rightarrow> (dsnode \<Rightarrow> int) \<Rightarrow> nat list \<Rightarrow> topo_line list" where
  "diagram_lines q conns s f layer back =
     map (primary_line q (most_guests q (fw_primary f)) (diagram_ids f layer) layer) (fw_primary f)
     @ map (sync_line s (own_conn_by_server s (own_conns (tq_cluster q) conns)) (diagram_ids f layer) layer back) (fw_edges f)"

definition server_box_of ::
  "registered_pbs list \<Rightarrow> pbs_servers \<Rightarrow> (dsnode \<Rightarrow> store_box) \<Rightarrow> string \<times> dsnode list \<Rightarrow> server_box" where
  "server_box_of own s box g = \<lparr>vb_server = name_of_key s (fst g), vb_registered = registered_key s (fst g),
     vb_conn = own_conn_by_server s own (fst g), vb_nodes = snd g, vb_stores = map box (snd g)\<rparr>"

definition node_columns :: "topo_query \<Rightarrow> pbs_servers \<Rightarrow> flow \<Rightarrow> (dsnode \<Rightarrow> int) \<Rightarrow> (string \<times> dsnode list) list list" where
  "node_columns q s f layer = columns_of s (fw_edges f) (guests_to q (fw_primary f)) (fw_reached f) layer []
     (sort (remdups (map layer (fw_reached f))))"

definition draw :: "topo_query \<Rightarrow> registered_pbs list \<Rightarrow> flow \<Rightarrow> exn + diagram" where
  "draw q conns f =
     (case flow_layers q f of (layer, back) \<Rightarrow>
        rmap (\<lambda>(synced, s).
          let lines = diagram_lines q conns s f layer back;
              box = store_box_of q (fw_usage f) synced (diagram_ids f layer) lines
          in \<lparr>dg_columns = map (map (server_box_of (own_conns (tq_cluster q) conns) s box)) (node_columns q s f layer), dg_edges = lines\<rparr>)
          (synced_guests q (fw_servers f) (fw_primary f) (fw_edges f)))"

text \<open>\<open>guests_by_storage\<close> gives the counts, where it is given.\<close>

definition with_counts :: "topo_query \<Rightarrow> topo_query" where
  "with_counts q = (case tq_guests q of
     None \<Rightarrow> q | Some gs \<Rightarrow> q\<lparr>tq_counts := map (\<lambda>(storage, g). (storage, int (card (set g)))) gs\<rparr>)"

definition build_topology ::
  "topo_query \<Rightarrow> pve_target list \<Rightarrow> registered_pbs list \<Rightarrow> job_row list \<Rightarrow> usage_at list \<Rightarrow> exn + diagram" where
  "build_topology q targets conns jobs usage =
     rbind (flow_of (with_counts q) targets conns jobs usage) (\<lambda>f.
       if fw_reached f = [] then Inr \<lparr>dg_columns = [], dg_edges = []\<rparr> else draw (with_counts q) conns f)"

end
