(* ===== verification/TopologyWalk.thy ===== *)
theory TopologyWalk imports PbsTopology begin

text \<open>
  What the breadth-first walk finds: \<open>carries\<close> says where the backups of the cluster lie, by the
  places it writes to and the sync jobs; the walk ends with exactly these datastores and
  exactly the jobs through which the data flows.
\<close>

inductive carries :: "topo_edge list \<Rightarrow> (dsnode \<times> string) set \<Rightarrow> dsnode \<times> string \<Rightarrow> bool" for es R where
  root: "x \<in> R \<Longrightarrow> carries es R x"
| sync: "carries es R (te_src e, ns) \<Longrightarrow> slashes ns < MAX_NS_DEPTH \<Longrightarrow> e \<in> set es
     \<Longrightarrow> map_ns ns (te_src_ns e) (te_dst_ns e) = Some landed \<Longrightarrow> carries es R (te_dst e, landed)"

definition used_edge :: "topo_edge list \<Rightarrow> (dsnode \<times> string) set \<Rightarrow> topo_edge \<Rightarrow> bool" where
  "used_edge es R e = (e \<in> set es \<and> (\<exists>ns. carries es R (te_src e, ns) \<and> slashes ns < MAX_NS_DEPTH
     \<and> map_ns ns (te_src_ns e) (te_dst_ns e) \<noteq> None))"

lemma carries_mono: "carries es R x \<Longrightarrow> R \<subseteq> R' \<Longrightarrow> carries es R' x"
  by (induction rule: carries.induct) (auto intro: carries.intros)

lemma used_edge_mono: "used_edge es R e \<Longrightarrow> R \<subseteq> R' \<Longrightarrow> used_edge es R' e"
  unfolding used_edge_def using carries_mono [of es R _ R'] by blast

section \<open>The invariant\<close>

definition arrived_at :: "walk \<Rightarrow> dsnode \<times> string \<Rightarrow> bool" where
  "arrived_at w x = (fst x \<in> fst ` set (wk_depth w) \<and> (slashes (snd x) < MAX_NS_DEPTH \<longrightarrow> x \<in> set (wk_visited w)))"

definition closed_at :: "topo_edge list \<Rightarrow> walk \<Rightarrow> dsnode \<times> string \<Rightarrow> bool" where
  "closed_at es w x = (\<forall>e\<in>set (edges_from es (fst x)). \<forall>landed. map_ns (snd x) (te_src_ns e) (te_dst_ns e) = Some landed
     \<longrightarrow> arrived_at w (te_dst e, landed) \<and> e \<in> set (wk_edges w))"

definition walk_sound :: "topo_edge list \<Rightarrow> (dsnode \<times> string) set \<Rightarrow> walk \<Rightarrow> bool" where
  "walk_sound es R w =
     ((\<forall>x\<in>set (wk_visited w). carries es R x \<and> slashes (snd x) < MAX_NS_DEPTH)
      \<and> (\<forall>n\<in>fst ` set (wk_depth w). \<exists>ns. carries es R (n, ns))
      \<and> set (wk_queue w) \<subseteq> set (wk_visited w) \<and> distinct (map fst (wk_depth w))
      \<and> (\<forall>e\<in>set (wk_edges w). used_edge es R e) \<and> set (wk_used w) = te_id ` set (wk_edges w) \<and> distinct (wk_edges w))"

definition walk_inv :: "topo_edge list \<Rightarrow> (dsnode \<times> string) set \<Rightarrow> (dsnode \<times> string) set \<Rightarrow> walk \<Rightarrow> bool" where
  "walk_inv es R pending w =
     (walk_sound es R w \<and> (\<forall>x\<in>R. arrived_at w x) \<and> (\<forall>x\<in>set (wk_visited w) - pending. closed_at es w x))"

text \<open>Nothing is forgotten.\<close>

definition more_than :: "walk \<Rightarrow> walk \<Rightarrow> bool" where
  "more_than w w' = (fst ` set (wk_depth w) \<subseteq> fst ` set (wk_depth w') \<and> set (wk_visited w) \<subseteq> set (wk_visited w')
     \<and> set (wk_edges w) \<subseteq> set (wk_edges w'))"

lemma more_trans: "more_than a b \<Longrightarrow> more_than b c \<Longrightarrow> more_than a c"
  by (auto simp: more_than_def)

lemma arrived_more: "arrived_at w x \<Longrightarrow> more_than w w' \<Longrightarrow> arrived_at w' x"
  by (auto simp: arrived_at_def more_than_def)

lemma closed_more:
  assumes "closed_at es w x" and m: "more_than w w'"
  shows "closed_at es w' x"
  unfolding closed_at_def
proof (intro ballI allI impI)
  fix e l
  assume "e \<in> set (edges_from es (fst x))" "map_ns (snd x) (te_src_ns e) (te_dst_ns e) = Some l"
  then have "arrived_at w (te_dst e, l)" "e \<in> set (wk_edges w)" using assms(1) by (simp_all add: closed_at_def)
  then show "arrived_at w' (te_dst e, l) \<and> e \<in> set (wk_edges w')" using arrived_more [OF _ m] m by (auto simp: more_than_def)
qed

lemma dom_dict_set: "fst ` set (dict_set k v al) = insert k (fst ` set al)"
  using keys_dict_set [of k v al] by simp

lemma reach_sel [simp]:
  "wk_edges (reach n ns lv w) = wk_edges w" "wk_used (reach n ns lv w) = wk_used w"
  "fst ` set (wk_depth (reach n ns lv w)) = insert n (fst ` set (wk_depth w))"
  "set (wk_visited (reach n ns lv w)) = (if slashes ns < MAX_NS_DEPTH then insert (n, ns) (set (wk_visited w)) else set (wk_visited w))"
  by (auto simp: reach_def Let_def dom_dict_set)

lemma reach_queue:
  "set (wk_queue (reach n ns lv w)) = set (wk_queue w) \<union> (set (wk_visited (reach n ns lv w)) - set (wk_visited w))"
  by (auto simp: reach_def Let_def)

lemma reach_more: "more_than w (reach n ns lv w)"
  by (auto simp: more_than_def)

lemma reach_arrives: "arrived_at (reach n ns lv w) (n, ns)"
  by (simp add: arrived_at_def)

lemma reach_distinct: "distinct (map fst (wk_depth w)) \<Longrightarrow> distinct (map fst (wk_depth (reach n ns lv w)))"
  by (simp add: reach_def Let_def distinct_dict_set)

lemma reach_sound:
  assumes "walk_sound es R w" and "carries es R (n, ns)"
  shows "walk_sound es R (reach n ns lv w)"
  using assms reach_distinct [of w n ns lv] unfolding walk_sound_def by (auto simp: reach_queue split: if_splits)

lemma follow_more: "more_than w (follow n ns e w)"
  using reach_more by (force simp: follow_def Let_def more_than_def split: option.splits)

lemma follow_None: "map_ns ns (te_src_ns e) (te_dst_ns e) = None \<Longrightarrow> follow n ns e w = w"
  by (simp add: follow_def)

lemma follow_queue:
  "set (wk_queue (follow n ns e w)) = set (wk_queue w) \<union> (set (wk_visited (follow n ns e w)) - set (wk_visited w))"
  using reach_queue by (simp add: follow_def Let_def split: option.split)

lemma take_sound:
  "walk_sound es R w \<Longrightarrow> used_edge es R e \<Longrightarrow>
     walk_sound es R (if te_id e \<in> set (wk_used w) then w else w\<lparr>wk_used := te_id e # wk_used w, wk_edges := wk_edges w @ [e]\<rparr>)"
  by (auto simp: walk_sound_def)

lemma follow_sound:
  assumes s: "walk_sound es R w" and x: "carries es R (n, ns)" "slashes ns < MAX_NS_DEPTH" and e: "e \<in> set es" "te_src e = n"
  shows "walk_sound es R (follow n ns e w)"
proof (cases "map_ns ns (te_src_ns e) (te_dst_ns e)")
  case (Some l)
  have "carries es R (te_dst e, l)" using x e Some by (auto intro: carries.sync)
  then have r: "walk_sound es R (reach (te_dst e) l lv w)" for lv by (rule reach_sound [OF s])
  have u: "used_edge es R e" using x e Some by (auto simp: used_edge_def)
  show ?thesis
    unfolding follow_def Some Let_def option.case by (rule take_sound [OF r u])
qed (simp add: follow_None s)

text \<open>Edges of a list have identities of their own.\<close>

lemma follow_takes:
  assumes "walk_sound es R w" and "inj_on te_id (set es)" and "e \<in> set es" and "map_ns ns (te_src_ns e) (te_dst_ns e) = Some l"
  shows "arrived_at (follow n ns e w) (te_dst e, l)" and "e \<in> set (wk_edges (follow n ns e w))"
proof -
  show "arrived_at (follow n ns e w) (te_dst e, l)"
    using reach_arrives by (simp add: follow_def assms(4) Let_def arrived_at_def)
  have "e \<in> set (wk_edges w)" if "te_id e \<in> set (wk_used w)"
  proof -
    from that obtain e' where "e' \<in> set (wk_edges w)" "te_id e' = te_id e" using assms(1) by (auto simp: walk_sound_def)
    moreover from this have "e' \<in> set es" using assms(1) by (auto simp: walk_sound_def used_edge_def)
    ultimately show ?thesis using assms(2,3) by (metis inj_onD)
  qed
  then show "e \<in> set (wk_edges (follow n ns e w))" by (simp add: follow_def assms(4) Let_def)
qed

lemma follows_facts:
  assumes "carries es R (n, ns)" and "slashes ns < MAX_NS_DEPTH" and "inj_on te_id (set es)"
  shows "walk_sound es R w \<Longrightarrow> set xs \<subseteq> set (edges_from es n) \<Longrightarrow>
     walk_sound es R (fold (follow n ns) xs w) \<and> more_than w (fold (follow n ns) xs w)
     \<and> set (wk_queue (fold (follow n ns) xs w)) = set (wk_queue w) \<union> (set (wk_visited (fold (follow n ns) xs w)) - set (wk_visited w))
     \<and> (\<forall>e\<in>set xs. \<forall>l. map_ns ns (te_src_ns e) (te_dst_ns e) = Some l
          \<longrightarrow> arrived_at (fold (follow n ns) xs w) (te_dst e, l) \<and> e \<in> set (wk_edges (fold (follow n ns) xs w)))"
proof (induction xs arbitrary: w)
  case (Cons e xs)
  then have e: "e \<in> set es" "te_src e = n" by (auto simp: edges_from_def)
  note s = follow_sound [OF Cons.prems(1) assms(1,2) e]
  have xs: "set xs \<subseteq> set (edges_from es n)" using Cons.prems(2) by simp
  note ih = Cons.IH [OF s xs]
  note m = follow_more [of w n ns e]
  have q: "set (wk_queue (fold (follow n ns) xs (follow n ns e w)))
     = set (wk_queue w) \<union> (set (wk_visited (fold (follow n ns) xs (follow n ns e w))) - set (wk_visited w))"
    using ih m follow_queue [of n ns e w] by (auto simp: more_than_def)
  have "arrived_at (fold (follow n ns) xs (follow n ns e w)) (te_dst e, l) \<and> e \<in> set (wk_edges (fold (follow n ns) xs (follow n ns e w)))"
    if "map_ns ns (te_src_ns e) (te_dst_ns e) = Some l" for l
    using follow_takes [OF Cons.prems(1) assms(3) e(1) that, of n] ih arrived_more by (auto simp: more_than_def)
  then show ?case using ih q more_trans [OF m] by auto
qed (simp add: more_than_def)

lemma walk_step_inv:
  assumes i: "walk_inv es R (set (wk_queue w)) w" and inj: "inj_on te_id (set es)" and q: "wk_queue w = (n, ns) # q"
  shows "walk_inv es R (set (wk_queue (fold (follow n ns) (edges_from es n) (w\<lparr>wk_queue := q\<rparr>)))) (fold (follow n ns) (edges_from es n) (w\<lparr>wk_queue := q\<rparr>))"
    (is "walk_inv _ _ (set (wk_queue ?w)) _")
proof -
  have s: "walk_sound es R w" using i by (simp add: walk_inv_def)
  then have x: "carries es R (n, ns)" "slashes ns < MAX_NS_DEPTH" using q by (auto simp: walk_sound_def)
  have s0: "walk_sound es R (w\<lparr>wk_queue := q\<rparr>)" using s q by (auto simp: walk_sound_def)
  note f = follows_facts [OF x inj s0 order_refl]
  have m: "more_than w ?w" using f by (auto simp: more_than_def)
  have "closed_at es ?w x" if "x \<in> set (wk_visited ?w) - set (wk_queue ?w)" for x
  proof (cases "x = (n, ns)")
    case True
    then show ?thesis using f by (auto simp: closed_at_def)
  next
    case False
    then have "x \<in> set (wk_visited w) - set (wk_queue w)" using that f q by auto
    then show ?thesis using i closed_more [OF _ m] by (auto simp: walk_inv_def)
  qed
  then show ?thesis using f i arrived_more [OF _ m] by (auto simp: walk_inv_def)
qed

lemma walk_on_inv:
  "walk_inv es R (set (wk_queue w)) w \<Longrightarrow> inj_on te_id (set es) \<Longrightarrow> walk_inv es R {} (walk_on es w)"
proof (induction es w rule: walk_on.induct)
  case (1 es w)
  show ?case
  proof (cases "wk_queue w")
    case Nil
    then show ?thesis using "1.prems" by (simp add: walk_on.simps [of es w])
  next
    case (Cons x q)
    obtain n ns where x: "x = (n, ns)" by (cases x)
    have q: "wk_queue w = (n, ns) # q" using Cons x by simp
    from "1.IH" [OF Cons x [symmetric] walk_step_inv [OF "1.prems" q] "1.prems"(2)] show ?thesis
      by (simp add: walk_on.simps [of es w] q)
  qed
qed

lemma walk_on_done: "wk_queue (walk_on es w) = []"
proof (induction es w rule: walk_on.induct)
  case (1 es w)
  show ?case
  proof (cases "wk_queue w")
    case (Cons x q)
    obtain n ns where x: "x = (n, ns)" by (cases x)
    from "1.IH" [OF Cons x [symmetric]] show ?thesis by (simp add: walk_on.simps [of es w] Cons x)
  qed (simp add: walk_on.simps [of es w])
qed

text \<open>A walk that is done has found everything.\<close>

lemma walk_inv_done:
  assumes i: "walk_inv es R {} w" and "carries es R x"
  shows "arrived_at w x"
  using assms(2)
proof (induction rule: carries.induct)
  case (root x)
  then show ?case using i by (simp add: walk_inv_def)
next
  case (sync e ns l)
  then have "(te_src e, ns) \<in> set (wk_visited w)" by (simp add: arrived_at_def)
  then have "closed_at es w (te_src e, ns)" using i by (simp add: walk_inv_def)
  then show ?case using sync by (auto simp: closed_at_def edges_from_def)
qed

lemma walk_done_exact:
  assumes i: "walk_inv es R {} w"
  shows "n \<in> fst ` set (wk_depth w) \<longleftrightarrow> (\<exists>ns. carries es R (n, ns))"
    and "e \<in> set (wk_edges w) \<longleftrightarrow> used_edge es R e"
proof -
  have s: "walk_sound es R w" using i by (simp add: walk_inv_def)
  show "n \<in> fst ` set (wk_depth w) \<longleftrightarrow> (\<exists>ns. carries es R (n, ns))"
  proof
    assume "\<exists>ns. carries es R (n, ns)"
    then obtain ns where "carries es R (n, ns)" by blast
    from walk_inv_done [OF i this] show "n \<in> fst ` set (wk_depth w)" by (simp add: arrived_at_def)
  next
    assume "n \<in> fst ` set (wk_depth w)"
    then show "\<exists>ns. carries es R (n, ns)" using s by (simp only: walk_sound_def)
  qed
  show "e \<in> set (wk_edges w) \<longleftrightarrow> used_edge es R e"
  proof
    assume "used_edge es R e"
    then obtain ns l where e: "e \<in> set es" "carries es R (te_src e, ns)" "slashes ns < MAX_NS_DEPTH"
      "map_ns ns (te_src_ns e) (te_dst_ns e) = Some l" by (auto simp: used_edge_def)
    then have "(te_src e, ns) \<in> set (wk_visited w)" using walk_inv_done [OF i e(2)] by (simp add: arrived_at_def)
    then have "closed_at es w (te_src e, ns)" using i by (simp add: walk_inv_def)
    then show "e \<in> set (wk_edges w)" using e by (auto simp: closed_at_def edges_from_def)
  qed (use s in \<open>auto simp: walk_sound_def\<close>)
qed

end
