(* ===== verification/TopologyLayers.thy ===== *)
theory TopologyLayers imports PbsTopology begin

text \<open>
  The columns of the diagram: the depth-first search finishes every datastore after the ones that
  its edges lead to, the edges that close a cycle excepted, and the rounds of relaxation
  then place every edge that is left from a column to a later one.
\<close>

section \<open>Depth-first search\<close>

definition edge_rel :: "topo_edge list \<Rightarrow> (dsnode \<times> dsnode) set" where
  "edge_rel es = (\<lambda>e. (te_src e, te_dst e)) ` set es"

text \<open>When a datastore was finished; \<open>df_done\<close> has the last one first.\<close>

definition fin :: "dsnode list \<Rightarrow> dsnode \<Rightarrow> nat" where
  "fin xs n = length (dropWhile (\<lambda>m. m \<noteq> n) xs)"

lemma fin_Cons: "fin (x # xs) n = (if x = n then Suc (length xs) else fin xs n)"
  by (simp add: fin_def)

lemma fin_le: "fin xs n \<le> length xs"
  by (simp add: fin_def length_dropWhile_le)

lemma fin_pos: "n \<in> set xs \<Longrightarrow> 0 < fin xs n"
  by (simp add: fin_def dropWhile_eq_Nil_conv)

definition edge_finished :: "nat list \<Rightarrow> dsnode list \<Rightarrow> topo_edge \<Rightarrow> bool" where
  "edge_finished back done e = (te_id e \<in> set back \<or> te_dst e \<in> set done \<and> fin done (te_dst e) < fin done (te_src e))"

fun frames_ok :: "topo_edge list \<Rightarrow> nat list \<Rightarrow> dsnode list \<Rightarrow> dsnode option \<Rightarrow> (dsnode \<times> topo_edge list) list \<Rightarrow> bool" where
  "frames_ok es B D nxt [] = True"
| "frames_ok es B D nxt ((n, ch) # rest) =
     (set ch \<subseteq> set (edges_from es n)
      \<and> (\<forall>e\<in>set (edges_from es n). e \<in> set ch \<or> te_id e \<in> set B \<or> te_dst e \<in> set D \<or> Some (te_dst e) = nxt)
      \<and> (\<forall>m. nxt = Some m \<longrightarrow> (n, m) \<in> edge_rel es) \<and> frames_ok es B D (Some n) rest)"

definition dfs_ok :: "topo_edge list \<Rightarrow> dfs \<Rightarrow> bool" where
  "dfs_ok es d =
     (distinct (map fst (df_stack d)) \<and> set (df_path d) = fst ` set (df_stack d) \<and> distinct (df_done d)
      \<and> fst ` set (df_stack d) \<inter> set (df_done d) = {}
      \<and> (\<forall>e\<in>set es. te_src e \<in> set (df_done d) \<longrightarrow> edge_finished (df_back d) (df_done d) e)
      \<and> frames_ok es (df_back d) (df_done d) None (df_stack d)
      \<and> (\<forall>i\<in>set (df_back d). \<exists>e\<in>set es. te_id e = i \<and> (te_dst e, te_src e) \<in> (edge_rel es)\<^sup>*))"

lemma edge_rel_mem: "e \<in> set es \<Longrightarrow> (te_src e, te_dst e) \<in> edge_rel es"
  by (auto simp: edge_rel_def)

lemma frames_ok_mono:
  "frames_ok es B D nxt st \<Longrightarrow> set B \<subseteq> set B' \<Longrightarrow> set D \<subseteq> set D' \<Longrightarrow> frames_ok es B' D' nxt st"
proof (induction st arbitrary: nxt)
  case (Cons f st)
  then show ?case by (cases f) (simp, blast)
qed simp

lemma frames_ok_above:
  "frames_ok es B D nxt st \<Longrightarrow> (\<And>m. nxt = Some m \<Longrightarrow> m \<in> set D) \<Longrightarrow> frames_ok es B D None st"
proof (induction st)
  case (Cons f st)
  then show ?case by (cases f) (simp, metis)
qed simp

text \<open>A frame reaches every frame above it.\<close>

lemma frames_reach:
  "frames_ok es B D (Some m) st \<Longrightarrow> n \<in> fst ` set st \<Longrightarrow> (n, m) \<in> (edge_rel es)\<^sup>*"
proof (induction st arbitrary: m)
  case (Cons f st)
  obtain k ch where f: "f = (k, ch)" by (cases f)
  from Cons.prems(1) f have km: "(k, m) \<in> edge_rel es" and rest: "frames_ok es B D (Some k) st" by auto
  show ?case
  proof (cases "n = k")
    case False
    then have "n \<in> fst ` set st" using Cons.prems(2) f by auto
    then have "(n, k) \<in> (edge_rel es)\<^sup>*" by (rule Cons.IH [OF rest])
    then show ?thesis using km by (rule rtrancl_into_rtrancl)
  qed (use km in auto)
qed simp

lemma frames_reach_top:
  assumes "frames_ok es B D None ((n, ch) # rest)" and "m \<in> insert n (fst ` set rest)"
  shows "(m, n) \<in> (edge_rel es)\<^sup>*"
  using assms frames_reach [of es B D n rest m] by auto

lemma edges_fromD: "e \<in> set (edges_from es n) \<Longrightarrow> e \<in> set es \<and> te_src e = n"
  by (simp add: edges_from_def)

text \<open>The four steps\<close>

lemma dfs_ok_pop:
  assumes "dfs_ok es d" and st: "df_stack d = (n, []) # rest"
  shows "dfs_ok es (d\<lparr>df_stack := rest, df_path := removeAll n (df_path d), df_done := n # df_done d\<rparr>)"
proof -
  have n: "n \<notin> set (df_done d)" and dis: "distinct (map fst ((n, []) # rest))" using assms by (auto simp: dfs_ok_def)
  have fr: "frames_ok es (df_back d) (df_done d) None ((n, []) # rest)" using assms by (simp add: dfs_ok_def)
  have "frames_ok es (df_back d) (n # df_done d) (Some n) rest"
    using fr by (auto intro: frames_ok_mono)
  then have "frames_ok es (df_back d) (n # df_done d) None rest" by (rule frames_ok_above) simp
  moreover have "edge_finished (df_back d) (n # df_done d) e" if e: "e \<in> set es" "te_src e \<in> set (n # df_done d)" for e
  proof (cases "te_src e = n")
    case True
    then have "te_id e \<in> set (df_back d) \<or> te_dst e \<in> set (df_done d)" using fr e(1) by (auto simp: edges_from_def)
    then show ?thesis using True n fin_le [of "df_done d" "te_dst e"] by (auto simp: edge_finished_def fin_Cons)
  next
    case False
    then have "edge_finished (df_back d) (df_done d) e" using assms(1) e by (auto simp: dfs_ok_def)
    then show ?thesis using False n by (auto simp: edge_finished_def fin_Cons)
  qed
  ultimately show ?thesis using assms(1) dis n unfolding dfs_ok_def st by auto
qed

lemma dfs_ok_back:
  assumes "dfs_ok es d" and st: "df_stack d = (n, e # ch) # rest" and "te_dst e \<in> set (df_path d)"
  shows "dfs_ok es (d\<lparr>df_stack := (n, ch) # rest, df_back := te_id e # df_back d\<rparr>)"
proof -
  have fr: "frames_ok es (df_back d) (df_done d) None ((n, e # ch) # rest)" using assms by (simp add: dfs_ok_def)
  then have e: "e \<in> set es" "te_src e = n" by (auto dest: edges_fromD)
  have "te_dst e \<in> insert n (fst ` set rest)" using assms by (auto simp: dfs_ok_def)
  then have "(te_dst e, te_src e) \<in> (edge_rel es)\<^sup>*" using frames_reach_top [OF fr] e(2) by simp
  moreover have "frames_ok es (te_id e # df_back d) (df_done d) (Some n) rest"
    using fr by (auto intro: frames_ok_mono)
  ultimately show ?thesis using assms(1) e fr unfolding dfs_ok_def st by (auto simp: edge_finished_def)
qed

lemma dfs_ok_skip:
  assumes "dfs_ok es d" and st: "df_stack d = (n, e # ch) # rest" and "te_dst e \<in> set (df_done d)"
  shows "dfs_ok es (d\<lparr>df_stack := (n, ch) # rest\<rparr>)"
  using assms unfolding dfs_ok_def st by auto

lemma dfs_ok_push:
  assumes "dfs_ok es d" and st: "df_stack d = (n, e # ch) # rest"
    and "te_dst e \<notin> set (df_path d)" and "te_dst e \<notin> set (df_done d)"
  shows "dfs_ok es (d\<lparr>df_stack := (te_dst e, edges_from es (te_dst e)) # (n, ch) # rest, df_path := te_dst e # df_path d\<rparr>)"
proof -
  have fr: "frames_ok es (df_back d) (df_done d) None ((n, e # ch) # rest)" using assms by (simp add: dfs_ok_def)
  then have "e \<in> set es" "te_src e = n" by (auto dest: edges_fromD)
  then have "(n, te_dst e) \<in> edge_rel es" using edge_rel_mem [of e es] by simp
  then have "frames_ok es (df_back d) (df_done d) (Some (te_dst e)) ((n, ch) # rest)" using fr by auto
  then show ?thesis using assms unfolding dfs_ok_def st by auto
qed

lemma search_ok:
  "dfs_ok es d \<Longrightarrow> dfs_ok es (search es d) \<and> df_stack (search es d) = []
     \<and> set (df_done d) \<union> fst ` set (df_stack d) \<subseteq> set (df_done (search es d))"
proof (induction es d rule: search.induct)
  case (1 es d)
  consider "df_stack d = []" | n rest where "df_stack d = (n, []) # rest"
    | n e ch rest where "df_stack d = (n, e # ch) # rest" by (metis list.exhaust surj_pair)
  then show ?case
  proof cases
    case 1
    then show ?thesis using "1.prems" by (simp add: search.simps [of es d])
  next
    case 2
    from "1.IH"(1) [OF 2 refl refl dfs_ok_pop [OF "1.prems" 2]] show ?thesis
      using 2 by (simp add: search.simps [of es d])
  next
    case 3
    note ih = "1.IH"(2-4) [OF 3 refl refl]
    show ?thesis
      using ih dfs_ok_back [OF "1.prems" 3] dfs_ok_skip [OF "1.prems" 3] dfs_ok_push [OF "1.prems" 3] 3
      by (auto simp: search.simps [of es d])
  qed
qed

lemma search_space:
  "dfs_ok es d \<Longrightarrow> set (df_done (search es d)) \<subseteq> set (df_done d) \<union> fst ` set (df_stack d) \<union> te_dst ` set es"
proof (induction es d rule: search.induct)
  case (1 es d)
  consider "df_stack d = []" | n rest where "df_stack d = (n, []) # rest"
    | n e ch rest where "df_stack d = (n, e # ch) # rest" by (metis list.exhaust surj_pair)
  then show ?case
  proof cases
    case 2
    from "1.IH"(1) [OF 2 refl refl dfs_ok_pop [OF "1.prems" 2]] show ?thesis
      using 2 by (simp add: search.simps [of es d])
  next
    case 3
    have "e \<in> set es" using "1.prems" 3 by (auto simp: dfs_ok_def edges_from_def)
    then show ?thesis
      using "1.IH"(2-4) [OF 3 refl refl] dfs_ok_back [OF "1.prems" 3] dfs_ok_skip [OF "1.prems" 3] dfs_ok_push [OF "1.prems" 3] 3
      by (simp add: search.simps [of es d]) blast
  qed (simp add: search.simps [of es d])
qed

lemma search_from_ok:
  assumes "dfs_ok es d" and "df_stack d = []"
  shows "dfs_ok es (search_from es r d) \<and> df_stack (search_from es r d) = [] \<and> insert r (set (df_done d)) \<subseteq> set (df_done (search_from es r d))"
proof (cases "r \<in> set (df_done d)")
  case False
  then have "dfs_ok es (d\<lparr>df_stack := [(r, edges_from es r)], df_path := [r]\<rparr>)"
    using assms by (auto simp: dfs_ok_def)
  from search_ok [OF this] False show ?thesis by (auto simp: search_from_def)
qed (use assms in \<open>auto simp: search_from_def\<close>)

lemma search_from_space:
  assumes "dfs_ok es d" and "df_stack d = []"
  shows "set (df_done (search_from es r d)) \<subseteq> insert r (set (df_done d)) \<union> te_dst ` set es"
proof (cases "r \<in> set (df_done d)")
  case False
  then have "dfs_ok es (d\<lparr>df_stack := [(r, edges_from es r)], df_path := [r]\<rparr>)"
    using assms by (auto simp: dfs_ok_def)
  from search_space [OF this] False show ?thesis by (auto simp: search_from_def)
qed (auto simp: search_from_def)

lemma search_all_space:
  "dfs_ok es d \<Longrightarrow> df_stack d = [] \<Longrightarrow> set (df_done (fold (search_from es) rs d)) \<subseteq> set rs \<union> set (df_done d) \<union> te_dst ` set es"
proof (induction rs arbitrary: d)
  case (Cons r rs)
  show ?case
    using Cons.IH [of "search_from es r d"] search_from_ok [OF Cons.prems, of r] search_from_space [OF Cons.prems, of r] by auto
qed simp

lemma search_all_ok:
  "dfs_ok es d \<Longrightarrow> df_stack d = [] \<Longrightarrow>
     dfs_ok es (fold (search_from es) rs d) \<and> df_stack (fold (search_from es) rs d) = []
     \<and> set rs \<union> set (df_done d) \<subseteq> set (df_done (fold (search_from es) rs d))"
proof (induction rs arbitrary: d)
  case (Cons r rs)
  note s = search_from_ok [OF Cons.prems, of r]
  with Cons.IH [of "search_from es r d"] show ?case by auto
qed simp

lemma no_search_ok: "dfs_ok es no_search"
  by (simp add: dfs_ok_def no_search_def)

section \<open>Relaxation\<close>

definition satisfied :: "(dsnode \<Rightarrow> int) \<Rightarrow> topo_edge \<Rightarrow> bool" where
  "satisfied layer e = (layer (te_src e) < layer (te_dst e))"

text \<open>Every edge whose source has a rank below \<open>k\<close> is satisfied.\<close>

definition settled :: "(dsnode \<Rightarrow> nat) \<Rightarrow> topo_edge list \<Rightarrow> nat \<Rightarrow> (dsnode \<Rightarrow> int) \<Rightarrow> bool" where
  "settled rank fs k layer = (\<forall>e\<in>set fs. rank (te_src e) < k \<longrightarrow> satisfied layer e)"

definition ranked :: "(dsnode \<Rightarrow> nat) \<Rightarrow> topo_edge list \<Rightarrow> bool" where
  "ranked rank fs = (\<forall>e\<in>set fs. rank (te_src e) < rank (te_dst e))"

lemma relax_edge_cases:
  obtains "satisfied l e" "relax_edge e (l, c) = (l, c)"
  | "\<not> satisfied l e" "relax_edge e (l, c) = (l(te_dst e := l (te_src e) + 1), True)"
  by (cases "satisfied l e") (auto simp: relax_edge_def satisfied_def)

lemma relax_edge_settled:
  assumes "ranked rank fs" and "settled rank fs k l" and "e \<in> set fs" and r: "relax_edge e (l, c) = (l', c')"
  shows "settled rank fs k l'" and "rank n \<le> k \<Longrightarrow> l' n = l n" and "l n \<le> l' n"
    and "rank (te_src e) \<le> k \<Longrightarrow> satisfied l' e" and "\<not> c' \<Longrightarrow> l' = l \<and> satisfied l e \<and> \<not> c"
proof -
  have "(settled rank fs k l' \<and> (rank n \<le> k \<longrightarrow> l' n = l n) \<and> l n \<le> l' n)
    \<and> (rank (te_src e) \<le> k \<longrightarrow> satisfied l' e) \<and> (\<not> c' \<longrightarrow> l' = l \<and> satisfied l e \<and> \<not> c)"
  proof (rule relax_edge_cases [of l e c])
    assume u: "\<not> satisfied l e" and "relax_edge e (l, c) = (l(te_dst e := l (te_src e) + 1), True)"
    with r have l': "l' = l(te_dst e := l (te_src e) + 1)" "c'" by auto
    have k: "k \<le> rank (te_src e)" "k < rank (te_dst e)" "te_src e \<noteq> te_dst e"
      using assms(1-3) u by (force simp: settled_def ranked_def)+
    have "satisfied l' f" if "f \<in> set fs" "rank (te_src f) < k" for f
      using that assms(2) u k by (auto simp: l' settled_def satisfied_def)
    moreover have "l n \<le> l' n" using u by (auto simp: l' satisfied_def)
    ultimately show ?thesis using k by (auto simp: l' settled_def satisfied_def)
  qed (use r assms(2) in auto)
  then show "settled rank fs k l'" and "rank n \<le> k \<Longrightarrow> l' n = l n" and "l n \<le> l' n"
    and "rank (te_src e) \<le> k \<Longrightarrow> satisfied l' e" and "\<not> c' \<Longrightarrow> l' = l \<and> satisfied l e \<and> \<not> c" by auto
qed

lemma relax_round:
  assumes "ranked rank fs" and "set xs \<subseteq> set fs"
  shows "settled rank fs k l \<Longrightarrow> fold relax_edge xs (l, c) = (l', c') \<Longrightarrow>
     settled rank fs k l' \<and> (\<forall>n. rank n \<le> k \<longrightarrow> l' n = l n) \<and> (\<forall>n. l n \<le> l' n)
     \<and> (\<forall>e\<in>set xs. rank (te_src e) \<le> k \<longrightarrow> satisfied l' e)
     \<and> (\<not> c' \<longrightarrow> l' = l \<and> \<not> c \<and> (\<forall>e\<in>set xs. satisfied l e))"
  using assms(2)
proof (induction xs arbitrary: l c)
  case (Cons e xs)
  obtain l1 c1 where r: "relax_edge e (l, c) = (l1, c1)" by fastforce
  have e: "e \<in> set fs" and xs: "set xs \<subseteq> set fs" using Cons.prems(3) by auto
  note one = relax_edge_settled [OF assms(1) Cons.prems(1) e r]
  from Cons.prems(2) r have fold: "fold relax_edge xs (l1, c1) = (l', c')" by simp
  note rest = Cons.IH [OF one(1) fold xs]
  have "satisfied l' e" if "rank (te_src e) \<le> k"
  proof -
    have "satisfied l1 e" using one(4) that .
    moreover have "l' (te_src e) = l1 (te_src e)" "l1 (te_dst e) \<le> l' (te_dst e)" using rest that by blast+
    ultimately show ?thesis by (simp add: satisfied_def)
  qed
  moreover have "l n \<le> l' n" for n using one(3) [of n] rest by (meson order_trans)
  moreover have "l' n = l n" if "rank n \<le> k" for n using one(2) [OF that] rest that by metis
  ultimately show ?case using rest one(5) by auto
qed simp

lemma relax_rounds_satisfied:
  assumes "ranked rank fs" and "\<And>e. e \<in> set fs \<Longrightarrow> rank (te_src e) < N"
  shows "settled rank fs k l \<Longrightarrow> N \<le> k + n \<Longrightarrow> e \<in> set fs \<Longrightarrow> satisfied (relax_rounds n fs l) e"
proof (induction n arbitrary: k l)
  case 0
  then show ?case using assms(2) by (force simp: settled_def)
next
  case (Suc n)
  obtain l' c' where f: "fold relax_edge fs (l, False) = (l', c')" by fastforce
  note round = relax_round [OF assms(1) order_refl Suc.prems(1) f]
  show ?case
  proof (cases c')
    case True
    from round have "settled rank fs (Suc k) l'" by (auto simp: settled_def less_Suc_eq_le)
    from Suc.IH [OF this] Suc.prems f True show ?thesis by simp
  next
    case False
    then show ?thesis using round Suc.prems f by simp
  qed
qed

section \<open>The columns\<close>

lemma layers_of_correct:
  assumes d: "distinct reached" and ps: "pe_dst ` set ps \<subseteq> set reached"
    and ends: "\<And>e. e \<in> set es \<Longrightarrow> te_src e \<in> set reached \<and> te_dst e \<in> set reached"
    and l: "layers_of reached ps es counts = (layer, back)" and e: "e \<in> set es"
  shows "te_id e \<notin> set back \<Longrightarrow> layer (te_src e) < layer (te_dst e)"
    and "te_id e \<in> set back \<Longrightarrow> \<exists>e'\<in>set es. te_id e' = te_id e \<and> (te_dst e', te_src e') \<in> (edge_rel es)\<^sup>*"
proof -
  let ?roots = "layer_roots reached (map pe_dst ps) counts"
  define df where "df = fold (search_from es) ?roots no_search"
  have bk: "back = df_back df" and layer: "layer = relax_rounds (length reached) (filter (\<lambda>e. te_id e \<notin> set back) es) (\<lambda>n. 1)"
    using l by (auto simp: layers_of_def df_def Let_def)
  have all: "dfs_ok es df" "set ?roots \<subseteq> set (df_done df)"
    using search_all_ok [OF no_search_ok, of es ?roots] by (auto simp: df_def no_search_def)
  have roots: "set ?roots = set reached" using ps by (auto simp: layer_roots_def Let_def)
  then have cover: "set reached \<subseteq> set (df_done df)" using all(2) by simp
  show "te_id e \<in> set back \<Longrightarrow> \<exists>e'\<in>set es. te_id e' = te_id e \<and> (te_dst e', te_src e') \<in> (edge_rel es)\<^sup>*"
    using all(1) by (auto simp: dfs_ok_def bk)
  define rank where "rank n = length (df_done df) - fin (df_done df) n" for n
  let ?fs = "filter (\<lambda>e. te_id e \<notin> set back) es"
  have "rank (te_src f) < rank (te_dst f)" if "f \<in> set ?fs" for f
  proof -
    have "f \<in> set es" "te_src f \<in> set (df_done df)" using that ends cover by auto
    then have "edge_finished (df_back df) (df_done df) f" using all(1) by (simp add: dfs_ok_def)
    then show ?thesis using that fin_le [of "df_done df" "te_src f"]
      by (auto simp: rank_def edge_finished_def bk)
  qed
  then have ranked: "ranked rank ?fs" by (simp add: ranked_def)
  have "set (df_done df) \<subseteq> set reached"
    using search_all_space [OF no_search_ok, of es ?roots] roots ends by (auto simp: df_def no_search_def)
  then have "card (set (df_done df)) \<le> card (set reached)" by (intro card_mono) simp_all
  moreover have "distinct (df_done df)" using all(1) by (simp add: dfs_ok_def)
  ultimately have len: "length (df_done df) \<le> length reached" using d by (simp add: distinct_card)
  have low: "rank (te_src f) < length reached" if "f \<in> set ?fs" for f
  proof -
    have "te_src f \<in> set (df_done df)" using that ends cover by auto
    then show ?thesis using fin_pos [of "te_src f" "df_done df"] fin_le [of "df_done df" "te_src f"] len unfolding rank_def by linarith
  qed
  have "satisfied layer e" if "te_id e \<notin> set back"
    unfolding layer by (rule relax_rounds_satisfied [OF ranked low, where k = 0]) (use that e in \<open>auto simp: settled_def\<close>)
  then show "te_id e \<notin> set back \<Longrightarrow> layer (te_src e) < layer (te_dst e)" by (simp add: satisfied_def)
qed

end
