(* ===== verification/TopologyServers.thy ===== *)
theory TopologyServers imports PbsTopology begin

text \<open>
  Registered connections that share a name, an API host or an alias, directly or through others,
  are one server: the union-find of \<open>_Servers\<close> gives two connections the same key exactly when a
  chain of shared identities leads from one to the other, and the bound on its loop is enough.
\<close>

section \<open>Forests\<close>

inductive leads :: "(int \<Rightarrow> int) \<Rightarrow> int \<Rightarrow> int \<Rightarrow> nat \<Rightarrow> bool" for p where
  here: "p r = r \<Longrightarrow> leads p r r 0"
| up: "p i \<noteq> i \<Longrightarrow> leads p (p i) r k \<Longrightarrow> leads p i r (Suc k)"

lemma leads_root: "leads p i r k \<Longrightarrow> p r = r"
  by (induction rule: leads.induct) auto

lemma find_root_leads: "leads p i r k \<Longrightarrow> k \<le> n \<Longrightarrow> find_root n p i = r"
proof (induction arbitrary: n rule: leads.induct)
  case (here r)
  then show ?case by (cases n) auto
next
  case (up i r k)
  then show ?case by (cases n) auto
qed

lemma leads_union:
  assumes "leads p i r k" and "p a = a" and "p b = b" and "a \<noteq> b"
  shows "leads (p(a := b)) i (if r = a then b else r) (if r = a then Suc k else k)"
  using assms(1)
proof (induction rule: leads.induct)
  case (here r)
  have "leads (p(a := b)) b b 0" using assms by (intro leads.here) simp
  then have "leads (p(a := b)) a b (Suc 0)" using assms(4) by (intro leads.up) simp_all
  moreover have "r \<noteq> a \<Longrightarrow> leads (p(a := b)) r r 0" using here by (intro leads.here) simp
  ultimately show ?case by (cases "r = a") (simp_all only: if_True if_False refl simp_thms)
next
  case (up i r k)
  then have "i \<noteq> a" using assms(2) by auto
  then have "(p(a := b)) i = p i" by simp
  then have "leads (p(a := b)) ((p(a := b)) i) (if r = a then b else r) (if r = a then Suc k else k)" using up.IH by (simp only:)
  then have "leads (p(a := b)) i (if r = a then b else r) (Suc (if r = a then Suc k else k))"
    using up.hyps(1) \<open>i \<noteq> a\<close> by (intro leads.up) auto
  then show ?case by (cases "r = a") (simp_all only: if_True if_False simp_thms)
qed

definition forest_ok :: "nat \<Rightarrow> int set \<Rightarrow> (int \<Rightarrow> int) \<Rightarrow> bool" where
  "forest_ok n I p = (\<forall>i\<in>I. \<exists>r k. leads p i r k \<and> r \<in> I \<and> k + card {r \<in> I. p r = r} \<le> n)"

lemma find_root_fixed:
  assumes "forest_ok n I p" and "i \<in> I"
  shows "p (find_root n p i) = find_root n p i" and "find_root n p i \<in> I"
    and "\<exists>k. leads p i (find_root n p i) k \<and> k + card {r \<in> I. p r = r} \<le> n"
proof -
  obtain r k where r: "leads p i r k" "r \<in> I" "k + card {r \<in> I. p r = r} \<le> n" using assms by (auto simp: forest_ok_def)
  then have "find_root n p i = r" by (intro find_root_leads [OF r(1)]) simp
  with r leads_root show "p (find_root n p i) = find_root n p i" "find_root n p i \<in> I"
    and "\<exists>k. leads p i (find_root n p i) k \<and> k + card {r \<in> I. p r = r} \<le> n" by auto
qed

lemma forest_union:
  assumes ok: "forest_ok n I p" and fin: "finite I" and a: "a \<in> I" and b: "b \<in> I"
  defines "p' \<equiv> p(find_root n p a := find_root n p b)"
  shows "forest_ok n I p'" and "i \<in> I \<Longrightarrow> find_root n p' i = (if find_root n p i = find_root n p a then find_root n p b else find_root n p i)"
proof -
  let ?ra = "find_root n p a" and ?rb = "find_root n p b"
  note ra = find_root_fixed [OF ok a] and rb = find_root_fixed [OF ok b]
  have "(\<exists>k. leads p' i (if find_root n p i = ?ra then ?rb else find_root n p i) k \<and> k + card {r \<in> I. p' r = r} \<le> n)
      \<and> (if find_root n p i = ?ra then ?rb else find_root n p i) \<in> I" if i: "i \<in> I" for i
  proof (cases "?ra = ?rb")
    case True
    then have "p' = p" using ra by (simp add: p'_def fun_upd_idem)
    then show ?thesis using find_root_fixed [OF ok i] True by auto
  next
    case False
    have roots: "{r \<in> I. p' r = r} = {r \<in> I. p r = r} - {?ra}" using False ra rb by (auto simp: p'_def)
    have "?ra \<in> {r \<in> I. p r = r}" using ra by simp
    then have "Suc (card {r \<in> I. p' r = r}) = card {r \<in> I. p r = r}"
      unfolding roots by (intro card_Suc_Diff1) (simp_all add: fin)
    moreover obtain k where "leads p i (find_root n p i) k" "k + card {r \<in> I. p r = r} \<le> n" using find_root_fixed [OF ok i] by blast
    moreover from this have "leads p' i (if find_root n p i = ?ra then ?rb else find_root n p i) (if find_root n p i = ?ra then Suc k else k)"
      unfolding p'_def using leads_union [OF _ ra(1) rb(1) False] by blast
    moreover have "find_root n p i \<in> I" using find_root_fixed [OF ok i] by blast
    ultimately show ?thesis using rb(2) by (auto split: if_splits)
  qed
  note step = this
  show "forest_ok n I p'" unfolding forest_ok_def using step by blast
  show "find_root n p' i = (if find_root n p i = ?ra then ?rb else find_root n p i)" if i: "i \<in> I"
  proof -
    obtain k where "leads p' i (if find_root n p i = ?ra then ?rb else find_root n p i) k" "k + card {r \<in> I. p' r = r} \<le> n"
      using step [OF i] by blast
    then show ?thesis by (elim find_root_leads) simp
  qed
qed

section \<open>Shared identities\<close>

definition linked :: "(int \<times> string) set \<Rightarrow> (int \<times> int) set" where
  "linked P = {(c, d). \<exists>x. (c, x) \<in> P \<and> (d, x) \<in> P}"

lemma linked_mono: "P \<subseteq> Q \<Longrightarrow> (linked P)\<^sup>* \<subseteq> (linked Q)\<^sup>*"
  by (rule rtrancl_mono) (auto simp: linked_def)

definition united :: "nat \<Rightarrow> int set \<Rightarrow> (int \<times> string) set \<Rightarrow> forest \<Rightarrow> bool" where
  "united n I P f =
     (forest_ok n I (snd f)
      \<and> (\<forall>x. case map_of (fst f) x of None \<Rightarrow> (\<forall>c. (c, x) \<notin> P) | Some c \<Rightarrow> (c, x) \<in> P)
      \<and> (\<forall>c\<in>I. \<forall>d\<in>I. find_root n (snd f) c = find_root n (snd f) d \<longleftrightarrow> (c, d) \<in> (linked P)\<^sup>*))"

lemma equal_along:
  assumes "(c, d) \<in> R\<^sup>*" and "\<And>x y. (x, y) \<in> R \<Longrightarrow> f x = f y"
  shows "f c = f d"
  using assms(1) by (induction rule: rtrancl_induct) (auto dest: assms(2))

lemma claim_united:
  assumes u: "united n I P f" and fin: "finite I" and P: "fst ` P \<subseteq> I" and c: "c \<in> I"
  shows "united n I (insert (c, x) P) (claim_ident n (c, x) f)"
proof (cases "map_of (fst f) x")
  case None
  then have "(d, x) \<notin> P" for d using u by (auto simp: united_def dest: spec [of _ x])
  then have "linked (insert (c, x) P) = insert (c, c) (linked P)" by (auto simp: linked_def)
  then have "(linked (insert (c, x) P))\<^sup>* = (linked P)\<^sup>*" by (metis insert_is_Un rtrancl_idemp rtrancl_Un_rtrancl rtrancl.rtrancl_refl insert_absorb)
  moreover have "claim_ident n (c, x) f = ((x, c) # fst f, snd f)" using None by (cases f) (simp add: claim_ident_def)
  moreover have "case map_of ((x, c) # fst f) y of None \<Rightarrow> \<forall>d. (d, y) \<notin> insert (c, x) P | Some d \<Rightarrow> (d, y) \<in> insert (c, x) P" for y
    using u by (cases "map_of (fst f) y") (auto simp: united_def dest: spec [of _ y])
  ultimately show ?thesis using u by (simp add: united_def)
next
  case (Some o')
  have ok: "forest_ok n I (snd f)" and ox: "(o', x) \<in> P" using u Some by (auto simp: united_def dest: spec [of _ x])
  have o: "o' \<in> I" using ox P by force
  let ?rt = "find_root n (snd f)"
  let ?p = "(snd f)(?rt c := ?rt o')"
  let ?P = "insert (c, x) P"
  have eq: "?rt a = ?rt b \<longleftrightarrow> (a, b) \<in> (linked P)\<^sup>*" if "a \<in> I" "b \<in> I" for a b using u that by (simp add: united_def)
  have new: "find_root n ?p i = (if ?rt i = ?rt c then ?rt o' else ?rt i)" if "i \<in> I" for i
    by (rule forest_union(2) [OF ok fin c o that])
  have link: "find_root n ?p a = find_root n ?p b" if "(a, b) \<in> linked ?P" for a b
  proof -
    from that obtain y where y: "(a, y) \<in> ?P" "(b, y) \<in> ?P" by (auto simp: linked_def)
    have ab: "a \<in> I" "b \<in> I" using y P c by force+
    have same: "?rt d = ?rt o'" if "(d, x) \<in> P" for d
    proof -
      have "d \<in> I" using that P by force
      moreover have "(d, o') \<in> linked P" using that ox by (auto simp: linked_def)
      ultimately show ?thesis using eq [of d o'] o by auto
    qed
    show ?thesis
    proof (cases "(a, y) \<in> P \<and> (b, y) \<in> P")
      case True
      then have "(a, b) \<in> linked P" by (auto simp: linked_def)
      then have "?rt a = ?rt b" using eq ab by auto
      then show ?thesis using new ab by simp
    next
      case False
      then have "y = x" using y by auto
      then have "?rt a = ?rt o' \<or> a = c" "?rt b = ?rt o' \<or> b = c" using same y by auto
      then show ?thesis using new ab by auto
    qed
  qed
  have "find_root n ?p a = find_root n ?p b \<longleftrightarrow> (a, b) \<in> (linked ?P)\<^sup>*" if ab: "a \<in> I" "b \<in> I" for a b
  proof
    assume e: "find_root n ?p a = find_root n ?p b"
    have old: "(u, v) \<in> (linked ?P)\<^sup>*" if "?rt u = ?rt v" "u \<in> I" "v \<in> I" for u v
      using eq [OF that(2,3)] that(1) linked_mono [of P ?P] by blast
    have co: "(c, o') \<in> linked ?P" "(o', c) \<in> linked ?P" using ox by (auto simp: linked_def)
    consider "?rt a = ?rt b" | "?rt a = ?rt c" "?rt b = ?rt o'" | "?rt b = ?rt c" "?rt a = ?rt o'"
      using e new ab by (auto split: if_splits)
    then show "(a, b) \<in> (linked ?P)\<^sup>*"
    proof cases
      case 1
      then show ?thesis using old ab by blast
    next
      case 2
      then have "(a, c) \<in> (linked ?P)\<^sup>*" "(o', b) \<in> (linked ?P)\<^sup>*" using old ab c o by auto
      then show ?thesis using co(1) by (meson rtrancl.rtrancl_into_rtrancl rtrancl_trans)
    next
      case 3
      then have "(a, o') \<in> (linked ?P)\<^sup>*" "(c, b) \<in> (linked ?P)\<^sup>*" using old ab c o by auto
      then show ?thesis using co(2) by (meson rtrancl.rtrancl_into_rtrancl rtrancl_trans)
    qed
  qed (rule equal_along [OF _ link])
  moreover have "claim_ident n (c, x) f = (fst f, ?p)" by (simp add: claim_ident_def Some split: prod.split)
    (metis Some fst_conv option.case(2) snd_conv)
  moreover have "case map_of (fst f) y of None \<Rightarrow> \<forall>d. (d, y) \<notin> ?P | Some d \<Rightarrow> (d, y) \<in> ?P" for y
    using u Some by (cases "y = x") (auto simp: united_def split: option.splits dest: spec [of _ y])
  ultimately show ?thesis using forest_union(1) [OF ok fin c o] by (simp add: united_def)
qed

lemma unite_united:
  assumes fin: "finite I" and n: "card I \<le> n" and P: "fst ` set pairs \<subseteq> I"
  shows "united n I (set pairs) (unite n pairs)"
proof -
  have "united n I (P0 \<union> set ps) (fold (claim_ident n) ps f)"
    if "united n I P0 f" "fst ` P0 \<subseteq> I" "fst ` set ps \<subseteq> I" for P0 ps f
    using that
  proof (induction ps arbitrary: P0 f)
    case (Cons p ps)
    obtain c x where p: "p = (c, x)" by (cases p)
    have c: "c \<in> I" using Cons.prems(3) p by simp
    have "united n I (insert p P0) (claim_ident n p f)" unfolding p by (rule claim_united [OF Cons.prems(1) fin Cons.prems(2) c])
    from Cons.IH [OF this] Cons.prems p show ?case by simp
  qed simp
  moreover have "united n I {} ([], \<lambda>i. i)"
  proof -
    have "leads (\<lambda>i. i) i i 0" for i by (rule leads.here) simp
    then have "forest_ok n I (\<lambda>i. i)" using n unfolding forest_ok_def
      by (intro ballI, rename_tac i, rule_tac x = i in exI, rule_tac x = 0 in exI) simp
    moreover have "find_root n (\<lambda>i. i) i = i" for i by (cases n) auto
    ultimately show ?thesis by (simp add: united_def linked_def)
  qed
  ultimately show ?thesis using P unfolding unite_def by (metis empty_subsetI image_empty sup_bot_left)
qed

text \<open>What two connections have in common, and the pairs of the union-find\<close>

definition identity_in :: "registered_pbs list \<Rightarrow> int \<Rightarrow> string \<Rightarrow> bool" where
  "identity_in conns i x = (\<exists>c\<in>set conns. rp_id c = i \<and> (\<exists>xs. idents_of c = Inr xs \<and> x \<in> set xs))"

definition share_identity :: "registered_pbs list \<Rightarrow> (int \<times> int) set" where
  "share_identity conns = {(i, j). \<exists>x. identity_in conns i x \<and> identity_in conns j x}"

lemma identities_set: "identities conns = Inr pairs \<Longrightarrow> (i, x) \<in> set pairs \<longleftrightarrow> identity_in conns i x"
  unfolding identities_def identity_in_def by (drule rcollect_set [where y = "(i, x)"]) (force simp: rmap_Inr_iff)

lemma string_of_int_eq: "string_of_int a = string_of_int b \<longleftrightarrow> a = b"
proof -
  have "hd (string_of_nat n) \<noteq> CHR ''-''" for n
    using string_of_nat_digits [of n] by (cases "string_of_nat n") (auto simp: is_digit_def)
  then have "string_of_nat n \<noteq> CHR ''-'' # s" for n s by (metis list.sel(1))
  then show ?thesis
    by (auto simp: string_of_int_def split: if_splits dest: sym)
qed

lemma servers_of_correct:
  assumes s: "servers_of conns = Inr s" and d: "distinct (map rp_id conns)" and c: "c \<in> set conns" and c': "c' \<in> set conns"
  shows "map_of (sv_key s) (rp_id c) = map_of (sv_key s) (rp_id c') \<longleftrightarrow> (rp_id c, rp_id c') \<in> (share_identity conns)\<^sup>*"
    and "map_of (sv_key s) (rp_id c) \<noteq> None"
proof -
  obtain pairs where p: "identities conns = Inr pairs" and key: "sv_key s = map (\<lambda>c. (rp_id c, server_key conns pairs (rp_id c))) conns"
    using s by (auto simp: servers_of_def rmap_Inr_iff)
  let ?I = "rp_id ` set conns"
  have keys: "map_of (sv_key s) (rp_id k) = Some (server_key conns pairs (rp_id k))" if "k \<in> set conns" for k
  proof -
    have "map fst (sv_key s) = map rp_id conns" by (simp add: key)
    then show ?thesis using that d by (intro map_of_is_SomeI) (auto simp: key comp_def)
  qed
  then show "map_of (sv_key s) (rp_id c) \<noteq> None" using c by simp
  have "fst ` set pairs \<subseteq> ?I" using identities_set [OF p] by (force simp: identity_in_def)
  moreover have "card ?I \<le> length conns" by (metis List.finite_set card_image_le card_length order_trans)
  ultimately have u: "united (length conns) ?I (set pairs) (unite (length conns) pairs)" by (intro unite_united) simp_all
  have "linked (set pairs) = share_identity conns"
    using identities_set [OF p] by (auto simp: linked_def share_identity_def)
  then show "map_of (sv_key s) (rp_id c) = map_of (sv_key s) (rp_id c') \<longleftrightarrow> (rp_id c, rp_id c') \<in> (share_identity conns)\<^sup>*"
    using u c c' keys by (simp add: united_def server_key_def string_of_int_eq)
qed

end
