(* ===== verification/TopologyProps.thy ===== *)
theory TopologyProps imports TopologyWalk TopologyLayers TopologyServers "HOL-Library.Multiset" begin

text \<open>
  The diagram as a whole: which datastores and jobs it shows, that its lines lead to later columns,
  that every datastore has one box, and which guests count as copied.
\<close>

section \<open>The jobs and the servers of a diagram\<close>

lemma replication_edges_ids:
  "replication_edges s seen n js = Inr (es, s') \<Longrightarrow> (\<forall>e\<in>set es. n \<le> te_id e) \<and> distinct (map te_id es)"
proof (induction js arbitrary: s seen n es s')
  case (Cons j js)
  show ?case
  proof (cases "map_of (sv_key s) (jr_pbs j)")
    case None
    then show ?thesis using Cons by simp
  next
    case (Some here)
    show ?thesis
    proof (cases "(here, sj_job_id j) \<in> set seen")
      case True
      then show ?thesis using Cons Some by simp
    next
      case False
      with Cons.prems Some obtain there s1 es1 where
        "replication_edges s1 ((here, sj_job_id j) # seen) (Suc n) js = Inr (es1, s')" "es = topo_edge_of n j here there # es1"
        by (auto simp: rbind_Inr_iff rmap_Inr_iff)
      with Cons.IH [of s1] show ?thesis by (fastforce simp: topo_edge_of_def Let_def split: prod.splits)
    qed
  qed
qed simp

lemma inj_on_ids: "distinct (map te_id es) \<Longrightarrow> inj_on te_id (set es)"
  by (simp add: distinct_map)

lemma resolve_keeps_keys: "resolve_server h fb p s = Inr (k, s') \<Longrightarrow> sv_key s' = sv_key s \<and> sv_conns s' = sv_conns s"
  by (auto simp: resolve_server_def rbind_Inr_iff rmap_Inr_iff split: option.splits)

lemma replication_keeps_keys: "replication_edges s seen n js = Inr (es, s') \<Longrightarrow> sv_key s' = sv_key s"
proof (induction js arbitrary: s seen n es s')
  case (Cons j js)
  then show ?case
    by (fastforce simp: rbind_Inr_iff rmap_Inr_iff dest: resolve_keeps_keys split: option.splits if_splits)
qed simp

lemma primary_keeps_keys: "primary_edges counts s ts = Inr (ps, s') \<Longrightarrow> sv_key s' = sv_key s"
proof (induction ts arbitrary: s ps s')
  case (Cons t ts)
  then show ?case by (fastforce simp: rbind_Inr_iff rmap_Inr_iff dest: resolve_keeps_keys split: if_splits)
qed simp

section \<open>Roots of the walk\<close>

lemma walk_sound_mono:
  assumes s: "walk_sound es R w" and R: "R \<subseteq> R'"
  shows "walk_sound es R' w"
proof -
  have "carries es R' x \<and> slashes (snd x) < MAX_NS_DEPTH" if "x \<in> set (wk_visited w)" for x
    using that s carries_mono [OF _ R] by (simp add: walk_sound_def)
  moreover have "\<exists>ns. carries es R' (n, ns)" if n: "n \<in> fst ` set (wk_depth w)" for n
  proof -
    have "\<exists>ns. carries es R (n, ns)" using n s by (simp only: walk_sound_def)
    then show ?thesis using carries_mono [OF _ R] by blast
  qed
  moreover have "used_edge es R' e" if "e \<in> set (wk_edges w)" for e
    using that s used_edge_mono [OF _ R] by (simp add: walk_sound_def)
  ultimately show ?thesis using s unfolding walk_sound_def by (intro conjI ballI) (simp_all only:)
qed

lemma walk_inv_add:
  assumes "walk_inv es R P w" and "arrived_at w x"
  shows "walk_inv es (insert x R) P w"
proof -
  have "walk_sound es R w" using assms(1) by (simp add: walk_inv_def)
  then have "walk_sound es (insert x R) w" by (rule walk_sound_mono) blast
  then show ?thesis using assms by (simp add: walk_inv_def)
qed

lemma walk_inv_reach:
  assumes i: "walk_inv es R (set (wk_queue w)) w"
  shows "walk_inv es (insert (n, ns) R) (set (wk_queue (reach n ns lv w))) (reach n ns lv w)"
proof -
  let ?w = "reach n ns lv w" and ?R = "insert (n, ns) R"
  have "walk_sound es R w" using i by (simp only: walk_inv_def)
  then have "walk_sound es ?R w" by (rule walk_sound_mono) blast
  then have "walk_sound es ?R ?w" by (rule reach_sound) (simp add: carries.root)
  moreover have "closed_at es ?w x" if "x \<in> set (wk_visited ?w) - set (wk_queue ?w)" for x
  proof -
    have "x \<in> set (wk_visited w) - set (wk_queue w)" using that reach_queue [of n ns lv w] by blast
    then have "closed_at es w x" using i by (simp only: walk_inv_def)
    then show ?thesis by (rule closed_more [OF _ reach_more])
  qed
  moreover have "arrived_at ?w x" if "x \<in> ?R" for x
  proof (cases "x = (n, ns)")
    case False
    then have "arrived_at w x" using that i by (simp add: walk_inv_def)
    then show ?thesis by (rule arrived_more [OF _ reach_more])
  qed (simp only: reach_arrives)
  ultimately show ?thesis by (simp only: walk_inv_def) blast
qed

lemma walk_inv_primary:
  "walk_inv es R (set (wk_queue w)) w \<Longrightarrow>
     walk_inv es (R \<union> (\<lambda>p. (pe_dst p, pe_ns p)) ` set ps) (set (wk_queue (reach_primary ps w))) (reach_primary ps w)"
proof (induction ps arbitrary: R w)
  case (Cons p ps)
  have eq: "R \<union> (\<lambda>p. (pe_dst p, pe_ns p)) ` set (p # ps) = insert (pe_dst p, pe_ns p) R \<union> (\<lambda>p. (pe_dst p, pe_ns p)) ` set ps"
    by simp
  from Cons.IH [OF walk_inv_reach [OF Cons.prems]] show ?case unfolding eq reach_primary_def fold_simps o_def .
qed (simp add: reach_primary_def)

lemma no_walk_inv: "walk_inv es {} {} no_walk"
  by (simp add: walk_inv_def walk_sound_def no_walk_def)

text \<open>Datastores of servers outside \<open>V\<close> that are reached are reached at their root.\<close>

definition idle_inv :: "topo_edge list \<Rightarrow> string set \<Rightarrow> (dsnode \<times> string) set \<Rightarrow> walk \<Rightarrow> bool" where
  "idle_inv es V R w = (walk_inv es R (set (wk_queue w)) w
     \<and> (\<forall>n\<in>fst ` set (wk_depth w). fst n \<in> V \<or> arrived_at w (n, [])))"

lemma idle_inv_step:
  assumes i: "idle_inv es V R w" and "key \<notin> V"
  shows "idle_inv es V (R \<union> {(m, []) |m. m = n \<and> fst m = key})
    (if fst n = key \<and> n \<notin> fst ` set (wk_depth w) then reach n [] 1 w else w)"
proof -
  consider "fst n \<noteq> key" | "fst n = key" "n \<in> fst ` set (wk_depth w)" | "fst n = key" "n \<notin> fst ` set (wk_depth w)" by blast
  then show ?thesis
  proof cases
    case 1
    then have eq: "R \<union> {(m, []) |m. m = n \<and> fst m = key} = R" by blast
    show ?thesis unfolding eq using i 1 by simp
  next
    case 2
    then have "arrived_at w (n, [])" using i assms(2) by (auto simp: idle_inv_def)
    moreover have "R \<union> {(m, []) |m. m = n \<and> fst m = key} = insert (n, []) R" using 2 by auto
    ultimately show ?thesis using i 2 walk_inv_add by (auto simp: idle_inv_def)
  next
    case 3
    moreover have "R \<union> {(m, []) |m. m = n \<and> fst m = key} = insert (n, []) R" using 3 by auto
    moreover have "idle_inv es V (insert (n, []) R) (reach n [] 1 w)"
      using i walk_inv_reach [of es R w n "[]" 1] reach_arrives [of n "[]" 1 w] arrived_more [OF _ reach_more [of w n "[]" 1]]
      by (auto simp: idle_inv_def)
    ultimately show ?thesis by simp
  qed
qed

lemma idle_inv_fold:
  assumes "key \<notin> V"
  shows "idle_inv es V R w \<Longrightarrow> idle_inv es V (R \<union> {(m, []) |m. m \<in> set ns \<and> fst m = key})
     (fold (\<lambda>n w. if fst n = key \<and> n \<notin> fst ` set (wk_depth w) then reach n [] 1 w else w) ns w)"
proof (induction ns arbitrary: R w)
  case (Cons n ns)
  have eq: "R \<union> {(m, []) |m. m \<in> set (n # ns) \<and> fst m = key}
    = R \<union> {(m, []) |m. m = n \<and> fst m = key} \<union> {(m, []) |m. m \<in> set ns \<and> fst m = key}" by auto
  from Cons.IH [OF idle_inv_step [OF Cons.prems assms]] show ?case unfolding eq fold_simps o_def .
qed simp

lemma idle_inv_of:
  "idle_inv es V R w \<Longrightarrow> key \<notin> V \<Longrightarrow> idle_inv es V (R \<union> {(m, []) |m. m \<in> set stores \<and> fst m = key}) (reach_idle_of stores key w)"
  using idle_inv_fold [of key V es R w "sort stores"] by (simp add: reach_idle_of_def)


lemma fold_rbind_Inl: "fold (\<lambda>c r. rbind r (f c)) cs (Inl e) = Inl e"
  by (induction cs) simp_all

lemma reach_idle_inv:
  fixes V :: "string set"
  assumes "fold (\<lambda>c r. rbind r (\<lambda>w. rmap (\<lambda>key. if truthy_str (rp_namespace c) \<or> key \<in> V then w else reach_idle_of stores key w) (key_of s (rp_id c)))) own (Inr w) = Inr w'"
    and "idle_inv es V R w"
  shows "idle_inv es V (R \<union> {(m, []) |m. m \<in> set stores \<and> fst m \<notin> V
     \<and> (\<exists>c\<in>set own. \<not> truthy_str (rp_namespace c) \<and> map_of (sv_key s) (rp_id c) = Some (fst m))}) w'"
  using assms
proof (induction own arbitrary: R w)
  case (Cons c own)
  let ?S = "\<lambda>cs. {(m, []) |m. m \<in> set stores \<and> fst m \<notin> V \<and> (\<exists>c\<in>cs. \<not> truthy_str (rp_namespace c) \<and> map_of (sv_key s) (rp_id c) = Some (fst m))}"
  obtain key where k: "map_of (sv_key s) (rp_id c) = Some key"
    using Cons.prems(1) by (cases "map_of (sv_key s) (rp_id c)") (simp_all add: key_of_def fold_rbind_Inl)
  let ?w = "if truthy_str (rp_namespace c) \<or> key \<in> V then w else reach_idle_of stores key w"
  have rest: "fold (\<lambda>c r. rbind r (\<lambda>w. rmap (\<lambda>key. if truthy_str (rp_namespace c) \<or> key \<in> V then w else reach_idle_of stores key w) (key_of s (rp_id c)))) own (Inr ?w) = Inr w'"
    using Cons.prems(1) by (simp add: key_of_def k)
  have "idle_inv es V (R \<union> ?S {c}) ?w"
  proof (cases "truthy_str (rp_namespace c) \<or> key \<in> V")
    case True
    then have eq: "R \<union> ?S {c} = R" using k by auto
    show ?thesis unfolding eq using Cons.prems(2) True by simp
  next
    case False
    then have eq: "?S {c} = {(m, []) |m. m \<in> set stores \<and> fst m = key}" using k by auto
    show ?thesis unfolding eq using idle_inv_of [OF Cons.prems(2), of key stores] False by simp
  qed
  note step = Cons.IH [OF rest this]
  have eq: "R \<union> ?S (set (c # own)) = R \<union> ?S {c} \<union> ?S (set own)" by auto
  show ?case unfolding eq by (rule step)
qed simp

section \<open>What a diagram shows\<close>

definition primary_roots :: "flow \<Rightarrow> (dsnode \<times> string) set" where
  "primary_roots f = (\<lambda>p. (pe_dst p, pe_ns p)) ` set (fw_primary f)"

text \<open>A datastore of one of the cluster's own, unrestricted PBS that takes no part in the flow\<close>

definition idle_store :: "topo_query \<Rightarrow> registered_pbs list \<Rightarrow> flow \<Rightarrow> dsnode \<Rightarrow> bool" where
  "idle_store q conns f n =
     (n \<in> fst ` set (fw_usage f)
      \<and> (\<exists>c\<in>set (own_conns (tq_cluster q) conns). \<not> truthy_str (rp_namespace c) \<and> map_of (sv_key (fw_servers f)) (rp_id c) = Some (fst n))
      \<and> (\<forall>m ns. carries (fw_all f) (primary_roots f) (m, ns) \<longrightarrow> fst m \<noteq> fst n))"

definition flow_roots :: "topo_query \<Rightarrow> registered_pbs list \<Rightarrow> flow \<Rightarrow> (dsnode \<times> string) set" where
  "flow_roots q conns f = primary_roots f \<union> {(n, []) |n. idle_store q conns f n}"

lemma image_Collect_ex: "k \<in> fst ` {m. \<exists>x. Q m x} \<longleftrightarrow> (\<exists>m x. Q m x \<and> fst m = k)"
proof
  assume "k \<in> fst ` {m. \<exists>x. Q m x}"
  then obtain m where "m \<in> {m. \<exists>x. Q m x}" "k = fst m" by (rule imageE)
  then show "\<exists>m x. Q m x \<and> fst m = k" by blast
next
  assume "\<exists>m x. Q m x \<and> fst m = k"
  then obtain m x where "Q m x" "k = fst m" by blast
  then show "k \<in> fst ` {m. \<exists>x. Q m x}" by (intro image_eqI [of _ _ m]) auto
qed

lemma flow_walk:
  assumes "flow_of q targets conns jobs usage = Inr f"
  shows "\<exists>w. fw_edges f = wk_edges w \<and> fw_reached f = map fst (wk_depth w) \<and> walk_inv (fw_all f) (flow_roots q conns f) {} w
     \<and> distinct (map te_id (fw_all f))"
proof -
  obtain s0 es s1 ps s2 w where 0: "servers_of conns = Inr s0"
    and 1: "replication_edges s0 [] 0 jobs = Inr (es, s1)" and 2: "primary_edges (tq_counts q) s1 targets = Inr (ps, s2)"
    and 3: "reach_idle s2 (own_conns (tq_cluster q) conns) (map fst (usage_by_node s0 usage)) (walk_on es (reach_primary ps no_walk)) = Inr w"
    and f: "f = \<lparr>fw_servers = s2, fw_primary = ps, fw_all = es, fw_edges = wk_edges (walk_on es w),
       fw_reached = map fst (wk_depth (walk_on es w)), fw_usage = usage_by_node s0 usage\<rparr>"
    using assms by (auto simp: flow_of_def rbind_Inr_iff rmap_Inr_iff Let_def)
  have sel: "fw_all f = es" "fw_usage f = usage_by_node s0 usage" "fw_servers f = s2" by (simp_all only: f flow.select_convs)
  have ids: "distinct (map te_id es)" using replication_edges_ids [OF 1] by simp
  let ?P = "primary_roots f" and ?w1 = "walk_on es (reach_primary ps no_walk)"
  let ?V = "(fst \<circ> fst) ` set (wk_depth ?w1)"
  have "walk_inv es {} (set (wk_queue no_walk)) no_walk" using no_walk_inv by (simp add: no_walk_def)
  from walk_inv_primary [OF this, of ps] have "walk_inv es ?P (set (wk_queue (reach_primary ps no_walk))) (reach_primary ps no_walk)"
    by (simp add: primary_roots_def f)
  then have one: "walk_inv es ?P {} ?w1" by (rule walk_on_inv) (rule inj_on_ids [OF ids])
  have "fst ` set (wk_depth ?w1) = {m. \<exists>ns. carries es ?P (m, ns)}" using walk_done_exact(1) [OF one] by blast
  then have eqV: "?V = fst ` {m. \<exists>ns. carries es ?P (m, ns)}" by (simp only: image_comp [symmetric])
  have V: "k \<in> ?V \<longleftrightarrow> (\<exists>m ns. carries es ?P (m, ns) \<and> fst m = k)" for k
    unfolding eqV by (rule image_Collect_ex)
  have "idle_inv es ?V ?P ?w1" using one walk_on_done [of es "reach_primary ps no_walk"] by (auto simp: idle_inv_def)
  note idle = reach_idle_inv [OF 3 [unfolded reach_idle_def Let_def] this]
  have "idle_store q conns f n \<longleftrightarrow> n \<in> set (map fst (usage_by_node s0 usage)) \<and> fst n \<notin> ?V
      \<and> (\<exists>c\<in>set (own_conns (tq_cluster q) conns). \<not> truthy_str (rp_namespace c) \<and> map_of (sv_key s2) (rp_id c) = Some (fst n))" for n
  proof -
    have "fst n \<notin> ?V \<longleftrightarrow> (\<forall>m ns. carries es ?P (m, ns) \<longrightarrow> fst m \<noteq> fst n)" using V [of "fst n"] by blast
    then show ?thesis unfolding idle_store_def sel image_set by (simp only: conj_commute conj_left_commute)
  qed
  then have eq: "flow_roots q conns f = ?P \<union> {(m, []) |m. m \<in> set (map fst (usage_by_node s0 usage)) \<and> fst m \<notin> ?V
      \<and> (\<exists>c\<in>set (own_conns (tq_cluster q) conns). \<not> truthy_str (rp_namespace c) \<and> map_of (sv_key s2) (rp_id c) = Some (fst m))}"
    by (simp only: flow_roots_def)
  have "idle_inv es ?V (flow_roots q conns f) w" unfolding eq by (rule idle)
  then have "walk_inv es (flow_roots q conns f) {} (walk_on es w)"
    unfolding idle_inv_def by (intro walk_on_inv inj_on_ids [OF ids]) simp
  then show ?thesis using ids by (intro exI [of _ "walk_on es w"]) (simp add: f)
qed

lemma flow_facts:
  assumes "flow_of q targets conns jobs usage = Inr f"
  shows "distinct (fw_reached f)" and "pe_dst ` set (fw_primary f) \<subseteq> set (fw_reached f)"
    and "e \<in> set (fw_edges f) \<Longrightarrow> te_src e \<in> set (fw_reached f) \<and> te_dst e \<in> set (fw_reached f)"
    and "distinct (map te_id (fw_edges f))"
    and "n \<in> set (fw_reached f) \<longleftrightarrow> (\<exists>ns. carries (fw_all f) (flow_roots q conns f) (n, ns))"
    and "e \<in> set (fw_edges f) \<longleftrightarrow> used_edge (fw_all f) (flow_roots q conns f) e"
proof -
  obtain w where w: "fw_edges f = wk_edges w" "fw_reached f = map fst (wk_depth w)"
    and i: "walk_inv (fw_all f) (flow_roots q conns f) {} w" and ids: "distinct (map te_id (fw_all f))"
    using flow_walk [OF assms] by blast
  have s: "walk_sound (fw_all f) (flow_roots q conns f) w" using i by (simp only: walk_inv_def)
  then show "distinct (fw_reached f)" by (simp only: walk_sound_def w)
  have reached: "n \<in> set (fw_reached f) \<longleftrightarrow> (\<exists>ns. carries (fw_all f) (flow_roots q conns f) (n, ns))" for n
    using walk_done_exact(1) [OF i] by (simp only: w image_set)
  then show "n \<in> set (fw_reached f) \<longleftrightarrow> (\<exists>ns. carries (fw_all f) (flow_roots q conns f) (n, ns))" .
  have edges: "e \<in> set (fw_edges f) \<longleftrightarrow> used_edge (fw_all f) (flow_roots q conns f) e" for e
    using walk_done_exact(2) [OF i] by (simp only: w)
  then show "e \<in> set (fw_edges f) \<longleftrightarrow> used_edge (fw_all f) (flow_roots q conns f) e" .
  have "carries (fw_all f) (flow_roots q conns f) (pe_dst p, pe_ns p)" if "p \<in> set (fw_primary f)" for p
    using that by (intro carries.root) (simp add: flow_roots_def primary_roots_def)
  then show "pe_dst ` set (fw_primary f) \<subseteq> set (fw_reached f)" using reached by blast
  show "te_src e \<in> set (fw_reached f) \<and> te_dst e \<in> set (fw_reached f)" if "e \<in> set (fw_edges f)"
  proof -
    from that edges obtain ns l where "e \<in> set (fw_all f)" "carries (fw_all f) (flow_roots q conns f) (te_src e, ns)"
      "slashes ns < MAX_NS_DEPTH" "map_ns ns (te_src_ns e) (te_dst_ns e) = Some l" by (auto simp: used_edge_def)
    then show ?thesis using reached carries.sync by blast
  qed
  have "set (fw_edges f) \<subseteq> set (fw_all f)" using edges by (auto simp: used_edge_def)
  then have "inj_on te_id (set (fw_edges f))" using inj_on_ids [OF ids] by (rule inj_on_subset [rotated])
  moreover have "distinct (fw_edges f)" using s by (simp only: walk_sound_def w)
  ultimately show "distinct (map te_id (fw_edges f))" by (simp add: distinct_map)
qed

text \<open>C1: The diagram shows exactly the datastores in which data of the cluster can lie, and exactly the sync jobs that carry some of it.\<close>

theorem topology_follows_data:
  assumes "flow_of q targets conns jobs usage = Inr f"
  shows "(n \<in> set (fw_reached f) \<longleftrightarrow> (\<exists>ns. carries (fw_all f) (flow_roots q conns f) (n, ns)))
    \<and> (e \<in> set (fw_edges f) \<longleftrightarrow> used_edge (fw_all f) (flow_roots q conns f) e)"
  by (rule conjI [OF flow_facts(5,6) [OF assms]])

section \<open>Lines and boxes\<close>

lemma nth_of_takeWhile: "n \<in> set xs \<Longrightarrow> xs ! length (takeWhile (\<lambda>m. m \<noteq> n) xs) = n"
  by (induction xs) auto

lemma box_id_inj:
  assumes "m \<in> set xs" and "n \<in> set xs" and "box_id xs m = box_id xs n"
  shows "m = n"
proof -
  have "length (takeWhile (\<lambda>k. k \<noteq> m) xs) = length (takeWhile (\<lambda>k. k \<noteq> n) xs)" using assms(3) by (simp add: box_id_def)
  then have "xs ! length (takeWhile (\<lambda>k. k \<noteq> m) xs) = xs ! length (takeWhile (\<lambda>k. k \<noteq> n) xs)" by (rule arg_cong)
  then show ?thesis unfolding nth_of_takeWhile [OF assms(1)] nth_of_takeWhile [OF assms(2)] .
qed

definition sync_links :: "diagram \<Rightarrow> (string \<times> string) set" where
  "sync_links dg = {(tl_from l, tl_to l) |l. l \<in> set (dg_edges dg) \<and> tl_sync l}"

definition box_ids :: "diagram \<Rightarrow> string list" where
  "box_ids dg = map sb_id (concat (map vb_stores (concat (dg_columns dg))))"

text \<open>What a diagram is made of\<close>

lemma build_topology_parts:
  assumes "build_topology q targets conns jobs usage = Inr dg"
  obtains (empty) f where "flow_of (with_counts q) targets conns jobs usage = Inr f" "fw_reached f = []"
      "dg_columns dg = []" "dg_edges dg = []"
  | (drawn) f layer bk s box where "flow_of (with_counts q) targets conns jobs usage = Inr f"
      "flow_layers (with_counts q) f = (layer, bk)"
      "dg_edges dg = diagram_lines (with_counts q) conns s f layer bk"
      "dg_columns dg = map (map (server_box_of (own_conns (tq_cluster (with_counts q)) conns) s box)) (node_columns (with_counts q) s f layer)"
      "\<And>n. sb_id (box n) = diagram_ids f layer n"
proof -
  from assms obtain f where f: "flow_of (with_counts q) targets conns jobs usage = Inr f"
    and d: "(if fw_reached f = [] then Inr \<lparr>dg_columns = [], dg_edges = []\<rparr> else draw (with_counts q) conns f) = Inr dg"
    by (auto simp: build_topology_def rbind_Inr_iff)
  show thesis
  proof (cases "fw_reached f = []")
    case True
    then show ?thesis using d empty [OF f] by auto
  next
    case False
    obtain layer bk where l: "flow_layers (with_counts q) f = (layer, bk)" by fastforce
    from d False obtain s synced where "dg = (let lines = diagram_lines (with_counts q) conns s f layer bk;
          box = store_box_of (with_counts q) (fw_usage f) synced (diagram_ids f layer) lines
        in \<lparr>dg_columns = map (map (server_box_of (own_conns (tq_cluster (with_counts q)) conns) s box)) (node_columns (with_counts q) s f layer), dg_edges = lines\<rparr>)"
      by (auto simp: draw_def l rmap_Inr_iff)
    then show ?thesis
      by (intro drawn [OF f l, of s "store_box_of (with_counts q) (fw_usage f) synced (diagram_ids f layer) (diagram_lines (with_counts q) conns s f layer bk)"])
        (simp_all add: Let_def store_box_of_def)
  qed
qed

lemma edge_rel_links:
  assumes "(a, b) \<in> (edge_rel es)\<^sup>*" and "\<And>e. e \<in> set es \<Longrightarrow> (ids (te_src e), ids (te_dst e)) \<in> S"
  shows "(ids a, ids b) \<in> S\<^sup>*"
  using assms(1)
proof (induction rule: rtrancl_induct)
  case (step y z)
  then have "(ids y, ids z) \<in> S" using assms(2) by (auto simp: edge_rel_def)
  with step.IH show ?case by (rule rtrancl_into_rtrancl)
qed simp

text \<open>C2: A sync line of the diagram leads to a later column, unless it is marked as a back line, and then it closes a cycle of sync lines.\<close>

theorem lines_lead_forward:
  assumes b: "build_topology q targets conns jobs usage = Inr dg" and l: "l \<in> set (dg_edges dg)" "tl_sync l"
  shows "if tl_back l then (tl_to l, tl_from l) \<in> (sync_links dg)\<^sup>* else 1 \<le> tl_span l"
  using b
proof (cases rule: build_topology_parts)
  case empty
  then show ?thesis using l by simp
next
  case (drawn f layer bk s box)
  note facts = flow_facts [OF drawn(1)]
  obtain e where e: "e \<in> set (fw_edges f)" and le: "tl_from l = diagram_ids f layer (te_src e)" "tl_to l = diagram_ids f layer (te_dst e)"
    "tl_back l = (te_id e \<in> set bk)" "tl_span l = layer (te_dst e) - layer (te_src e)"
    using l by (auto simp: drawn(3) diagram_lines_def primary_line_def sync_line_def Let_def)
  note layers = layers_of_correct [OF facts(1,2,3) drawn(2) [unfolded flow_layers_def] e]
  have links: "(diagram_ids f layer (te_src e'), diagram_ids f layer (te_dst e')) \<in> sync_links dg" if "e' \<in> set (fw_edges f)" for e'
    using that by (force simp: sync_links_def drawn(3) diagram_lines_def sync_line_def)
  show ?thesis
  proof (cases "tl_back l")
    case True
    then obtain e' where "e' \<in> set (fw_edges f)" "te_id e' = te_id e" "(te_dst e', te_src e') \<in> (edge_rel (fw_edges f))\<^sup>*"
      using layers(2) le by auto
    moreover from this have "e' = e" using facts(4) e by (metis inj_on_ids inj_onD)
    ultimately show ?thesis using True edge_rel_links [OF _ links] le by simp
  next
    case False
    then show ?thesis using layers(1) le by simp
  qed
qed

section \<open>Every datastore has one box\<close>

definition group_nodes :: "(string \<times> dsnode list) list \<Rightarrow> dsnode multiset" where
  "group_nodes gs = mset (concat (map snd gs))"

lemma group_nodes_add: "group_nodes (add_to_group n gs) = add_mset n (group_nodes gs)"
  by (induction n gs rule: add_to_group.induct) (simp_all add: group_nodes_def)

lemma group_nodes_fold: "group_nodes (fold add_to_group ns gs) = mset ns + group_nodes gs"
  by (induction ns arbitrary: gs) (simp_all add: group_nodes_add)

lemma group_nodes_sum: "group_nodes gs = (\<Sum>g\<in>#mset gs. mset (snd g))"
  by (induction gs) (simp_all add: group_nodes_def)

lemma group_nodes_sort [simp]: "group_nodes (sort_key k gs) = group_nodes gs"
  by (simp only: group_nodes_sum mset_sort)

lemma group_nodes_inner: "group_nodes (map (\<lambda>(k, ns). (k, sort_key f ns)) gs) = group_nodes gs"
  by (induction gs) (auto simp: group_nodes_def)

lemma column_of_nodes: "group_nodes (column_of s weight ns) = mset ns"
  by (simp add: column_of_def Let_def group_nodes_inner group_nodes_fold) (simp add: group_nodes_def)

lemma columns_of_nodes:
  "distinct levels \<Longrightarrow> group_nodes (concat (columns_of s es counts reached layer position levels)) = mset (filter (\<lambda>n. layer n \<in> set levels) reached)"
proof (induction levels arbitrary: position)
  case (Cons lv levels)
  have "mset (filter (\<lambda>n. layer n = lv \<or> layer n \<in> set levels) reached)
    = mset (filter (\<lambda>n. layer n = lv) reached) + mset (filter (\<lambda>n. layer n \<in> set levels) reached)"
    using Cons.prems by (induction reached) auto
  then show ?case using Cons.IH Cons.prems column_of_nodes by (simp add: Let_def group_nodes_def)
qed (simp add: group_nodes_def)

lemma node_columns_nodes: "group_nodes (concat (node_columns q s f layer)) = mset (fw_reached f)"
  by (simp add: node_columns_def columns_of_nodes)

lemma box_ids_nodes:
  assumes "dg_columns dg = map (map (server_box_of own s box)) cols" and "\<And>n. sb_id (box n) = ids n"
  shows "mset (box_ids dg) = image_mset ids (group_nodes (concat cols))"
proof -
  have "map sb_id (concat (map vb_stores (map (server_box_of own s box) gs))) = map ids (concat (map snd gs))" for gs
    using assms(2) by (induction gs) (simp_all add: server_box_of_def)
  then show ?thesis by (simp add: box_ids_def assms(1) group_nodes_def map_concat [symmetric])
qed

text \<open>C7: Every datastore that data of the cluster can get to (property \<open>topology_follows_data\<close>) has one box with an identifier of its own, there are no other boxes,
  and every line ends (a sync line also begins) at a box.\<close>

theorem every_datastore_has_one_box:
  assumes "build_topology q targets conns jobs usage = Inr dg"
  shows "(\<exists>f label. flow_of (with_counts q) targets conns jobs usage = Inr f \<and> inj_on label (set (fw_reached f))
         \<and> mset (box_ids dg) = mset (map label (fw_reached f)))
    \<and> distinct (box_ids dg) \<and> tl_to ` set (dg_edges dg) \<subseteq> set (box_ids dg)
    \<and> tl_from ` {l \<in> set (dg_edges dg). tl_sync l} \<subseteq> set (box_ids dg)"
  using assms
proof (cases rule: build_topology_parts)
  case (empty f)
  then show ?thesis by (auto simp: box_ids_def intro!: exI [of _ f])
next
  case (drawn f layer bk s box)
  note facts = flow_facts [OF drawn(1)]
  let ?ids = "diagram_ids f layer"
  have m: "mset (box_ids dg) = image_mset ?ids (mset (fw_reached f))"
    using box_ids_nodes [OF drawn(4,5)] by (simp only: node_columns_nodes)
  then have boxes: "mset (box_ids dg) = mset (map ?ids (fw_reached f))" by simp
  have inj: "inj_on ?ids (set (fw_reached f))" by (rule inj_onI) (auto simp: diagram_ids_def dest: box_id_inj [rotated 2])
  then have "distinct (map ?ids (fw_reached f))" using facts(1) by (simp add: distinct_map)
  then have "distinct (box_ids dg)" using boxes mset_eq_imp_distinct_iff by blast
  moreover have set: "set (box_ids dg) = ?ids ` set (fw_reached f)" using mset_eq_setD [OF boxes] by simp
  moreover have "tl_to l \<in> ?ids ` set (fw_reached f) \<and> (tl_sync l \<longrightarrow> tl_from l \<in> ?ids ` set (fw_reached f))" if "l \<in> set (dg_edges dg)" for l
    using that facts(2,3) by (auto simp: drawn(3) diagram_lines_def primary_line_def sync_line_def Let_def)
  moreover have "\<exists>f label. flow_of (with_counts q) targets conns jobs usage = Inr f \<and> inj_on label (set (fw_reached f))
      \<and> mset (box_ids dg) = mset (map label (fw_reached f))"
    using drawn(1) inj boxes by blast
  ultimately show ?thesis by blast
qed

section \<open>Registered connections of one server\<close>

text \<open>C6: Two registered connections are one server of the diagram exactly when a chain of shared names, hosts and aliases leads from one to the other.\<close>

theorem servers_are_components:
  assumes "servers_of conns = Inr s" and "distinct (map rp_id conns)" and "c \<in> set conns" and "c' \<in> set conns"
  shows "map_of (sv_key s) (rp_id c) = map_of (sv_key s) (rp_id c') \<longleftrightarrow> (rp_id c, rp_id c') \<in> (share_identity conns)\<^sup>*"
  by (rule servers_of_correct(1) [OF assms])

section \<open>Copies that arrive by sync jobs\<close>

text \<open>The server that a label of the events stands for does not depend on the names noted so far.\<close>

definition place_of :: "pbs_servers \<Rightarrow> string \<Rightarrow> string option" where
  "place_of s label = (case resolve_server label label None s of Inr (k, s') \<Rightarrow> Some k | Inl e \<Rightarrow> None)"

lemma place_of_same:
  assumes "sv_key s' = sv_key s" and "sv_conns s' = sv_conns s"
  shows "place_of s' label = place_of s label"
  using assms by (auto simp: place_of_def resolve_server_def key_of_def rbind_def rmap_def split: sum.splits option.splits)

definition copies_at :: "topo_query \<Rightarrow> pbs_servers \<Rightarrow> ((string \<times> string) \<times> (int \<times> int) list) list \<Rightarrow> dsnode \<Rightarrow> int \<Rightarrow> (int \<times> int) set" where
  "copies_at q s present n v = {(window_start q label, latest) |label guests latest.
     ((label, snd n), guests) \<in> set present \<and> place_of s label = Some (fst n) \<and> (v, latest) \<in> set guests}"

text \<open>A summary of window starts and dates: is one within its window, and which is the newest?\<close>

definition sums_up :: "(int \<times> int) set \<Rightarrow> (bool \<times> int) option \<Rightarrow> bool" where
  "sums_up T o' = (case o' of
     None \<Rightarrow> T = {}
   | Some (current, newest) \<Rightarrow> current = (\<exists>x\<in>T. fst x \<le> snd x) \<and> newest \<in> snd ` T \<and> (\<forall>x\<in>T. snd x \<le> newest))"

lemma sight_sums_up:
  assumes "sums_up T (map_of seen v)"
  shows "sums_up (T \<union> {(since, l) |l. (v, l) = g}) (map_of (sight since g seen) v)"
proof -
  obtain u latest where g: "g = (u, latest)" by (cases g)
  show ?thesis
  proof (cases "u = v")
    case False
    then have "T \<union> {(since, l) |l. (v, l) = g} = T" using g by auto
    then show ?thesis using assms False by (simp add: sight_def g update_conv' split: prod.split)
  next
    case True
    then have T: "T \<union> {(since, l) |l. (v, l) = g} = insert (since, latest) T" using g by auto
    show ?thesis
    proof (cases "map_of seen v")
      case None
      then show ?thesis using assms True unfolding T by (auto simp: sums_up_def sight_def g update_conv')
    next
      case (Some cn)
      obtain current newest where cn: "cn = (current, newest)" by (cases cn)
      have "newest \<in> snd ` T" "\<forall>x\<in>T. snd x \<le> newest" "current = (\<exists>x\<in>T. fst x \<le> snd x)" using assms Some cn by (simp_all add: sums_up_def)
      then show ?thesis using Some cn True unfolding T by (auto simp: sums_up_def sight_def g update_conv' max_def image_iff)
    qed
  qed
qed

lemma sights_sum_up:
  "sums_up T (map_of seen v) \<Longrightarrow> sums_up (T \<union> {(since, l) |l. (v, l) \<in> set gs}) (map_of (fold (sight since) gs seen) v)"
proof (induction gs arbitrary: T seen)
  case (Cons g gs)
  have eq: "T \<union> {(since, l) |l. (v, l) \<in> set (g # gs)} = T \<union> {(since, l) |l. (v, l) = g} \<union> {(since, l) |l. (v, l) \<in> set gs}" by auto
  from Cons.IH [OF sight_sums_up [OF Cons.prems]] show ?case unfolding eq fold_simps o_def .
qed simp

lemma sights_distinct: "distinct (map fst seen) \<Longrightarrow> distinct (map fst (fold (sight since) gs seen))"
proof (induction gs arbitrary: seen)
  case (Cons g gs)
  then show ?case by (simp add: sight_def distinct_dict_set split: prod.split)
qed simp

lemma present_at_sums_up:
  "present_at q s seen present = Inr (seen', s') \<Longrightarrow> sums_up (T n v) (map_of (seen n) v) \<Longrightarrow> distinct (map fst (seen n)) \<Longrightarrow>
     sums_up (T n v \<union> copies_at q s present n v) (map_of (seen' n) v) \<and> distinct (map fst (seen' n))"
proof (induction present arbitrary: s seen T)
  case Nil
  then show ?case by (simp add: copies_at_def)
next
  case (Cons p present)
  obtain label store guests where p: "p = ((label, store), guests)" by (metis surj_pair)
  obtain k s1 where r: "resolve_server label label None s = Inr (k, s1)"
    and rest: "present_at q s1 (seen((k, store) := fold (sight (window_start q label)) guests (seen (k, store)))) present = Inr (seen', s')"
    using Cons.prems(1) p by (auto simp: rbind_Inr_iff)
  have same: "place_of s1 l = place_of s l" for l using resolve_keeps_keys [OF r] by (intro place_of_same) simp_all
  have k: "place_of s label = Some k" by (simp add: place_of_def r)
  let ?seen = "seen((k, store) := fold (sight (window_start q label)) guests (seen (k, store)))"
  let ?T = "T n v \<union> {(window_start q label, l) |l. n = (k, store) \<and> (v, l) \<in> set guests}"
  have "sums_up ?T (map_of (?seen n) v)"
  proof (cases "n = (k, store)")
    case True
    then have eq: "?T = T n v \<union> {(window_start q label, l) |l. (v, l) \<in> set guests}" by blast
    have eq': "?seen n = fold (sight (window_start q label)) guests (seen n)" using True by (simp only: fun_upd_same)
    show ?thesis unfolding eq eq' by (rule sights_sum_up [OF Cons.prems(2)])
  next
    case False
    then have eq: "?T = T n v" by blast
    have eq': "?seen n = seen n" by (rule fun_upd_other [OF False])
    show ?thesis unfolding eq eq' by (rule Cons.prems(2))
  qed
  moreover have "distinct (map fst (?seen n))"
    using Cons.prems(3) by (cases "n = (k, store)") (simp_all add: sights_distinct)
  moreover have "T n v \<union> copies_at q s (p # present) n v = ?T \<union> copies_at q s1 present n v"
    using k by (cases n) (auto simp: copies_at_def p same)
  ultimately show ?case using Cons.IH [OF rest, of "\<lambda>_ _. ?T"] by (simp only:)
qed

text \<open>C8: A guest counts as copied to a datastore when a sync job of the diagram writes there, no backup job does for this guest,
  and one of the copies found there is within the copy window of its server; when there are only older ones, it is stale, with the date of the newest.\<close>

theorem copies_are_exact:
  assumes "synced_guests q s ps es = Inr (Some f, s')" and "tq_present q = Some present"
  shows "(v \<in> set (fst (f n)) \<longleftrightarrow> n \<in> te_dst ` set es \<and> v \<notin> set (direct_guests q ps n) \<and> (\<exists>x\<in>copies_at q s present n v. fst x \<le> snd x))
    \<and> ((v, d) \<in> set (snd (f n)) \<longleftrightarrow> n \<in> te_dst ` set es \<and> v \<notin> set (direct_guests q ps n)
         \<and> (\<forall>x\<in>copies_at q s present n v. snd x < fst x) \<and> d \<in> snd ` copies_at q s present n v \<and> (\<forall>x\<in>copies_at q s present n v. snd x \<le> d))"
proof -
  obtain seen where p: "present_at q s (\<lambda>n. []) present = Inr (seen, s')" and f: "f = synced_at q ps es seen"
    using assms by (auto simp: synced_guests_def rmap_Inr_iff)
  have su: "sums_up (copies_at q s present n v) (map_of (seen n) v)" and dis: "distinct (map fst (seen n))"
    using present_at_sums_up [OF p, of "\<lambda>_ _. {}" n v] by (simp_all add: sums_up_def)
  have mem: "(v, c, d) \<in> set (seen n) \<longleftrightarrow> map_of (seen n) v = Some (c, d)" for c d
    using dis by simp
  have "v \<in> set (fst (f n)) \<longleftrightarrow> n \<in> te_dst ` set es \<and> v \<notin> set (direct_guests q ps n) \<and> (\<exists>d. (v, True, d) \<in> set (seen n))"
    by (force simp: f synced_at_def arrived_def Let_def)
  moreover have "(v, d) \<in> set (snd (f n)) \<longleftrightarrow> n \<in> te_dst ` set es \<and> v \<notin> set (direct_guests q ps n) \<and> (v, False, d) \<in> set (seen n)"
    by (force simp: f synced_at_def arrived_def Let_def)
  moreover have "(\<exists>d. (v, True, d) \<in> set (seen n)) \<longleftrightarrow> (\<exists>x\<in>copies_at q s present n v. fst x \<le> snd x)"
    using su unfolding mem by (cases "map_of (seen n) v") (auto simp: sums_up_def)
  moreover have "(v, False, d) \<in> set (seen n) \<longleftrightarrow> (\<forall>x\<in>copies_at q s present n v. snd x < fst x)
      \<and> d \<in> snd ` copies_at q s present n v \<and> (\<forall>x\<in>copies_at q s present n v. snd x \<le> d)"
  proof (cases "map_of (seen n) v")
    case (Some cn)
    obtain c e where ce: "cn = (c, e)" by (cases cn)
    have c: "c = (\<exists>x\<in>copies_at q s present n v. fst x \<le> snd x)" and e: "e \<in> snd ` copies_at q s present n v"
      and top: "\<forall>x\<in>copies_at q s present n v. snd x \<le> e" using su by (simp_all add: Some ce sums_up_def)
    have "\<not> c \<longleftrightarrow> (\<forall>x\<in>copies_at q s present n v. snd x < fst x)" unfolding c by (meson not_le)
    moreover have "e = d \<longleftrightarrow> d \<in> snd ` copies_at q s present n v \<and> (\<forall>x\<in>copies_at q s present n v. snd x \<le> d)"
      using e top by (metis antisym imageE)
    ultimately show ?thesis unfolding mem Some ce by blast
  qed (use su in \<open>simp_all add: mem sums_up_def\<close>)
  ultimately show ?thesis by blast
qed

section \<open>Names\<close>

definition names_ok :: "pbs_servers \<Rightarrow> bool" where
  "names_ok s = (snd ` set (sv_key s) \<subseteq> fst ` set (sv_name s))"

lemma dom_set_default: "fst ` set (set_default k v al) = insert k (fst ` set al)"
  by (auto simp: set_default_def)

lemma servers_names_ok: "servers_of conns = Inr s \<Longrightarrow> names_ok s"
proof -
  have "fst ` set (fold (\<lambda>c. set_default (f c) (g c)) cs al) = f ` set cs \<union> fst ` set al" for f :: "registered_pbs \<Rightarrow> string" and g :: "registered_pbs \<Rightarrow> string" and cs al
    by (induction cs arbitrary: al) (simp_all add: dom_set_default)
  then show "servers_of conns = Inr s \<Longrightarrow> names_ok s" by (auto simp: servers_of_def rmap_Inr_iff names_ok_def)
qed

lemma resolve_result:
  assumes "resolve_server h fb p s = Inr (k, s')"
  shows "(s' = s \<and> k \<in> snd ` set (sv_key s)) \<or> (\<exists>v. s' = s\<lparr>sv_name := set_default k v (sv_name s)\<rparr>)"
proof (cases "Option.bind p (map_of (sv_key s))")
  case (Some k')
  then have "k' \<in> snd ` set (sv_key s)" by (force simp: Option.bind_eq_Some_conv dest: map_of_SomeD)
  then show ?thesis using assms Some by (simp add: resolve_server_def)
next
  case None
  then have "\<exists>found :: registered_pbs option. (case found of Some c \<Rightarrow> rmap (\<lambda>k. (k, s)) (key_of s (rp_id c))
      | None \<Rightarrow> Inr (host_key h fb, s\<lparr>sv_name := set_default (host_key h fb)
          (if fb \<noteq> [] then fb else server_name (''pbs:'' @ host_label h fb)) (sv_name s)\<rparr>)) = Inr (k, s')"
    using assms unfolding resolve_server_def None option.case rbind_Inr_iff by blast
  then obtain found :: "registered_pbs option" where f: "(case found of Some c \<Rightarrow> rmap (\<lambda>k. (k, s)) (key_of s (rp_id c))
      | None \<Rightarrow> Inr (host_key h fb, s\<lparr>sv_name := set_default (host_key h fb)
          (if fb \<noteq> [] then fb else server_name (''pbs:'' @ host_label h fb)) (sv_name s)\<rparr>)) = Inr (k, s')" by (rule exE)
  show ?thesis
  proof (cases found)
    case None
    then show ?thesis using f by auto
  next
    case (Some c)
    then have "map_of (sv_key s) (rp_id c) = Some k" "s' = s" using f by (auto simp: key_of_def rmap_Inr_iff split: option.splits)
    then show ?thesis by (force dest: map_of_SomeD)
  qed
qed

lemma resolve_names:
  assumes "resolve_server h fb p s = Inr (k, s')" and "names_ok s"
  shows "names_ok s' \<and> k \<in> fst ` set (sv_name s') \<and> fst ` set (sv_name s) \<subseteq> fst ` set (sv_name s')"
  using resolve_result [OF assms(1)]
proof
  assume "s' = s \<and> k \<in> snd ` set (sv_key s)"
  then show ?thesis using assms(2) by (auto simp: names_ok_def)
next
  assume "\<exists>v. s' = s\<lparr>sv_name := set_default k v (sv_name s)\<rparr>"
  then obtain v where "s' = s\<lparr>sv_name := set_default k v (sv_name s)\<rparr>" by blast
  then have "sv_key s' = sv_key s" "fst ` set (sv_name s') = insert k (fst ` set (sv_name s))" by (simp_all add: dom_set_default)
  then show ?thesis using assms(2) by (simp add: names_ok_def subset_insertI subset_insertI2)
qed

lemma replication_names:
  "replication_edges s seen n js = Inr (es, s') \<Longrightarrow> names_ok s \<Longrightarrow>
     names_ok s' \<and> fst ` set (sv_name s) \<subseteq> fst ` set (sv_name s')
     \<and> (\<forall>e\<in>set es. fst (te_src e) \<in> fst ` set (sv_name s') \<and> fst (te_dst e) \<in> fst ` set (sv_name s'))"
proof (induction js arbitrary: s seen n es s')
  case (Cons j js)
  show ?case
  proof (cases "\<exists>here. map_of (sv_key s) (jr_pbs j) = Some here \<and> (here, sj_job_id j) \<notin> set seen")
    case False
    then show ?thesis using Cons by (auto split: option.splits if_splits)
  next
    case True
    then obtain here where h: "map_of (sv_key s) (jr_pbs j) = Some here" "(here, sj_job_id j) \<notin> set seen" by blast
    have named: "here \<in> fst ` set (sv_name s)" using h(1) Cons.prems(2) by (force simp: names_ok_def dest: map_of_SomeD)
    from Cons.prems(1) h obtain there s1 es1 where
      r: "(if sj_remote_name j \<noteq> [] then resolve_server (sj_remote_host j) (sj_remote_name j) (jr_remote_pbs j) s else Inr (here, s)) = Inr (there, s1)"
      and e: "replication_edges s1 ((here, sj_job_id j) # seen) (Suc n) js = Inr (es1, s')" "es = topo_edge_of n j here there # es1"
      by (auto simp: rbind_Inr_iff rmap_Inr_iff)
    have s1: "names_ok s1" "there \<in> fst ` set (sv_name s1)" "fst ` set (sv_name s) \<subseteq> fst ` set (sv_name s1)"
      using r resolve_names [OF _ Cons.prems(2)] Cons.prems(2) named by (auto split: if_splits)
    have "fst (te_src (topo_edge_of n j here there)) \<in> {here, there} \<and> fst (te_dst (topo_edge_of n j here there)) \<in> {here, there}"
      by (simp add: topo_edge_of_def Let_def)
    then show ?thesis using Cons.IH [OF e(1) s1(1)] s1 named e(2) by auto
  qed
qed simp

lemma primary_names:
  "primary_edges counts s ts = Inr (ps, s') \<Longrightarrow> names_ok s \<Longrightarrow>
     names_ok s' \<and> fst ` set (sv_name s) \<subseteq> fst ` set (sv_name s') \<and> (\<forall>p\<in>set ps. fst (pe_dst p) \<in> fst ` set (sv_name s'))"
proof (induction ts arbitrary: s ps s')
  case (Cons t ts)
  show ?case
  proof (cases "used_by_jobs counts (pt_storage t)")
    case True
    with Cons.prems(1) obtain k s1 ps1 where r: "resolve_server (pt_server t) [] (pt_pbs t) s = Inr (k, s1)"
      and p: "primary_edges counts s1 ts = Inr (ps1, s')" and ps: "ps = \<lparr>pe_dst = (k, pt_datastore t), pe_ns = opt_or (pt_namespace t) [], pe_storage = pt_storage t\<rparr> # ps1"
      by (auto simp: rbind_Inr_iff rmap_Inr_iff)
    note n = resolve_names [OF r Cons.prems(2)]
    have ih: "names_ok s'" "fst ` set (sv_name s1) \<subseteq> fst ` set (sv_name s')" "\<forall>p\<in>set ps1. fst (pe_dst p) \<in> fst ` set (sv_name s')"
      using Cons.IH [OF p] n by blast+
    moreover have "k \<in> fst ` set (sv_name s')" "fst ` set (sv_name s) \<subseteq> fst ` set (sv_name s')" using n ih(2) by blast+
    ultimately show ?thesis unfolding ps by simp
  next
    case False
    then show ?thesis using Cons by simp
  qed
qed simp

lemma names_known:
  assumes "flow_of q targets conns jobs usage = Inr f" and "n \<in> set (fw_reached f)"
  shows "fst n \<in> fst ` set (sv_name (fw_servers f))"
proof -
  obtain s0 s1 where 0: "servers_of conns = Inr s0" and 1: "replication_edges s0 [] 0 jobs = Inr (fw_all f, s1)"
    and 2: "primary_edges (tq_counts q) s1 targets = Inr (fw_primary f, fw_servers f)"
    using assms(1) by (auto simp: flow_of_def rbind_Inr_iff rmap_Inr_iff Let_def)
  note n1 = replication_names [OF 1 servers_names_ok [OF 0]]
  then have n2: "names_ok (fw_servers f)" "fst ` set (sv_name s1) \<subseteq> fst ` set (sv_name (fw_servers f))"
    "\<forall>p\<in>set (fw_primary f). fst (pe_dst p) \<in> fst ` set (sv_name (fw_servers f))"
    using primary_names [OF 2] by blast+
  have roots: "fst (fst x) \<in> fst ` set (sv_name (fw_servers f))" if "x \<in> flow_roots q conns f" for x
  proof -
    from that consider p where "p \<in> set (fw_primary f)" "fst x = pe_dst p" | "idle_store q conns f (fst x)"
      by (auto simp: flow_roots_def primary_roots_def)
    then show ?thesis
    proof cases
      case 2
      then obtain c :: registered_pbs where "map_of (sv_key (fw_servers f)) (rp_id c) = Some (fst (fst x))"
        unfolding idle_store_def by blast
      then show ?thesis using n2(1) by (force simp: names_ok_def dest: map_of_SomeD)
    qed (use n2(3) in auto)
  qed
  have known: "fst (fst x) \<in> fst ` set (sv_name (fw_servers f))" if "carries (fw_all f) (flow_roots q conns f) x" for x
    using that
  proof (induction rule: carries.induct)
    case (sync e ns landed)
    then have "fst (te_dst e) \<in> fst ` set (sv_name s1)" using n1 by simp
    then show ?case using n2(2) by (simp only: fst_conv subsetD)
  qed (rule roots)
  obtain ns where "carries (fw_all f) (flow_roots q conns f) (n, ns)"
    using assms(2) unfolding flow_facts(5) [OF assms(1)] by (rule exE)
  from known [OF this] show ?thesis by (simp only: fst_conv)
qed

end
