(* ===== verification/TopologyDemo.thy ===== *)
theory TopologyDemo imports TopologyProps begin

text \<open>
  A diagram of one cluster that writes to a PBS and of a second PBS that pulls a copy, registered
  under two names: the properties of \<open>TopologyProps\<close> at this instance.
\<close>

section \<open>An instance\<close>

definition tdemo_conn :: "int \<Rightarrow> int \<Rightarrow> string \<Rightarrow> string list \<Rightarrow> registered_pbs" where
  "tdemo_conn i cl name aliases = \<lparr>conn_name = Some name, conn_api_url = None, conn_aliases = aliases, rp_id = i, rp_cluster = cl, rp_namespace = None\<rparr>"

definition tdemo_conns :: "registered_pbs list" where
  "tdemo_conns = [tdemo_conn 1 1 ''a'' [], tdemo_conn 2 2 ''b'' [], tdemo_conn 3 2 ''B'' []]"

definition tdemo_job :: job_row where
  "tdemo_job = \<lparr>sj_job_id = ''s1'', sj_push = False, sj_store = ''copy'', sj_ns = ''k'', sj_remote_name = ''a'', sj_remote_host = ''a'',
     sj_remote_fingerprint = [], sj_remote_store = ''main'', sj_remote_ns = [], sj_schedule = ''daily'', sj_last_state = ''OK'',
     sj_last_at = Some 5, sj_running_since = None, sj_running_upid = None, sj_next_at = None, jr_pbs = 2, jr_remote_pbs = Some 1\<rparr>"

definition tdemo_target :: pve_target where
  "tdemo_target = \<lparr>pt_server = ''a'', pt_pbs = Some 1, pt_datastore = ''main'', pt_namespace = None, pt_storage = ''st''\<rparr>"

definition tdemo_query :: topo_query where
  "tdemo_query = \<lparr>tq_cluster = 1, tq_now = 100 * 86400 * 1000000, tq_counts = [], tq_guests = Some [(''st'', [100, 101])],
     tq_present = Some [((''b'', ''copy''), [(100, 99 * 86400 * 1000000), (101, 50 * 86400 * 1000000), (102, 99 * 86400 * 1000000)])],
     tq_windows = [], tq_default_window = 7\<rparr>"

definition tdemo_diagram :: diagram where
  "tdemo_diagram = (case build_topology tdemo_query [tdemo_target] tdemo_conns [tdemo_job] [] of Inr dg \<Rightarrow> dg | Inl e \<Rightarrow> \<lparr>dg_columns = [], dg_edges = []\<rparr>)"

definition is_Inr :: "exn + 'a \<Rightarrow> bool" where "is_Inr r = (case r of Inl e \<Rightarrow> False | Inr x \<Rightarrow> True)"

lemma tdemo_built: "build_topology tdemo_query [tdemo_target] tdemo_conns [tdemo_job] [] = Inr tdemo_diagram"
proof -
  have "is_Inr (build_topology tdemo_query [tdemo_target] tdemo_conns [tdemo_job] [])" by code_simp
  then show ?thesis by (simp add: tdemo_diagram_def is_Inr_def split: sum.splits)
qed

definition tdemo_line :: topo_line where "tdemo_line = last (dg_edges tdemo_diagram)"

lemma tdemo_line: "tdemo_line \<in> set (dg_edges tdemo_diagram)" "tl_sync tdemo_line" "\<not> tl_back tdemo_line"
proof -
  have "length (dg_edges tdemo_diagram) = 2" by code_simp
  then show "tdemo_line \<in> set (dg_edges tdemo_diagram)" by (auto simp: tdemo_line_def intro!: last_in_set)
  show "tl_sync tdemo_line" "\<not> tl_back tdemo_line" by code_simp+
qed

theorem lines_lead_forward_witness: "1 \<le> tl_span tdemo_line"
  using lines_lead_forward [OF tdemo_built tdemo_line(1,2)] tdemo_line(3) by simp

theorem every_datastore_has_one_box_witness: "box_ids tdemo_diagram = [''ds-0'', ''ds-1''] \<and> distinct (box_ids tdemo_diagram)"
proof
  show "box_ids tdemo_diagram = [''ds-0'', ''ds-1'']" by code_simp
  show "distinct (box_ids tdemo_diagram)" using every_datastore_has_one_box [OF tdemo_built] by simp
qed

definition tdemo_flow :: flow where
  "tdemo_flow = (case flow_of tdemo_query [tdemo_target] tdemo_conns [tdemo_job] [] of Inr f \<Rightarrow> f | Inl e \<Rightarrow>
     \<lparr>fw_servers = \<lparr>sv_conns = [], sv_key = [], sv_name = []\<rparr>, fw_primary = [], fw_all = [], fw_edges = [], fw_reached = [], fw_usage = []\<rparr>)"

lemma tdemo_flows: "flow_of tdemo_query [tdemo_target] tdemo_conns [tdemo_job] [] = Inr tdemo_flow"
proof -
  have "is_Inr (flow_of tdemo_query [tdemo_target] tdemo_conns [tdemo_job] [])" by code_simp
  then show ?thesis by (simp add: tdemo_flow_def is_Inr_def split: sum.splits)
qed

theorem topology_follows_data_witness:
  "\<exists>ns. carries (fw_all tdemo_flow) (flow_roots tdemo_query tdemo_conns tdemo_flow) ((''pbs:2'', ''copy''), ns)"
proof -
  have "(''pbs:2'', ''copy'') \<in> set (fw_reached tdemo_flow)" by code_simp
  then show ?thesis using topology_follows_data [OF tdemo_flows] by blast
qed

definition tdemo_servers :: pbs_servers where
  "tdemo_servers = \<lparr>sv_conns = tdemo_conns, sv_key = [(1, ''pbs:1''), (2, ''pbs:2''), (3, ''pbs:2'')], sv_name = [(''pbs:1'', ''a''), (''pbs:2'', ''b'')]\<rparr>"

lemma tdemo_servers_of: "servers_of tdemo_conns = Inr tdemo_servers"
  by code_simp

theorem servers_are_components_witness:
  "(2, 3) \<in> (share_identity tdemo_conns)\<^sup>* \<and> (1, 2) \<notin> (share_identity tdemo_conns)\<^sup>*"
proof -
  note c = servers_are_components [OF tdemo_servers_of, of "tdemo_conn 2 2 ''b'' []"]
  note c1 = servers_are_components [OF tdemo_servers_of, of "tdemo_conn 1 1 ''a'' []" "tdemo_conn 2 2 ''b'' []"]
  show ?thesis
    using c [of "tdemo_conn 3 2 ''B'' []"] c1 by (simp add: tdemo_conns_def tdemo_conn_def tdemo_servers_def)
qed

definition tdemo_edge :: topo_edge where "tdemo_edge = topo_edge_of 0 tdemo_job ''pbs:2'' ''pbs:1''"

definition tdemo_present :: "((string \<times> string) \<times> (int \<times> int) list) list" where
  "tdemo_present = opt_or (tq_present tdemo_query) []"

definition tdemo_synced :: "exn + (dsnode \<Rightarrow> int list \<times> (int \<times> int) list) option \<times> pbs_servers" where
  "tdemo_synced = synced_guests tdemo_query tdemo_servers [] [tdemo_edge]"

definition synced_ok :: "exn + ('a \<Rightarrow> 'b) option \<times> 'c \<Rightarrow> bool" where
  "synced_ok r = (case r of Inr (Some f, s) \<Rightarrow> True | _ \<Rightarrow> False)"

definition synced_fun :: "exn + ('a \<Rightarrow> 'b) option \<times> 'c \<Rightarrow> 'a \<Rightarrow> 'b" where
  "synced_fun r = (case r of Inr (Some f, s) \<Rightarrow> f | _ \<Rightarrow> undefined)"

theorem copies_are_exact_witness:
  "\<exists>x\<in>copies_at tdemo_query tdemo_servers tdemo_present (''pbs:2'', ''copy'') 102. fst x \<le> snd x"
proof -
  have "synced_ok tdemo_synced" by code_simp
  then obtain f s where f: "synced_guests tdemo_query tdemo_servers [] [tdemo_edge] = Inr (Some f, s)"
    "f = synced_fun tdemo_synced"
    by (auto simp: synced_ok_def synced_fun_def tdemo_synced_def split: sum.splits option.splits)
  have p: "tq_present tdemo_query = Some tdemo_present" by (simp add: tdemo_present_def tdemo_query_def)
  have "102 \<in> set (fst (f (''pbs:2'', ''copy'')))" unfolding f(2) by code_simp
  from iffD1 [OF conjunct1 [OF copies_are_exact [OF f(1) p, of 102 "(''pbs:2'', ''copy'')"]] this] show ?thesis by (elim conjE)
qed

end
