(* ===== verification/Governance.thy ===== *)
theory Governance imports Monitor BackupStatus PveJobs PbsTopology begin

text \<open>
  The state of every guest as the dashboard shows it (\<open>app/db_governance.py\<close>): the queries over
  the monitoring tables, the judgement of backups, copies, verification and restore tests, and
  the figures derived from them. The policies of the guests and the sync jobs are arguments.
  Texts are ordered bytewise where the database sorts by name; labels for display are left out.
\<close>

definition COPY_WINDOW_DAYS :: int where "COPY_WINDOW_DAYS = 7"
definition WEEKLY_COPY_WINDOW_DAYS :: int where "WEEKLY_COPY_WINDOW_DAYS = 9"
definition VERIFY_MAX_AGE_DAYS :: int where "VERIFY_MAX_AGE_DAYS = 30"

definition days_us :: "int \<Rightarrow> int" where "days_us n = n * 24 * 3600 * 1000000"

text \<open>The row of \<open>vm_policies\<close> of a guest\<close>

record vm_policy = policy_row +
  vp_override :: "string option"
  vp_criticality :: string
  vp_interval :: "int option"
  vp_required :: bool

type_synonym policies = "int \<Rightarrow> vm_policy option"

section \<open>Copy windows\<close>

definition raise_window :: "(string \<times> int) \<Rightarrow> (string \<times> int) list \<Rightarrow> (string \<times> int) list" where
  "raise_window kd ws = (case kd of (k, d) \<Rightarrow> dict_set k (max (opt_or (map_of ws k) COPY_WINDOW_DAYS) d) ws)"

definition pull_windows :: "registered_pbs list \<Rightarrow> job_row list \<Rightarrow> (string \<times> int) list" where
  "pull_windows conns jobs = concat (map (\<lambda>j. case List.find (\<lambda>c. rp_id c = jr_pbs j) conns of
     None \<Rightarrow> []
   | Some c \<Rightarrow> if sj_push j then []
       else [(''pbs:'' @ py_lower (opt_or (conn_name c) []),
              if classify_schedule (sj_schedule j) = ''weekly'' then WEEKLY_COPY_WINDOW_DAYS else COPY_WINDOW_DAYS)]) jobs)"

definition copy_windows :: "registered_pbs list \<Rightarrow> job_row list \<Rightarrow> (string \<times> int) list" where
  "copy_windows conns jobs = fold raise_window (pull_windows conns jobs) []"

definition window_of :: "(string \<times> int) list \<Rightarrow> string \<Rightarrow> int" where
  "window_of ws srv = opt_or (map_of ws srv) COPY_WINDOW_DAYS"

section \<open>What the query selects for a guest\<close>

definition real_of :: "monitor \<Rightarrow> int \<Rightarrow> event_row list" where
  "real_of m i = filter (\<lambda>e. ev_guest e = i \<and> real_backup e) (m_events m)"

definition newest :: "event_row list \<Rightarrow> int option" where
  "newest es = map_option ev_started (py_max ev_started es)"

definition last_backup_at :: "monitor \<Rightarrow> int \<Rightarrow> int option" where "last_backup_at m i = newest (real_of m i)"

definition in_progress_since :: "monitor \<Rightarrow> int \<Rightarrow> int option" where
  "in_progress_since m i = newest (filter (\<lambda>e. ev_guest e = i \<and> ev_removed_at e = None \<and> ev_finished e = None
     \<and> ev_state e \<noteq> ''failed'' \<and> \<not> real_size (ev_bytes e)) (m_events m))"

text \<open>\<open>split_part(loc, '/', 1)\<close> of every location of a real backup, with the latest backup there\<close>

definition places_of :: "event_row \<Rightarrow> string list" where "places_of e = opt_or (ev_places e) []"

definition server_part :: "string \<Rightarrow> string" where "server_part loc = hd (split_on (CHR ''/'') loc)"

definition at_server :: "string \<Rightarrow> event_row \<Rightarrow> bool" where
  "at_server srv e = (srv \<in> server_part ` set (places_of e))"

definition copy_latest :: "monitor \<Rightarrow> int \<Rightarrow> (string \<times> int) list" where
  "copy_latest m i = (let es = real_of m i; servers = sort (remdups (map server_part (concat (map places_of es))))
     in map (\<lambda>srv. (srv, opt_or (newest (filter (at_server srv) es)) 0)) servers)"

definition copy_storages :: "monitor \<Rightarrow> int \<Rightarrow> string list" where
  "copy_storages m i = sort (remdups (concat (map (\<lambda>e. opt_or (ev_storages e) [])
     (filter (\<lambda>e. now_of m - days_us 7 \<le> ev_started e) (real_of m i)))))"

definition remaining_storages :: "monitor \<Rightarrow> int \<Rightarrow> string list" where
  "remaining_storages m i = sort (remdups (concat (map (\<lambda>e. opt_or (ev_storages e) []) (real_of m i))))"

definition pbs_locations :: "monitor \<Rightarrow> int \<Rightarrow> string list" where
  "pbs_locations m i = remdups (filter (starts_with ''pbs:'') (concat (map places_of (real_of m i))))"

definition last_verified_at :: "monitor \<Rightarrow> int \<Rightarrow> int option" where
  "last_verified_at m i = newest (filter (\<lambda>e. ev_verify e = Some ''ok'') (real_of m i))"

definition verify_failed_at :: "monitor \<Rightarrow> int \<Rightarrow> int option" where
  "verify_failed_at m i = newest (filter (\<lambda>e. ev_verify e = Some ''failed'' \<and> now_of m - days_us 7 \<le> ev_started e) (real_of m i))"

definition has_pbs :: "monitor \<Rightarrow> int \<Rightarrow> bool" where
  "has_pbs m i = list_ex (\<lambda>e. ev_source e = ''pbs'') (real_of m i)"

definition last_test :: "monitor \<Rightarrow> int \<Rightarrow> test_row option" where
  "last_test m i = first_by (\<lambda>t. (- tested_on t, - test_created_at t)) (filter (\<lambda>t. test_vm t = i) (tests (m_restore m)))"

section \<open>The row of a guest\<close>

record gov_row =
  gv_guest :: guest_row
  gv_gone :: bool
  gv_effective_kind :: string
  gv_status_kind :: string
  gv_last_backup :: "int option"
  gv_in_progress :: "int option"
  gv_severity :: string
  gv_age_days :: "int option"
  gv_restore_class :: string
  gv_copy_servers :: "string list"
  gv_copy_names :: "string list"
  gv_copy_history :: "(string \<times> int \<times> bool \<times> int) list"
  gv_has_pbs :: bool
  gv_copy_status :: "string option"
  gv_verify_status :: "string option"
  gv_required :: bool
  gv_tested_on :: "int option"
  gv_due_status :: string
  gv_restore_age :: "int option"
  gv_interval :: "int option"
  gv_status_level :: string
  gv_restore_tone :: string
  gv_restore_days :: "int option"
  gv_problem :: bool
  gv_run_result :: "string option"
  gv_run_active :: "(string \<times> int option) option"
  gv_matchable :: "bool option"

definition effective_kind :: "vm_policy option \<Rightarrow> guest_row \<Rightarrow> string" where
  "effective_kind p g = opt_or (Option.bind p vp_override) (gu_kind g)"

definition status_kind :: "vm_policy option \<Rightarrow> guest_row \<Rightarrow> string" where
  "status_kind p g =
     (if gu_missing g \<noteq> None then ''none''
      else if effective_kind p g = ''none'' \<and> \<not> truthy_str (Option.bind p vp_override) then ''unconfigured''
      else effective_kind p g)"

definition required_of :: "vm_policy option \<Rightarrow> bool" where
  "required_of p = (case p of None \<Rightarrow> True | Some v \<Rightarrow> vp_required v)"

definition current_servers :: "monitor \<Rightarrow> (string \<times> int) list \<Rightarrow> int \<Rightarrow> string list" where
  "current_servers m ws i = map fst (filter (\<lambda>(srv, latest). now_of m - days_us (window_of ws srv) \<le> latest) (copy_latest m i))"

definition protection_status :: "bool \<Rightarrow> nat \<Rightarrow> bool \<Rightarrow> int option \<Rightarrow> int option \<Rightarrow> int \<Rightarrow> string option \<times> string option" where
  "protection_status gone copies pbs failed_at verified_at now =
     (if gone then (None, None)
      else (if copies = 0 then None else Some (if 2 \<le> copies then ''ok'' else ''single''),
            if \<not> pbs then None
            else if (case failed_at of None \<Rightarrow> False | Some f \<Rightarrow> (case verified_at of None \<Rightarrow> True | Some v \<Rightarrow> v \<le> f)) then Some ''critical''
            else (case verified_at of
                    None \<Rightarrow> Some ''warning''
                  | Some v \<Rightarrow> Some (if days_us VERIFY_MAX_AGE_DAYS < now - v then ''warning'' else ''ok''))))"

text \<open>Status, age and interval of the restore test\<close>

definition test_interval :: "string \<Rightarrow> string \<Rightarrow> int" where
  "test_interval kind cadence = (if kind = ''weekly'' then max (cadence_days cadence) 365 else cadence_days cadence)"

definition due_status :: "int \<Rightarrow> int \<Rightarrow> string" where
  "due_status age interval =
     (let lead = (if 180 \<le> interval then 30 else 14)
      in if interval \<le> age then ''critical'' else if max 1 (interval - lead) \<le> age then ''warning'' else ''ok'')"

definition restore_due :: "vm_policy option \<Rightarrow> string \<Rightarrow> int option \<Rightarrow> int \<Rightarrow> string \<times> int option \<times> int option" where
  "restore_due p kind tested_on_day now =
     (if required_of p \<and> kind \<noteq> ''none''
      then let interval = test_interval kind (case p of None \<Rightarrow> ''half_year'' | Some v \<Rightarrow> restore_cadence v)
           in case tested_on_day of
                None \<Rightarrow> (''open'', None, Some interval)
              | Some t \<Rightarrow> (due_status (date_of now - t) interval, Some (date_of now - t), Some interval)
      else (''ok'', None, Option.bind p vp_interval))"

definition is_problem :: "string \<Rightarrow> string \<Rightarrow> string option \<Rightarrow> string option \<Rightarrow> bool" where
  "is_problem severity due verify copy =
     (severity \<in> {''critical'', ''warning''} \<or> due = ''critical'' \<or> verify \<in> {Some ''critical'', Some ''warning''} \<or> copy = Some ''warning'')"

text \<open>\<open>_restore_host_locations\<close>: the stored list, or nothing where it is missing or unreadable;
  \<open>loads\<close> is the library's parser.\<close>

definition restore_host_locations :: "(string \<Rightarrow> exn + json) \<Rightarrow> db \<Rightarrow> string list" where
  "restore_host_locations loads d =
     (case map_of (db_settings d) ''restore_server.pbs_locations'' of
        None \<Rightarrow> []
      | Some raw \<Rightarrow> if raw = [] then [] else (case loads raw of Inr (JArr xs) \<Rightarrow> concat (map (\<lambda>x. case x of JStr s \<Rightarrow> [s] | _ \<Rightarrow> []) xs) | _ \<Rightarrow> []))"

definition gov_row_of :: "monitor \<Rightarrow> policies \<Rightarrow> (string \<times> int) list \<Rightarrow> string list \<Rightarrow> guest_row \<Rightarrow> gov_row" where
  "gov_row_of m ps ws host g =
     (let i = gu_id g; p = ps i; now = now_of m; gone = (gu_missing g \<noteq> None); kind = status_kind p g;
          backup = last_backup_at m i; current = current_servers m ws i; tested = map_option tested_on (last_test m i)
      in case assess_backup_status kind backup now of (severity, age) \<Rightarrow>
         case protection_status gone (length current) (has_pbs m i) (verify_failed_at m i) (last_verified_at m i) now of (copy, verify) \<Rightarrow>
         case restore_due p kind tested now of (due, restore_age, interval) \<Rightarrow>
         case restore_summary due restore_age interval (required_of p \<and> kind \<noteq> ''none'') of (tone, left) \<Rightarrow>
           \<lparr>gv_guest = g, gv_gone = gone, gv_effective_kind = effective_kind p g, gv_status_kind = kind, gv_last_backup = backup,
            gv_in_progress = in_progress_since m i, gv_severity = severity, gv_age_days = age,
            gv_restore_class = (if required_of p then (case p of None \<Rightarrow> ''medium'' | Some v \<Rightarrow> vp_criticality v) else ''none''),
            gv_copy_servers = sort current, gv_copy_names = sort (map server_name current),
            gv_copy_history = sort_key fst (map (\<lambda>(srv, latest). (server_name srv, latest, srv \<in> set current, window_of ws srv)) (copy_latest m i)),
            gv_has_pbs = has_pbs m i, gv_copy_status = copy, gv_verify_status = verify, gv_required = required_of p, gv_tested_on = tested,
            gv_due_status = due, gv_restore_age = restore_age, gv_interval = interval,
            gv_status_level = overall_status severity copy verify gone, gv_restore_tone = tone, gv_restore_days = left,
            gv_problem = is_problem severity due verify copy,
            gv_run_result = latest_run_result_by_vm (m_restore m) i, gv_run_active = active_run_by_vm (m_restore m) i,
            gv_matchable = (if host = [] then None else Some (set (pbs_locations m i) \<inter> set host \<noteq> {}))\<rparr>)"

text \<open>\<open>WHERE (v.missing_since IS NULL OR be_latest.started_at IS NOT NULL)\<close>, one cluster or all\<close>

definition listed_guest :: "monitor \<Rightarrow> int option \<Rightarrow> guest_row \<Rightarrow> bool" where
  "listed_guest m cl g = ((gu_missing g = None \<or> last_backup_at m (gu_id g) \<noteq> None) \<and> (case cl of None \<Rightarrow> True | Some c \<Rightarrow> gu_cluster g = c))"

definition vm_governance_rows :: "monitor \<Rightarrow> policies \<Rightarrow> (string \<times> int) list \<Rightarrow> string list \<Rightarrow> int option \<Rightarrow> gov_row list" where
  "vm_governance_rows m ps ws host cl =
     map (gov_row_of m ps ws host)
       (sort_key (\<lambda>g. (opt_or (map_of (m_clusters m) (gu_cluster g)) [], gu_name g)) (filter (listed_guest m cl) (m_guests m)))"

section \<open>Figures over the rows\<close>

definition test_expected :: "gov_row \<Rightarrow> bool" where
  "test_expected r = (gv_required r \<and> gv_status_kind r \<noteq> ''none'')"

record coverage =
  cv_required :: int
  cv_tested :: int
  cv_ok :: int
  cv_overdue :: int
  cv_pct :: rat

definition count_of :: "('a \<Rightarrow> bool) \<Rightarrow> 'a list \<Rightarrow> int" where
  "count_of P xs = int (length (filter P xs))"

text \<open>\<open>round(x, 1)\<close>\<close>

definition round1 :: "rat \<Rightarrow> rat" where "round1 x = fl64 (of_int (round_half_even (x * 10)) / 10)"

definition restore_test_coverage :: "gov_row list \<Rightarrow> coverage" where
  "restore_test_coverage rows =
     (let required = count_of test_expected rows; fine = count_of (\<lambda>r. test_expected r \<and> gv_due_status r = ''ok'') rows
      in \<lparr>cv_required = required,
          cv_tested = count_of (\<lambda>r. test_expected r \<and> gv_tested_on r \<noteq> None) rows,
          cv_ok = fine,
          cv_overdue = count_of (\<lambda>r. gv_due_status r \<in> {''open'', ''warning'', ''critical''}) rows,
          cv_pct = (if 0 < required then round1 (fl64 (fl64 (of_int fine / of_int required) * 100)) else 100)\<rparr>)"

section \<open>Audits of the backups\<close>

text \<open>The average is the database's decimal number, here the exact quotient.\<close>

record size_anomaly =
  sa_guest :: guest_row
  sa_latest :: int
  sa_average :: rat
  sa_deviation :: rat

definition newest_first :: "event_row list \<Rightarrow> event_row list" where "newest_first es = sort_key (\<lambda>e. - ev_started e) es"

definition sizes_of :: "monitor \<Rightarrow> int \<Rightarrow> int list" where
  "sizes_of m i = map (\<lambda>e. opt_or (ev_bytes e) 0) (newest_first (real_of m i))"

definition size_anomaly_of :: "monitor \<Rightarrow> rat \<Rightarrow> guest_row \<Rightarrow> size_anomaly list" where
  "size_anomaly_of m threshold g = (case sizes_of m (gu_id g) of
     [] \<Rightarrow> []
   | latest # others \<Rightarrow>
       (let earlier = take 5 others; average = of_int (sum_list earlier) / of_nat (length earlier);
            deviation = \<bar>of_int latest - average\<bar> / average
        in if earlier \<noteq> [] \<and> latest \<noteq> 0 \<and> 0 < average \<and> threshold \<le> deviation
           then [\<lparr>sa_guest = g, sa_latest = latest, sa_average = average, sa_deviation = deviation\<rparr>] else []))"

definition detect_backup_size_anomalies :: "monitor \<Rightarrow> int \<Rightarrow> rat \<Rightarrow> size_anomaly list" where
  "detect_backup_size_anomalies m cl threshold =
     concat (map (size_anomaly_of m threshold) (filter (\<lambda>g. gu_cluster g = cl) (m_guests m)))"

definition of_cluster :: "int option \<Rightarrow> guest_row \<Rightarrow> bool" where
  "of_cluster cl g = (case cl of None \<Rightarrow> True | Some c \<Rightarrow> gu_cluster g = c)"

definition events_of :: "monitor \<Rightarrow> int option \<Rightarrow> event_row list" where
  "events_of m cl = filter (\<lambda>e. list_ex (\<lambda>g. gu_id g = ev_guest e \<and> of_cluster cl g) (m_guests m)) (m_events m)"

record audit =
  au_total :: int
  au_encrypted :: int
  au_pct :: int

definition encryption_audit :: "monitor \<Rightarrow> int option \<Rightarrow> audit" where
  "encryption_audit m cl =
     (let here = filter (\<lambda>e. ev_state e = ''ok'' \<and> ev_removed_at e = None) (events_of m cl);
          n = count_of (\<lambda>e. True) here; k = count_of (\<lambda>e. ev_encrypted e = Some True) here
      in \<lparr>au_total = n, au_encrypted = k,
          au_pct = (if n \<noteq> 0 then round_half_even (fl64 (fl64 (of_int k / of_int n) * 100)) else 100)\<rparr>)"

definition unencrypted_vms :: "monitor \<Rightarrow> policies \<Rightarrow> int option \<Rightarrow> (guest_row \<times> int) list" where
  "unencrypted_vms m ps cl = concat (map (\<lambda>g.
     case newest (filter (\<lambda>e. ev_encrypted e = Some False) (real_of m (gu_id g))) of
       None \<Rightarrow> []
     | Some t \<Rightarrow> if effective_kind (ps (gu_id g)) g \<noteq> ''none'' then [(g, t)] else [])
     (sort_key gu_id (filter (of_cluster cl) (m_guests m))))"

section \<open>Days of backups\<close>

text \<open>A backup day begins \<open>offset\<close> hours after midnight of the operator's clock; \<open>tz\<close> maps UTC to
  that clock.\<close>

definition backup_day :: "(int \<Rightarrow> int) \<Rightarrow> int \<Rightarrow> event_row \<Rightarrow> int" where
  "backup_day tz offset e = tz (ev_started e - hours_us offset) div days_us 1"

record day_details =
  dd_bytes :: "int option"
  dd_duration :: "int option"
  dd_throughput :: "int option"
  dd_reused :: "int option"
  dd_full :: "bool option"

definition no_details :: day_details where
  "no_details = \<lparr>dd_bytes = None, dd_duration = None, dd_throughput = None, dd_reused = None, dd_full = None\<rparr>"

definition ok_sized :: "event_row \<Rightarrow> bool" where "ok_sized e = (ev_state e = ''ok'' \<and> real_size (ev_bytes e))"

text \<open>\<open>(ARRAY_AGG(column ORDER BY started_at DESC) FILTER (...))[1]\<close>\<close>

definition first_column :: "(event_row \<Rightarrow> 'a option) \<Rightarrow> event_row list \<Rightarrow> 'a option" where
  "first_column col es = (case newest_first es of [] \<Rightarrow> None | e # rest \<Rightarrow> col e)"

definition spark_status :: "event_row list \<Rightarrow> string" where
  "spark_status es =
     (if list_ex (\<lambda>e. ok_sized e \<and> ev_removed_at e = None) es then ''ok''
      else if list_ex (\<lambda>e. ok_sized e \<and> ev_removed_at e \<noteq> None) es then ''deleted''
      else if list_ex (\<lambda>e. ev_state e \<noteq> ''ok'') es then ''failed'' else ''none'')"

definition spark_details :: "event_row list \<Rightarrow> day_details" where
  "spark_details es = (let ok = filter ok_sized es
     in \<lparr>dd_bytes = Option.bind (py_max (\<lambda>e. opt_or (ev_bytes e) 0) ok) ev_bytes,
         dd_duration = first_column ev_duration ok, dd_throughput = first_column ev_throughput ok,
         dd_reused = first_column ev_reused ok, dd_full = first_column ev_full ok\<rparr>)"

definition spark_of :: "monitor \<Rightarrow> (int \<Rightarrow> int) \<Rightarrow> int \<Rightarrow> nat \<Rightarrow> int \<Rightarrow> (int \<times> string \<times> day_details) list" where
  "spark_of m tz offset days i =
     (let begin_at = now_of m - days_us (int days - 1); today = tz (now_of m) div days_us 1;
          es = filter (\<lambda>e. ev_guest e = i \<and> begin_at \<le> ev_started e) (m_events m)
      in map (\<lambda>k. let d = today - (int days - 1) + int k; here = filter (\<lambda>e. backup_day tz offset e = d) es
                  in if here = [] then (d, ''none'', no_details) else (d, spark_status here, spark_details here)) [0 ..< days])"

definition vm_backup_sparkline_data ::
  "monitor \<Rightarrow> (int \<Rightarrow> int) \<Rightarrow> int \<Rightarrow> nat \<Rightarrow> int \<Rightarrow> (int \<times> (int \<times> string \<times> day_details) list) list" where
  "vm_backup_sparkline_data m tz offset days cl =
     map (\<lambda>g. (gu_id g, spark_of m tz offset days (gu_id g))) (filter (\<lambda>g. gu_cluster g = cl) (m_guests m))"

text \<open>One entry per backup day of one guest, oldest first\<close>

record history_day =
  hd_started :: int
  hd_backups :: int
  hd_status :: string
  hd_details :: day_details

definition history_day_of :: "event_row list \<Rightarrow> history_day" where
  "history_day_of es = (let ok = filter (\<lambda>e. ev_state e = ''ok'') es
     in \<lparr>hd_started = opt_or (newest es) 0, hd_backups = count_of (\<lambda>e. True) es,
         hd_status = (if list_ex (\<lambda>e. ev_state e = ''ok'' \<and> ev_removed_at e = None) es then ''ok''
                      else if ok \<noteq> [] then ''deleted'' else ''failed''),
         hd_details = \<lparr>dd_bytes = first_column ev_bytes ok, dd_duration = first_column ev_duration ok,
            dd_throughput = first_column ev_throughput ok, dd_reused = first_column ev_reused ok, dd_full = first_column ev_full ok\<rparr>\<rparr>)"

definition vm_backup_history :: "monitor \<Rightarrow> (int \<Rightarrow> int) \<Rightarrow> int \<Rightarrow> int \<Rightarrow> int \<Rightarrow> history_day list" where
  "vm_backup_history m tz offset days i =
     (let es = filter (\<lambda>e. ev_guest e = i \<and> now_of m - days_us days \<le> ev_started e \<and> (ev_state e \<noteq> ''ok'' \<or> real_size (ev_bytes e))) (m_events m)
      in sort_key hd_started (map (\<lambda>d. history_day_of (filter (\<lambda>e. backup_day tz offset e = d) es))
           (remdups (map (backup_day tz offset) es))))"

section \<open>Writing\<close>

definition default_policy :: vm_policy where
  "default_policy = \<lparr>auto_restore_enabled = False, restore_cadence = ''half_year'', hold_on_failure = False, probe_primary_ip = None,
     probe_vlan = None, probe_tcp_ports = [], probe_require_icmp = True, restore_retry_days = 7, next_run_at = None,
     probe_window_seconds = None, probe_first_delay_seconds = None, probe_interval_seconds = None,
     vp_override = None, vp_criticality = ''medium'', vp_interval = None, vp_required = True\<rparr>"

definition update_vm_restore_class :: "int \<Rightarrow> string \<Rightarrow> policies \<Rightarrow> policies" where
  "update_vm_restore_class i cls ps =
     (let required = (cls \<noteq> ''none''); crit = (if required then cls else ''medium'')
      in ps(i := Some ((opt_or (ps i) default_policy)\<lparr>vp_criticality := crit, vp_required := required\<rparr>)))"

end
