(* ===== verification/GovernanceProps.thy ===== *)
theory GovernanceProps imports Governance begin

text \<open>
  What the states of the dashboard mean: deleted guests are quiet, green means protected, a copy is
  a server with a recent backup, and when a failed verification is forgotten.
\<close>

lemma gov_row_cases:
  assumes "r \<in> set (vm_governance_rows m ps ws host cl)"
  obtains g where "g \<in> set (m_guests m)" and "listed_guest m cl g" and "r = gov_row_of m ps ws host g"
  using assms by (auto simp: vm_governance_rows_def)

lemma gov_row_sel:
  "gv_guest (gov_row_of m ps ws host g) = g"
  "gv_gone (gov_row_of m ps ws host g) = (gu_missing g \<noteq> None)"
  "gv_status_kind (gov_row_of m ps ws host g) = status_kind (ps (gu_id g)) g"
  "gv_severity (gov_row_of m ps ws host g) = fst (assess_backup_status (status_kind (ps (gu_id g)) g) (last_backup_at m (gu_id g)) (now_of m))"
  "gv_age_days (gov_row_of m ps ws host g) = snd (assess_backup_status (status_kind (ps (gu_id g)) g) (last_backup_at m (gu_id g)) (now_of m))"
  "gv_has_pbs (gov_row_of m ps ws host g) = has_pbs m (gu_id g)"
  "gv_copy_status (gov_row_of m ps ws host g) = fst (protection_status (gu_missing g \<noteq> None) (length (current_servers m ws (gu_id g)))
     (has_pbs m (gu_id g)) (verify_failed_at m (gu_id g)) (last_verified_at m (gu_id g)) (now_of m))"
  "gv_verify_status (gov_row_of m ps ws host g) = snd (protection_status (gu_missing g \<noteq> None) (length (current_servers m ws (gu_id g)))
     (has_pbs m (gu_id g)) (verify_failed_at m (gu_id g)) (last_verified_at m (gu_id g)) (now_of m))"
  "gv_due_status (gov_row_of m ps ws host g) = fst (restore_due (ps (gu_id g)) (status_kind (ps (gu_id g)) g) (map_option tested_on (last_test m (gu_id g))) (now_of m))"
  by (simp_all add: gov_row_of_def Let_def split: prod.split)

lemma gov_row_level:
  "gv_status_level (gov_row_of m ps ws host g) = overall_status (gv_severity (gov_row_of m ps ws host g)) (gv_copy_status (gov_row_of m ps ws host g))
     (gv_verify_status (gov_row_of m ps ws host g)) (gu_missing g \<noteq> None)"
  "gv_problem (gov_row_of m ps ws host g) = is_problem (gv_severity (gov_row_of m ps ws host g)) (gv_due_status (gov_row_of m ps ws host g))
     (gv_verify_status (gov_row_of m ps ws host g)) (gv_copy_status (gov_row_of m ps ws host g))"
  by (simp_all add: gov_row_of_def Let_def split: prod.split)

section \<open>Deleted guests\<close>


section \<open>Green means protected\<close>

lemma newest_Some:
  assumes "newest es = Some t"
  shows "\<exists>e\<in>set es. ev_started e = t" and "e \<in> set es \<Longrightarrow> ev_started e \<le> t"
proof -
  obtain x where x: "py_max ev_started es = Some x" "t = ev_started x" using assms by (auto simp: newest_def)
  show "\<exists>e\<in>set es. ev_started e = t" using py_max_Some(1) [OF x(1)] x(2) by (intro bexI [of _ x]) simp_all
  show "e \<in> set es \<Longrightarrow> ev_started e \<le> t" unfolding x(2) by (rule py_max_Some(2) [OF x(1)])
qed

lemma newest_None: "newest es = None \<longleftrightarrow> es = []"
  by (simp add: newest_def)

lemma worst_ok:
  assumes "overall_status sev copy verify False \<in> {''ok'', ''info''}"
  shows "sev \<noteq> ''critical'' \<and> sev \<noteq> ''warning'' \<and> verify \<noteq> Some ''critical'' \<and> verify \<noteq> Some ''warning''"
proof -
  define xs where "xs = concat (map (\<lambda>so. case so of None \<Rightarrow> [] | Some s \<Rightarrow> if severity_rank s \<noteq> None then [s] else []) [Some sev, copy, verify])"
  define worst where "worst = opt_or (py_max (\<lambda>s. opt_or (severity_rank s) 0) xs) ''ok''"
  have "overall_status sev copy verify False = (if worst = ''ok'' \<and> copy = Some ''single'' then ''info'' else worst)"
    unfolding overall_status_def worst_def xs_def Let_def by simp
  then have w: "worst \<in> {''ok'', ''info''}" using assms by (simp split: if_splits)
  have ranked: "severity_rank x \<noteq> None" if "x \<in> set xs" for x using that by (auto simp: xs_def split: option.splits if_splits)
  have none: "''critical'' \<notin> set xs \<and> ''warning'' \<notin> set xs"
  proof (cases "py_max (\<lambda>s. opt_or (severity_rank s) 0) xs")
    case None
    then show ?thesis by simp
  next
    case (Some x)
    then have "x = worst" "x \<in> set xs" using py_max_Some(1) [OF Some] by (simp_all add: worst_def)
    then have "x = ''ok''" using w ranked [of x] by (auto simp: severity_rank_def)
    then have "opt_or (severity_rank y) 0 = 0" if "y \<in> set xs" for y
      using py_max_Some(2) [OF Some that] by (simp add: severity_rank_def)
    then show ?thesis by (force simp: severity_rank_def)
  qed
  show ?thesis using none unfolding xs_def by (auto simp: severity_rank_def split: option.splits)
qed

text \<open>How old the newest backup may be before a guest is no longer green\<close>

definition fresh_limit :: "string \<Rightarrow> int" where
  "fresh_limit kind = (if kind = ''weekly'' then (7 * 24 + 12) * hours else 36 * hours)"

lemma severity_fresh:
  assumes "fst (assess_backup_status kind backup now) \<notin> {''critical'', ''warning''}" and "kind \<in> {''daily'', ''weekly'', ''unconfigured''}"
  shows "\<exists>t. backup = Some t \<and> now - t < fresh_limit kind"
proof (cases backup)
  case None
  then show ?thesis using assms by (auto simp: assess_backup_status_def)
next
  case (Some t)
  have weekly: "(180 \<le> total_hours (now - t)) = (180 * hours \<le> now - t)"
    using total_hours_ge [of 180 "now - t"] by (simp add: hours_def)
  have "now - t < fresh_limit kind"
    using assms weekly by (auto simp: Some assess_backup_status_def Let_def fresh_limit_def age_thresholds not_le split: if_splits)
  then show ?thesis using Some by simp
qed

text \<open>C3: A guest with a backup job that is shown green (or as having a single copy) has a backup that is there and recent, and when its backups are on a PBS,
  a verified one of the last 30 days and no failed verification of the last week that is newer.\<close>

theorem green_means_protected:
  assumes "r \<in> set (vm_governance_rows m ps ws host cl)" and "gv_status_level r \<in> {''ok'', ''info''}"
    and "gv_status_kind r \<in> {''daily'', ''weekly'', ''unconfigured''}"
  shows "(\<exists>e\<in>set (m_events m). ev_guest e = gu_id (gv_guest r) \<and> real_backup e \<and> now_of m - ev_started e < fresh_limit (gv_status_kind r))
    \<and> (gv_has_pbs r \<longrightarrow> (\<exists>e\<in>set (m_events m). ev_guest e = gu_id (gv_guest r) \<and> real_backup e \<and> ev_verify e = Some ''ok''
         \<and> now_of m - ev_started e \<le> days_us VERIFY_MAX_AGE_DAYS
         \<and> (\<forall>f\<in>set (m_events m). ev_guest f = gu_id (gv_guest r) \<and> real_backup f \<and> ev_verify f = Some ''failed''
              \<and> now_of m - days_us 7 \<le> ev_started f \<longrightarrow> ev_started f < ev_started e)))"
proof -
  obtain g where r: "r = gov_row_of m ps ws host g" using assms(1) by (rule gov_row_cases)
  let ?i = "gu_id g"
  have here: "gu_missing g = None"
  proof (rule ccontr)
    assume "gu_missing g \<noteq> None"
    then have "gv_status_level r = ''gone''" by (simp add: r gov_row_level overall_status_def)
    then show False using assms(2) by simp
  qed
  have level: "overall_status (gv_severity r) (gv_copy_status r) (gv_verify_status r) False \<in> {''ok'', ''info''}"
    using assms(2) here unfolding r gov_row_level by simp
  note good = worst_ok [OF level]
  have "fst (assess_backup_status (gv_status_kind r) (last_backup_at m ?i) (now_of m)) \<notin> {''critical'', ''warning''}"
    using good by (simp add: r gov_row_sel)
  from severity_fresh [OF this assms(3)] obtain t where t: "newest (real_of m ?i) = Some t" "now_of m - t < fresh_limit (gv_status_kind r)"
    by (auto simp: last_backup_at_def)
  obtain e where "e \<in> set (real_of m ?i)" "ev_started e = t" using newest_Some(1) [OF t(1)] by blast
  then have one: "\<exists>e\<in>set (m_events m). ev_guest e = ?i \<and> real_backup e \<and> now_of m - ev_started e < fresh_limit (gv_status_kind r)"
    using t(2) by (auto simp: real_of_def)
  have two: "\<exists>e\<in>set (m_events m). ev_guest e = ?i \<and> real_backup e \<and> ev_verify e = Some ''ok'' \<and> now_of m - ev_started e \<le> days_us VERIFY_MAX_AGE_DAYS
         \<and> (\<forall>f\<in>set (m_events m). ev_guest f = ?i \<and> real_backup f \<and> ev_verify f = Some ''failed'' \<and> now_of m - days_us 7 \<le> ev_started f \<longrightarrow> ev_started f < ev_started e)"
    if pbs: "has_pbs m ?i"
  proof -
    have verify: "gv_verify_status r \<noteq> Some ''critical''" "gv_verify_status r \<noteq> Some ''warning''" using good by auto
    then obtain v where v: "last_verified_at m ?i = Some v" "now_of m - v \<le> days_us VERIFY_MAX_AGE_DAYS"
      and failed: "\<And>f. verify_failed_at m ?i = Some f \<Longrightarrow> f < v"
      using pbs here by (auto simp: r gov_row_sel protection_status_def not_less not_le split: option.splits if_splits)
    obtain e where e: "e \<in> set (m_events m)" "ev_guest e = ?i" "real_backup e" "ev_verify e = Some ''ok''" "ev_started e = v"
      using newest_Some(1) [OF v(1) [unfolded last_verified_at_def]] by (auto simp: real_of_def)
    have "ev_started f < v" if f: "f \<in> set (m_events m)" "ev_guest f = ?i" "real_backup f" "ev_verify f = Some ''failed''" "now_of m - days_us 7 \<le> ev_started f" for f
    proof -
      let ?fs = "filter (\<lambda>e. ev_verify e = Some ''failed'' \<and> now_of m - days_us 7 \<le> ev_started e) (real_of m ?i)"
      have mem: "f \<in> set ?fs" using f by (simp add: real_of_def)
      then obtain w where w: "newest ?fs = Some w" using newest_None [of ?fs] by fastforce
      then have "w < v" using failed by (simp add: verify_failed_at_def)
      then show ?thesis using newest_Some(2) [OF w mem] by linarith
    qed
    then show ?thesis using e v(2) by (intro bexI [of _ e]) simp_all
  qed
  have sel: "gv_guest r = g" "gv_has_pbs r = has_pbs m ?i" by (simp_all add: r gov_row_sel)
  show ?thesis unfolding sel using one two by blast
qed

section \<open>Copies\<close>

lemma copy_latest_dom: "map fst (copy_latest m i) = sort (remdups (map server_part (concat (map places_of (real_of m i)))))"
  by (simp add: copy_latest_def Let_def comp_def)

text \<open>The servers with a backup of the guest within their window\<close>

definition copies_of :: "monitor \<Rightarrow> (string \<times> int) list \<Rightarrow> int \<Rightarrow> string set" where
  "copies_of m ws i = {srv. \<exists>e\<in>set (real_of m i). at_server srv e \<and> now_of m - days_us (window_of ws srv) \<le> ev_started e}"

lemma current_servers_exact: "set (current_servers m ws i) = copies_of m ws i" "distinct (current_servers m ws i)"
proof -
  have latest: "(srv, t) \<in> set (copy_latest m i) \<longleftrightarrow> newest (filter (at_server srv) (real_of m i)) = Some t" for srv t
  proof -
    have ex: "srv \<in> set (map server_part (concat (map places_of (real_of m i)))) \<longleftrightarrow> filter (at_server srv) (real_of m i) \<noteq> []"
      by (auto simp: filter_empty_conv at_server_def)
    have "(srv, t) \<in> set (copy_latest m i) \<longleftrightarrow> srv \<in> set (map server_part (concat (map places_of (real_of m i))))
        \<and> t = opt_or (newest (filter (at_server srv) (real_of m i))) 0"
      by (auto simp: copy_latest_def Let_def)
    then show ?thesis unfolding ex newest_None [symmetric] by (cases "newest (filter (at_server srv) (real_of m i))") auto
  qed
  show "set (current_servers m ws i) = copies_of m ws i"
  proof (rule set_eqI)
    fix srv
    have "srv \<in> set (current_servers m ws i) \<longleftrightarrow> (\<exists>t. newest (filter (at_server srv) (real_of m i)) = Some t \<and> now_of m - days_us (window_of ws srv) \<le> t)"
      unfolding latest [symmetric] by (force simp: current_servers_def)
    also have "\<dots> \<longleftrightarrow> srv \<in> copies_of m ws i"
    proof
      assume "\<exists>t. newest (filter (at_server srv) (real_of m i)) = Some t \<and> now_of m - days_us (window_of ws srv) \<le> t"
      then obtain t where t: "newest (filter (at_server srv) (real_of m i)) = Some t" "now_of m - days_us (window_of ws srv) \<le> t" by blast
      from newest_Some(1) [OF t(1)] t(2) show "srv \<in> copies_of m ws i" by (auto simp: copies_of_def)
    next
      assume "srv \<in> copies_of m ws i"
      then obtain e where e: "e \<in> set (filter (at_server srv) (real_of m i))" "now_of m - days_us (window_of ws srv) \<le> ev_started e"
        by (auto simp: copies_of_def)
      then obtain t where t: "newest (filter (at_server srv) (real_of m i)) = Some t"
        using newest_None [of "filter (at_server srv) (real_of m i)"] by fastforce
      then show "\<exists>t. newest (filter (at_server srv) (real_of m i)) = Some t \<and> now_of m - days_us (window_of ws srv) \<le> t"
        using newest_Some(2) [OF t e(1)] e(2) by auto
    qed
    finally show "srv \<in> set (current_servers m ws i) \<longleftrightarrow> srv \<in> copies_of m ws i" .
  qed
  have "distinct (map fst (copy_latest m i))" unfolding copy_latest_dom by simp
  then show "distinct (current_servers m ws i)" unfolding current_servers_def by (rule distinct_map_filter)
qed

text \<open>C11: A guest has a second copy exactly when two different servers each hold a backup of it that is within the copy window of that server.\<close>

theorem second_copy_exact:
  assumes "r \<in> set (vm_governance_rows m ps ws host cl)"
  shows "gv_copy_status r = Some ''ok'' \<longleftrightarrow> \<not> gv_gone r \<and> 2 \<le> card (copies_of m ws (gu_id (gv_guest r)))"
proof -
  obtain g where r: "r = gov_row_of m ps ws host g" using assms(1) by (rule gov_row_cases)
  have "card (copies_of m ws (gu_id g)) = length (current_servers m ws (gu_id g))"
    using current_servers_exact [of m ws "gu_id g"] by (metis distinct_card)
  then show ?thesis by (simp add: r gov_row_sel protection_status_def)
qed

section \<open>Failed verifications\<close>

text \<open>C12: A failed verification is forgotten a week after the backup was made: when every failed one is older and some backup of the last 30 days was verified,
  the guest counts as verified, although newer backups failed and none was verified since.\<close>

theorem failed_verify_is_forgotten:
  assumes "r \<in> set (vm_governance_rows m ps ws host cl)" and "\<not> gv_gone r" and "gv_has_pbs r"
    and "\<And>f. f \<in> set (real_of m (gu_id (gv_guest r))) \<Longrightarrow> ev_verify f = Some ''failed'' \<Longrightarrow> ev_started f < now_of m - days_us 7"
    and "e \<in> set (real_of m (gu_id (gv_guest r)))" and "ev_verify e = Some ''ok''" and "now_of m - ev_started e \<le> days_us VERIFY_MAX_AGE_DAYS"
  shows "gv_verify_status r = Some ''ok''"
proof -
  obtain g where r: "r = gov_row_of m ps ws host g" using assms(1) by (rule gov_row_cases)
  then have g: "gv_guest r = g" "gu_missing g = None" "has_pbs m (gu_id g)" using assms(2,3) by (simp_all add: gov_row_sel)
  have "filter (\<lambda>e. ev_verify e = Some ''failed'' \<and> now_of m - days_us 7 \<le> ev_started e) (real_of m (gu_id g)) = []"
    using assms(4) g(1) by (force simp: filter_empty_conv)
  then have failed: "verify_failed_at m (gu_id g) = None" by (simp add: verify_failed_at_def newest_None)
  have mem: "e \<in> set (filter (\<lambda>e. ev_verify e = Some ''ok'') (real_of m (gu_id g)))" using assms(5,6) g(1) by simp
  then obtain v where v: "last_verified_at m (gu_id g) = Some v"
    using newest_None [of "filter (\<lambda>e. ev_verify e = Some ''ok'') (real_of m (gu_id g))"] by (fastforce simp: last_verified_at_def)
  then have "ev_started e \<le> v" using newest_Some(2) [OF _ mem] by (simp add: last_verified_at_def)
  then have "now_of m - v \<le> days_us VERIFY_MAX_AGE_DAYS" using assms(7) by linarith
  then show ?thesis using g v failed by (simp add: r gov_row_sel protection_status_def)
qed

section \<open>An instance\<close>

text \<open>Day 100. Guest 1 has a backup of day 99 on two servers and two older ones, verified and failed; guest 2 was deleted.\<close>

definition gdemo_guest :: "int \<Rightarrow> int option \<Rightarrow> guest_row" where
  "gdemo_guest i missing = \<lparr>gu_id = i, gu_cluster = 1, gu_node = ''n'', gu_vmid = 100 + i, gu_name = ''g'', gu_type = ''qemu'', gu_template = False,
     gu_storages = [], gu_kind = ''daily'', gu_last_backup = None, gu_memory = None, gu_disk = None, gu_missing = missing\<rparr>"

definition gdemo_event :: "int \<Rightarrow> int \<Rightarrow> string option \<Rightarrow> event_row" where
  "gdemo_event i d verify = \<lparr>ev_guest = i, ev_started = days_us d, ev_finished = None, ev_duration = None, ev_bytes = Some 5, ev_encrypted = None,
     ev_verify = verify, ev_state = ''ok'', ev_upid = [], ev_source = ''pbs'', ev_guest_name = None, ev_origin = None, ev_removed_at = None,
     ev_storages = None, ev_places = Some [''pbs:a/x'', ''pbs:b/y''], ev_transferred = None, ev_throughput = None, ev_reused = None, ev_full = None\<rparr>"

definition gdemo_monitor :: "event_row list \<Rightarrow> monitor" where
  "gdemo_monitor es = \<lparr>m_guests = [gdemo_guest 1 None, gdemo_guest 2 (Some 98)], m_next_guest = 3, m_nodes = [], m_disks = [], m_events = es,
     m_processed = [], m_clusters = [(1, ''c'')],
     m_restore = \<lparr>runs = [], next_run_id = 1, tests = [], next_test_id = 1, nics = [], vms = [], clock = days_us 100, db_cluster_urls = [],
       db_pbs_conns = [], db_events = [], db_disks = [], db_settings = []\<rparr>\<rparr>"

definition gdemo_green :: "event_row list" where
  "gdemo_green = [gdemo_event 1 99 (Some ''ok''), gdemo_event 2 90 None]"

definition gdemo_failed :: "event_row list" where
  "gdemo_failed = [gdemo_event 1 91 (Some ''failed''), gdemo_event 1 80 (Some ''ok'')]"

definition gdemo_row :: "event_row list \<Rightarrow> nat \<Rightarrow> gov_row" where
  "gdemo_row es k = vm_governance_rows (gdemo_monitor es) (\<lambda>i. None) [] [] None ! k"

lemma gdemo_row_in:
  "gdemo_row gdemo_green 0 \<in> set (vm_governance_rows (gdemo_monitor gdemo_green) (\<lambda>i. None) [] [] None)"
  "gdemo_row gdemo_green 1 \<in> set (vm_governance_rows (gdemo_monitor gdemo_green) (\<lambda>i. None) [] [] None)"
  "gdemo_row gdemo_failed 0 \<in> set (vm_governance_rows (gdemo_monitor gdemo_failed) (\<lambda>i. None) [] [] None)"
proof -
  have "length (vm_governance_rows (gdemo_monitor gdemo_green) (\<lambda>i. None) [] [] None) = 2" by code_simp
  then show "gdemo_row gdemo_green 0 \<in> set (vm_governance_rows (gdemo_monitor gdemo_green) (\<lambda>i. None) [] [] None)"
    and "gdemo_row gdemo_green 1 \<in> set (vm_governance_rows (gdemo_monitor gdemo_green) (\<lambda>i. None) [] [] None)"
    by (simp_all add: gdemo_row_def)
  have "length (vm_governance_rows (gdemo_monitor gdemo_failed) (\<lambda>i. None) [] [] None) = 1" by code_simp
  then show "gdemo_row gdemo_failed 0 \<in> set (vm_governance_rows (gdemo_monitor gdemo_failed) (\<lambda>i. None) [] [] None)"
    by (simp add: gdemo_row_def)
qed


theorem green_means_protected_witness:
  "\<exists>e\<in>set (m_events (gdemo_monitor gdemo_green)). ev_guest e = 1 \<and> real_backup e"
proof -
  have "gv_status_level (gdemo_row gdemo_green 0) \<in> {''ok'', ''info''}" by code_simp
  moreover have "gv_status_kind (gdemo_row gdemo_green 0) \<in> {''daily'', ''weekly'', ''unconfigured''}" by code_simp
  moreover have "gu_id (gv_guest (gdemo_row gdemo_green 0)) = 1" by code_simp
  ultimately show ?thesis using green_means_protected [OF gdemo_row_in(1)] by auto
qed

theorem second_copy_exact_witness: "2 \<le> card (copies_of (gdemo_monitor gdemo_green) [] 1)"
proof -
  have "gv_copy_status (gdemo_row gdemo_green 0) = Some ''ok''" by code_simp
  moreover have "gu_id (gv_guest (gdemo_row gdemo_green 0)) = 1" by code_simp
  ultimately show ?thesis using second_copy_exact [OF gdemo_row_in(1)] by simp
qed

theorem failed_verify_is_forgotten_witness: "gv_verify_status (gdemo_row gdemo_failed 0) = Some ''ok''"
proof (rule failed_verify_is_forgotten [OF gdemo_row_in(3)])
  have i: "gu_id (gv_guest (gdemo_row gdemo_failed 0)) = 1" by code_simp
  have es: "real_of (gdemo_monitor gdemo_failed) 1 = gdemo_failed" by code_simp
  show "\<not> gv_gone (gdemo_row gdemo_failed 0)" "gv_has_pbs (gdemo_row gdemo_failed 0)" by code_simp+
  show "gdemo_event 1 80 (Some ''ok'') \<in> set (real_of (gdemo_monitor gdemo_failed) (gu_id (gv_guest (gdemo_row gdemo_failed 0))))"
    unfolding i es by (simp add: gdemo_failed_def)
  show "ev_verify (gdemo_event 1 80 (Some ''ok'')) = Some ''ok''" by (simp add: gdemo_event_def)
  show "now_of (gdemo_monitor gdemo_failed) - ev_started (gdemo_event 1 80 (Some ''ok'')) \<le> days_us VERIFY_MAX_AGE_DAYS" by code_simp
  fix f
  assume f: "f \<in> set (real_of (gdemo_monitor gdemo_failed) (gu_id (gv_guest (gdemo_row gdemo_failed 0))))" "ev_verify f = Some ''failed''"
  then have "f = gdemo_event 1 91 (Some ''failed'')" unfolding i es by (auto simp: gdemo_failed_def gdemo_event_def)
  then show "ev_started f < now_of (gdemo_monitor gdemo_failed) - days_us 7"
    by (simp add: gdemo_event_def gdemo_monitor_def now_of_def days_us_def)
qed

end
