(* ===== verification/Spec2Isabelle.thy ===== *)
theory Spec2Isabelle
  imports HostStats RestoreAlloc RestorePack RestoreMatch RestoreIpCollect RestorePipeline NetDiag RestoreHost RestoreHelper RestoreWorker WorkerProps
    Answers ResumeProps ProbeLoop Witnesses BackupLocation RestoreOrchestrator OrchestratorProps QueueProps PlanProps
    RunCycle QueueRefines RestoreWatch SystemRefines BackupStatus VzdumpLog PveConfig RunningProgress PveJobs
    HumanFormat PyText Notifications NotifyProps Monitor MonitorProps PbsFetch PbsFetchProps
    PbsTopology TopologyWalk TopologyLayers TopologyServers TopologyProps TopologyDemo Governance GovernanceProps
begin

text \<open>
  backup-sentinel in Isabelle/HOL. The program watches the backups of Proxmox clusters and proves
  that they can be restored. The development has four parts: what a sync reads and stores
  (inventory and backup events), what the pages show of it (status of every guest, diagram of the
  backup servers), the alerts, and restore testing, from the database rows up to every step that the
  scheduler, a restart or an operator can make.

  \<^bold>\<open>How the program is put together.\<close> \<open>app/web/sync.py\<close> runs in a loop. For each cluster it reads the
  inventory (\<open>app/services/proxmox.py\<close>) and every registered PBS (\<open>pbs.py\<close>), gives each backup a
  location (\<open>backup_location.py\<close>), stores guests and events (\<open>app/db_clusters.py\<close>, \<open>app/db_reports.py\<close>),
  deletes what is gone, and raises alerts (\<open>notifications.py\<close>). The overview (\<open>app/db_governance.py\<close>)
  and the diagram (\<open>pbs_topology.py\<close>) are computed from the stored rows with the judgements of
  \<open>backup_status.py\<close>. The same loop calls \<open>restore_orchestrator.py\<close>: a pass (\<open>run_restore_queue\<close>)
  recovers stuck runs, queues the guests that are due and drains the queue, one run at a time. A run is
  planned (\<open>build_plan\<close>: where the backup is, which VMIDs, VLAN tag and management address it gets,
  which storage it goes to) and executed by \<open>restore_worker.py\<close>: restore, rewrite the network cards,
  boot, provision a helper container, probe until the window is over, and then tear down, hold or
  retry. The worker acts on the restore host through \<open>restore_server.py\<close>; the rows live in the
  tables of \<open>app/db_restore.py\<close>.

  \<^bold>\<open>Shape of the model.\<close> \<open>PyEffects\<close> has the effects: an action maps a state to an outcome (value,
  exception, or \<open>NoFuel\<close> of a bounded loop) and the next state; exceptions do not roll back.
  \<open>PyJson\<close>, \<open>PyRegex\<close>, \<open>PyFloat\<close>, \<open>PyTime\<close>, \<open>PyDate\<close>, \<open>PyText\<close> and \<open>Prelude\<close> have what the code
  uses of the language: JSON values with Python's truth value, a backtracking \<open>re\<close>, rounding of
  doubles to binary64, dates, texts with placeholders, strings and lists; pure code that can raise
  returns \<open>exn + 'a\<close>. A datetime is an int of microseconds. The tables are lists of records, a SQL
  statement a function of them. The restore host is a \<open>transport\<close> (record in \<open>RestoreServer\<close>): one
  action per injected callable (API calls, SSH, the agent's HTTP, clock and sleep) on an arbitrary
  state, so a theorem about it holds for every host, faulty ones included. A PBS is a \<open>pbs_api\<close>: two
  read operations that answer or raise. Neither has a definition; witnesses use small concrete ones.

  \<^bold>\<open>Theories: monitoring.\<close>
  \<^item> \<open>Monitor\<close>, \<open>MonitorProps\<close>: guests, nodes, events, processed logs and the order in which a sync of a
    cluster applies what it read: what is shown afterwards, when guests are deleted, and what a
    deletion takes with it.
  \<^item> \<open>PbsFetch\<close>, \<open>PbsFetchProps\<close>: \<open>pbs.py\<close>: datastores, namespaces, snapshots, sync jobs and capacity;
    what a complete read holds, when a snapshot counts as encrypted, exact thresholds in spite of floats.
  \<^item> \<open>PveJobs\<close>, \<open>PveConfig\<close>, \<open>VzdumpLog\<close>, \<open>RunningProgress\<close>: backup jobs, disks, finished and running
    task logs. \<open>BackupStatus\<close>: judgements by age; \<open>HumanFormat\<close>: numbers for people.
  \<^item> \<open>Governance\<close>, \<open>GovernanceProps\<close>: \<open>db_governance.py\<close>: the rows of the overview, what green, a second
    copy and a deleted guest mean, and which failed verifications are forgotten.
  \<^item> \<open>PbsTopology\<close>: \<open>pbs_topology.py\<close>. \<open>TopologyServers\<close>: the union-find of server identities has exactly
    the connected components; \<open>TopologyWalk\<close>: the walk over datastores and namespaces reaches exactly
    what data can reach; \<open>TopologyLayers\<close>: the search marks only edges that close a cycle, and the
    relaxation gives columns that all other edges lead forward in; \<open>TopologyProps\<close>: the diagram;
    \<open>TopologyDemo\<close>: a concrete cluster with two servers.
  \<^item> \<open>Notifications\<close>, \<open>NotifyProps\<close>: deduplication, quiet hours and the queue with its timers as a step
    relation with restarts; order, once a day, drained in time.

  \<^bold>\<open>Theories: restore testing.\<close>
  \<^item> \<open>RestoreDb\<close>: the restore tables and the queries of \<open>app/db_restore.py\<close>.
  \<^item> \<open>Ipv4\<close>, \<open>SandboxNet\<close>, \<open>ShellQuote\<close>, \<open>RestoreAlloc\<close>, \<open>RestorePack\<close>, \<open>RestoreMatch\<close>, \<open>BackupLocation\<close>,
    \<open>RestoreIpCollect\<close>, \<open>RestoreProbe\<close>, \<open>HostStats\<close>, \<open>NetDiag\<close>: the pure modules.
  \<^item> \<open>RestoreServerPure\<close>, \<open>RestoreServer\<close>, \<open>RestoreHost\<close>, \<open>RestorePipeline\<close>, \<open>RestoreHelper\<close>: the class
    \<open>RestoreServer\<close>: parsing, guests, capacity, restore tasks, helper container.
  \<^item> \<open>RestoreWorker\<close>: \<open>execute\<close>, the probe loop, finalizing, held and resumed runs;
    \<open>RestoreOrchestrator\<close>: plans, the queue, held re-tests, stuck runs; \<open>RestoreWatch\<close>: the background
    loop, the self-heal after a restart and the actions of an operator.
  \<^item> Laws: \<open>TransportLaws\<close> (locale \<open>transport_keeps\<close>: what every operation of the host keeps),
    \<open>WorkerLaws\<close> (locales \<open>worker_keeps\<close>, \<open>run_keeps\<close>, interpreted for the run's row and for the guests
    of other runs), \<open>Answers\<close> (what never runs out of fuel), \<open>Triples\<close> (triples with an exit for exceptions).
  \<^item> \<open>WorkerProps\<close>, \<open>ResumeProps\<close>, \<open>ProbeLoop\<close>, \<open>OrchestratorProps\<close>, \<open>QueueProps\<close>, \<open>PlanProps\<close>: the
    properties of each; \<open>DemoHost\<close> and \<open>Witnesses\<close> hold concrete instances.
  \<^item> \<open>RunCycle\<close> is the abstract machine of runs (queued, running, held, over; environments that share
    nothing), \<open>QueueRefines\<close> shows that a pass of the queue refines it, and \<open>SystemRefines\<close> that every
    sequence of steps of the application does. A handler or a job is one step; the steps between
    them are the interleaving. The step \<open>elsewhere\<close> stands for code that leaves the runs alone: deletion
    of a guest does not (\<open>prune_forgets_live_runs\<close> in \<open>MonitorProps\<close>) and lies outside this refinement.

  \<^bold>\<open>Bounds and fuel.\<close> Loops that only the clock or the host ends (waiting for a task, the probe loop,
  waiting for the agent, the drainer) take a bound: \<open>probe_loop_ends\<close> gives one for the probe loop; the
  other theorems speak of every outcome, \<open>NoFuel\<close> included, or say that it does not occur. The walk and
  the depth-first search of the diagram terminate by measures (\<open>walk_space\<close>, \<open>dfs_work\<close>). The relaxation
  runs as many rounds as there are datastores, as in the code, and \<open>find_root\<close> follows at most as many
  links as there are connections: \<open>TopologyLayers\<close> and \<open>TopologyServers\<close> prove that both are enough.
  Reading a task log takes one round per page and is proved with that bound.

  \<^bold>\<open>Not modelled.\<close> Pages, templates and JSON views of the web routes, PDF and mail rendering, translations
  of texts (the texts are an argument), sessions and CSRF, encryption of secrets, schema migrations,
  construction of the SSH and HTTP transports. DNS, time zones and the mail server are arguments of the
  definitions that use them. Concurrent passes are excluded as in the code, which runs one drainer under
  a lock; the worker thread of a run and the sync of a cluster are sequential.
\<close>

end
